(* ===== verification/Prelude.thy ===== *)
theory Prelude
  imports Main "HOL-Library.Sublist" "HOL-Library.Char_ord" "HOL-Library.List_Lexorder" "HOL-Library.Word"
begin

text \<open>
  Shared vocabulary of the development. A Go string or byte slice is a list of
  8-bit characters, so lengths count bytes as Go's do. This theory holds the
  result type of fallible operations, 64-bit wrap-around, the string functions of
  Go's standard library the program uses, and the lemmas on them that several
  components share.
\<close>

named_theorems str_simps \<open>rewrite rules for the string functions\<close>

named_theorems ops_simps \<open>definitions unfolded by proofs about composed operations\<close>

section \<open>Results and machine integers\<close>

text \<open>A Go call returns a value, returns an error, or panics.\<close>

datatype ('e, 'a) result = Ok 'a | Err 'e | Panic

fun map_ok :: "('a \<Rightarrow> 'b) \<Rightarrow> ('e, 'a) result \<Rightarrow> ('e, 'b) result" where
  "map_ok f (Ok a) = Ok (f a)"
| "map_ok f (Err e) = Err e"
| "map_ok f Panic = Panic"

fun is_ok :: "('e, 'a) result \<Rightarrow> bool" where
  "is_ok (Ok a) = True"
| "is_ok _ = False"

lemma map_ok_eq_Ok [simp]: "map_ok f r = Ok b \<longleftrightarrow> (\<exists>a. r = Ok a \<and> b = f a)"
  by (cases r) auto

lemma map_ok_eq_Err [simp]: "map_ok f r = Err e \<longleftrightarrow> r = Err e"
  by (cases r) auto

lemma map_ok_eq_Panic [simp]: "map_ok f r = Panic \<longleftrightarrow> r = Panic"
  by (cases r) auto

text \<open>Two's complement wrap-around of an \<open>int64\<close> (Go's \<open>int64\<close> and \<open>time.Duration\<close>).\<close>

definition wrap64 :: "int \<Rightarrow> int" where
  "wrap64 x = (x + 2 ^ 63) mod 2 ^ 64 - 2 ^ 63"

definition in_int64 :: "int \<Rightarrow> bool" where
  "in_int64 x \<longleftrightarrow> - (2 ^ 63) \<le> x \<and> x < 2 ^ 63"

lemma wrap64_in_range: "in_int64 (wrap64 x)"
  unfolding in_int64_def wrap64_def by (simp add: pos_mod_bound)

lemma wrap64_id: "in_int64 x \<Longrightarrow> wrap64 x = x"
  unfolding in_int64_def wrap64_def by simp

lemma wrap64_signed: "wrap64 x = sint (word_of_int x :: 64 word)"
  by (simp add: wrap64_def signed_of_int signed_take_bit_eq_take_bit_shift take_bit_eq_mod add.commute)

section \<open>Strings\<close>

definition has_prefix :: "string \<Rightarrow> string \<Rightarrow> bool" where
  "has_prefix s p \<longleftrightarrow> take (length p) s = p"

definition has_suffix :: "string \<Rightarrow> string \<Rightarrow> bool" where
  "has_suffix s p \<longleftrightarrow> has_prefix (rev s) (rev p)"

definition trim_prefix :: "string \<Rightarrow> string \<Rightarrow> string" where
  "trim_prefix s p = (if has_prefix s p then drop (length p) s else s)"

definition trim_suffix :: "string \<Rightarrow> string \<Rightarrow> string" where
  "trim_suffix s p = (if has_suffix s p then take (length s - length p) s else s)"

lemma has_prefix_iff: "has_prefix s p \<longleftrightarrow> (\<exists>t. s = p @ t)"
  unfolding has_prefix_def by (metis append_eq_conv_conj append_take_drop_id)

lemma has_prefix_append [simp, str_simps]: "has_prefix (p @ t) p"
  by (auto simp: has_prefix_iff)

lemma has_prefix_Nil [simp, str_simps]: "has_prefix s []"
  by (simp add: has_prefix_def)

lemma has_prefix_append_cancel [simp, str_simps]: "has_prefix (p @ s) (p @ t) = has_prefix s t"
  by (auto simp: has_prefix_iff)

lemma trim_prefix_append [simp, str_simps]: "trim_prefix (p @ t) p = t"
  by (simp add: trim_prefix_def)

lemma trim_prefix_Nil [simp, str_simps]: "trim_prefix s [] = s"
  by (simp add: trim_prefix_def)

lemma has_prefix_trim: "has_prefix s p \<Longrightarrow> p @ trim_prefix s p = s"
  by (auto simp: has_prefix_iff)

lemma has_suffix_iff: "has_suffix s p \<longleftrightarrow> (\<exists>t. s = t @ p)"
  unfolding has_suffix_def has_prefix_iff by (metis rev_append rev_rev_ident)

lemma has_suffix_append [simp, str_simps]: "has_suffix (s @ p) p"
  by (auto simp: has_suffix_iff)

lemma trim_suffix_append [simp, str_simps]: "trim_suffix (s @ p) p = s"
  by (simp add: trim_suffix_def)

text \<open>\<open>strings.Trim\<close> with a one-byte cutset.\<close>

definition trim_char :: "char \<Rightarrow> string \<Rightarrow> string" where
  "trim_char c s = rev (dropWhile (\<lambda>x. x = c) (rev (dropWhile (\<lambda>x. x = c) s)))"

text \<open>
  \<open>strings.TrimSpace\<close>: every code point with the Unicode White Space property, as its
  UTF-8 bytes. A lead byte never occurs inside another encoding, so stripping whole byte
  sequences at either end is what decoding runes does.
\<close>

definition space_seqs :: "string list" where
  "space_seqs = [[CHR 0x09], [CHR 0x0A], [CHR 0x0B], [CHR 0x0C], [CHR 0x0D], [CHR 0x20],
     [CHR 0xC2, CHR 0x85], [CHR 0xC2, CHR 0xA0], [CHR 0xE1, CHR 0x9A, CHR 0x80],
     [CHR 0xE2, CHR 0x80, CHR 0x80], [CHR 0xE2, CHR 0x80, CHR 0x81], [CHR 0xE2, CHR 0x80, CHR 0x82],
     [CHR 0xE2, CHR 0x80, CHR 0x83], [CHR 0xE2, CHR 0x80, CHR 0x84], [CHR 0xE2, CHR 0x80, CHR 0x85],
     [CHR 0xE2, CHR 0x80, CHR 0x86], [CHR 0xE2, CHR 0x80, CHR 0x87], [CHR 0xE2, CHR 0x80, CHR 0x88],
     [CHR 0xE2, CHR 0x80, CHR 0x89], [CHR 0xE2, CHR 0x80, CHR 0x8A], [CHR 0xE2, CHR 0x80, CHR 0xA8],
     [CHR 0xE2, CHR 0x80, CHR 0xA9], [CHR 0xE2, CHR 0x80, CHR 0xAF], [CHR 0xE2, CHR 0x81, CHR 0x9F],
     [CHR 0xE3, CHR 0x80, CHR 0x80]]"

lemma space_seqs_nonempty: "q \<in> set space_seqs \<Longrightarrow> q \<noteq> []"
  by (auto simp: space_seqs_def)

function strip_seqs :: "string list \<Rightarrow> string \<Rightarrow> string" where
  "strip_seqs qs s = (case find (\<lambda>q. q \<noteq> [] \<and> has_prefix s q) qs of
     Some q \<Rightarrow> strip_seqs qs (drop (length q) s)
   | None \<Rightarrow> s)"
  by pat_completeness auto
termination
  by (relation "measure (\<lambda>(qs, s). length s)") (auto simp: find_Some_iff has_prefix_iff)

declare strip_seqs.simps [simp del]

definition trim_space :: "string \<Rightarrow> string" where
  "trim_space s = rev (strip_seqs (map rev space_seqs) (rev (strip_seqs space_seqs s)))"

text \<open>\<open>strings.Split\<close> on a one-byte separator, and \<open>strings.Join\<close>.\<close>

fun split_on :: "char \<Rightarrow> string \<Rightarrow> string list" where
  "split_on c [] = [[]]"
| "split_on c (x # xs) =
     (if x = c then [] # split_on c xs
      else (case split_on c xs of [] \<Rightarrow> [[x]] | y # ys \<Rightarrow> (x # y) # ys))"

fun join_with :: "string \<Rightarrow> string list \<Rightarrow> string" where
  "join_with sep [] = []"
| "join_with sep [x] = x"
| "join_with sep (x # y # ys) = x @ sep @ join_with sep (y # ys)"

lemma split_on_nonempty [simp]: "split_on c s \<noteq> []"
  by (induction s) (auto split: list.splits)

lemma join_split [simp]: "join_with [c] (split_on c s) = s"
proof (induction s)
  case (Cons x xs)
  obtain y ys where yys: "split_on c xs = y # ys"
    by (metis neq_Nil_conv split_on_nonempty)
  with Cons show ?case by (cases ys) auto
qed simp

lemma split_on_no_sep: "y \<in> set (split_on c s) \<Longrightarrow> c \<notin> set y"
  by (induction s arbitrary: y) (auto split: list.splits if_splits)

lemma split_on_append: "c \<notin> set x \<Longrightarrow> split_on c (x @ c # r) = x # split_on c r"
  by (induction x) auto

lemma split_join:
  "(\<forall>s \<in> set segs. c \<notin> set s) \<Longrightarrow> segs \<noteq> [] \<Longrightarrow> split_on c (join_with [c] segs) = segs"
proof (induction "[c]" segs rule: join_with.induct)
  case (2 x)
  then show ?case by (induction x) auto
qed (simp_all add: split_on_append)

text \<open>What \<open>TrimSpace\<close> leaves alone: a string that neither starts nor ends with a space.\<close>

lemma strip_seqs_id: "(\<And>q. q \<in> set qs \<Longrightarrow> q \<noteq> [] \<Longrightarrow> \<not> has_prefix s q) \<Longrightarrow> strip_seqs qs s = s"
proof -
  assume "\<And>q. q \<in> set qs \<Longrightarrow> q \<noteq> [] \<Longrightarrow> \<not> has_prefix s q"
  then have "find (\<lambda>q. q \<noteq> [] \<and> has_prefix s q) qs = None" by (auto simp: find_None_iff)
  then show ?thesis by (subst strip_seqs.simps) simp
qed

lemma strip_seqs_fixed: "q \<in> set qs \<Longrightarrow> q \<noteq> [] \<Longrightarrow> \<not> has_prefix (strip_seqs qs s) q"
proof (induction qs s rule: strip_seqs.induct)
  case (1 qs s)
  show ?case
  proof (cases "find (\<lambda>q. q \<noteq> [] \<and> has_prefix s q) qs")
    case None
    then have "strip_seqs qs s = s" by (subst strip_seqs.simps) simp
    with None 1(2,3) show ?thesis by (auto simp: find_None_iff)
  next
    case (Some r)
    then show ?thesis using 1(1) [OF Some 1(2,3)] by (subst strip_seqs.simps) simp
  qed
qed

lemma strip_seqs_suffix: "\<exists>t. s = t @ strip_seqs qs s"
proof (induction qs s rule: strip_seqs.induct)
  case (1 qs s)
  show ?case
  proof (cases "find (\<lambda>q. q \<noteq> [] \<and> has_prefix s q) qs")
    case (Some r)
    then obtain t where "s = r @ t" by (auto simp: find_Some_iff has_prefix_iff)
    moreover from this 1 [OF Some] obtain u where "t = u @ strip_seqs qs t" by auto
    ultimately have "s = (r @ u) @ strip_seqs qs s" using Some by (subst strip_seqs.simps) simp
    then show ?thesis by blast
  qed (subst strip_seqs.simps, simp)
qed

lemma trim_space_idem [simp]: "trim_space (trim_space s) = trim_space s"
proof -
  let ?u = "strip_seqs space_seqs s" and ?r = "map rev space_seqs"
  obtain t where t: "rev ?u = t @ strip_seqs ?r (rev ?u)" using strip_seqs_suffix by blast
  then have u: "?u = trim_space s @ rev t" unfolding trim_space_def by (metis rev_append rev_rev_ident)
  have "\<not> has_prefix (trim_space s) q" if "q \<in> set space_seqs" "q \<noteq> []" for q
    using strip_seqs_fixed [OF that, of s] u by (auto simp: has_prefix_iff)
  then have "strip_seqs space_seqs (trim_space s) = trim_space s" by (rule strip_seqs_id)
  moreover have "strip_seqs ?r (rev (trim_space s)) = rev (trim_space s)"
    unfolding trim_space_def rev_rev_ident by (rule strip_seqs_id) (rule strip_seqs_fixed)
  ultimately show ?thesis by (simp add: trim_space_def [of "trim_space s"])
qed

lemma trim_space_ends:
  assumes "s \<noteq> []" "\<And>q. q \<in> set space_seqs \<Longrightarrow> hd q \<noteq> hd s \<and> last q \<noteq> last s"
  shows "trim_space s = s"
proof -
  have "\<not> has_prefix s q" "\<not> has_prefix (rev s) (rev q)" if "q \<in> set space_seqs" for q
    using assms(2) [OF that] space_seqs_nonempty [OF that] by (auto simp: has_prefix_iff hd_append rev_eq_append_conv)
  then have "strip_seqs space_seqs s = s" "strip_seqs (map rev space_seqs) (rev s) = rev s"
    by (auto intro!: strip_seqs_id)
  then show ?thesis by (simp add: trim_space_def)
qed

text \<open>\<open>strings.Contains\<close>, \<open>strings.Index\<close>.\<close>

fun contains :: "string \<Rightarrow> string \<Rightarrow> bool" where
  "contains [] t = (t = [])"
| "contains (x # xs) t = (has_prefix (x # xs) t \<or> contains xs t)"

fun index_of :: "string \<Rightarrow> string \<Rightarrow> nat option" where
  "index_of [] t = (if t = [] then Some 0 else None)"
| "index_of (x # xs) t =
     (if has_prefix (x # xs) t then Some 0 else map_option Suc (index_of xs t))"

lemma contains_iff: "contains s t \<longleftrightarrow> (\<exists>u v. s = u @ t @ v)"
proof (induction s)
  case (Cons x xs)
  show ?case
  proof
    assume "contains (x # xs) t"
    then consider "has_prefix (x # xs) t" | "contains xs t" by auto
    then show "\<exists>u v. x # xs = u @ t @ v"
      using Cons.IH by cases (metis append_Nil has_prefix_iff, metis append_Cons)
  next
    assume "\<exists>u v. x # xs = u @ t @ v"
    then obtain u v where uv: "x # xs = u @ t @ v" by blast
    show "contains (x # xs) t"
    proof (cases u)
      case Nil
      with uv have "has_prefix (x # xs) t" by (simp add: has_prefix_iff)
      then show ?thesis by simp
    next
      case (Cons y ys)
      with uv Cons.IH show ?thesis by auto
    qed
  qed
qed auto

text \<open>\<open>strings.ReplaceAll\<close> for a non-empty old string: leftmost, non-overlapping.\<close>

function replace_all :: "string \<Rightarrow> string \<Rightarrow> string \<Rightarrow> string" where
  "replace_all [] old new = []"
| "replace_all (x # xs) old new =
     (if old \<noteq> [] \<and> has_prefix (x # xs) old
      then new @ replace_all (drop (length old) (x # xs)) old new
      else x # replace_all xs old new)"
  by pat_completeness auto
termination
  by (relation "measure (\<lambda>(s, old, new). length s)") auto

text \<open>Decimal rendering (\<open>%d\<close>, \<open>strconv.Itoa\<close>).\<close>

fun dec_nat :: "nat \<Rightarrow> string" where
  "dec_nat n = (if n < 10 then [char_of (48 + n)] else dec_nat (n div 10) @ [char_of (48 + n mod 10)])"

declare dec_nat.simps [simp del]

definition dec_int :: "int \<Rightarrow> string" where
  "dec_int i = (if i < 0 then ''-'' @ dec_nat (nat (- i)) else dec_nat (nat i))"

text \<open>\<open>fmt\<close>'s \<open>%q\<close> on printable ASCII without quotes or backslashes.\<close>

definition quoted :: "string \<Rightarrow> string" where
  "quoted s = [CHR 0x22] @ s @ [CHR 0x22]"

end
