(* ===== verification/NetIP.thy ===== *)
theory NetIP
  imports Prelude
begin

text \<open>
  The part of Go's standard library the egress guard judges addresses with: net/netip
  (\<open>Addr\<close>, \<open>ParseAddr\<close>, \<open>ParseAddrPort\<close>, \<open>Prefix.Contains\<close> and
  the address classes), \<open>net.SplitHostPort\<close> and \<open>strconv.Atoi\<close>. An IPv4
  address is a 32-bit word, an IPv6 address a 128-bit word with a zone.
\<close>

unbundle bit_operations_syntax

section \<open>Addresses\<close>

datatype Addr = InvalidAddr | V4 "32 word" | V6 "128 word" string

definition ip4 :: "nat \<Rightarrow> nat \<Rightarrow> nat \<Rightarrow> nat \<Rightarrow> 32 word" where
  "ip4 a b c d = ((of_nat a * 256 + of_nat b) * 256 + of_nat c) * 256 + of_nat d"

definition ip6 :: "nat list \<Rightarrow> 128 word" where
  "ip6 gs = foldl (\<lambda>acc g. acc * 65536 + of_nat g) 0 gs"

fun IsValid :: "Addr \<Rightarrow> bool" where
  "IsValid InvalidAddr = False" | "IsValid _ = True"

fun Zone :: "Addr \<Rightarrow> string" where
  "Zone (V6 w z) = z" | "Zone _ = []"

fun Is6 :: "Addr \<Rightarrow> bool" where
  "Is6 (V6 w z) = True" | "Is6 _ = False"

definition is_mapped :: "128 word \<Rightarrow> bool" where
  "is_mapped w \<longleftrightarrow> drop_bit 32 w = 0xFFFF"

fun Unmap :: "Addr \<Rightarrow> Addr" where
  "Unmap (V6 w z) = (if is_mapped w then V4 (ucast w) else V6 w z)"
| "Unmap a = a"

definition v4_octet0 :: "32 word \<Rightarrow> nat" where
  "v4_octet0 w = unat (drop_bit 24 w)"

definition v6_u16_0 :: "128 word \<Rightarrow> nat" where
  "v6_u16_0 w = unat (drop_bit 112 w)"

definition IsLoopback :: "Addr \<Rightarrow> bool" where
  "IsLoopback a = (case Unmap a of V4 w \<Rightarrow> v4_octet0 w = 127 | V6 w z \<Rightarrow> w = 1 | InvalidAddr \<Rightarrow> False)"

definition IsMulticast :: "Addr \<Rightarrow> bool" where
  "IsMulticast a = (case Unmap a of V4 w \<Rightarrow> v4_octet0 w AND 0xF0 = 0xE0
     | V6 w z \<Rightarrow> unat (drop_bit 120 w) = 0xFF | InvalidAddr \<Rightarrow> False)"

definition IsLinkLocalUnicast :: "Addr \<Rightarrow> bool" where
  "IsLinkLocalUnicast a = (case Unmap a of V4 w \<Rightarrow> unat (drop_bit 16 w) = 169 * 256 + 254
     | V6 w z \<Rightarrow> v6_u16_0 w AND 0xFFC0 = 0xFE80 | InvalidAddr \<Rightarrow> False)"

definition IsLinkLocalMulticast :: "Addr \<Rightarrow> bool" where
  "IsLinkLocalMulticast a = (case Unmap a of V4 w \<Rightarrow> unat (drop_bit 8 w) = 224 * 65536
     | V6 w z \<Rightarrow> v6_u16_0 w AND 0xFF0F = 0xFF02 | InvalidAddr \<Rightarrow> False)"

definition IsInterfaceLocalMulticast :: "Addr \<Rightarrow> bool" where
  "IsInterfaceLocalMulticast a = (case Unmap a of
       V6 w z \<Rightarrow> v6_u16_0 w AND 0xFF0F = 0xFF01 | _ \<Rightarrow> False)"

fun IsUnspecified :: "Addr \<Rightarrow> bool" where
  "IsUnspecified (V4 w) = (w = 0)"
| "IsUnspecified (V6 w z) = (w = 0 \<and> z = [])"
| "IsUnspecified InvalidAddr = False"

section \<open>Prefixes\<close>

datatype IPPrefix = P4 "32 word" nat | P6 "128 word" nat

fun prefix_Contains :: "IPPrefix \<Rightarrow> Addr \<Rightarrow> bool" where
  "prefix_Contains (P4 p n) (V4 a) = (drop_bit (32 - n) (a XOR p) = 0)"
| "prefix_Contains (P6 p n) (V6 a z) = (z = [] \<and> drop_bit (128 - n) (a XOR p) = 0)"
| "prefix_Contains _ _ = False"

section \<open>Parsing\<close>

definition digit_val :: "char \<Rightarrow> nat option" where
  "digit_val c = (let n = of_char c :: nat in if 48 \<le> n \<and> n \<le> 57 then Some (n - 48) else None)"

fun digits_val :: "nat \<Rightarrow> string \<Rightarrow> nat option" where
  "digits_val acc [] = Some acc"
| "digits_val acc (c # cs) = (case digit_val c of None \<Rightarrow> None | Some d \<Rightarrow> digits_val (acc * 10 + d) cs)"

text \<open>\<open>strconv.Atoi\<close> on a 64-bit platform: optional sign, decimal digits, in range.\<close>

definition atoi :: "string \<Rightarrow> int option" where
  "atoi s = (let (neg, ds) = (case s of [] \<Rightarrow> (False, [])
        | c # cs \<Rightarrow> if c = CHR ''-'' then (True, cs) else if c = CHR ''+'' then (False, cs) else (False, s))
     in if ds = [] then None else case digits_val 0 ds of
       None \<Rightarrow> None
     | Some n \<Rightarrow> (let i = (if neg then - int n else int n) in if in_int64 i then Some i else None))"

text \<open>A decimal rendering is read back.\<close>

lemma digit_val_char: "d < 10 \<Longrightarrow> digit_val (char_of (48 + d :: nat)) = Some d"
  by (simp add: digit_val_def)

lemma digits_val_snoc:
  "digits_val acc (s @ [c]) = (case digits_val acc s of None \<Rightarrow> None
     | Some n \<Rightarrow> map_option (\<lambda>d. n * 10 + d) (digit_val c))"
  by (induction s arbitrary: acc) (auto split: option.splits)

lemma digits_val_dec: "digits_val 0 (dec_nat n) = Some n"
proof (induction n rule: dec_nat.induct)
  case (1 n)
  then show ?case
    by (subst dec_nat.simps) (auto simp: digits_val_snoc digit_val_char)
qed

lemma dec_nat_digits: "c \<in> set (dec_nat n) \<Longrightarrow> digit_val c \<noteq> None"
proof (induction n arbitrary: c rule: dec_nat.induct)
  case (1 n)
  then show ?case
    by (subst (asm) (2) dec_nat.simps) (auto simp: digit_val_char split: if_splits)
qed

lemma dec_nat_nonempty [simp]: "dec_nat n \<noteq> []"
  by (subst dec_nat.simps) simp

lemma atoi_dec: "int n < 2 ^ 63 \<Longrightarrow> atoi (dec_nat n) = Some (int n)"
proof -
  assume n: "int n < 2 ^ 63"
  obtain c cs where d: "dec_nat n = c # cs" by (cases "dec_nat n") auto
  then have "digit_val c \<noteq> None" using dec_nat_digits [of c n] by simp
  then have "c \<noteq> CHR ''-''" "c \<noteq> CHR ''+''" by (auto simp: digit_val_def)
  then show ?thesis using n digits_val_dec [of n] by (simp add: atoi_def d in_int64_def)
qed

lemma atoi_dec_int: "in_int64 i \<Longrightarrow> atoi (dec_int i) = Some i"
proof (cases "i < 0")
  case True
  moreover assume "in_int64 i"
  ultimately show ?thesis
    using digits_val_dec [of "nat (- i)"] by (simp add: atoi_def dec_int_def Let_def in_int64_def)
next
  case False
  moreover assume "in_int64 i"
  ultimately show ?thesis using atoi_dec [of "nat i"] by (simp add: dec_int_def in_int64_def)
qed

lemma dec_int_nonempty [simp]: "dec_int i \<noteq> []"
  by (simp add: dec_int_def)

text \<open>One IPv4 field: decimal digits, no leading zero, at most 255.\<close>

definition v4_field :: "string \<Rightarrow> nat option" where
  "v4_field s = (if s = [] \<or> (length s > 1 \<and> hd s = CHR ''0'') then None
     else case digits_val 0 s of Some n \<Rightarrow> if n \<le> 255 then Some n else None | None \<Rightarrow> None)"

definition parse_v4_fields :: "string \<Rightarrow> (nat \<times> nat \<times> nat \<times> nat) option" where
  "parse_v4_fields s = (case map v4_field (split_on (CHR ''.'') s) of
      [Some a, Some b, Some c, Some d] \<Rightarrow> Some (a, b, c, d) | _ \<Rightarrow> None)"

definition hex_val :: "char \<Rightarrow> nat option" where
  "hex_val c = (let n = of_char c :: nat in
     if 48 \<le> n \<and> n \<le> 57 then Some (n - 48)
     else if 97 \<le> n \<and> n \<le> 102 then Some (n - 87)
     else if 65 \<le> n \<and> n \<le> 70 then Some (n - 55) else None)"

fun hex_acc :: "nat \<Rightarrow> string \<Rightarrow> nat" where
  "hex_acc acc [] = acc"
| "hex_acc acc (c # cs) = hex_acc (acc * 16 + the (hex_val c)) cs"

text \<open>
  The loop of \<open>parseIPv6\<close>, over 16-bit groups: \<open>gs\<close> are the groups so far,
  \<open>ell\<close> the group index of an ellipsis, \<open>fuel\<close> the groups still allowed
  (8 at the start, as the source's \<open>i < 16\<close>). It returns what \<open>s\<close> is left.
\<close>

fun v6_loop :: "nat \<Rightarrow> nat list \<Rightarrow> nat option \<Rightarrow> string \<Rightarrow> (nat list \<times> nat option \<times> string) option" where
  "v6_loop 0 gs ell s = Some (gs, ell, s)"
| "v6_loop (Suc fuel) gs ell s =
     (let ds = takeWhile (\<lambda>c. hex_val c \<noteq> None) s; rest = drop (length ds) s in
      if ds = [] \<or> length ds > 4 then None
      else if rest \<noteq> [] \<and> hd rest = CHR ''.'' then
        (if ell = None \<and> length gs \<noteq> 6 then None
         else if length gs + 2 > 8 then None
         else case parse_v4_fields s of
           None \<Rightarrow> None
         | Some (a, b, c, d) \<Rightarrow> Some (gs @ [a * 256 + b, c * 256 + d], ell, []))
      else (let gs' = gs @ [hex_acc 0 ds] in
        case rest of
          [] \<Rightarrow> Some (gs', ell, [])
        | [c] \<Rightarrow> None
        | c # c2 # more \<Rightarrow>
            (if c \<noteq> CHR '':'' then None
             else if c2 = CHR '':'' then
               (if ell \<noteq> None then None
                else if more = [] then Some (gs', Some (length gs'), [])
                else v6_loop fuel gs' (Some (length gs')) more)
             else v6_loop fuel gs' ell (c2 # more))))"

definition v6_finish :: "nat list \<Rightarrow> nat option \<Rightarrow> string \<Rightarrow> nat list option" where
  "v6_finish gs ell s =
     (if s \<noteq> [] then None
      else if length gs < 8 then
        (case ell of None \<Rightarrow> None
         | Some e \<Rightarrow> Some (take e gs @ replicate (8 - length gs) 0 @ drop e gs))
      else if ell \<noteq> None then None else Some gs)"

definition parse_v6 :: "string \<Rightarrow> Addr option" where
  "parse_v6 inp =
     (let s = takeWhile (\<lambda>c. c \<noteq> CHR ''%'') inp; zone = drop (length s + 1) inp in
      if length s < length inp \<and> zone = [] then None
      else (let ell = (if has_prefix s ''::'' then Some 0 else None);
                body = (if has_prefix s ''::'' then drop 2 s else s) in
        if ell \<noteq> None \<and> body = [] then Some (V6 0 zone)
        else case v6_loop 8 [] ell body of
          None \<Rightarrow> None
        | Some (gs, ell', rest) \<Rightarrow> map_option (\<lambda>all. V6 (ip6 all) zone) (v6_finish gs ell' rest)))"

definition ParseAddr :: "string \<Rightarrow> Addr option" where
  "ParseAddr s = (case find (\<lambda>c. c = CHR ''.'' \<or> c = CHR '':'' \<or> c = CHR ''%'') s of
      None \<Rightarrow> None
    | Some c \<Rightarrow> (if c = CHR ''.'' then map_option (\<lambda>(a, b, c, d). V4 (ip4 a b c d)) (parse_v4_fields s)
        else if c = CHR '':'' then parse_v6 s else None))"

text \<open>Index of the last occurrence of a byte (\<open>bytealg.LastIndexByteString\<close>).\<close>

definition last_index :: "char \<Rightarrow> string \<Rightarrow> nat option" where
  "last_index c s = (if c \<in> set s
     then Some (length s - 1 - length (takeWhile (\<lambda>x. x \<noteq> c) (rev s))) else None)"

definition SplitHostPort :: "string \<Rightarrow> (string \<times> string) option" where
  "SplitHostPort hp = (case last_index (CHR '':'') hp of
      None \<Rightarrow> None
    | Some i \<Rightarrow>
       (if hp ! 0 = CHR ''[''
        then (let e = length (takeWhile (\<lambda>x. x \<noteq> CHR '']'') hp) in
              if e = length hp \<or> e + 1 \<noteq> i then None
              else (let host = take (e - 1) (drop 1 hp); port = drop (i + 1) hp in
                    if CHR ''['' \<in> set (drop 1 hp) \<or> CHR '']'' \<in> set (drop (e + 1) hp)
                    then None else Some (host, port)))
        else (let host = take i hp; port = drop (i + 1) hp in
              if CHR '':'' \<in> set host \<or> CHR ''['' \<in> set hp \<or> CHR '']'' \<in> set hp
              then None else Some (host, port))))"

definition parse_port :: "string \<Rightarrow> nat option" where
  "parse_port s = (if s = [] then None else case digits_val 0 s of
      Some n \<Rightarrow> if n < 65536 then Some n else None | None \<Rightarrow> None)"

definition ParseAddrPort :: "string \<Rightarrow> (Addr \<times> nat) option" where
  "ParseAddrPort s = (case last_index (CHR '':'') s of
      None \<Rightarrow> None
    | Some i \<Rightarrow> (let ip = take i s; port = drop (i + 1) s in
        if ip = [] \<or> port = [] then None
        else (let bracketed = (hd ip = CHR ''['') in
          if bracketed \<and> (length ip < 2 \<or> last ip \<noteq> CHR '']'') then None
          else case parse_port port of
            None \<Rightarrow> None
          | Some n \<Rightarrow> (case ParseAddr (if bracketed then butlast (tl ip) else ip) of
              None \<Rightarrow> None
            | Some a \<Rightarrow> (case a of V4 w \<Rightarrow> if bracketed then None else Some (a, n)
                | V6 w z \<Rightarrow> if bracketed then Some (a, n) else None
                | InvalidAddr \<Rightarrow> None)))))"

lemmas parse_defs = ParseAddr_def parse_v4_fields_def v4_field_def digit_val_def ParseAddrPort_def
  parse_port_def SplitHostPort_def last_index_def

section \<open>Ranges\<close>

lemma xor_eq_0_iff: "(a :: 'a::len word) XOR b = 0 \<longleftrightarrow> a = b"
proof
  assume "a XOR b = 0"
  then have "(a XOR b) XOR b = b" by simp
  then show "a = b" by (simp add: xor.assoc)
qed simp

lemma unat_drop_bit_div: "unat (drop_bit k (w :: 'a::len word)) = unat w div 2 ^ k"
  by (simp only: unat_drop_bit_eq) (simp only: drop_bit_eq_div)

lemma drop_bit_xor_eq_0:
  "drop_bit k ((a :: 'a::len word) XOR p) = 0 \<longleftrightarrow> unat a div 2 ^ k = unat p div 2 ^ k"
  unfolding drop_bit_xor xor_eq_0_iff by (simp only: word_unat_eq_iff unat_drop_bit_div)

text \<open>A prefix with \<open>k\<close> host bits and network number \<open>q\<close> is an interval.\<close>

lemma contains_P4:
  "prefix_Contains (P4 p n) (V4 a) \<longleftrightarrow> unat a div 2 ^ (32 - n) = unat p div 2 ^ (32 - n)"
  by (simp only: prefix_Contains.simps drop_bit_xor_eq_0)

lemma contains_P6:
  "prefix_Contains (P6 p n) (V6 a z) \<longleftrightarrow> z = [] \<and> unat a div 2 ^ (128 - n) = unat p div 2 ^ (128 - n)"
  by (simp only: prefix_Contains.simps drop_bit_xor_eq_0)

lemma contains_mixed [simp]:
  "\<not> prefix_Contains (P4 p n) (V6 a z)" "\<not> prefix_Contains (P6 q m) (V4 b)"
  by simp_all

declare prefix_Contains.simps(1,2) [simp del]

lemma div_eq_interval:
  assumes "0 < (m::nat)"
  shows "x div m = q \<longleftrightarrow> q * m \<le> x \<and> x < q * m + m"
  using assms div_times_less_eq_dividend [of x m] dividend_less_div_times [of m x]
  by (auto simp: algebra_simps intro: div_nat_eqI)

lemma div_eq_closed:
  assumes "0 < (m::nat)"
  shows "x div m = q \<longleftrightarrow> q * m \<le> x \<and> x \<le> q * m + (m - 1)"
  using assms by (auto simp: div_eq_interval)

lemma v4_octet0_div: "v4_octet0 w = unat w div 2 ^ 24"
  by (simp only: v4_octet0_def unat_drop_bit_div)

lemma v6_u16_0_div: "v6_u16_0 w = unat w div 2 ^ 112"
  by (simp only: v6_u16_0_def unat_drop_bit_div)

lemma unat32_bound: "unat (w :: 32 word) < 4294967296"
  using unsigned_less [of w] by simp

lemma octet_mask:
  assumes "n < 256"
  shows "((n :: nat) AND 0xF0 = 0xE0) \<longleftrightarrow> n div 16 = 14"
proof -
  have m: "(0xF0 :: nat) = push_bit 4 (mask 4)" by (simp add: push_bit_eq_mult mask_eq_exp_minus_1)
  have "n AND push_bit 4 (mask 4) = push_bit 4 (take_bit 4 (drop_bit 4 n))"
    by (rule bit_eqI) (auto simp: bit_simps)
  moreover have "take_bit 4 (drop_bit 4 n) = n div 16"
    using assms by (simp add: drop_bit_eq_div take_bit_eq_mod)
  ultimately show ?thesis unfolding m by (simp add: push_bit_eq_mult)
qed

end
