(* ===== verification/Serr.thy ===== *)
theory Serr
  imports Prelude
begin

text \<open>
  The normalized error model (internal/serr/serr.go) and the Go error values it is
  built from. An \<open>error\<close> is a tree: a sentinel compared by identity, an
  \<open>errors.New\<close> message, a \<open>fmt.Errorf\<close> value with what it wraps, an error of a
  library outside the repository (its message, the observations the program makes of it
  through \<open>errors.As\<close> and the library's own predicates, and what it wraps), or a
  normalized \<open>*serr.Error\<close>. \<open>err_chain\<close> is the pre-order walk
  \<open>errors.Is\<close> and \<open>errors.As\<close> make.
\<close>

datatype Code = Internal | NotFound | AlreadyExists | PreconditionFailed | NotModified
  | Unsupported | PermissionDenied | Throttled | InvalidArgument | Unavailable | TooLarge

fun Code_String :: "Code \<Rightarrow> string" where
  "Code_String NotFound = ''NotFound''"
| "Code_String AlreadyExists = ''AlreadyExists''"
| "Code_String PreconditionFailed = ''PreconditionFailed''"
| "Code_String NotModified = ''NotModified''"
| "Code_String Unsupported = ''Unsupported''"
| "Code_String PermissionDenied = ''PermissionDenied''"
| "Code_String Throttled = ''Throttled''"
| "Code_String InvalidArgument = ''InvalidArgument''"
| "Code_String TooLarge = ''TooLarge''"
| "Code_String Unavailable = ''Unavailable''"
| "Code_String Internal = ''Internal''"

datatype sentinel = ErrBucketNotFound | ErrNonPublicDestination | ErrResponseTooLarge
  | ErrObjectTooLarge | DeadlineExceeded | Canceled | ErrMinIOCustody | ErrNotExist | ErrExist

text \<open>
  What the program observes of a library error: the net package's interfaces, an AWS API
  code, typed exception or HTTP status, a GCS sentinel or googleapi status, an Azure error
  code or status, a MinIO error response (code, status, message), a gRPC status code, a
  Docker not-found.
\<close>

datatype tag = NetError | DNSError
  | ApiCode string | TypedNoSuchKey | TypedNotFound | HttpStatus int
  | GcsBucketNotExist | GcsObjectNotExist | GoogleApi int | IteratorDone
  | AzCode string | AzStatus int
  | MinioResp string int string
  | GrpcUnauthenticated | DockerNotFound

type_synonym meta = "(string \<times> string) list"

datatype goerr = Sentinel sentinel
  | Msg string
  | Wrapped string "goerr list"
  | Lib string "tag list" "goerr list"
  | Coded (coded_Code: Code) (coded_Op: string) (coded_Err: "goerr option")
      (coded_Reason: string) (coded_Meta: meta) (coded_RetryAfter: int)

fun err_chain :: "goerr \<Rightarrow> goerr list" where
  "err_chain (Sentinel s) = [Sentinel s]"
| "err_chain (Msg m) = [Msg m]"
| "err_chain (Wrapped m es) = Wrapped m es # concat (map err_chain es)"
| "err_chain (Lib m ts es) = Lib m ts es # concat (map err_chain es)"
| "err_chain (Coded c op e r mt ra) =
     Coded c op e r mt ra # (case e of None \<Rightarrow> [] | Some e' \<Rightarrow> err_chain e')"

fun sentinel_msg :: "sentinel \<Rightarrow> string" where
  "sentinel_msg ErrBucketNotFound = ''bucket or container does not exist''"
| "sentinel_msg ErrNonPublicDestination = ''destination is not a public address''"
| "sentinel_msg ErrResponseTooLarge = ''the store's response exceeds the bound''"
| "sentinel_msg ErrObjectTooLarge = ''object exceeds the bound-read cap of 5242880 bytes''"
| "sentinel_msg DeadlineExceeded = ''context deadline exceeded''"
| "sentinel_msg Canceled = ''context canceled''"
| "sentinel_msg ErrMinIOCustody = ''MinIO custody preflight failed''"
| "sentinel_msg ErrNotExist = ''file does not exist''"
| "sentinel_msg ErrExist = ''file already exists''"

fun Error :: "goerr \<Rightarrow> string" where
  "Error (Sentinel s) = sentinel_msg s"
| "Error (Msg m) = m"
| "Error (Wrapped m es) = m"
| "Error (Lib m ts es) = m"
| "Error (Coded c op e r mt ra) = (case e of
      None \<Rightarrow> op @ '': '' @ Code_String c
    | Some e' \<Rightarrow> op @ '': '' @ Code_String c @ '': '' @ Error e')"

text \<open>\<open>errors.Is(err, sentinel)\<close> and \<open>errors.As\<close> on the chain.\<close>

definition errors_is :: "goerr \<Rightarrow> sentinel \<Rightarrow> bool" where
  "errors_is e s \<longleftrightarrow> Sentinel s \<in> set (err_chain e)"

fun is_Coded :: "goerr \<Rightarrow> bool" where
  "is_Coded (Coded _ _ _ _ _ _) = True"
| "is_Coded _ = False"

definition as_coded :: "goerr \<Rightarrow> goerr option" where
  "as_coded e = find is_Coded (err_chain e)"

fun lib_tags :: "goerr \<Rightarrow> tag list" where
  "lib_tags (Lib m ts es) = ts"
| "lib_tags _ = []"

definition err_tags :: "goerr \<Rightarrow> tag list" where
  "err_tags e = concat (map lib_tags (err_chain e))"

definition has_tag :: "goerr \<Rightarrow> tag \<Rightarrow> bool" where
  "has_tag e t \<longleftrightarrow> t \<in> set (err_tags e)"

text \<open>The reason constants.\<close>

abbreviation ReasonDestinationRefused :: string where "ReasonDestinationRefused \<equiv> ''DESTINATION_REFUSED''"
abbreviation ReasonCredentialRejected :: string where "ReasonCredentialRejected \<equiv> ''CREDENTIAL_REJECTED''"
abbreviation ReasonStoreThrottled :: string where "ReasonStoreThrottled \<equiv> ''STORE_THROTTLED''"
abbreviation ReasonObjectTooLarge :: string where "ReasonObjectTooLarge \<equiv> ''OBJECT_TOO_LARGE''"
abbreviation ReasonResponseTooLarge :: string where "ReasonResponseTooLarge \<equiv> ''RESPONSE_TOO_LARGE''"
abbreviation ReasonListingTooLong :: string where "ReasonListingTooLong \<equiv> ''LISTING_TOO_LONG''"
abbreviation ReasonListingIncomplete :: string where "ReasonListingIncomplete \<equiv> ''LISTING_INCOMPLETE''"
abbreviation ReasonBucketNotFound :: string where "ReasonBucketNotFound \<equiv> ''BUCKET_NOT_FOUND''"
abbreviation ReasonObjectNotFound :: string where "ReasonObjectNotFound \<equiv> ''OBJECT_NOT_FOUND''"
abbreviation ReasonAlreadyExists :: string where "ReasonAlreadyExists \<equiv> ''ALREADY_EXISTS''"
abbreviation ReasonPreconditionFailed :: string where "ReasonPreconditionFailed \<equiv> ''PRECONDITION_FAILED''"
abbreviation ReasonUnsupported :: string where "ReasonUnsupported \<equiv> ''UNSUPPORTED''"
abbreviation ReasonBindingInvalid :: string where "ReasonBindingInvalid \<equiv> ''BINDING_INVALID''"
abbreviation ReasonInvalidArgument :: string where "ReasonInvalidArgument \<equiv> ''INVALID_ARGUMENT''"
abbreviation ReasonTooManyItems :: string where "ReasonTooManyItems \<equiv> ''TOO_MANY_ITEMS''"
abbreviation ReasonEndpointUnresolved :: string where "ReasonEndpointUnresolved \<equiv> ''ENDPOINT_UNRESOLVED''"
abbreviation ReasonStoreUnavailable :: string where "ReasonStoreUnavailable \<equiv> ''STORE_UNAVAILABLE''"
abbreviation ReasonOperationDeadline :: string where "ReasonOperationDeadline \<equiv> ''OPERATION_DEADLINE''"
abbreviation ReasonBodySizeMismatch :: string where "ReasonBodySizeMismatch \<equiv> ''BODY_SIZE_MISMATCH''"
abbreviation ReasonWatchConsumerBehind :: string where "ReasonWatchConsumerBehind \<equiv> ''WATCH_CONSUMER_BEHIND''"
abbreviation ReasonInternal :: string where "ReasonInternal \<equiv> ''INTERNAL''"

section \<open>Constructors\<close>

definition New :: "Code \<Rightarrow> string \<Rightarrow> string \<Rightarrow> goerr" where
  "New code op msg = Coded code op (Some (Msg msg)) [] [] 0"

definition Wrap :: "Code \<Rightarrow> string \<Rightarrow> goerr \<Rightarrow> goerr" where
  "Wrap code op err = Coded code op (Some err) [] [] 0"

text \<open>A method of \<open>*Error\<close>: the second equation is never reached by the program.\<close>

fun WithReason :: "goerr \<Rightarrow> string \<Rightarrow> meta \<Rightarrow> goerr" where
  "WithReason (Coded c op e _ _ ra) reason m = Coded c op e reason m ra"
| "WithReason e _ _ = e"

definition BucketNotFound :: "string \<Rightarrow> goerr \<Rightarrow> goerr" where
  "BucketNotFound op err = WithReason (Wrap NotFound op
     (Wrapped (sentinel_msg ErrBucketNotFound @ '': '' @ Error err) [Sentinel ErrBucketNotFound, err]))
     ReasonBucketNotFound []"

section \<open>Classification\<close>

definition CodeOf :: "goerr \<Rightarrow> Code" where
  "CodeOf err = (case as_coded err of Some e \<Rightarrow> coded_Code e | None \<Rightarrow> Internal)"

fun default_reason :: "Code \<Rightarrow> string" where
  "default_reason NotFound = ReasonObjectNotFound"
| "default_reason AlreadyExists = ReasonAlreadyExists"
| "default_reason PreconditionFailed = ReasonPreconditionFailed"
| "default_reason Unsupported = ReasonUnsupported"
| "default_reason PermissionDenied = ReasonCredentialRejected"
| "default_reason Throttled = ReasonStoreThrottled"
| "default_reason InvalidArgument = ReasonInvalidArgument"
| "default_reason Unavailable = ReasonStoreUnavailable"
| "default_reason TooLarge = ReasonResponseTooLarge"
| "default_reason NotModified = ReasonInternal"
| "default_reason Internal = ReasonInternal"

definition ReasonOf :: "goerr \<Rightarrow> string" where
  "ReasonOf err = (case as_coded err of
      Some e \<Rightarrow> (if coded_Reason e \<noteq> [] then coded_Reason e else default_reason (CodeOf err))
    | None \<Rightarrow> default_reason (CodeOf err))"

definition Is :: "goerr option \<Rightarrow> Code \<Rightarrow> bool" where
  "Is err code = (case err of None \<Rightarrow> False | Some e \<Rightarrow> CodeOf e = code)"

definition Unreachable :: "goerr \<Rightarrow> bool" where
  "Unreachable err \<longleftrightarrow>
     (if errors_is err DeadlineExceeded \<or> errors_is err Canceled then True else has_tag err NetError)"

section \<open>Lemmas\<close>

named_theorems serr_simps \<open>evaluation of error classification\<close>

lemma err_chain_self: "e \<in> set (err_chain e)"
  by (cases e) auto

lemma err_chain_nonempty [simp]: "err_chain e \<noteq> []"
  by (cases e) auto

lemma as_coded_Coded [simp, serr_simps]: "as_coded (Coded c op e r m ra) = Some (Coded c op e r m ra)"
  by (simp add: as_coded_def)

lemma as_coded_is_Coded: "as_coded e = Some d \<Longrightarrow> is_Coded d"
  by (auto simp: as_coded_def find_Some_iff)

lemma CodeOf_Coded [simp, serr_simps]: "CodeOf (Coded c op e r m ra) = c"
  by (simp add: CodeOf_def)

lemma CodeOf_New [simp, serr_simps]: "CodeOf (New c op m) = c"
  by (simp add: New_def)

lemma CodeOf_Wrap [simp, serr_simps]: "CodeOf (Wrap c op e) = c"
  by (simp add: Wrap_def)

lemma CodeOf_WithReason [simp, serr_simps]: "is_Coded e \<Longrightarrow> CodeOf (WithReason e r m) = CodeOf e"
  by (cases e) auto

lemma is_Coded_simps [simp, serr_simps]:
  "is_Coded (New c op m)" "is_Coded (Wrap c op e)" "is_Coded (WithReason (New c op m) r mt)"
  "is_Coded (WithReason (Wrap c op e) r mt)"
  by (auto simp: New_def Wrap_def)

lemma ReasonOf_Coded [simp, serr_simps]:
  "ReasonOf (Coded c op e r m ra) = (if r \<noteq> [] then r else default_reason c)"
  by (simp add: ReasonOf_def)

lemma ReasonOf_New [simp, serr_simps]: "ReasonOf (New c op m) = default_reason c"
  by (simp add: New_def)

lemma ReasonOf_Wrap [simp, serr_simps]: "ReasonOf (Wrap c op e) = default_reason c"
  by (simp add: Wrap_def)

lemma ReasonOf_WithReason [simp, serr_simps]:
  "is_Coded e \<Longrightarrow> r \<noteq> [] \<Longrightarrow> ReasonOf (WithReason e r m) = r"
  by (cases e) auto

lemma default_reason_nonempty [simp]: "default_reason c \<noteq> []"
  by (cases c) auto

lemma ReasonOf_nonempty: "ReasonOf e \<noteq> []"
  by (auto simp: ReasonOf_def split: option.splits)

lemma errors_is_New [simp, serr_simps]: "\<not> errors_is (New c op m) s"
  by (simp add: errors_is_def New_def)

lemma errors_is_Wrap [simp, serr_simps]: "errors_is (Wrap c op e) s = errors_is e s"
  by (simp add: errors_is_def Wrap_def)

lemma errors_is_WithReason [simp, serr_simps]: "errors_is (WithReason e r m) s = errors_is e s"
  by (cases e) (auto simp: errors_is_def)

lemma errors_is_Sentinel [simp, serr_simps]: "errors_is (Sentinel s) t \<longleftrightarrow> s = t"
  by (auto simp: errors_is_def)

lemma errors_is_Msg [simp, serr_simps]: "\<not> errors_is (Msg m) t"
  by (auto simp: errors_is_def)

lemma errors_is_Wrapped [simp, serr_simps]: "errors_is (Wrapped m es) t \<longleftrightarrow> (\<exists>e \<in> set es. errors_is e t)"
  by (auto simp: errors_is_def)

lemma errors_is_Lib [simp, serr_simps]: "errors_is (Lib m ts es) t \<longleftrightarrow> (\<exists>e \<in> set es. errors_is e t)"
  by (auto simp: errors_is_def)

text \<open>A missing bucket is a NotFound that stays distinguishable from a missing object.\<close>

lemma BucketNotFound_class [simp, serr_simps]:
  "CodeOf (BucketNotFound op e) = NotFound"
  "ReasonOf (BucketNotFound op e) = ReasonBucketNotFound"
  "errors_is (BucketNotFound op e) ErrBucketNotFound"
  by (simp_all add: BucketNotFound_def)

lemma Error_Coded_prefix: "has_prefix (Error (Coded c op e r m ra)) (op @ '': '' @ Code_String c)"
  by (auto simp: has_prefix_iff split: option.splits)

end
