(* ===== verification/Reader.thy ===== *)
theory Reader
  imports Serr
begin

text \<open>
  Readers (\<open>io.Reader\<close>) as scripts: what successive reads of the underlying
  source deliver, with Go's convention that a read may return bytes together with an
  error. A read error carries the state of the call's egress guard at that moment,
  because the error policy of a bound call consults it. The guard's record
  (egress.Guard) is declared here for that reason; its operations are in Egress.
\<close>

type_synonym bytes = string

type_synonym gotime = int \<comment> \<open>nanoseconds since January 1, year 1 UTC; 0 is Go's zero Time\<close>

record Guard =
  g_refused :: bool
  g_tooLarge :: bool
  g_retryAfter :: int
  g_maxBody :: int
  g_sent :: "string list"

definition new_guard :: "int \<Rightarrow> Guard" where
  "new_guard maxBody = \<lparr>g_refused = False, g_tooLarge = False, g_retryAfter = 0,
     g_maxBody = maxBody, g_sent = []\<rparr>"

datatype rerr = RNil | REOF | RErr goerr Guard

type_synonym reader = "(bytes \<times> rerr) list"

text \<open>\<open>Read(p)\<close> with \<open>len(p) = n\<close>; a script that is used up answers \<open>io.EOF\<close>.\<close>

fun read :: "nat \<Rightarrow> reader \<Rightarrow> (bytes \<times> rerr) \<times> reader" where
  "read n [] = (([], REOF), [])"
| "read n ((bs, e) # r) =
     (if length bs \<le> n then ((bs, e), r) else ((take n bs, RNil), (drop n bs, e) # r))"

text \<open>\<open>io.ReadAll\<close>: the bytes up to the end, and the error if there was one.\<close>

fun read_all :: "reader \<Rightarrow> bytes \<times> (goerr \<times> Guard) option" where
  "read_all [] = ([], None)"
| "read_all ((bs, RNil) # r) = (let (rest, e) = read_all r in (bs @ rest, e))"
| "read_all ((bs, REOF) # r) = (bs, None)"
| "read_all ((bs, RErr e g) # r) = (bs, Some (e, g))"

text \<open>\<open>io.LimitReader\<close>, as the script it delivers.\<close>

fun limit_reader :: "nat \<Rightarrow> reader \<Rightarrow> reader" where
  "limit_reader n [] = []"
| "limit_reader n ((bs, e) # r) =
     (if n = 0 then []
      else if length bs \<le> n then (bs, e) # limit_reader (n - length bs) r
      else [(take n bs, RNil)])"

text \<open>\<open>bytes.NewReader\<close> under \<open>io.NopCloser\<close>.\<close>

definition bytes_reader :: "bytes \<Rightarrow> reader" where
  "bytes_reader bs = (if bs = [] then [] else [(bs, RNil)])"

lemma read_all_bytes_reader [simp]: "read_all (bytes_reader bs) = (bs, None)"
  by (simp add: bytes_reader_def)

text \<open>A measure for loops over reads with a non-empty buffer.\<close>

definition reader_size :: "reader \<Rightarrow> nat" where
  "reader_size r = sum_list (map (\<lambda>(bs, e). Suc (length bs)) r)"

lemma reader_size_simps [simp]:
  "reader_size [] = 0" "reader_size ((bs, e) # r) = Suc (length bs) + reader_size r"
  by (simp_all add: reader_size_def)

lemma read_shrinks: "0 < n \<Longrightarrow> r \<noteq> [] \<Longrightarrow> reader_size (snd (read n r)) < reader_size r"
  by (cases "(n, r)" rule: read.cases) auto

lemma read_length: "length (fst (fst (read n r))) \<le> n"
  by (cases "(n, r)" rule: read.cases) auto

lemma read_nil_empty: "r = [] \<Longrightarrow> read n r = (([], REOF), [])"
  by simp

text \<open>One read followed by the rest delivers what the whole delivers.\<close>

lemma read_all_read:
  "read n r = ((bs, e), r') \<Longrightarrow> read_all r = (case e of
     RNil \<Rightarrow> (bs @ fst (read_all r'), snd (read_all r'))
   | REOF \<Rightarrow> (bs, None)
   | RErr err g \<Rightarrow> (bs, Some (err, g)))"
proof (cases "(n, r)" rule: read.cases)
  case (2 m cs f q)
  moreover assume "read n r = ((bs, e), r')"
  ultimately show ?thesis
    by (cases f) (auto simp: case_prod_beta split: if_splits)
qed (auto)

lemma read_all_limit_length: "length (fst (read_all (limit_reader n r))) \<le> n"
proof (induction n r rule: limit_reader.induct)
  case (2 n bs e r)
  then show ?case by (cases e) (auto simp: case_prod_beta)
qed simp

text \<open>A limit that is not reached does not change what is read.\<close>

lemma read_all_limit_complete:
  "length (fst (read_all (limit_reader n r))) < n \<Longrightarrow> read_all (limit_reader n r) = read_all r"
proof (induction n r rule: limit_reader.induct)
  case (2 n bs e r)
  then show ?case
    by (cases e) (auto simp: case_prod_beta prod_eq_iff split: if_splits)
qed simp

lemma read_all_limit_within:
  "length (fst (read_all r)) < n \<Longrightarrow> read_all (limit_reader n r) = read_all r"
proof (induction n r rule: limit_reader.induct)
  case (2 n bs e r)
  then show ?case
    by (cases e) (auto simp: case_prod_beta prod_eq_iff)
qed simp

end
