(* ===== verification/Egress.thy ===== *)
theory Egress
  imports NetIP Reader
begin

text \<open>
  internal/egress/egress.go: the classifier of public addresses, the admission of a
  caller-supplied endpoint, the verdict on each dial, and the transport that bounds what
  a store may send and scrubs the credentials the call put on the wire. The URL
  normalizer (core's urlguard), the resolver, \<open>http.ParseTime\<close> and the clock are the
  parameters of \<open>EgressEnv\<close>.
\<close>

section \<open>Public addresses\<close>

definition specialUseIPv4 :: "IPPrefix list" where
  "specialUseIPv4 = [
     P4 (ip4 0 0 0 0) 8, P4 (ip4 10 0 0 0) 8, P4 (ip4 100 64 0 0) 10, P4 (ip4 172 16 0 0) 12,
     P4 (ip4 192 0 0 0) 24, P4 (ip4 192 0 2 0) 24, P4 (ip4 192 31 196 0) 24, P4 (ip4 192 52 193 0) 24,
     P4 (ip4 192 88 99 0) 24, P4 (ip4 192 168 0 0) 16, P4 (ip4 192 175 48 0) 24, P4 (ip4 198 18 0 0) 15,
     P4 (ip4 198 51 100 0) 24, P4 (ip4 203 0 113 0) 24, P4 (ip4 240 0 0 0) 4, P4 (ip4 255 255 255 255) 32]"

definition specialUseIPv6 :: "IPPrefix list" where
  "specialUseIPv6 = [
     P6 (ip6 [0, 0, 0, 0, 0, 0, 0, 0]) 128, P6 (ip6 [0, 0, 0, 0, 0, 0, 0, 1]) 128,
     P6 (ip6 [0x64, 0xff9b, 0, 0, 0, 0, 0, 0]) 96, P6 (ip6 [0x64, 0xff9b, 1, 0, 0, 0, 0, 0]) 48,
     P6 (ip6 [0x100, 0, 0, 0, 0, 0, 0, 0]) 64, P6 (ip6 [0x100, 0, 0, 1, 0, 0, 0, 0]) 64,
     P6 (ip6 [0x2001, 0, 0, 0, 0, 0, 0, 0]) 23, P6 (ip6 [0x2001, 0xdb8, 0, 0, 0, 0, 0, 0]) 32,
     P6 (ip6 [0x2002, 0, 0, 0, 0, 0, 0, 0]) 16, P6 (ip6 [0x3fff, 0, 0, 0, 0, 0, 0, 0]) 20,
     P6 (ip6 [0x5f00, 0, 0, 0, 0, 0, 0, 0]) 16, P6 (ip6 [0xfc00, 0, 0, 0, 0, 0, 0, 0]) 7,
     P6 (ip6 [0xfe80, 0, 0, 0, 0, 0, 0, 0]) 10]"

definition globalUnicastIPv6 :: IPPrefix where
  "globalUnicastIPv6 = P6 (ip6 [0x2000, 0, 0, 0, 0, 0, 0, 0]) 3"

definition specialUsePrefixes :: "IPPrefix list" where
  "specialUsePrefixes = specialUseIPv4 @ specialUseIPv6"

definition IsPublic :: "Addr \<Rightarrow> bool" where
  "IsPublic address =
     (if \<not> IsValid address \<or> Zone address \<noteq> [] then False
      else (let address = Unmap address in
        if Is6 address \<and> \<not> prefix_Contains globalUnicastIPv6 address then False
        else if IsLoopback address \<or> IsMulticast address \<or> IsLinkLocalUnicast address
              \<or> IsLinkLocalMulticast address \<or> IsInterfaceLocalMulticast address
              \<or> IsUnspecified address then False
        else \<not> list_ex (\<lambda>p. prefix_Contains p address) specialUsePrefixes))"

definition guardDial :: "string \<Rightarrow> goerr option" where
  "guardDial address = (case SplitHostPort address of
      None \<Rightarrow> Some (Sentinel ErrNonPublicDestination)
    | Some (host, _) \<Rightarrow> (case ParseAddr host of
          None \<Rightarrow> Some (Sentinel ErrNonPublicDestination)
        | Some parsed \<Rightarrow> if \<not> IsPublic parsed then Some (Sentinel ErrNonPublicDestination) else None))"

section \<open>Admission of an endpoint\<close>

record Origin =
  or_Host :: string
  or_Port :: int
  or_HostPort :: string

record EgressEnv =
  NormalizeOrigin :: "string \<Rightarrow> goerr + Origin"
  LookupNetIP :: "string \<Rightarrow> goerr + Addr list"
  http_ParseTime :: "string \<Rightarrow> gotime option"
  Now :: gotime

type_synonym Composed = "string set"

fun composed_loop :: "EgressEnv \<Rightarrow> string list \<Rightarrow> Composed \<Rightarrow> goerr + Composed" where
  "composed_loop env [] composed = Inr composed"
| "composed_loop env (e # es) composed =
     (let entry = trim_space e in
      if entry = [] then composed_loop env es composed
      else (case NormalizeOrigin env (''http://'' @ entry) of
          Inl _ \<Rightarrow> Inl (Msg (''composed endpoint '' @ quoted entry @ '' is not a host:port''))
        | Inr origin \<Rightarrow>
            if CHR '':'' \<notin> set entry
            then Inl (Msg (''composed endpoint '' @ quoted entry @ '' is not a host:port''))
            else if ParseAddr (or_Host origin) \<noteq> None
            then Inl (Msg (''composed endpoint '' @ quoted entry @
                 '' is an address; a composed endpoint is a name''))
            else composed_loop env es (insert (or_HostPort origin) composed)))"

definition ParseComposed :: "EgressEnv \<Rightarrow> string \<Rightarrow> goerr + Composed" where
  "ParseComposed env list = composed_loop env (split_on (CHR '','') list) {}"

record Admission =
  ad_authority :: string
  ad_addresses :: "(Addr \<times> nat) list"

definition no_admission :: Admission where
  "no_admission = \<lparr>ad_authority = [], ad_addresses = []\<rparr>"

definition admits :: "Admission \<Rightarrow> string \<Rightarrow> bool" where
  "admits a address = (case ParseAddrPort address of
      None \<Rightarrow> False
    | Some (addr, port) \<Rightarrow> (Unmap addr, port) \<in> set (ad_addresses a))"

definition canonicalAuthority :: "EgressEnv \<Rightarrow> string \<Rightarrow> string" where
  "canonicalAuthority env authority = (case NormalizeOrigin env (''http://'' @ authority) of
      Inl _ \<Rightarrow> [] | Inr origin \<Rightarrow> or_HostPort origin)"

definition never_admitted :: "Addr \<Rightarrow> bool" where
  "never_admitted a \<longleftrightarrow> IsLinkLocalUnicast a \<or> IsLinkLocalMulticast a \<or> IsMulticast a
     \<or> IsInterfaceLocalMulticast a \<or> IsUnspecified a"

definition refused_endpoint :: "Origin \<Rightarrow> goerr" where
  "refused_endpoint origin = Wrapped (''binding endpoint '' @ quoted (or_Host origin) @ '': '' @
     sentinel_msg ErrNonPublicDestination) [Sentinel ErrNonPublicDestination]"

fun admit_loop :: "Origin \<Rightarrow> Addr list \<Rightarrow> Admission \<Rightarrow> goerr + Admission" where
  "admit_loop origin [] admission = Inr admission"
| "admit_loop origin (a # as) admission =
     (let address = Unmap a in
      if never_admitted address then Inl (refused_endpoint origin)
      else admit_loop origin as
        (admission\<lparr>ad_addresses := ad_addresses admission @ [(address, nat (or_Port origin mod 65536))]\<rparr>))"

definition Qualify :: "EgressEnv \<Rightarrow> string \<Rightarrow> Composed \<Rightarrow> goerr + Admission" where
  "Qualify env endpoint composed = (case NormalizeOrigin env endpoint of
      Inl err \<Rightarrow> Inl (Wrapped (''binding endpoint: '' @ Error err) [err])
    | Inr origin \<Rightarrow>
       (case (case ParseAddr (or_Host origin) of Some literal \<Rightarrow> Inr [literal]
              | None \<Rightarrow> LookupNetIP env (or_Host origin)) of
          Inl err \<Rightarrow> Inl (Wrapped (''binding endpoint '' @ quoted (or_Host origin) @
             '' does not resolve: '' @ Error err) [err])
        | Inr addresses \<Rightarrow>
           if or_HostPort origin \<in> composed
           then admit_loop origin addresses \<lparr>ad_authority = or_HostPort origin, ad_addresses = []\<rparr>
           else if list_ex (\<lambda>a. \<not> IsPublic a) addresses then Inl (refused_endpoint origin)
           else Inr no_admission))"

section \<open>The guard\<close>

text \<open>
  \<open>NewGuard\<close>'s dialer: \<open>authority\<close> is what the transport was asked to reach,
  \<open>address\<close> the concrete address its Control hook judges. \<open>None\<close> lets the
  connection proceed.
\<close>

definition dial_control :: "EgressEnv \<Rightarrow> Admission \<Rightarrow> string \<Rightarrow> string \<Rightarrow> Guard \<Rightarrow> goerr option \<times> Guard" where
  "dial_control env admission authority address g =
     (let exception = (ad_authority admission \<noteq> [] \<and> canonicalAuthority env authority = ad_authority admission) in
      if exception \<and> admits admission address then (None, g)
      else (case guardDial address of
          Some err \<Rightarrow> (Some err, g\<lparr>g_refused := True\<rparr>)
        | None \<Rightarrow> (None, g)))"

definition max_duration :: int where
  "max_duration = 2 ^ 63 - 1"

definition retryAfter :: "EgressEnv \<Rightarrow> string \<Rightarrow> int" where
  "retryAfter env value = (case atoi (trim_space value) of
      Some seconds \<Rightarrow> if seconds > 0 then wrap64 (seconds * 1000000000) else
        (case http_ParseTime env value of
           Some at \<Rightarrow> if at > Now env then min (at - Now env) max_duration else 0 | None \<Rightarrow> 0)
    | None \<Rightarrow>
        (case http_ParseTime env value of
           Some at \<Rightarrow> if at > Now env then min (at - Now env) max_duration else 0 | None \<Rightarrow> 0))"

text \<open>\<open>boundedBody.Read\<close>: one read, with what is left of the bound and of the body.\<close>

definition boundedBody_Read ::
  "nat \<Rightarrow> nat \<Rightarrow> Guard \<Rightarrow> reader \<Rightarrow> (bytes \<times> rerr) \<times> nat \<times> reader" where
  "boundedBody_Read n left g body =
     (if left \<le> 0 then
        (let ((probe, err), body') = read 1 body in
         if length probe = 0 then (([], err), left, body')
         else (([], RErr (Sentinel ErrResponseTooLarge) (g\<lparr>g_tooLarge := True\<rparr>)), left, body'))
      else
        (let m = (if n > left then left else n);
             ((bs, err), body') = read m body in
         ((bs, err), left - length bs, body')))"

text \<open>The same body as a script, for the readers that consume it.\<close>

fun bounded_body :: "nat \<Rightarrow> Guard \<Rightarrow> reader \<Rightarrow> reader" where
  "bounded_body left g [] = []"
| "bounded_body left g ((bs, e) # r) =
     (if length bs \<le> left then (bs, e) # bounded_body (left - length bs) g r
      else (if left = 0 then [] else [(take left bs, RNil)]) @
        [([], RErr (Sentinel ErrResponseTooLarge) (g\<lparr>g_tooLarge := True\<rparr>))])"

definition add_sent :: "string \<Rightarrow> string list \<Rightarrow> string list" where
  "add_sent v sent = (if v \<noteq> [] \<and> v \<notin> set sent then sent @ [v] else sent)"

definition guard_record :: "string \<Rightarrow> Guard \<Rightarrow> Guard" where
  "guard_record authorization g =
     g\<lparr>g_sent := add_sent (trim_prefix authorization ''Bearer '') (add_sent authorization (g_sent g))\<rparr>"

definition maxRedactedErrorBody :: nat where
  "maxRedactedErrorBody = 1048576"

definition Redact :: "string \<Rightarrow> string list \<Rightarrow> string" where
  "Redact t secrets = foldl (\<lambda>t s. if s \<noteq> [] then replace_all t s ''[redacted]'' else t) t secrets"

text \<open>Headers with canonical names; \<open>Get\<close> answers the first value or the empty string.\<close>

type_synonym Header = "(string \<times> string list) list"

definition header_Get :: "Header \<Rightarrow> string \<Rightarrow> string" where
  "header_Get h n = (case map_of h n of Some (v # _) \<Rightarrow> v | _ \<Rightarrow> [])"

definition header_Del :: "Header \<Rightarrow> string \<Rightarrow> Header" where
  "header_Del h n = filter (\<lambda>(m, _). m \<noteq> n) h"

record Response =
  rs_StatusCode :: int
  rs_Header :: Header
  rs_Body :: "reader option"
  rs_ContentLength :: int

definition note_retry_after :: "EgressEnv \<Rightarrow> Response \<Rightarrow> Guard \<Rightarrow> Guard" where
  "note_retry_after env resp g =
     (if rs_StatusCode resp = 429 \<or> rs_StatusCode resp = 503
      then (let delay = retryAfter env (header_Get (rs_Header resp) ''Retry-After'') in
            if delay > 0 then g\<lparr>g_retryAfter := delay\<rparr> else g)
      else g)"

definition bound_response :: "Guard \<Rightarrow> Response \<Rightarrow> Response" where
  "bound_response g resp = (case rs_Body resp of
      Some body \<Rightarrow> if g_maxBody g > 0
        then resp\<lparr>rs_Body := Some (bounded_body (nat (g_maxBody g)) g body)\<rparr> else resp
    | None \<Rightarrow> resp)"

definition redact_headers :: "string list \<Rightarrow> Header \<Rightarrow> Header" where
  "redact_headers sent h = map (\<lambda>(n, vs). (n, map (\<lambda>v. Redact v sent) vs)) h"

text \<open>
  \<open>redacting.RoundTrip\<close>. \<open>authorization\<close> is the request's Authorization header,
  \<open>answer\<close> what the transport underneath returned (an error, or a response).
\<close>

definition RoundTrip ::
  "EgressEnv \<Rightarrow> string \<Rightarrow> goerr + Response option \<Rightarrow> Guard \<Rightarrow> (goerr + Response option) \<times> Guard" where
  "RoundTrip env authorization answer g0 =
     (let g = (if authorization \<noteq> [] then guard_record authorization g0 else g0) in
      case answer of
        Inl err \<Rightarrow> (Inl err, g)
      | Inr None \<Rightarrow> (Inr None, g)
      | Inr (Some resp0) \<Rightarrow>
          (let g = note_retry_after env resp0 g; resp = bound_response g resp0; sent = g_sent g in
           if sent = [] then (Inr (Some resp), g)
           else (let resp = resp\<lparr>rs_Header := redact_headers sent (rs_Header resp)\<rparr> in
             if rs_StatusCode resp \<ge> 400 then
               (case rs_Body resp of
                  None \<Rightarrow> (Inr (Some resp), g)
                | Some body \<Rightarrow>
                   (case read_all (limit_reader maxRedactedErrorBody body) of
                      (_, Some (rerr, g')) \<Rightarrow> (Inl rerr, g')
                    | (bs, None) \<Rightarrow>
                        (let redacted = Redact bs sent in
                         (Inr (Some (resp\<lparr>rs_Body := Some (bytes_reader redacted),
                            rs_ContentLength := int (length redacted),
                            rs_Header := header_Del (rs_Header resp) ''Content-Length''\<rparr>)), g))))
             else (Inr (Some resp), g))))"

section \<open>The public intervals\<close>

lemma and_nat_le: "(n :: nat) AND m \<le> n"
  by (metis AND_upper1 of_nat_0_le_iff of_nat_and_eq of_nat_le_iff)

lemmas special_simps = specialUsePrefixes_def specialUseIPv4_def specialUseIPv6_def
  globalUnicastIPv6_def ip4_def ip6_def

definition v4_num :: "nat \<Rightarrow> nat \<Rightarrow> nat \<Rightarrow> nat \<Rightarrow> nat" where
  "v4_num a b c d = ((a * 256 + b) * 256 + c) * 256 + d"

definition non_public_v4 :: "(nat \<times> nat) list" where
  "non_public_v4 = [(v4_num 0 0 0 0, v4_num 0 255 255 255), (v4_num 10 0 0 0, v4_num 10 255 255 255),
     (v4_num 100 64 0 0, v4_num 100 127 255 255), (v4_num 127 0 0 0, v4_num 127 255 255 255),
     (v4_num 169 254 0 0, v4_num 169 254 255 255), (v4_num 172 16 0 0, v4_num 172 31 255 255),
     (v4_num 192 0 0 0, v4_num 192 0 0 255), (v4_num 192 0 2 0, v4_num 192 0 2 255),
     (v4_num 192 31 196 0, v4_num 192 31 196 255), (v4_num 192 52 193 0, v4_num 192 52 193 255),
     (v4_num 192 88 99 0, v4_num 192 88 99 255), (v4_num 192 168 0 0, v4_num 192 168 255 255),
     (v4_num 192 175 48 0, v4_num 192 175 48 255), (v4_num 198 18 0 0, v4_num 198 19 255 255),
     (v4_num 198 51 100 0, v4_num 198 51 100 255), (v4_num 203 0 113 0, v4_num 203 0 113 255),
     (v4_num 224 0 0 0, v4_num 255 255 255 255)]"

definition in_ranges :: "nat \<Rightarrow> (nat \<times> nat) list \<Rightarrow> bool" where
  "in_ranges n rs = list_ex (\<lambda>(lo, hi). lo \<le> n \<and> n \<le> hi) rs"

lemma v4_classes:
  "IsLoopback (V4 w) \<longleftrightarrow> unat w div 2 ^ 24 = 127"
  "IsMulticast (V4 w) \<longleftrightarrow> unat w div 2 ^ 28 = 14"
  "IsLinkLocalUnicast (V4 w) \<longleftrightarrow> unat w div 2 ^ 16 = 43518"
  "IsLinkLocalMulticast (V4 w) \<longleftrightarrow> unat w div 2 ^ 8 = 14680064"
  "IsInterfaceLocalMulticast (V4 w) \<longleftrightarrow> False"
  "IsUnspecified (V4 w) \<longleftrightarrow> unat w = 0"
proof -
  have "unat w div 2 ^ 24 < 256" using unat32_bound [of w] by simp
  then have m: "((unat w div 2 ^ 24) AND 0xF0 = 0xE0) = (unat w div 2 ^ 24 div 16 = 14)" by (rule octet_mask)
  have d: "unat w div 2 ^ 24 div 16 = unat w div 2 ^ 28" by (simp flip: div_mult2_eq)
  show "IsMulticast (V4 w) \<longleftrightarrow> unat w div 2 ^ 28 = 14"
    by (simp only: IsMulticast_def Unmap.simps Addr.case v4_octet0_div m d)
  show "IsUnspecified (V4 w) \<longleftrightarrow> unat w = 0" by (simp add: unat_eq_zero)
qed (simp_all add: IsLoopback_def IsLinkLocalUnicast_def IsLinkLocalMulticast_def
  IsInterfaceLocalMulticast_def v4_octet0_div unat_drop_bit_div)

lemma IsPublic_V4_ranges:
  "IsPublic (V4 w) \<longleftrightarrow> \<not> in_ranges (unat w) non_public_v4"
  using unat32_bound [of w]
  apply (simp add: IsPublic_def Let_def v4_classes special_simps contains_P4 div_eq_closed
      in_ranges_def non_public_v4_def v4_num_def)
  apply (cases "unat w < 2851995648"; cases "unat w < 3221225472"; cases "unat w < 3325256704"; simp)
  apply (cases "unat w < 3758096384"; cases "unat w < 4026531840"; auto)
  done

lemma v6_classes:
  assumes "\<not> is_mapped w" "2 ^ 125 \<le> unat w" "unat w < 2 ^ 126"
  shows "\<not> IsLoopback (V6 w z)" "\<not> IsMulticast (V6 w z)" "\<not> IsLinkLocalUnicast (V6 w z)"
    "\<not> IsLinkLocalMulticast (V6 w z)" "\<not> IsInterfaceLocalMulticast (V6 w z)" "\<not> IsUnspecified (V6 w z)"
proof -
  have q: "v6_u16_0 w < 0x4000" using assms by (simp add: v6_u16_0_div)
  then have a: "v6_u16_0 w AND m < 0x4000" for m using and_nat_le [of "v6_u16_0 w" m] by linarith
  show "\<not> IsLinkLocalUnicast (V6 w z)" "\<not> IsLinkLocalMulticast (V6 w z)" "\<not> IsInterfaceLocalMulticast (V6 w z)"
    using assms a [of "0xFFC0"] a [of "0xFF0F"]
    by (auto simp: IsLinkLocalUnicast_def IsLinkLocalMulticast_def IsInterfaceLocalMulticast_def)
  show "\<not> IsMulticast (V6 w z)" using assms by (simp add: IsMulticast_def unat_drop_bit_div)
qed (use assms in \<open>auto simp: IsLoopback_def\<close>)

definition non_public_v6 :: "(nat \<times> nat) list" where
  "non_public_v6 = [(0x2001 * 2 ^ 112, 0x2001 * 2 ^ 112 + (2 ^ 105 - 1)),
     (0x20010db8 * 2 ^ 96, 0x20010db8 * 2 ^ 96 + (2 ^ 96 - 1)),
     (0x2002 * 2 ^ 112, 0x2002 * 2 ^ 112 + (2 ^ 112 - 1)),
     (0x3fff * 2 ^ 112, 0x3fff * 2 ^ 112 + (2 ^ 108 - 1))]"

lemma IsPublic_V6_unmapped:
  assumes "\<not> is_mapped w"
  shows "IsPublic (V6 w z) \<longleftrightarrow> z = [] \<and> 2 ^ 125 \<le> unat w \<and> unat w < 2 ^ 126 \<and> \<not> in_ranges (unat w) non_public_v6"
proof -
  have g: "prefix_Contains globalUnicastIPv6 (V6 w []) \<longleftrightarrow> 2 ^ 125 \<le> unat w \<and> unat w < 2 ^ 126"
    by (simp add: special_simps contains_P6 div_eq_interval)
  show ?thesis
  proof (cases "z = [] \<and> 2 ^ 125 \<le> unat w \<and> unat w < 2 ^ 126")
    case True
    then show ?thesis using assms v6_classes [OF assms, of z]
      apply (simp add: IsPublic_def Let_def g del: power_numeral)
      apply (simp add: special_simps contains_P6 div_eq_closed
          in_ranges_def non_public_v6_def)
      done
  next
    case False
    then show ?thesis using assms g by (auto simp: IsPublic_def Let_def)
  qed
qed

lemma IsPublic_mapped: "is_mapped w \<Longrightarrow> IsPublic (V6 w z) \<longleftrightarrow> z = [] \<and> IsPublic (V4 (ucast w))"
  by (simp add: IsPublic_def Let_def)

section \<open>Redaction\<close>

definition redactable :: "string \<Rightarrow> bool" where
  "redactable s \<longleftrightarrow> s \<noteq> [] \<and> CHR ''['' \<notin> set s \<and> CHR '']'' \<notin> set s \<and> \<not> contains ''redacted'' s"

lemma contains_across:
  assumes "c \<notin> set t" "t \<noteq> []" "contains (m @ c # r) t"
  shows "contains m t \<or> contains r t"
proof -
  obtain u v where uv: "m @ c # r = u @ t @ v" using assms(3) by (auto simp: contains_iff)
  then consider (l) us where "m = u @ us" "us @ c # r = t @ v" | (r) us where "m @ us = u" "c # r = us @ t @ v"
    unfolding append_eq_append_conv2 by blast
  then show ?thesis
  proof cases
    case l
    from l(2) consider (a) ws where "us = t @ ws" | (b) ws where "us @ ws = t" "c # r = ws @ v"
      unfolding append_eq_append_conv2 by blast
    then show ?thesis
    proof cases
      case a
      then show ?thesis using l(1) by (auto simp: contains_iff)
    next
      case b
      then have "ws = []" using assms(1) by (cases ws) auto
      then have "m = u @ t @ []" using b(1) l(1) by simp
      then show ?thesis unfolding contains_iff by blast
    qed
  next
    case r
    then have "\<exists>vs. r = vs @ t @ v \<or> t @ v = c # r" by (cases us) auto
    then show ?thesis using assms(1,2) by (cases t) (auto simp: contains_iff)
  qed
qed

lemma redactable_D:
  assumes "redactable s"
  shows "s \<noteq> []" "CHR ''['' \<notin> set s" "CHR '']'' \<notin> set s" "contains ''redacted'' s = False"
  using assms by (simp_all only: redactable_def not_False_eq_True simp_thms)

lemma after_redacted:
  assumes "redactable t" "contains (''[redacted]'' @ r) t"
  shows "contains r t"
proof -
  note d = redactable_D [OF assms(1)]
  have "contains ([] @ CHR ''['' # (''redacted'' @ CHR '']'' # r)) t" using assms(2) by (simp only: append.simps)
  from contains_across [OF d(2,1) this] have "contains (''redacted'' @ CHR '']'' # r) t"
    using d(1) by (simp only: contains.simps simp_thms)
  from contains_across [OF d(3,1) this] show ?thesis by (simp only: d(4) simp_thms)
qed

lemma replace_all_prefix:
  assumes "CHR ''['' \<notin> set t" "has_prefix (replace_all s old (CHR ''['' # m)) t"
  shows "has_prefix s t"
  using assms
proof (induction s old "CHR ''['' # m" arbitrary: t rule: replace_all.induct)
  case (2 x xs old)
  then show ?case by (cases t) (auto simp: has_prefix_def split: if_splits)
qed auto

lemma replace_all_contains:
  assumes "redactable t" "contains (replace_all s old ''[redacted]'') t"
  shows "contains s t"
  using assms
proof (induction s old "''[redacted]''" rule: replace_all.induct)
  case (2 x xs old)
  show ?case
  proof (cases "old \<noteq> [] \<and> has_prefix (x # xs) old")
    case True
    then have "contains (''[redacted]'' @ replace_all (drop (length old) (x # xs)) old ''[redacted]'') t"
      using 2(4) by (simp only: replace_all.simps if_True simp_thms)
    then have "contains (drop (length old) (x # xs)) t"
      using 2(1) [OF True 2(3)] after_redacted [OF 2(3)] by blast
    then show ?thesis by (metis append_take_drop_id contains_iff append_assoc)
  next
    case False
    then have r: "replace_all (x # xs) old ''[redacted]'' = x # replace_all xs old ''[redacted]''"
      by (simp only: replace_all.simps if_False simp_thms)
    from 2(4) consider "has_prefix (replace_all (x # xs) old ''[redacted]'') t" | "contains (replace_all xs old ''[redacted]'') t"
      unfolding r contains.simps by blast
    then show ?thesis
      using 2(2) [OF False 2(3)] replace_all_prefix [OF redactable_D(2) [OF 2(3)]] unfolding contains.simps by cases blast+
  qed
qed (simp only: replace_all.simps)

lemma replace_all_removes:
  assumes "redactable t"
  shows "\<not> contains (replace_all s t ''[redacted]'') t"
  using assms
proof (induction s t "''[redacted]''" rule: replace_all.induct)
  case (1 old)
  then show ?case by (auto dest: redactable_D)
next
  case (2 x xs t)
  show ?case
  proof (cases "t \<noteq> [] \<and> has_prefix (x # xs) t")
    case True
    then have "replace_all (x # xs) t ''[redacted]'' = ''[redacted]'' @ replace_all (drop (length t) (x # xs)) t ''[redacted]''"
      by (simp only: replace_all.simps if_True simp_thms)
    then show ?thesis using 2(1) [OF True 2(3)] after_redacted [OF 2(3)] by metis
  next
    case False
    then have r: "replace_all (x # xs) t ''[redacted]'' = x # replace_all xs t ''[redacted]''"
      by (simp only: replace_all.simps if_False simp_thms)
    have "\<not> has_prefix (replace_all (x # xs) t ''[redacted]'') t"
      using False redactable_D(1) [OF 2(3)] replace_all_prefix [OF redactable_D(2) [OF 2(3)]] by blast
    then show ?thesis using 2(2) [OF False 2(3)] unfolding r contains.simps by blast
  qed
qed

lemma Redact_Nil: "Redact t [] = t"
  by (simp add: Redact_def)

lemma Redact_Cons: "Redact t (s # ss) = Redact (if s = [] then t else replace_all t s ''[redacted]'') ss"
  by (simp add: Redact_def)

lemma Redact_keeps_out: "redactable s \<Longrightarrow> contains (Redact t ss) s \<Longrightarrow> contains t s"
proof (induction ss arbitrary: t)
  case (Cons a ss)
  then have "contains (if a = [] then t else replace_all t a ''[redacted]'') s"
    unfolding Redact_Cons by blast
  then show ?case
    by (cases "a = []") (simp_all only: if_True if_False simp_thms replace_all_contains [OF Cons.prems(1)])
qed (simp add: Redact_Nil)

lemma Redact_removes:
  assumes "s \<in> set ss" "redactable s"
  shows "\<not> contains (Redact t ss) s"
  using assms
proof (induction ss arbitrary: t)
  case (Cons a ss)
  show ?case
  proof (cases "a = s")
    case True
    then have e: "Redact t (a # ss) = Redact (replace_all t s ''[redacted]'') ss"
      using redactable_D(1) [OF assms(2)] by (simp add: Redact_Cons)
    show ?thesis unfolding e using Redact_keeps_out [OF assms(2)] replace_all_removes [OF assms(2)] by blast
  next
    case False
    then have "s \<in> set ss" using Cons.prems(1) by simp
    then show ?thesis using Cons.IH assms(2) unfolding Redact_Cons by blast
  qed
qed simp

section \<open>Admission and dials\<close>

lemma guardDial_None:
  "guardDial address = None \<longleftrightarrow>
     (\<exists>host port a. SplitHostPort address = Some (host, port) \<and> ParseAddr host = Some a \<and> IsPublic a)"
  by (auto simp: guardDial_def split: option.splits if_splits)

lemma guardDial_Some: "guardDial address = Some e \<Longrightarrow> e = Sentinel ErrNonPublicDestination"
  by (auto simp: guardDial_def split: option.splits if_splits)

lemma never_admitted_Unmap: "never_admitted (Unmap a) = never_admitted a \<or> IsUnspecified (Unmap a)"
  by (cases a) (auto simp: never_admitted_def IsLinkLocalUnicast_def IsLinkLocalMulticast_def
      IsMulticast_def IsInterfaceLocalMulticast_def)

lemma admit_loop_Inr:
  "admit_loop origin as adm = Inr adm' \<Longrightarrow>
     ad_authority adm' = ad_authority adm \<and>
     set (ad_addresses adm') = set (ad_addresses adm) \<union>
       (\<lambda>a. (Unmap a, nat (or_Port origin mod 65536))) ` set as \<and>
     (\<forall>a \<in> set as. \<not> never_admitted (Unmap a))"
proof (induction as arbitrary: adm)
  case (Cons a as)
  then have "\<not> never_admitted (Unmap a)" by (auto simp: Let_def split: if_splits)
  with Cons show ?case by (auto simp: Let_def)
qed simp

lemma admit_loop_Inl:
  "admit_loop origin as adm = Inl e \<Longrightarrow> e = refused_endpoint origin"
  by (induction as arbitrary: adm) (auto simp: Let_def split: if_splits)

definition endpoint_addresses :: "EgressEnv \<Rightarrow> Origin \<Rightarrow> goerr + Addr list" where
  "endpoint_addresses env origin = (case ParseAddr (or_Host origin) of
     Some literal \<Rightarrow> Inr [literal] | None \<Rightarrow> LookupNetIP env (or_Host origin))"

lemma Qualify_Inr:
  assumes "Qualify env endpoint composed = Inr adm"
  obtains origin addrs where "NormalizeOrigin env endpoint = Inr origin"
    "endpoint_addresses env origin = Inr addrs"
    "if or_HostPort origin \<in> composed
     then ad_authority adm = or_HostPort origin \<and>
       set (ad_addresses adm) = (\<lambda>a. (Unmap a, nat (or_Port origin mod 65536))) ` set addrs \<and>
       (\<forall>a \<in> set addrs. \<not> never_admitted (Unmap a))
     else adm = no_admission \<and> (\<forall>a \<in> set addrs. IsPublic a)"
proof -
  from assms obtain origin addrs where o: "NormalizeOrigin env endpoint = Inr origin"
    "endpoint_addresses env origin = Inr addrs"
    "(if or_HostPort origin \<in> composed
      then admit_loop origin addrs \<lparr>ad_authority = or_HostPort origin, ad_addresses = []\<rparr>
      else if list_ex (\<lambda>a. \<not> IsPublic a) addrs then Inl (refused_endpoint origin)
      else Inr no_admission) = Inr adm"
    unfolding Qualify_def endpoint_addresses_def [symmetric] by (auto split: sum.splits)
  show thesis
    by (rule that [OF o(1,2)]) (use o(3) in \<open>auto simp: list_ex_iff dest: admit_loop_Inr split: if_splits\<close>)
qed

text \<open>What a dial that the guard lets through reaches.\<close>

lemma dial_control_None:
  assumes "fst (dial_control env adm authority address g) = None"
  shows "guardDial address = None \<or>
    (ad_authority adm \<noteq> [] \<and> canonicalAuthority env authority = ad_authority adm \<and> admits adm address)"
  using assms by (auto simp: dial_control_def Let_def split: if_splits option.splits)

lemma dial_control_refused:
  "fst (dial_control env adm authority address g) \<noteq> None \<Longrightarrow>
   g_refused (snd (dial_control env adm authority address g))"
  by (auto simp: dial_control_def Let_def split: if_splits option.splits)

text \<open>The body as a script is the body \<open>Read\<close> delivers, up to the refusal.\<close>

lemma bounded_body_Read:
  assumes "0 < n" "boundedBody_Read n left g body = (res, left', body')"
  shows "fst (read n (bounded_body left g body)) = res \<and>
    ((\<forall>err g'. snd res \<noteq> RErr err g') \<longrightarrow> snd (read n (bounded_body left g body)) = bounded_body left' g body')"
proof (cases body)
  case Nil
  then show ?thesis using assms by (auto simp: boundedBody_Read_def Let_def split: if_splits)
next
  case (Cons be r)
  obtain bs e where "be = (bs, e)" by fastforce
  with Cons show ?thesis using assms
    by (cases bs) (auto simp: boundedBody_Read_def Let_def split: if_splits, (arith | simp add: drop_take)+)
qed

lemma bounded_body_length: "length (fst (read_all (bounded_body left g body))) \<le> left"
proof (induction left g body rule: bounded_body.induct)
  case (2 left g bs e r)
  then show ?case by (cases e) (auto simp: case_prod_beta)
qed simp

lemma bounded_body_within:
  "length (fst (read_all body)) \<le> left \<Longrightarrow> read_all (bounded_body left g body) = read_all body"
proof (induction left g body rule: bounded_body.induct)
  case (2 left g bs e r)
  then show ?case by (cases e) (auto simp: case_prod_beta prod_eq_iff)
qed simp

lemma bounded_body_over:
  "length (fst (read_all body)) > left \<Longrightarrow>
   read_all (bounded_body left g body) =
     (take left (fst (read_all body)), Some (Sentinel ErrResponseTooLarge, g\<lparr>g_tooLarge := True\<rparr>))"
proof (induction left g body rule: bounded_body.induct)
  case (2 left g bs e r)
  then show ?case by (cases e) (auto simp: case_prod_beta prod_eq_iff)
qed simp

section \<open>Properties\<close>

definition public_spec :: "Addr \<Rightarrow> bool" where
  "public_spec a = (case a of
      InvalidAddr \<Rightarrow> False
    | V4 w \<Rightarrow> \<not> in_ranges (unat w) non_public_v4
    | V6 w z \<Rightarrow> z = [] \<and>
        (if is_mapped w then \<not> in_ranges (unat w mod 2 ^ 32) non_public_v4
         else 2 ^ 125 \<le> unat w \<and> unat w < 2 ^ 126 \<and> \<not> in_ranges (unat w) non_public_v6))"

text \<open>C1: an address is public exactly when it is outside the listed closed intervals: for
  IPv4 seventeen of them, for an IPv4-mapped IPv6 address those of the address it embeds, and
  for any other IPv6 address it lies in 2000::/3 outside four intervals and has no zone.\<close>

theorem IsPublic_intervals: "IsPublic a = public_spec a"
proof (cases a)
  case (V6 w z)
  have "unat (ucast w :: 32 word) = unat w mod 2 ^ 32" by (simp only: unsigned_ucast_eq take_bit_eq_mod) simp
  then show ?thesis using V6 IsPublic_V6_unmapped [of w z] IsPublic_mapped [of w z]
      IsPublic_V4_ranges [of "ucast w"]
    by (auto simp: public_spec_def)
next
  case (V4 w)
  then show ?thesis by (simp only: public_spec_def IsPublic_V4_ranges Addr.case)
qed (simp add: public_spec_def IsPublic_def)

text \<open>C2: whatever endpoint was qualified and whatever name the transport asks for, a dial
  the guard lets through reaches a public address, or the call is talking to a composed
  authority, at one of the addresses that very endpoint resolved to, on its port, and that
  address is not link-local, multicast or unspecified.\<close>

theorem dial_reaches:
  assumes "Qualify env endpoint composed = Inr adm"
    and "fst (dial_control env adm authority address g) = None"
  shows "(\<exists>host port a. SplitHostPort address = Some (host, port) \<and> ParseAddr host = Some a \<and> IsPublic a) \<or>
    (\<exists>origin addrs a. NormalizeOrigin env endpoint = Inr origin \<and> or_HostPort origin \<in> composed \<and>
       canonicalAuthority env authority = or_HostPort origin \<and>
       endpoint_addresses env origin = Inr addrs \<and>
       ParseAddrPort address = Some (a, nat (or_Port origin mod 65536)) \<and>
       Unmap a \<in> Unmap ` set addrs \<and> \<not> never_admitted (Unmap a))"
  using dial_control_None [OF assms(2)]
proof
  assume "guardDial address = None"
  then show ?thesis by (auto simp: guardDial_None)
next
  assume d: "ad_authority adm \<noteq> [] \<and> canonicalAuthority env authority = ad_authority adm \<and> admits adm address"
  show ?thesis
  proof (rule Qualify_Inr [OF assms(1)])
    fix origin addrs
    assume o: "NormalizeOrigin env endpoint = Inr origin" "endpoint_addresses env origin = Inr addrs"
      "if or_HostPort origin \<in> composed
       then ad_authority adm = or_HostPort origin \<and>
         set (ad_addresses adm) = (\<lambda>a. (Unmap a, nat (or_Port origin mod 65536))) ` set addrs \<and>
         (\<forall>a \<in> set addrs. \<not> never_admitted (Unmap a))
       else adm = no_admission \<and> (\<forall>a \<in> set addrs. IsPublic a)"
    with d have "or_HostPort origin \<in> composed" by (auto simp: no_admission_def split: if_splits)
    with o d show ?thesis by (fastforce simp: admits_def split: option.splits)
  qed
qed

definition sample_env :: EgressEnv where
  "sample_env = \<lparr>NormalizeOrigin = (\<lambda>u. Inr \<lparr>or_Host = ''minio'', or_Port = 9000, or_HostPort = ''minio:9000''\<rparr>),
     LookupNetIP = (\<lambda>h. Inr [V4 (ip4 10 0 0 5)]), http_ParseTime = (\<lambda>v. None), Now = 0\<rparr>"

lemma dial_reaches_witness:
  "\<exists>a. ParseAddrPort ''10.0.0.5:9000'' = Some (a, 9000) \<and> \<not> IsPublic a \<and> \<not> never_admitted (Unmap a)"
proof -
  have p: "ParseAddr ''10.0.0.5'' = Some (V4 167772165)" "ParseAddrPort ''10.0.0.5:9000'' = Some (V4 167772165, 9000)"
    "SplitHostPort ''10.0.0.5:9000'' = Some (''10.0.0.5'', ''9000'')" "ParseAddr ''minio'' = None"
    by (simp_all add: parse_defs ip4_def)
  have n: "\<not> IsPublic (V4 167772165)" "\<not> never_admitted (V4 (ip4 10 0 0 5))"
    by (simp_all add: IsPublic_V4_ranges in_ranges_def non_public_v4_def v4_num_def never_admitted_def v4_classes ip4_def)
  have q: "Qualify sample_env ''http://minio:9000'' {''minio:9000''} =
      Inr \<lparr>ad_authority = ''minio:9000'', ad_addresses = [(V4 167772165, 9000)]\<rparr>"
    using n by (simp add: Qualify_def sample_env_def p) (simp add: ip4_def)
  have d: "fst (dial_control sample_env \<lparr>ad_authority = ''minio:9000'', ad_addresses = [(V4 167772165, 9000)]\<rparr>
      ''minio:9000'' ''10.0.0.5:9000'' (new_guard 0)) = None"
    by (simp add: dial_control_def canonicalAuthority_def sample_env_def admits_def p)
  show ?thesis using dial_reaches [OF q d] p n by auto
qed

text \<open>C27: after an exchange no secret of the call is left in any header of the response, nor in
  the body of an error response, and the credential the request carried is among the secrets.
  A secret counts when it has no bracket and is not part of the word that replaces it.\<close>

theorem RoundTrip_redacts:
  assumes "RoundTrip env authorization answer g0 = (Inr (Some resp), g)"
    and "s \<in> set (g_sent g)" "redactable s"
  shows "(authorization \<noteq> [] \<longrightarrow> authorization \<in> set (g_sent g)) \<and>
    \<not> list_ex (\<lambda>(n, vs). list_ex (\<lambda>v. contains v s) vs) (rs_Header resp) \<and>
    (rs_StatusCode resp \<ge> 400 \<longrightarrow>
      (case rs_Body resp of None \<Rightarrow> True | Some b \<Rightarrow> \<not> contains (fst (read_all b)) s))"
proof -
  define g1 where "g1 = (if authorization \<noteq> [] then guard_record authorization g0 else g0)"
  obtain resp0 where a: "answer = Inr (Some resp0)"
    using assms(1) unfolding RoundTrip_def Let_def by (cases answer) (auto split: option.splits)
  have sent: "g_sent (note_retry_after env r g1) = g_sent g1" for r
    by (auto simp: note_retry_after_def Let_def)
  have auth: "authorization \<noteq> [] \<Longrightarrow> authorization \<in> set (g_sent g1)"
    by (auto simp: g1_def guard_record_def add_sent_def)
  note clean = Redact_removes [OF _ assms(3)]
  have "g_sent g = g_sent g1" "g_sent g1 \<noteq> []" using assms(1,2)
    by (auto simp: RoundTrip_def a g1_def [symmetric] Let_def sent split: if_splits option.splits prod.splits)
  then have s: "s \<in> set (g_sent g1)" using assms(2) by simp
  have h: "\<not> list_ex (\<lambda>(n, vs). list_ex (\<lambda>v. contains v s) vs) (redact_headers (g_sent g1) h)" for h
    by (auto simp: redact_headers_def list_ex_iff clean [OF s])
  have hd: "\<not> list_ex (\<lambda>(n, vs). list_ex (\<lambda>v. contains v s) vs) (header_Del (redact_headers (g_sent g1) h) n)" for h n
    using h [of h] by (auto simp: header_Del_def list_ex_iff)
  show ?thesis
    using assms(1) \<open>g_sent g = g_sent g1\<close> \<open>g_sent g1 \<noteq> []\<close> auth h hd clean [OF s]
    by (auto simp: RoundTrip_def a g1_def [symmetric] Let_def sent split: if_splits option.splits prod.splits)
qed

lemma RoundTrip_redacts_witness:
  "\<exists>b. RoundTrip sample_env ''Bearer tok'' (Inr (Some \<lparr>rs_StatusCode = 403, rs_Header = [(''X'', [''a tok b''])],
      rs_Body = Some [(''no tok'', RNil)], rs_ContentLength = 6\<rparr>)) (new_guard 0) = b \<and>
    (\<exists>resp g. b = (Inr (Some resp), g) \<and> ''tok'' \<in> set (g_sent g) \<and>
      \<not> list_ex (\<lambda>(n, vs). list_ex (\<lambda>v. contains v ''tok'') vs) (rs_Header resp) \<and>
      rs_Header resp = [(''X'', [''a [redacted] b''])])"
proof -
  let ?r = "\<lparr>rs_StatusCode = 403, rs_Header = [(''X'', [''a [redacted] b''])],
      rs_Body = Some [(''no [redacted]'', RNil)], rs_ContentLength = 13\<rparr>"
  let ?g = "(new_guard 0)\<lparr>g_sent := [''Bearer tok'', ''tok'']\<rparr>"
  have b: "RoundTrip sample_env ''Bearer tok'' (Inr (Some \<lparr>rs_StatusCode = 403, rs_Header = [(''X'', [''a tok b''])],
      rs_Body = Some [(''no tok'', RNil)], rs_ContentLength = 6\<rparr>)) (new_guard 0) = (Inr (Some ?r), ?g)"
    by (simp add: RoundTrip_def guard_record_def add_sent_def new_guard_def trim_prefix_def has_prefix_def
        note_retry_after_def bound_response_def redact_headers_def Redact_def header_Del_def
        maxRedactedErrorBody_def bytes_reader_def)
  have s: "''tok'' \<in> set (g_sent ?g)" "redactable ''tok''" by (simp_all add: redactable_def has_prefix_def)
  show ?thesis using RoundTrip_redacts [OF b s] b by auto
qed

text \<open>the bound on a response body is exact. A body within it reads as it is, a longer one
  delivers the first bytes up to the bound and then fails with the recorded refusal.\<close>

theorem bounded_body_exact:
  "read_all (bounded_body left g body) =
    (if length (fst (read_all body)) \<le> left then read_all body
     else (take left (fst (read_all body)), Some (Sentinel ErrResponseTooLarge, g\<lparr>g_tooLarge := True\<rparr>)))"
  using bounded_body_within bounded_body_over by auto

text \<open>C38: what a reader of the bounded body sees, read by read and for any buffer, is the same
  bounded body: each \<open>Read\<close> delivers what the script delivers and leaves the rest of it,
  until the refusal ends it.\<close>

theorem boundedBody_refines:
  "(case boundedBody_Read (Suc n) left g body of (res, left', body') \<Rightarrow>
     fst (read (Suc n) (bounded_body left g body)) = res \<and>
     ((case snd res of RErr _ _ \<Rightarrow> True
       | _ \<Rightarrow> snd (read (Suc n) (bounded_body left g body)) = bounded_body left' g body')))"
proof -
  obtain res left' body' where r: "boundedBody_Read (Suc n) left g body = (res, left', body')"
    by (metis prod_cases3)
  show ?thesis using bounded_body_Read [OF _ r] by (auto simp: r split: rerr.splits)
qed

section \<open>Retry-After\<close>

lemma space_seqs_no_digit:
  "list_all (\<lambda>q. digit_val (hd q) = None) space_seqs" "list_all (\<lambda>q. digit_val (hd q) = None) (map rev space_seqs)"
  by code_simp+

lemma strip_seqs_digits:
  assumes "s \<noteq> [] \<Longrightarrow> digit_val (hd s) \<noteq> None" "list_all (\<lambda>q. digit_val (hd q) = None) qs"
  shows "strip_seqs qs s = s"
proof -
  have "\<not> (q \<noteq> [] \<and> has_prefix s q)" if "q \<in> set qs" for q
  proof
    assume q: "q \<noteq> [] \<and> has_prefix s q"
    then have "hd q = hd s" "s \<noteq> []" by (auto simp: has_prefix_iff hd_append)
    with assms that show False by (auto simp: list_all_iff)
  qed
  then have "find (\<lambda>q. q \<noteq> [] \<and> has_prefix s q) qs = None" by (auto simp: find_None_iff)
  then show ?thesis by (subst strip_seqs.simps) simp
qed

lemma trim_space_dec: "trim_space (dec_nat n) = dec_nat n"
proof -
  have h: "digit_val (hd (dec_nat n)) \<noteq> None" "digit_val (hd (rev (dec_nat n))) \<noteq> None"
    by (rule dec_nat_digits [of _ n], simp add: hd_rev)+
  show ?thesis unfolding trim_space_def
    by (simp only: strip_seqs_digits [OF h(1) space_seqs_no_digit(1)]
        strip_seqs_digits [OF h(2) space_seqs_no_digit(2)] rev_rev_ident)
qed

lemma retryAfter_dec:
  "0 < n \<Longrightarrow> int n < 2 ^ 63 \<Longrightarrow> retryAfter env (dec_nat n) = wrap64 (int n * 1000000000)"
  by (simp add: retryAfter_def trim_space_dec atoi_dec)

text \<open>A Retry-After in whole seconds is the delay the guard reports, as long as the delay in
  nanoseconds fits a \<open>time.Duration\<close>.\<close>

theorem retryAfter_seconds:
  assumes "0 < n" "n \<le> 9223372036"
  shows "retryAfter env (dec_nat n) = int n * 1000000000"
  using assms retryAfter_dec [of n env] by (simp add: wrap64_id in_int64_def)

lemma retryAfter_seconds_witness: "retryAfter sample_env (dec_nat 120) = 120000000000"
  using retryAfter_seconds [of 120 sample_env] by simp

text \<open>a Retry-After whose nanoseconds do not fit wraps around: the store asks for 584 years
  and the guard reports 290 milliseconds, or, one second past the bound, a negative delay that
  its caller drops.\<close>

theorem retryAfter_wraps:
  "retryAfter env (dec_nat 18446744074) = 290448384 \<and> retryAfter env (dec_nat 9223372037) < 0"
  using retryAfter_dec [of 18446744074 env] retryAfter_dec [of 9223372037 env] by (simp add: wrap64_def)

end
