(* ===== verification/Backend.thy ===== *)
theory Backend
  imports Reader
begin

text \<open>
  The provider-agnostic contract (internal/backend/backend.go): its data types as
  records, the \<open>Backend\<close> interface as a record of operations over a state of
  type \<open>'w\<close>, and the locale \<open>object_store\<close> that states what the
  gateway relies on when it calls one. An operation takes the call's context and the
  state and returns its outcome with the new state.
\<close>

section \<open>Data types\<close>

record ctx =
  ctx_Deadline :: "gotime option"

definition background :: ctx where
  "background = \<lparr>ctx_Deadline = None\<rparr>"

text \<open>\<open>context.WithTimeout\<close>: the earlier of the parent's deadline and the new one.\<close>

definition WithTimeout :: "gotime \<Rightarrow> int \<Rightarrow> ctx \<Rightarrow> ctx" where
  "WithTimeout now budget c = c\<lparr>ctx_Deadline := Some (case ctx_Deadline c of
      None \<Rightarrow> now + budget | Some d \<Rightarrow> min d (now + budget))\<rparr>"

datatype ProbeStrategy = ProbeUnset | ProbeList | ProbeStat | ProbeOther string

record Config =
  cfg_Kind :: string
  cfg_Bucket :: string
  cfg_Prefix :: string
  cfg_Region :: string
  cfg_Endpoint :: string
  cfg_UsePathStyle :: bool
  cfg_AccessKey :: string
  cfg_SecretKey :: string
  cfg_GCSCredentialsFile :: string
  cfg_AzureAccount :: string
  cfg_AzureKey :: string
  cfg_PresignMaxExpiry :: int
  cfg_ProbeStrategy :: ProbeStrategy
  cfg_ProbeKey :: string
  cfg_HTTPClient :: bool
  cfg_GCSCredentialsJSON :: bytes
  cfg_GCSAccessToken :: string

definition zero_config :: Config where
  "zero_config = \<lparr>cfg_Kind = [], cfg_Bucket = [], cfg_Prefix = [], cfg_Region = [],
     cfg_Endpoint = [], cfg_UsePathStyle = False, cfg_AccessKey = [], cfg_SecretKey = [],
     cfg_GCSCredentialsFile = [], cfg_AzureAccount = [], cfg_AzureKey = [],
     cfg_PresignMaxExpiry = 0, cfg_ProbeStrategy = ProbeUnset, cfg_ProbeKey = [],
     cfg_HTTPClient = False, cfg_GCSCredentialsJSON = [], cfg_GCSAccessToken = []\<rparr>"

definition Strategy :: "Config \<Rightarrow> ProbeStrategy" where
  "Strategy c = (if cfg_ProbeStrategy c = ProbeUnset then ProbeList else cfg_ProbeStrategy c)"

record ObjectInfo =
  oi_Key :: string
  oi_ETag :: string
  oi_WeakETag :: bool
  oi_Size :: int
  oi_LastModified :: gotime
  oi_VersionID :: string
  oi_Generation :: int
  oi_MetaGeneration :: int
  oi_ContentType :: string
  oi_ContentEncoding :: string
  oi_CacheControl :: string
  oi_UserMetadata :: meta

definition zero_info :: ObjectInfo where
  "zero_info = \<lparr>oi_Key = [], oi_ETag = [], oi_WeakETag = False, oi_Size = 0,
     oi_LastModified = 0, oi_VersionID = [], oi_Generation = 0, oi_MetaGeneration = 0,
     oi_ContentType = [], oi_ContentEncoding = [], oi_CacheControl = [], oi_UserMetadata = []\<rparr>"

record ByteRange =
  br_Offset :: int
  br_Length :: int

record GetOptions =
  go_Range :: "ByteRange option"
  go_IfNoneMatch :: string
  go_IfMatch :: string
  go_IfModifiedSince :: gotime
  go_VersionID :: string

definition get_options :: "string \<Rightarrow> GetOptions" where
  "get_options ifMatch = \<lparr>go_Range = None, go_IfNoneMatch = [], go_IfMatch = ifMatch,
     go_IfModifiedSince = 0, go_VersionID = []\<rparr>"

record GetResult =
  gr_Info :: ObjectInfo
  gr_Body :: reader
  gr_NotModified :: bool

record PutOptions =
  po_ContentType :: string
  po_ContentEncoding :: string
  po_CacheControl :: string
  po_UserMetadata :: meta
  po_IfNoneMatch :: string
  po_IfMatch :: string
  po_Size :: int

record PutResult =
  pr_ETag :: string
  pr_VersionID :: string
  pr_Generation :: int

record DeleteOptions =
  do_VersionID :: string
  do_IfMatch :: string

record ListOptions =
  lo_Prefix :: string
  lo_Delimiter :: string
  lo_PageToken :: string
  lo_Limit :: int

record ListResult =
  lr_Objects :: "ObjectInfo list"
  lr_CommonPrefixes :: "string list"
  lr_NextPageToken :: string

record CopyOptions =
  co_IfNoneMatch :: string

datatype PresignMethod = PresignGet | PresignPut | PresignUnknown int

record PresignResult =
  ps_Method :: PresignMethod
  ps_URL :: string
  ps_Headers :: meta
  ps_ExpiresAt :: gotime

record Capabilities =
  cap_Backend :: string
  cap_ConditionalPut :: bool
  cap_ConditionalCopy :: bool
  cap_AtomicRename :: bool
  cap_Versions :: bool
  cap_Tags :: bool
  cap_Presign :: bool
  cap_PresignMaxExpiry :: int
  cap_PresignAmbientCreds :: bool
  cap_BatchDeleteMax :: int
  cap_NativeVerbs :: "string list"

record DeleteEntry =
  de_Key :: string
  de_Error :: string

section \<open>The Backend interface\<close>

record 'w Backend =
  be_Name :: string
  be_Identity :: string
  be_Capabilities :: Capabilities
  be_Probe :: "ctx \<Rightarrow> 'w \<Rightarrow> goerr option \<times> 'w"
  be_Stat :: "ctx \<Rightarrow> string \<Rightarrow> string \<Rightarrow> 'w \<Rightarrow> (goerr, ObjectInfo) result \<times> 'w"
  be_Get :: "ctx \<Rightarrow> string \<Rightarrow> GetOptions \<Rightarrow> 'w \<Rightarrow> (goerr, GetResult) result \<times> 'w"
  be_Put :: "ctx \<Rightarrow> string \<Rightarrow> reader \<Rightarrow> PutOptions \<Rightarrow> 'w \<Rightarrow> (goerr, PutResult) result \<times> 'w"
  be_Delete :: "ctx \<Rightarrow> string \<Rightarrow> DeleteOptions \<Rightarrow> 'w \<Rightarrow> goerr option \<times> 'w"
  be_DeleteMany :: "ctx \<Rightarrow> string list \<Rightarrow> 'w \<Rightarrow> (DeleteEntry list \<times> goerr option) \<times> 'w"
  be_List :: "ctx \<Rightarrow> ListOptions \<Rightarrow> 'w \<Rightarrow> (goerr, ListResult) result \<times> 'w"
  be_Copy :: "ctx \<Rightarrow> string \<Rightarrow> string \<Rightarrow> CopyOptions \<Rightarrow> 'w \<Rightarrow> (goerr, PutResult) result \<times> 'w"
  be_Presign :: "ctx \<Rightarrow> string \<Rightarrow> PresignMethod \<Rightarrow> int \<Rightarrow> 'w \<Rightarrow> (goerr, PresignResult) result \<times> 'w"
  be_Native :: "ctx \<Rightarrow> string \<Rightarrow> meta \<Rightarrow> 'w \<Rightarrow> (goerr, meta) result \<times> 'w"
  be_Close :: "'w \<Rightarrow> goerr option \<times> 'w"

section \<open>What the gateway relies on\<close>

text \<open>
  An ETag a caller sends back, bare or quoted, that is not the one the object has. Stores
  differ on the wildcard, on malformed tags and on whether the quotes are part of a tag, so
  the contract says nothing of those.
\<close>

definition bare :: "string \<Rightarrow> string" where
  "bare t = trim_char (CHR 0x22) t"

definition differ :: "string \<Rightarrow> string \<Rightarrow> bool" where
  "differ im tag \<longleftrightarrow> bare im \<noteq> [] \<and> bare im \<noteq> ''*'' \<and> CHR 0x22 \<notin> set (bare im) \<and>
     (im = bare im \<or> im = quoted (bare im)) \<and> bare im \<noteq> bare tag"

lemma differD:
  assumes "differ im tag"
  shows "im \<noteq> []" "im \<noteq> tag"
  using assms by (auto simp: differ_def quoted_def)

text \<open>
  The contract of a store, over the map from keys to contents and ETags it holds. It
  states the conditional semantics backend.go documents for the options the gateway's
  read and write paths use; \<open>inv\<close> is the implementation's own invariant. A plain
  store promises nothing for an upload whose reader fails; an object store keeps it out.
\<close>

locale plain_store =
  fixes be :: "'w Backend"
    and view :: "'w \<Rightarrow> string \<Rightarrow> (bytes \<times> string) option"
    and inv :: "'w \<Rightarrow> bool"
  assumes get_found: "inv w \<Longrightarrow> view w k = Some (d, tag) \<Longrightarrow> im = [] \<or> im = tag \<Longrightarrow>
      \<exists>res w'. be_Get be c k (get_options im) w = (Ok res, w') \<and> \<not> gr_NotModified res
        \<and> read_all (gr_Body res) = (d, None) \<and> oi_Key (gr_Info res) = k
        \<and> oi_ETag (gr_Info res) = tag \<and> oi_Size (gr_Info res) = int (length d)
        \<and> view w' = view w \<and> inv w'"
    and get_changed: "inv w \<Longrightarrow> view w k = Some (d, tag) \<Longrightarrow> differ im tag \<Longrightarrow>
      \<exists>e w'. be_Get be c k (get_options im) w = (Err e, w') \<and> CodeOf e = PreconditionFailed
        \<and> \<not> errors_is e ErrBucketNotFound \<and> view w' = view w \<and> inv w'"
    and get_missing: "inv w \<Longrightarrow> view w k = None \<Longrightarrow>
      \<exists>e w'. be_Get be c k (get_options im) w = (Err e, w') \<and> CodeOf e = NotFound
        \<and> \<not> errors_is e ErrBucketNotFound \<and> view w' = view w \<and> inv w'"
    and put_stored: "inv w \<Longrightarrow> read_all r = (d, None) \<Longrightarrow> po_IfMatch opts = [] \<Longrightarrow>
      po_IfNoneMatch opts = [] \<or> po_IfNoneMatch opts = ''*'' \<and> view w k = None \<Longrightarrow>
      \<exists>res w'. be_Put be c k r opts w = (Ok res, w') \<and> inv w'
        \<and> view w' = (view w)(k := Some (d, pr_ETag res)) \<and> pr_ETag res \<noteq> []"
    and put_exists: "inv w \<Longrightarrow> read_all r = (d, None) \<Longrightarrow> po_IfNoneMatch opts = ''*'' \<Longrightarrow>
      view w k \<noteq> None \<Longrightarrow> po_IfMatch opts = [] \<Longrightarrow>
      \<exists>e w'. be_Put be c k r opts w = (Err e, w') \<and> CodeOf e = AlreadyExists
        \<and> view w' = view w \<and> inv w'"
    and put_swapped: "inv w \<Longrightarrow> read_all r = (d, None) \<Longrightarrow> po_IfNoneMatch opts = [] \<Longrightarrow>
      po_IfMatch opts = tag \<Longrightarrow> view w k = Some (old, tag) \<Longrightarrow>
      \<exists>res w'. be_Put be c k r opts w = (Ok res, w') \<and> inv w'
        \<and> view w' = (view w)(k := Some (d, pr_ETag res)) \<and> pr_ETag res \<noteq> []"
    and put_stale: "inv w \<Longrightarrow> read_all r = (d, None) \<Longrightarrow> po_IfNoneMatch opts = [] \<Longrightarrow>
      po_IfMatch opts = im \<Longrightarrow> view w k = Some (old, tag) \<Longrightarrow> differ im tag \<Longrightarrow>
      \<exists>e w'. be_Put be c k r opts w = (Err e, w') \<and> CodeOf e = PreconditionFailed
        \<and> view w' = view w \<and> inv w'"
    and put_absent: "inv w \<Longrightarrow> read_all r = (d, None) \<Longrightarrow> po_IfNoneMatch opts = [] \<Longrightarrow>
      po_IfMatch opts \<noteq> [] \<Longrightarrow> view w k = None \<Longrightarrow>
      \<exists>e w'. be_Put be c k r opts w = (Err e, w') \<and> view w' = view w \<and> inv w'"
    and delete_done: "inv w \<Longrightarrow> do_VersionID dopts = [] \<Longrightarrow> do_IfMatch dopts = [] \<Longrightarrow>
      \<exists>w'. be_Delete be c k dopts w = (None, w') \<and> view w' = (view w)(k := None) \<and> inv w'"
    and delete_matched: "inv w \<Longrightarrow> do_VersionID dopts = [] \<Longrightarrow> do_IfMatch dopts = tag \<Longrightarrow>
      view w k = Some (old, tag) \<Longrightarrow>
      \<exists>w'. be_Delete be c k dopts w = (None, w') \<and> view w' = (view w)(k := None) \<and> inv w'"
    and delete_stale: "inv w \<Longrightarrow> do_VersionID dopts = [] \<Longrightarrow> do_IfMatch dopts = im \<Longrightarrow> view w k = Some (old, tag) \<Longrightarrow>
      differ im tag \<Longrightarrow>
      \<exists>e w'. be_Delete be c k dopts w = (Some e, w') \<and> CodeOf e = PreconditionFailed
        \<and> view w' = view w \<and> inv w'"

locale object_store = plain_store be view inv
  for be :: "'w Backend" and view :: "'w \<Rightarrow> string \<Rightarrow> (bytes \<times> string) option" and inv :: "'w \<Rightarrow> bool" +
  assumes put_broken: "inv w \<Longrightarrow> read_all r = (d, Some (err, g)) \<Longrightarrow>
      \<exists>e w'. be_Put be c k r opts w = (Err e, w') \<and> view w' = view w \<and> inv w'"

text \<open>
  A store without versions that compares ETags as strings and fails the precondition when
  the object is gone, as the in-memory one does, meets a stricter contract. (S3 answers a
  conditional write of a missing key as not found and a conditional delete of one as done.)
\<close>

locale strict_store = object_store be view inv
  for be :: "'w Backend" and view :: "'w \<Rightarrow> string \<Rightarrow> (bytes \<times> string) option" and inv :: "'w \<Rightarrow> bool" +
  assumes get_mismatch: "inv w \<Longrightarrow> view w k = Some (d, tag) \<Longrightarrow> im \<noteq> [] \<Longrightarrow> im \<noteq> tag \<Longrightarrow>
      \<exists>e w'. be_Get be c k (get_options im) w = (Err e, w') \<and> CodeOf e = PreconditionFailed
        \<and> \<not> errors_is e ErrBucketNotFound \<and> view w' = view w \<and> inv w'"
    and put_present: "inv w \<Longrightarrow> read_all r = (d, None) \<Longrightarrow> po_IfNoneMatch opts = ''*'' \<Longrightarrow>
      view w k \<noteq> None \<Longrightarrow>
      \<exists>e w'. be_Put be c k r opts w = (Err e, w') \<and> CodeOf e = AlreadyExists
        \<and> view w' = view w \<and> inv w'"
    and put_mismatch: "inv w \<Longrightarrow> read_all r = (d, None) \<Longrightarrow> po_IfNoneMatch opts = [] \<Longrightarrow>
      po_IfMatch opts = im \<Longrightarrow> im \<noteq> [] \<Longrightarrow> \<forall>old. view w k \<noteq> Some (old, im) \<Longrightarrow>
      \<exists>e w'. be_Put be c k r opts w = (Err e, w') \<and> CodeOf e = PreconditionFailed
        \<and> view w' = view w \<and> inv w'"
    and delete_unversioned: "be_Delete be c k dopts w = be_Delete be c k (dopts\<lparr>do_VersionID := []\<rparr>) w"
    and delete_mismatch: "inv w \<Longrightarrow> do_IfMatch dopts = im \<Longrightarrow> im \<noteq> [] \<Longrightarrow> \<forall>old. view w k \<noteq> Some (old, im) \<Longrightarrow>
      \<exists>e w'. be_Delete be c k dopts w = (Some e, w') \<and> CodeOf e = PreconditionFailed
        \<and> view w' = view w \<and> inv w'"
begin

lemma delete_all:
  assumes "inv w" "do_IfMatch dopts = []"
  shows "\<exists>w'. be_Delete be c k dopts w = (None, w') \<and> view w' = (view w)(k := None) \<and> inv w'"
  using delete_done [of w "dopts\<lparr>do_VersionID := []\<rparr>" c k] assms delete_unversioned [of c k dopts] by simp

end

text \<open>
  A condition a plain store answers for: none, the object's own ETag, or one that differs from
  it in more than its quotes; a strict store answers every condition.
\<close>

definition clear_condition :: "(string \<Rightarrow> (bytes \<times> string) option) \<Rightarrow> string \<Rightarrow> string \<Rightarrow> bool" where
  "clear_condition content k im \<longleftrightarrow> (case content k of
      None \<Rightarrow> True | Some (d, tag) \<Rightarrow> im = [] \<or> im = tag \<or> differ im tag)"

lemmas backend_defs = background_def zero_config_def zero_info_def get_options_def

end
