(* ===== verification/Base64.thy ===== *)
theory Base64
  imports Prelude
begin

text \<open>
  Go's URL-safe base64, as the page tokens use it: \<open>base64.RawURLEncoding\<close> (the
  in-memory store) and \<open>base64.URLEncoding\<close> with padding (the MinIO backend).
  The decoders skip line breaks and ignore trailing bits, as Go's do. Both decoders undo
  their encoders.
\<close>

definition b64_char :: "nat \<Rightarrow> char" where
  "b64_char n = char_of (if n < 26 then n + 65 else if n < 52 then n + 71
     else if n < 62 then n - 4 else if n = 62 then 45 else (95::nat))"

definition b64_val :: "char \<Rightarrow> nat option" where
  "b64_val c = (let n = of_char c :: nat in
     if 65 \<le> n \<and> n \<le> 90 then Some (n - 65)
     else if 97 \<le> n \<and> n \<le> 122 then Some (n - 71)
     else if 48 \<le> n \<and> n \<le> 57 then Some (n + 4)
     else if n = 45 then Some 62 else if n = 95 then Some 63 else None)"

fun b64_raw_encode :: "string \<Rightarrow> string" where
  "b64_raw_encode [] = []"
| "b64_raw_encode [a] = (let x = of_char a :: nat in
     [b64_char (x div 4), b64_char (x mod 4 * 16)])"
| "b64_raw_encode [a, b] = (let x = of_char a :: nat; y = of_char b :: nat in
     [b64_char (x div 4), b64_char (x mod 4 * 16 + y div 16), b64_char (y mod 16 * 4)])"
| "b64_raw_encode (a # b # c # r) =
     (let x = of_char a :: nat; y = of_char b :: nat; z = of_char c :: nat in
     b64_char (x div 4) # b64_char (x mod 4 * 16 + y div 16)
       # b64_char (y mod 16 * 4 + z div 64) # b64_char (z mod 64) # b64_raw_encode r)"

definition b64_encode :: "string \<Rightarrow> string" where
  "b64_encode s = b64_raw_encode s @ replicate ((3 - length s mod 3) mod 3) (CHR ''='')"

definition no_breaks :: "string \<Rightarrow> string" where
  "no_breaks = filter (\<lambda>c. c \<noteq> CHR 0x0A \<and> c \<noteq> CHR 0x0D)"

fun opt_cons :: "char list \<Rightarrow> string option \<Rightarrow> string option" where
  "opt_cons bs None = None"
| "opt_cons bs (Some r) = Some (bs @ r)"

definition quantum2 :: "nat \<Rightarrow> nat \<Rightarrow> string" where
  "quantum2 p q = [char_of (p * 4 + q div 16)]"

definition quantum3 :: "nat \<Rightarrow> nat \<Rightarrow> nat \<Rightarrow> string" where
  "quantum3 p q r = [char_of (p * 4 + q div 16), char_of (q mod 16 * 16 + r div 4)]"

definition quantum4 :: "nat \<Rightarrow> nat \<Rightarrow> nat \<Rightarrow> nat \<Rightarrow> string" where
  "quantum4 p q r s = [char_of (p * 4 + q div 16), char_of (q mod 16 * 16 + r div 4),
     char_of (r mod 4 * 64 + s)]"

fun b64_raw_quanta :: "string \<Rightarrow> string option" where
  "b64_raw_quanta [] = Some []"
| "b64_raw_quanta [a] = None"
| "b64_raw_quanta [a, b] = (case (b64_val a, b64_val b) of
     (Some p, Some q) \<Rightarrow> Some (quantum2 p q) | _ \<Rightarrow> None)"
| "b64_raw_quanta [a, b, c] = (case (b64_val a, b64_val b, b64_val c) of
     (Some p, Some q, Some r) \<Rightarrow> Some (quantum3 p q r) | _ \<Rightarrow> None)"
| "b64_raw_quanta (a # b # c # d # rest) = (case (b64_val a, b64_val b, b64_val c, b64_val d) of
     (Some p, Some q, Some r, Some s) \<Rightarrow> opt_cons (quantum4 p q r s) (b64_raw_quanta rest)
   | _ \<Rightarrow> None)"

fun b64_quanta :: "string \<Rightarrow> string option" where
  "b64_quanta [] = Some []"
| "b64_quanta (a # b # c # d # rest) =
     (if c = CHR ''='' then
        (if d = CHR ''='' \<and> rest = [] then (case (b64_val a, b64_val b) of
            (Some p, Some q) \<Rightarrow> Some (quantum2 p q) | _ \<Rightarrow> None) else None)
      else if d = CHR ''='' then
        (if rest = [] then (case (b64_val a, b64_val b, b64_val c) of
            (Some p, Some q, Some r) \<Rightarrow> Some (quantum3 p q r) | _ \<Rightarrow> None) else None)
      else (case (b64_val a, b64_val b, b64_val c, b64_val d) of
            (Some p, Some q, Some r, Some s) \<Rightarrow> opt_cons (quantum4 p q r s) (b64_quanta rest)
          | _ \<Rightarrow> None))"
| "b64_quanta _ = None"

definition b64_raw_decode :: "string \<Rightarrow> string option" where
  "b64_raw_decode s = b64_raw_quanta (no_breaks s)"

definition b64_decode :: "string \<Rightarrow> string option" where
  "b64_decode s = b64_quanta (no_breaks s)"

lemma b64_val_char [simp]: "n < 64 \<Longrightarrow> b64_val (b64_char n) = Some n"
  by (auto simp: b64_val_def b64_char_def Let_def)

lemma b64_char_no_break:
  "n < 64 \<Longrightarrow> b64_char n \<noteq> CHR 0x0A" "n < 64 \<Longrightarrow> b64_char n \<noteq> CHR 0x0D"
  "n < 64 \<Longrightarrow> b64_char n \<noteq> CHR ''=''"
  using b64_val_char by (fastforce simp: b64_val_def Let_def)+

lemma byte_bounds [simp]:
  "(of_char c :: nat) div 4 < 64" "(of_char c :: nat) mod 4 * 16 < 64"
  "(of_char c :: nat) mod 4 * 16 + (of_char d :: nat) div 16 < 64"
  "(of_char c :: nat) mod 16 * 4 < 64"
  "(of_char c :: nat) mod 16 * 4 + (of_char d :: nat) div 64 < 64"
  using nat_of_char_less_256 [of c] nat_of_char_less_256 [of d] by (simp_all, linarith+)

lemma quantum_of_bytes:
  fixes a b c :: char
  defines "x \<equiv> of_char a :: nat" and "y \<equiv> of_char b :: nat" and "z \<equiv> of_char c :: nat"
  shows "quantum2 (x div 4) (x mod 4 * 16) = [a]"
    and "quantum3 (x div 4) (x mod 4 * 16 + y div 16) (y mod 16 * 4) = [a, b]"
    and "quantum4 (x div 4) (x mod 4 * 16 + y div 16) (y mod 16 * 4 + z div 64) (z mod 64) = [a, b, c]"
proof -
  have y: "y div 16 < 16" and z: "z div 64 < 4"
    using nat_of_char_less_256 [of b] nat_of_char_less_256 [of c]
    by (simp_all add: y_def z_def less_mult_imp_div_less)
  have 1: "x div 4 * 4 + (x mod 4 * 16 + y div 16) div 16 = x" using y by simp
  have 2: "(x mod 4 * 16 + y div 16) mod 16 * 16 + (y mod 16 * 4 + z div 64) div 4 = y"
    using y z by simp
  have 3: "(y mod 16 * 4 + z div 64) mod 4 * 64 + z mod 64 = z" using z by simp
  have 4: "(x mod 4 * 16 + y div 16) mod 16 * 16 + (y mod 16 * 4) div 4 = y"
    using y by simp
  have 5: "x div 4 * 4 + x mod 4 * 16 div 16 = x" by simp
  show "quantum2 (x div 4) (x mod 4 * 16) = [a]"
    unfolding quantum2_def 5 by (simp add: x_def)
  show "quantum3 (x div 4) (x mod 4 * 16 + y div 16) (y mod 16 * 4) = [a, b]"
    unfolding quantum3_def 1 4 by (simp add: x_def y_def)
  show "quantum4 (x div 4) (x mod 4 * 16 + y div 16) (y mod 16 * 4 + z div 64) (z mod 64) = [a, b, c]"
    unfolding quantum4_def 1 2 3 by (simp add: x_def y_def z_def)
qed

lemma no_breaks_raw: "no_breaks (b64_raw_encode s) = b64_raw_encode s"
  by (induction s rule: b64_raw_encode.induct)
     (auto simp: no_breaks_def Let_def b64_char_no_break)

lemma raw_quanta_encode: "b64_raw_quanta (b64_raw_encode s) = Some s"
  by (induction s rule: b64_raw_encode.induct) (simp_all add: Let_def quantum_of_bytes)

lemma quanta_encode: "b64_quanta (b64_encode s) = Some s"
  unfolding b64_encode_def
proof (induction s rule: b64_raw_encode.induct)
  case (4 a b c r)
  have "length (a # b # c # r) mod 3 = length r mod 3" by simp
  with 4 show ?case
    by (simp add: Let_def quantum_of_bytes b64_char_no_break del: length_Cons)
qed (simp_all add: Let_def quantum_of_bytes b64_char_no_break numeral_2_eq_2)

lemma b64_raw_roundtrip [simp]: "b64_raw_decode (b64_raw_encode s) = Some s"
  by (simp add: b64_raw_decode_def no_breaks_raw raw_quanta_encode)

lemma b64_roundtrip [simp]: "b64_decode (b64_encode s) = Some s"
proof -
  have "no_breaks (b64_encode s) = b64_encode s"
    using no_breaks_raw [of s] by (simp add: b64_encode_def no_breaks_def)
  then show ?thesis by (simp add: b64_decode_def quanta_encode)
qed

lemma b64_raw_encode_Nil [simp]: "b64_raw_encode s = [] \<longleftrightarrow> s = []"
  by (cases s rule: b64_raw_encode.cases) (auto simp: Let_def)

lemma b64_encode_Nil [simp]: "b64_encode s = [] \<longleftrightarrow> s = []"
  by (auto simp: b64_encode_def)

end
