(* ===== verification/Mem.thy ===== *)
theory Mem
  imports Backend Base64 "HOL-Library.AList"
begin

text \<open>
  The in-memory store (internal/backend/mem/mem.go). The \<open>objs\<close> map is an
  association list with distinct keys; \<open>ms_now\<close> is what \<open>b.now()\<close> reads.
  SHA-256 is a parameter: nothing depends on which function it is. The store meets the
  contract \<open>object_store\<close>, and following its page tokens enumerates every key.
\<close>

section \<open>State and operations\<close>

record MemObject =
  mo_data :: bytes
  mo_info :: ObjectInfo

record MemState =
  ms_objs :: "(string \<times> MemObject) list"
  ms_bucket :: string
  ms_now :: gotime

definition mem_New :: "Config \<Rightarrow> gotime \<Rightarrow> MemState" where
  "mem_New cfg t = \<lparr>ms_objs = [], ms_bucket = cfg_Bucket cfg, ms_now = t\<rparr>"

definition week :: int where "week = 7 * 24 * 3600 * 1000000000"

definition mem_Capabilities :: Capabilities where
  "mem_Capabilities = \<lparr>cap_Backend = ''mem'', cap_ConditionalPut = True, cap_ConditionalCopy = True,
     cap_AtomicRename = False, cap_Versions = False, cap_Tags = False, cap_Presign = True,
     cap_PresignMaxExpiry = week, cap_PresignAmbientCreds = True, cap_BatchDeleteMax = 1000,
     cap_NativeVerbs = []\<rparr>"

definition mem_Probe :: "ctx \<Rightarrow> MemState \<Rightarrow> goerr option \<times> MemState" where
  "mem_Probe c w = (None, w)"

definition hex_digit :: "nat \<Rightarrow> char" where
  "hex_digit n = char_of (if n < 10 then n + 48 else n + 87)"

definition hex_encode :: "bytes \<Rightarrow> string" where
  "hex_encode bs = concat (map (\<lambda>b. [hex_digit (of_char b div 16), hex_digit (of_char b mod 16)]) bs)"

definition etagOf :: "(bytes \<Rightarrow> bytes) \<Rightarrow> bytes \<Rightarrow> string" where
  "etagOf sha256 data = [CHR 0x22] @ hex_encode (sha256 data) @ [CHR 0x22]"

definition mem_Stat :: "ctx \<Rightarrow> string \<Rightarrow> string \<Rightarrow> MemState \<Rightarrow> (goerr, ObjectInfo) result \<times> MemState" where
  "mem_Stat c key v w = (case map_of (ms_objs w) key of
      None \<Rightarrow> (Err (New NotFound ''stat'' key), w)
    | Some o' \<Rightarrow> (Ok (mo_info o'), w))"

text \<open>
  The range of a Get: \<open>start+r.Length\<close> is an int64 addition, and the slice
  expression \<open>data[start:end]\<close> panics when \<open>end\<close> lies below \<open>start\<close>.
\<close>

definition slice_range :: "bytes \<Rightarrow> ByteRange \<Rightarrow> (goerr, bytes) result" where
  "slice_range data r =
     (let start = br_Offset r; size = int (length data)
      in if start < 0 \<or> start > size then Err (New InvalidArgument ''get'' ''range out of bounds'')
         else let stop = (if br_Length r > 0 \<and> wrap64 (start + br_Length r) < size
                          then wrap64 (start + br_Length r) else size)
              in if stop < start then Panic
                 else Ok (take (nat (stop - start)) (drop (nat start) data)))"

definition mem_Get :: "ctx \<Rightarrow> string \<Rightarrow> GetOptions \<Rightarrow> MemState \<Rightarrow> (goerr, GetResult) result \<times> MemState" where
  "mem_Get c key opts w = (case map_of (ms_objs w) key of
      None \<Rightarrow> (Err (New NotFound ''get'' key), w)
    | Some o' \<Rightarrow> (let info = mo_info o' in
        if go_IfNoneMatch opts \<noteq> [] \<and> go_IfNoneMatch opts = oi_ETag info
        then (Ok \<lparr>gr_Info = info, gr_Body = [], gr_NotModified = True\<rparr>, w)
        else if go_IfModifiedSince opts \<noteq> 0 \<and> \<not> (oi_LastModified info > go_IfModifiedSince opts)
        then (Ok \<lparr>gr_Info = info, gr_Body = [], gr_NotModified = True\<rparr>, w)
        else if go_IfMatch opts \<noteq> [] \<and> go_IfMatch opts \<noteq> oi_ETag info
        then (Err (New PreconditionFailed ''get'' ''if-match mismatch''), w)
        else (map_ok (\<lambda>d. \<lparr>gr_Info = info, gr_Body = bytes_reader d, gr_NotModified = False\<rparr>)
                (case go_Range opts of None \<Rightarrow> Ok (mo_data o') | Some r \<Rightarrow> slice_range (mo_data o') r), w)))"

definition mem_Put :: "(bytes \<Rightarrow> bytes) \<Rightarrow> ctx \<Rightarrow> string \<Rightarrow> reader \<Rightarrow> PutOptions \<Rightarrow> MemState
    \<Rightarrow> (goerr, PutResult) result \<times> MemState" where
  "mem_Put sha256 c key r opts w = (case read_all r of
      (_, Some (err, _)) \<Rightarrow> (Err (Wrap Internal ''put'' err), w)
    | (data, None) \<Rightarrow> (let existing = map_of (ms_objs w) key in
        if po_IfNoneMatch opts = ''*'' \<and> existing \<noteq> None
        then (Err (New AlreadyExists ''put'' key), w)
        else if po_IfMatch opts \<noteq> [] \<and>
          (case existing of None \<Rightarrow> True | Some o' \<Rightarrow> oi_ETag (mo_info o') \<noteq> po_IfMatch opts)
        then (Err (New PreconditionFailed ''put'' ''if-match mismatch''), w)
        else (let etag = etagOf sha256 data;
                  info = zero_info\<lparr>oi_Key := key, oi_ETag := etag, oi_Size := int (length data),
                    oi_LastModified := ms_now w, oi_ContentType := po_ContentType opts,
                    oi_ContentEncoding := po_ContentEncoding opts,
                    oi_CacheControl := po_CacheControl opts, oi_UserMetadata := po_UserMetadata opts\<rparr>
              in (Ok \<lparr>pr_ETag = etag, pr_VersionID = [], pr_Generation = 0\<rparr>,
                  w\<lparr>ms_objs := AList.update key \<lparr>mo_data = data, mo_info = info\<rparr> (ms_objs w)\<rparr>))))"

definition mem_Delete :: "ctx \<Rightarrow> string \<Rightarrow> DeleteOptions \<Rightarrow> MemState \<Rightarrow> goerr option \<times> MemState" where
  "mem_Delete c key opts w = (case map_of (ms_objs w) key of
      None \<Rightarrow> (if do_IfMatch opts \<noteq> []
               then (Some (New PreconditionFailed ''delete'' ''if-match on missing object''), w)
               else (None, w))
    | Some o' \<Rightarrow> (if do_IfMatch opts \<noteq> [] \<and> oi_ETag (mo_info o') \<noteq> do_IfMatch opts
               then (Some (New PreconditionFailed ''delete'' ''if-match mismatch''), w)
               else (None, w\<lparr>ms_objs := AList.delete key (ms_objs w)\<rparr>)))"

fun mem_DeleteMany_loop :: "ctx \<Rightarrow> string list \<Rightarrow> MemState \<Rightarrow> DeleteEntry list \<times> MemState" where
  "mem_DeleteMany_loop c [] w = ([], w)"
| "mem_DeleteMany_loop c (k # ks) w =
     (let (err, w1) = mem_Delete c k \<lparr>do_VersionID = [], do_IfMatch = []\<rparr> w;
          (out, w2) = mem_DeleteMany_loop c ks w1
      in (\<lparr>de_Key = k, de_Error = (case err of None \<Rightarrow> [] | Some e \<Rightarrow> Error e)\<rparr> # out, w2))"

definition mem_DeleteMany :: "ctx \<Rightarrow> string list \<Rightarrow> MemState
    \<Rightarrow> (DeleteEntry list \<times> goerr option) \<times> MemState" where
  "mem_DeleteMany c ks w = (let (out, w') = mem_DeleteMany_loop c ks w in ((out, None), w'))"

definition common_prefix :: "string \<Rightarrow> string \<Rightarrow> string \<Rightarrow> string option" where
  "common_prefix pre delim k =
     (if delim = [] then None
      else let rest = drop (length pre) k in
           map_option (\<lambda>idx. pre @ take (idx + length delim) rest) (index_of rest delim))"

text \<open>
  The page loop: \<open>budget\<close> is \<open>limit - count\<close>. It returns the objects, the
  common prefixes and how many keys it consumed (\<open>i - start\<close>).
\<close>

fun list_loop :: "string \<Rightarrow> string \<Rightarrow> (string \<Rightarrow> ObjectInfo) \<Rightarrow> nat \<Rightarrow> string list \<Rightarrow> string list
    \<Rightarrow> ObjectInfo list \<times> string list \<times> nat" where
  "list_loop pre delim infos budget seen [] = ([], [], 0)"
| "list_loop pre delim infos budget seen (k # ks) =
     (if budget = 0 then ([], [], 0)
      else case common_prefix pre delim k of
        Some cp \<Rightarrow> (if cp \<in> set seen
          then (let (os, cps, n) = list_loop pre delim infos budget seen ks in (os, cps, Suc n))
          else (let (os, cps, n) = list_loop pre delim infos (budget - 1) (cp # seen) ks
                in (os, cp # cps, Suc n)))
      | None \<Rightarrow> (let (os, cps, n) = list_loop pre delim infos (budget - 1) seen ks
                in (infos k # os, cps, Suc n)))"

definition mem_keys :: "string \<Rightarrow> MemState \<Rightarrow> string list" where
  "mem_keys pre w = sort (filter (\<lambda>k. has_prefix k pre) (map fst (ms_objs w)))"

definition mem_info :: "MemState \<Rightarrow> string \<Rightarrow> ObjectInfo" where
  "mem_info w k = (case map_of (ms_objs w) k of None \<Rightarrow> zero_info | Some o' \<Rightarrow> mo_info o')"

text \<open>\<open>sort.SearchStrings\<close>, then the loop past keys equal to the cursor.\<close>

definition list_start :: "string list \<Rightarrow> string \<Rightarrow> nat" where
  "list_start keys token =
     (if token = [] then 0
      else case b64_raw_decode token of
        None \<Rightarrow> 0
      | Some after \<Rightarrow> (let s = length (takeWhile (\<lambda>k. k < after) keys)
                       in s + length (takeWhile (\<lambda>k. k \<le> after) (drop s keys))))"

definition list_limit :: "int \<Rightarrow> nat" where
  "list_limit l = (if l \<le> 0 then 1000 else nat l)"

definition mem_List :: "ctx \<Rightarrow> ListOptions \<Rightarrow> MemState \<Rightarrow> (goerr, ListResult) result \<times> MemState" where
  "mem_List c opts w =
     (let keys = mem_keys (lo_Prefix opts) w;
          start = list_start keys (lo_PageToken opts);
          (os, cps, n) = list_loop (lo_Prefix opts) (lo_Delimiter opts) (mem_info w)
            (list_limit (lo_Limit opts)) [] (drop start keys);
          i = start + n
      in (if i < length keys \<and> i = 0 then Panic
          else Ok \<lparr>lr_Objects = os, lr_CommonPrefixes = cps,
                 lr_NextPageToken = (if i < length keys then b64_raw_encode (keys ! (i - 1)) else [])\<rparr>, w))"

definition mem_Copy :: "ctx \<Rightarrow> string \<Rightarrow> string \<Rightarrow> CopyOptions \<Rightarrow> MemState
    \<Rightarrow> (goerr, PutResult) result \<times> MemState" where
  "mem_Copy c srcKey dstKey opts w = (case map_of (ms_objs w) srcKey of
      None \<Rightarrow> (Err (New NotFound ''copy'' srcKey), w)
    | Some src \<Rightarrow>
        (if co_IfNoneMatch opts = ''*'' \<and> map_of (ms_objs w) dstKey \<noteq> None
         then (Err (New AlreadyExists ''copy'' dstKey), w)
         else (let info = (mo_info src)\<lparr>oi_Key := dstKey, oi_LastModified := ms_now w\<rparr>
               in (Ok \<lparr>pr_ETag = oi_ETag info, pr_VersionID = [], pr_Generation = 0\<rparr>,
                   w\<lparr>ms_objs := AList.update dstKey \<lparr>mo_data = mo_data src, mo_info = info\<rparr> (ms_objs w)\<rparr>))))"

definition mem_Presign :: "ctx \<Rightarrow> string \<Rightarrow> PresignMethod \<Rightarrow> int \<Rightarrow> MemState
    \<Rightarrow> (goerr, PresignResult) result \<times> MemState" where
  "mem_Presign c key method expiry w =
     (let expiry = (if expiry \<le> 0 \<or> expiry > week then week else expiry);
          verb = (if method = PresignPut then ''PUT'' else ''GET'')
      in (Ok \<lparr>ps_Method = method, ps_URL = ''mem://local/'' @ key @ ''?verb='' @ verb,
             ps_Headers = [], ps_ExpiresAt = ms_now w + expiry\<rparr>, w))"

definition mem_Native :: "ctx \<Rightarrow> string \<Rightarrow> meta \<Rightarrow> MemState \<Rightarrow> (goerr, meta) result \<times> MemState" where
  "mem_Native c verb params w = (Err (New Unsupported ''native'' verb), w)"

definition mem_Close :: "MemState \<Rightarrow> goerr option \<times> MemState" where
  "mem_Close w = (None, w)"

definition mem_backend :: "(bytes \<Rightarrow> bytes) \<Rightarrow> string \<Rightarrow> MemState Backend" where
  "mem_backend sha256 bucket = \<lparr>be_Name = ''mem'', be_Identity = bucket,
     be_Capabilities = mem_Capabilities, be_Probe = mem_Probe, be_Stat = mem_Stat,
     be_Get = mem_Get, be_Put = mem_Put sha256, be_Delete = mem_Delete,
     be_DeleteMany = mem_DeleteMany, be_List = mem_List, be_Copy = mem_Copy,
     be_Presign = mem_Presign, be_Native = mem_Native, be_Close = mem_Close\<rparr>"

section \<open>Invariant\<close>

definition mem_obj_ok :: "(bytes \<Rightarrow> bytes) \<Rightarrow> string \<Rightarrow> MemObject \<Rightarrow> bool" where
  "mem_obj_ok sha256 k obj \<longleftrightarrow> oi_Key (mo_info obj) = k
     \<and> oi_Size (mo_info obj) = int (length (mo_data obj))
     \<and> oi_ETag (mo_info obj) = etagOf sha256 (mo_data obj)"

definition mem_inv :: "(bytes \<Rightarrow> bytes) \<Rightarrow> MemState \<Rightarrow> bool" where
  "mem_inv sha256 w \<longleftrightarrow> distinct (map fst (ms_objs w))
     \<and> (\<forall>k obj. map_of (ms_objs w) k = Some obj \<longrightarrow> mem_obj_ok sha256 k obj)"

definition mem_view :: "MemState \<Rightarrow> string \<Rightarrow> (bytes \<times> string) option" where
  "mem_view w k = map_option (\<lambda>obj. (mo_data obj, oi_ETag (mo_info obj))) (map_of (ms_objs w) k)"

lemma etagOf_nonempty [simp]: "etagOf sha256 d \<noteq> []"
  by (simp add: etagOf_def)

lemma mem_inv_New [simp]: "mem_inv sha256 (mem_New cfg t)"
  by (simp add: mem_inv_def mem_New_def)

lemma mem_inv_update:
  "mem_inv sha256 w \<Longrightarrow> mem_obj_ok sha256 k obj \<Longrightarrow>
   mem_inv sha256 (w\<lparr>ms_objs := AList.update k obj (ms_objs w)\<rparr>)"
  by (auto simp: mem_inv_def update_conv' distinct_update split: if_splits)

lemma mem_inv_delete:
  "mem_inv sha256 w \<Longrightarrow> mem_inv sha256 (w\<lparr>ms_objs := AList.delete k (ms_objs w)\<rparr>)"
  by (auto simp: mem_inv_def delete_conv' distinct_delete split: if_splits)

lemma mem_view_update [simp]:
  "mem_view (w\<lparr>ms_objs := AList.update k obj (ms_objs w)\<rparr>) =
   (mem_view w)(k := Some (mo_data obj, oi_ETag (mo_info obj)))"
  by (auto simp: mem_view_def update_conv' fun_eq_iff)

lemma mem_view_delete [simp]:
  "mem_view (w\<lparr>ms_objs := AList.delete k (ms_objs w)\<rparr>) = (mem_view w)(k := None)"
  by (auto simp: mem_view_def delete_conv' fun_eq_iff)

lemma mem_view_None [simp]: "mem_view w k = None \<longleftrightarrow> map_of (ms_objs w) k = None"
  by (simp add: mem_view_def)

lemma mem_view_Some:
  "mem_view w k = Some (d, tag) \<longleftrightarrow>
   (\<exists>obj. map_of (ms_objs w) k = Some obj \<and> mo_data obj = d \<and> oi_ETag (mo_info obj) = tag)"
  by (auto simp: mem_view_def)

lemma mem_inv_obj: "mem_inv sha256 w \<Longrightarrow> map_of (ms_objs w) k = Some obj \<Longrightarrow> mem_obj_ok sha256 k obj"
  by (simp add: mem_inv_def)

lemmas mem_obj_okD = mem_inv_obj [unfolded mem_obj_ok_def]

text \<open>Every operation keeps the invariant.\<close>

lemma mem_Put_inv: "mem_inv sha256 w \<Longrightarrow> mem_inv sha256 (snd (mem_Put sha256 c k r opts w))"
  by (auto simp: mem_Put_def Let_def mem_obj_ok_def intro!: mem_inv_update
      split: prod.splits option.splits)

lemma mem_Delete_inv: "mem_inv sha256 w \<Longrightarrow> mem_inv sha256 (snd (mem_Delete c k opts w))"
  by (auto simp: mem_Delete_def intro: mem_inv_delete split: option.splits)

lemma mem_Copy_inv: "mem_inv sha256 w \<Longrightarrow> mem_inv sha256 (snd (mem_Copy c s d opts w))"
  by (auto simp: mem_Copy_def Let_def mem_obj_ok_def dest!: mem_obj_okD intro!: mem_inv_update
      split: option.splits)

lemma mem_DeleteMany_loop_inv:
  "mem_inv sha256 w \<Longrightarrow> mem_inv sha256 (snd (mem_DeleteMany_loop c ks w))"
proof (induction ks arbitrary: w)
  case (Cons k ks)
  from mem_Delete_inv [OF Cons.prems] Cons.IH show ?case
    by (auto simp: Let_def case_prod_beta)
qed simp

text \<open>A batch delete removes every listed key, whatever the order, and reports success.\<close>

lemma mem_DeleteMany_loop_view:
  "mem_view (snd (mem_DeleteMany_loop c ks w)) = (\<lambda>k. if k \<in> set ks then None else mem_view w k)"
proof (induction ks arbitrary: w)
  case (Cons k ks)
  have "mem_view (snd (mem_Delete c k \<lparr>do_VersionID = [], do_IfMatch = []\<rparr> w)) = (mem_view w)(k := None)"
    by (auto simp: mem_Delete_def fun_eq_iff delete_conv' split: option.splits)
  with Cons.IH show ?case
    by (auto simp: Let_def case_prod_beta fun_eq_iff)
qed simp

lemma mem_DeleteMany_loop_entries:
  "fst (mem_DeleteMany_loop c ks w) = map (\<lambda>k. \<lparr>de_Key = k, de_Error = []\<rparr>) ks"
  by (induction ks arbitrary: w) (auto simp: Let_def case_prod_beta mem_Delete_def split: option.splits)

section \<open>The store meets the contract\<close>

interpretation mem: strict_store "mem_backend sha256 bucket" mem_view "mem_inv sha256"
  for sha256 bucket
proof (unfold_locales, goal_cases)
  case (1 w k d tag im c)
  then show ?case
    by (auto simp: mem_backend_def mem_Get_def get_options_def mem_view_Some dest: mem_obj_okD)
next
  case (2 w k d tag im c)
  note differD [OF 2(3)]
  with 2 show ?case
    by (auto simp: mem_backend_def mem_Get_def get_options_def mem_view_Some)
next
  case (3 w k c im)
  then show ?case by (auto simp: mem_backend_def mem_Get_def)
next
  case (4 w r d opts k c)
  then have "mem_inv sha256 (snd (mem_Put sha256 c k r opts w))" by (simp add: mem_Put_inv)
  with 4 show ?case by (auto simp: mem_backend_def mem_Put_def Let_def)
next
  case (5 w r d opts k c)
  then show ?case by (auto simp: mem_backend_def mem_Put_def Let_def)
next
  case (6 w r d opts tag k old c)
  then have "mem_inv sha256 (snd (mem_Put sha256 c k r opts w))" by (simp add: mem_Put_inv)
  with 6 show ?case by (auto simp: mem_backend_def mem_Put_def Let_def mem_view_Some)
next
  case (7 w r d opts im k old tag c)
  note differD [OF 7(6)]
  with 7 show ?case by (auto simp: mem_backend_def mem_Put_def Let_def mem_view_Some)
next
  case (8 w r d opts k c)
  then show ?case by (auto simp: mem_backend_def mem_Put_def Let_def)
next
  case (9 w dopts c k)
  then show ?case
    by (auto simp: mem_backend_def mem_Delete_def fun_eq_iff delete_conv' mem_inv_delete
        split: option.splits)
next
  case (10 w dopts tag k old c)
  then show ?case by (auto simp: mem_backend_def mem_Delete_def mem_view_Some mem_inv_delete)
next
  case (11 w dopts im k old tag c)
  note differD [OF 11(5)]
  with 11 show ?case by (auto simp: mem_backend_def mem_Delete_def mem_view_Some)
next
  case (12 w r d err g c k opts)
  then show ?case by (auto simp: mem_backend_def mem_Put_def)
next
  case (13 w k d tag im c)
  then show ?case
    by (auto simp: mem_backend_def mem_Get_def get_options_def mem_view_Some)
next
  case (14 w r d opts k c)
  then show ?case by (auto simp: mem_backend_def mem_Put_def Let_def)
next
  case (15 w r d opts im k c)
  then show ?case by (cases "map_of (ms_objs w) k") (auto simp: mem_backend_def mem_Put_def Let_def mem_view_Some)
next
  case (16 c k dopts w)
  then show ?case by (simp add: mem_backend_def mem_Delete_def split: option.split)
next
  case (17 w dopts im k c)
  then show ?case by (cases "map_of (ms_objs w) k") (auto simp: mem_backend_def mem_Delete_def mem_view_Some)
qed

section \<open>Listing\<close>

lemma list_loop_spec:
  assumes "list_loop pre delim infos budget seen ks = (os, cps, n)"
  shows "n \<le> length ks"
    and "os = map infos (filter (\<lambda>k. common_prefix pre delim k = None) (take n ks))"
    and "set seen \<union> set cps = set seen \<union> (\<Union>k \<in> set (take n ks). set_option (common_prefix pre delim k))"
    and "length os + length cps \<le> budget"
    and "budget \<noteq> 0 \<Longrightarrow> ks \<noteq> [] \<Longrightarrow> 0 < n"
proof -
  have "n \<le> length ks
      \<and> os = map infos (filter (\<lambda>k. common_prefix pre delim k = None) (take n ks))
      \<and> set seen \<union> set cps = set seen \<union> (\<Union>k \<in> set (take n ks). set_option (common_prefix pre delim k))
      \<and> length os + length cps \<le> budget \<and> (budget \<noteq> 0 \<longrightarrow> ks \<noteq> [] \<longrightarrow> 0 < n)"
    using assms
  proof (induction ks arbitrary: budget seen os cps n)
    case (Cons k ks)
    show ?case
    proof (cases "budget = 0")
      case False
      obtain b' seen' where b': "b' = (case common_prefix pre delim k of
            Some cp \<Rightarrow> if cp \<in> set seen then budget else budget - 1 | None \<Rightarrow> budget - 1)"
        and seen': "seen' = (case common_prefix pre delim k of
            Some cp \<Rightarrow> if cp \<in> set seen then seen else cp # seen | None \<Rightarrow> seen)" by blast
      obtain os' cps' n' where rec: "list_loop pre delim infos b' seen' ks = (os', cps', n')"
        by (metis prod_cases3)
      note IH = Cons.IH [OF rec]
      show ?thesis
      proof (cases "common_prefix pre delim k")
        case None
        with False Cons.prems rec b' seen' have "os = infos k # os'" "cps = cps'" "n = Suc n'"
          by auto
        with IH None False b' seen' show ?thesis by auto
      next
        case (Some cp)
        with False Cons.prems rec b' seen'
        have "os = os'" "cps = (if cp \<in> set seen then cps' else cp # cps')" "n = Suc n'"
          by (auto split: if_splits)
        with IH Some False b' seen' show ?thesis by (auto split: if_splits)
      qed
    qed (use Cons.prems in auto)
  qed auto
  then show "n \<le> length ks"
    and "os = map infos (filter (\<lambda>k. common_prefix pre delim k = None) (take n ks))"
    and "set seen \<union> set cps = set seen \<union> (\<Union>k \<in> set (take n ks). set_option (common_prefix pre delim k))"
    and "length os + length cps \<le> budget"
    and "budget \<noteq> 0 \<Longrightarrow> ks \<noteq> [] \<Longrightarrow> 0 < n" by blast+
qed

lemma list_limit_pos [simp]: "0 < list_limit l" "list_limit l \<noteq> 0"
  by (auto simp: list_limit_def)

lemma list_start_after:
  assumes "sorted (xs @ k # ys)" "distinct (xs @ k # ys)" "k \<noteq> []"
  shows "list_start (xs @ k # ys) (b64_raw_encode k) = Suc (length xs)"
proof -
  have "\<forall>x \<in> set xs. x < k" "\<forall>y \<in> set ys. k < y"
    using assms by (auto simp: sorted_append order.strict_iff_order)
  then have "takeWhile (\<lambda>x. x < k) (xs @ k # ys) = xs" "takeWhile (\<lambda>x. x \<le> k) (k # ys) = [k]"
    by (auto simp: takeWhile_append, cases ys, auto)
  with assms(3) show ?thesis by (simp add: list_start_def)
qed

text \<open>A client that follows the page tokens, for at most \<open>fuel\<close> pages.\<close>

fun list_pages :: "nat \<Rightarrow> 'w Backend \<Rightarrow> ctx \<Rightarrow> ListOptions \<Rightarrow> 'w
    \<Rightarrow> (ObjectInfo list \<times> string list) option" where
  "list_pages 0 be c opts w = None"
| "list_pages (Suc fuel) be c opts w = (case be_List be c opts w of
      (Ok res, w') \<Rightarrow>
        (if lr_NextPageToken res = [] then Some (lr_Objects res, lr_CommonPrefixes res)
         else map_option (\<lambda>(os, cps). (lr_Objects res @ os, lr_CommonPrefixes res @ cps))
           (list_pages fuel be c (opts\<lparr>lo_PageToken := lr_NextPageToken res\<rparr>) w'))
    | _ \<Rightarrow> None)"

lemma mem_keys_props:
  assumes "mem_inv sha256 w"
  shows "sorted (mem_keys pre w)" "distinct (mem_keys pre w)"
    "set (mem_keys pre w) = {k. has_prefix k pre \<and> map_of (ms_objs w) k \<noteq> None}"
  using assms by (auto simp: mem_keys_def mem_inv_def map_of_eq_None_iff dest: map_of_SomeD)

text \<open>One page, from a cursor that stands after \<open>done\<close>.\<close>

lemma mem_List_page:
  assumes inv: "mem_inv sha256 w" and start: "list_start (mem_keys (lo_Prefix opts) w) (lo_PageToken opts) = length xs"
    and keys: "mem_keys (lo_Prefix opts) w = xs @ rest" and ne: "rest = [] \<Longrightarrow> xs = []"
  obtains n res where "mem_List c opts w = (Ok res, w)" "n \<le> length rest"
    "lr_Objects res = map (mem_info w)
       (filter (\<lambda>k. common_prefix (lo_Prefix opts) (lo_Delimiter opts) k = None) (take n rest))"
    "set (lr_CommonPrefixes res) =
       (\<Union>k \<in> set (take n rest). set_option (common_prefix (lo_Prefix opts) (lo_Delimiter opts) k))"
    "length (lr_Objects res) + length (lr_CommonPrefixes res) \<le> list_limit (lo_Limit opts)"
    "rest \<noteq> [] \<Longrightarrow> 0 < n"
    "lr_NextPageToken res = (if n < length rest then b64_raw_encode (rest ! (n - 1)) else [])"
proof -
  obtain os cps n where ll: "list_loop (lo_Prefix opts) (lo_Delimiter opts) (mem_info w)
      (list_limit (lo_Limit opts)) [] rest = (os, cps, n)" by (metis prod_cases3)
  note spec = list_loop_spec [OF ll]
  have pos: "rest \<noteq> [] \<Longrightarrow> 0 < n" using spec(5) by simp
  have nth: "n < length rest \<Longrightarrow> (xs @ rest) ! (length xs + n - 1) = rest ! (n - 1)"
    using pos by (cases n) (auto simp: nth_append)
  let ?res = "\<lparr>lr_Objects = os, lr_CommonPrefixes = cps, lr_NextPageToken =
      (if n < length rest then b64_raw_encode (rest ! (n - 1)) else [])\<rparr>"
  have "mem_List c opts w = (Ok ?res, w)"
    using start keys ll pos nth by (cases "rest = []") (auto simp: mem_List_def Let_def)
  with spec pos show ?thesis by (intro that [of ?res n]) auto
qed

lemma mem_pages_from:
  assumes inv: "mem_inv sha256 w" and keys: "mem_keys (lo_Prefix opts) w = xs @ rest"
    and start: "list_start (mem_keys (lo_Prefix opts) w) (lo_PageToken opts) = length xs"
    and ne: "rest = [] \<Longrightarrow> xs = []" and no_empty: "[] \<notin> set rest" and fuel: "length rest < fuel"
  shows "\<exists>cps. list_pages fuel (mem_backend sha256 b) c opts w = Some (map (mem_info w)
      (filter (\<lambda>k. common_prefix (lo_Prefix opts) (lo_Delimiter opts) k = None) rest), cps)
    \<and> set cps = (\<Union>k \<in> set rest. set_option (common_prefix (lo_Prefix opts) (lo_Delimiter opts) k))"
  using keys start ne no_empty fuel
proof (induction fuel arbitrary: opts xs rest)
  case (Suc fuel)
  let ?cp = "common_prefix (lo_Prefix opts) (lo_Delimiter opts)"
  obtain n res where page: "mem_List c opts w = (Ok res, w)" "n \<le> length rest"
      "lr_Objects res = map (mem_info w) (filter (\<lambda>k. ?cp k = None) (take n rest))"
      "set (lr_CommonPrefixes res) = (\<Union>k \<in> set (take n rest). set_option (?cp k))"
      "rest \<noteq> [] \<Longrightarrow> 0 < n"
      "lr_NextPageToken res = (if n < length rest then b64_raw_encode (rest ! (n - 1)) else [])"
    by (rule mem_List_page [OF inv Suc.prems(2,1,3)]) auto
  show ?case
  proof (cases "n < length rest")
    case False
    with page show ?thesis by (auto simp: mem_backend_def)
  next
    case True
    with page(5) obtain m where m: "n = Suc m" by (cases n) auto
    let ?k = "rest ! m" and ?ys = "drop n rest"
    let ?opts = "opts\<lparr>lo_PageToken := b64_raw_encode ?k\<rparr>"
    have rest: "rest = take m rest @ ?k # ?ys"
      using True m by (simp add: id_take_nth_drop)
    have kne: "?k \<noteq> []" using Suc.prems(4) True m by (metis Suc_lessD nth_mem)
    have split: "mem_keys (lo_Prefix ?opts) w = (xs @ take n rest) @ ?ys"
      using Suc.prems(1) by simp
    have split': "mem_keys (lo_Prefix opts) w = (xs @ take m rest) @ ?k # ?ys"
      using Suc.prems(1) rest by simp
    have st: "list_start (mem_keys (lo_Prefix ?opts) w) (lo_PageToken ?opts) = length (xs @ take n rest)"
      using list_start_after [of "xs @ take m rest" ?k ?ys] mem_keys_props(1,2) [OF inv, of "lo_Prefix opts"]
        kne split' True m by (simp del: append_assoc)
    have sub: "[] \<notin> set ?ys" using Suc.prems(4) by (meson in_set_dropD)
    have tok: "lr_NextPageToken res = b64_raw_encode ?k" using page(6) True m by simp
    have len: "length ?ys < fuel" using Suc.prems(5) True m by simp
    obtain cps where "list_pages fuel (mem_backend sha256 b) c ?opts w
        = Some (map (mem_info w) (filter (\<lambda>k. ?cp k = None) ?ys), cps)"
      and cps: "set cps = (\<Union>k \<in> set ?ys. set_option (?cp k))"
      using Suc.IH [OF split st _ sub len] True by auto
    moreover have "be_List (mem_backend sha256 b) c opts w = (Ok res, w)"
      using page(1) by (simp add: mem_backend_def)
    ultimately have "list_pages (Suc fuel) (mem_backend sha256 b) c opts w
        = Some (lr_Objects res @ map (mem_info w) (filter (\<lambda>k. ?cp k = None) ?ys),
                lr_CommonPrefixes res @ cps)"
      using tok kne by simp
    moreover have "lr_Objects res @ map (mem_info w) (filter (\<lambda>k. ?cp k = None) ?ys)
        = map (mem_info w) (filter (\<lambda>k. ?cp k = None) rest)"
      using page(3) by (metis append_take_drop_id filter_append map_append)
    moreover have "set (lr_CommonPrefixes res @ cps) = (\<Union>k \<in> set rest. set_option (?cp k))"
      using page(4) cps by (metis UN_Un append_take_drop_id set_append)
    ultimately show ?thesis by auto
  qed
qed simp

section \<open>Properties\<close>

definition sample_mem :: MemState where
  "sample_mem = \<lparr>ms_objs = [(''b'', \<lparr>mo_data = ''xyz'', mo_info = zero_info\<lparr>oi_Key := ''b'', oi_Size := 3,
       oi_ETag := etagOf (\<lambda>d. []) ''xyz''\<rparr>\<rparr>), (''a'', \<lparr>mo_data = [], mo_info = zero_info\<lparr>oi_Key := ''a'',
       oi_ETag := etagOf (\<lambda>d. []) []\<rparr>\<rparr>)], ms_bucket = ''bucket'', ms_now = 1\<rparr>"

lemma sample_mem_inv: "mem_inv (\<lambda>d. []) sample_mem"
  by (auto simp: mem_inv_def sample_mem_def mem_obj_ok_def zero_info_def)

lemma sample_mem_keys: "mem_keys [] sample_mem = [''a'', ''b'']"
  by (simp add: mem_keys_def sample_mem_def)

text \<open>C32: a client that follows the page tokens from the start, with any limit, prefix and
  delimiter, is given every object under the prefix that no common prefix stands for exactly once
  and in order, and the common prefixes of all the others and no other prefix, as long as no key is
  the empty string. A common prefix may be given again on a later page.\<close>

theorem mem_pages_complete:
  assumes "mem_inv sha256 w" "lo_PageToken opts = []" "[] \<notin> set (mem_keys (lo_Prefix opts) w)"
    and "length (mem_keys (lo_Prefix opts) w) < fuel"
  shows "\<exists>cps. list_pages fuel (mem_backend sha256 b) c opts w = Some (map (mem_info w)
      (filter (\<lambda>k. common_prefix (lo_Prefix opts) (lo_Delimiter opts) k = None) (mem_keys (lo_Prefix opts) w)), cps)
    \<and> set cps = (\<Union>k \<in> set (mem_keys (lo_Prefix opts) w).
        set_option (common_prefix (lo_Prefix opts) (lo_Delimiter opts) k))"
  by (rule mem_pages_from [OF assms(1), where xs = "[]"]) (use assms in \<open>simp_all add: list_start_def\<close>)

lemma mem_pages_complete_witness:
  "list_pages 3 (mem_backend (\<lambda>d. []) ''bucket'') background
     \<lparr>lo_Prefix = [], lo_Delimiter = [], lo_PageToken = [], lo_Limit = 1\<rparr> sample_mem =
   Some ([mem_info sample_mem ''a'', mem_info sample_mem ''b''], [])"
  using mem_pages_complete [OF sample_mem_inv, of "\<lparr>lo_Prefix = [], lo_Delimiter = [], lo_PageToken = [], lo_Limit = 1\<rparr>" 3
      "''bucket''" background]
  by (simp add: sample_mem_keys common_prefix_def)

text \<open>a listing that holds the empty key ends before it is complete: the page after it has an
  empty token, which reads as the end.\<close>

theorem mem_List_empty_key:
  "mem_List c \<lparr>lo_Prefix = [], lo_Delimiter = [], lo_PageToken = [], lo_Limit = 1\<rparr>
     \<lparr>ms_objs = [([], o1), (''a'', o2)], ms_bucket = b, ms_now = t\<rparr> =
   (Ok \<lparr>lr_Objects = [mo_info o1], lr_CommonPrefixes = [], lr_NextPageToken = []\<rparr>,
    \<lparr>ms_objs = [([], o1), (''a'', o2)], ms_bucket = b, ms_now = t\<rparr>)"
  by (simp add: mem_List_def Let_def mem_keys_def list_start_def list_limit_def common_prefix_def mem_info_def
      b64_raw_encode.simps)

text \<open>A range inside the object whose end does not overflow is the slice asked for, cut at the
  end of the object; a non-positive length means the rest of the object.\<close>

theorem slice_range_slice:
  assumes "0 \<le> br_Offset r" "br_Offset r \<le> int (length data)" "in_int64 (br_Offset r + br_Length r)"
  shows "slice_range data r =
    Ok (if br_Length r > 0 then take (nat (br_Length r)) (drop (nat (br_Offset r)) data)
        else drop (nat (br_Offset r)) data)"
  using assms by (auto simp: slice_range_def Let_def wrap64_id)

lemma slice_range_slice_witness: "slice_range ''abcdef'' \<lparr>br_Offset = 2, br_Length = 3\<rparr> = Ok ''cde''"
  using slice_range_slice [of "\<lparr>br_Offset = 2, br_Length = 3\<rparr>" "''abcdef''"] by (simp add: in_int64_def)

text \<open>A range whose end overflows int64 makes the store panic instead of reading to the end:
  offset 1 with the largest length, on any stored object that has a first byte.\<close>

theorem mem_Get_range_panics:
  "fst (mem_Get c ''b'' ((get_options [])\<lparr>go_Range := Some \<lparr>br_Offset = 1, br_Length = 2 ^ 63 - 1\<rparr>\<rparr>) sample_mem) = Panic"
  by (simp add: mem_Get_def sample_mem_def get_options_def slice_range_def wrap64_def)

end
