(* ===== verification/Prefix.thy ===== *)
theory Prefix
  imports Mem
begin

text \<open>
  Key prefixes (internal/backend/prefix.go) and the registry that applies them
  (internal/backend/registry.go): \<open>NormalizePrefix\<close>, the \<open>prefixed\<close>
  wrapper around any backend, and \<open>Open\<close>. A prefixed store meets the same contract
  as the store it wraps, over the keys under the prefix, and touches no other key.
\<close>

section \<open>NormalizePrefix\<close>

definition bad_segment :: "string \<Rightarrow> bool" where
  "bad_segment s \<longleftrightarrow> s = [] \<or> s = ''.'' \<or> s = ''..''"

definition NormalizePrefix :: "string \<Rightarrow> (goerr, string) result" where
  "NormalizePrefix raw =
     (let trimmed = trim_char (CHR ''/'') (trim_space raw)
      in if trimmed = [] then Ok []
         else if (\<exists>segment \<in> set (split_on (CHR ''/'') trimmed). bad_segment segment)
         then Err (Msg (''SOS_PREFIX '' @ quoted raw @ '' is not a usable key prefix: segments must be non-empty and not ''
                @ quoted ''.'' @ '' or '' @ quoted ''..''))
         else Ok (trimmed @ ''/''))"

section \<open>The prefixed wrapper\<close>

definition px_key :: "string \<Rightarrow> string \<Rightarrow> string" where
  "px_key pfx k = pfx @ k"

definition px_strip :: "string \<Rightarrow> string \<Rightarrow> string" where
  "px_strip pfx k = trim_prefix k pfx"

definition px_info :: "string \<Rightarrow> ObjectInfo \<Rightarrow> ObjectInfo" where
  "px_info pfx i = i\<lparr>oi_Key := px_strip pfx (oi_Key i)\<rparr>"

definition px_List :: "'w Backend \<Rightarrow> string \<Rightarrow> ctx \<Rightarrow> ListOptions \<Rightarrow> 'w \<Rightarrow> (goerr, ListResult) result \<times> 'w" where
  "px_List inner pfx c opts w =
     (let (res, w') = be_List inner c (opts\<lparr>lo_Prefix := px_key pfx (lo_Prefix opts)\<rparr>) w
      in (map_ok (\<lambda>r. r\<lparr>lr_Objects := map (px_info pfx) (lr_Objects r),
            lr_CommonPrefixes := map (px_strip pfx) (lr_CommonPrefixes r)\<rparr>) res, w'))"

definition px_DeleteMany :: "'w Backend \<Rightarrow> string \<Rightarrow> ctx \<Rightarrow> string list \<Rightarrow> 'w
    \<Rightarrow> (DeleteEntry list \<times> goerr option) \<times> 'w" where
  "px_DeleteMany inner pfx c ks w =
     (let ((entries, err), w') = be_DeleteMany inner c (map (px_key pfx) ks) w
      in ((map (\<lambda>e. e\<lparr>de_Key := px_strip pfx (de_Key e)\<rparr>) entries, err), w'))"

definition prefixed :: "'w Backend \<Rightarrow> string \<Rightarrow> 'w Backend" where
  "prefixed inner pfx = \<lparr>be_Name = be_Name inner,
     be_Identity = be_Identity inner @ ''#prefix='' @ pfx,
     be_Capabilities = be_Capabilities inner, be_Probe = be_Probe inner,
     be_Stat = (\<lambda>c key v w. let (r, w') = be_Stat inner c (px_key pfx key) v w
                             in (map_ok (px_info pfx) r, w')),
     be_Get = (\<lambda>c key opts w. let (r, w') = be_Get inner c (px_key pfx key) opts w
                             in (map_ok (\<lambda>g. g\<lparr>gr_Info := px_info pfx (gr_Info g)\<rparr>) r, w')),
     be_Put = (\<lambda>c key. be_Put inner c (px_key pfx key)),
     be_Delete = (\<lambda>c key. be_Delete inner c (px_key pfx key)),
     be_DeleteMany = px_DeleteMany inner pfx,
     be_List = px_List inner pfx,
     be_Copy = (\<lambda>c src dst. be_Copy inner c (px_key pfx src) (px_key pfx dst)),
     be_Presign = (\<lambda>c key. be_Presign inner c (px_key pfx key)),
     be_Native = (\<lambda>c verb params w. (Err (New Unsupported ''native''
                    (verb @ '' is not available on a prefixed store'')), w)),
     be_Close = be_Close inner\<rparr>"

text \<open>A store that answers a call on keys in \<open>K\<close> as one store does and any other
  call as another: what a caller can tell of it is what the calls it makes are.\<close>

definition splice :: "(string \<Rightarrow> bool) \<Rightarrow> 'w Backend \<Rightarrow> 'w Backend \<Rightarrow> 'w Backend" where
  "splice K be other = be\<lparr>
     be_Stat := (\<lambda>c k. if K k then be_Stat be c k else be_Stat other c k),
     be_Get := (\<lambda>c k. if K k then be_Get be c k else be_Get other c k),
     be_Put := (\<lambda>c k. if K k then be_Put be c k else be_Put other c k),
     be_Delete := (\<lambda>c k. if K k then be_Delete be c k else be_Delete other c k),
     be_DeleteMany := (\<lambda>c ks. if \<forall>k \<in> set ks. K k then be_DeleteMany be c ks else be_DeleteMany other c ks),
     be_List := (\<lambda>c opts. if K (lo_Prefix opts) then be_List be c opts else be_List other c opts),
     be_Copy := (\<lambda>c src dst. if K src \<and> K dst then be_Copy be c src dst else be_Copy other c src dst),
     be_Presign := (\<lambda>c k. if K k then be_Presign be c k else be_Presign other c k),
     be_Native := be_Native other\<rparr>"

section \<open>The registry\<close>

type_synonym 'w Constructor = "ctx \<Rightarrow> Config \<Rightarrow> 'w \<Rightarrow> (goerr, 'w Backend) result \<times> 'w"

type_synonym 'w registry = "(string \<times> 'w Constructor) list"

definition Register :: "string \<Rightarrow> 'w Constructor \<Rightarrow> 'w registry \<Rightarrow> 'w registry" where
  "Register kind c reg = AList.update kind c reg"

definition Registered :: "'w registry \<Rightarrow> string list" where
  "Registered reg = sort (map fst reg)"

definition apply_prefix :: "string \<Rightarrow> 'w Backend \<Rightarrow> 'w Backend" where
  "apply_prefix pfx inner = (if pfx = [] then inner else prefixed inner pfx)"

definition Open :: "'w registry \<Rightarrow> ctx \<Rightarrow> Config \<Rightarrow> 'w \<Rightarrow> (goerr, 'w Backend) result \<times> 'w" where
  "Open reg c cfg w = (case map_of reg (cfg_Kind cfg) of
      None \<Rightarrow> (Err (Msg (''unknown backend kind '' @ quoted (cfg_Kind cfg) @ '' (registered: [''
                @ join_with '' '' (Registered reg) @ ''])'')), w)
    | Some new \<Rightarrow>
        (case (if cfg_HTTPClient cfg then Ok (cfg_Prefix cfg) else NormalizePrefix (cfg_Prefix cfg)) of
           Err e \<Rightarrow> (Err e, w)
         | Panic \<Rightarrow> (Panic, w)
         | Ok pfx \<Rightarrow>
            (let cfg = (if pfx \<noteq> [] \<and> cfg_ProbeKey cfg \<noteq> []
                        then cfg\<lparr>cfg_ProbeKey := pfx @ cfg_ProbeKey cfg\<rparr> else cfg);
                 (inner, w') = new c (cfg\<lparr>cfg_Prefix := pfx\<rparr>) w
             in (map_ok (apply_prefix pfx) inner, w'))))"

section \<open>Normalized prefixes\<close>

lemma trim_char_ends:
  assumes "trim_char c s = t" "t \<noteq> []"
  shows "hd t \<noteq> c" "last t \<noteq> c"
proof -
  let ?u = "dropWhile (\<lambda>x. x = c) s"
  have t: "t = rev (dropWhile (\<lambda>x. x = c) (rev ?u))" using assms(1) by (simp add: trim_char_def)
  with assms(2) have ne: "dropWhile (\<lambda>x. x = c) (rev ?u) \<noteq> []" by auto
  from hd_dropWhile [OF ne] show "last t \<noteq> c" by (simp add: t last_rev)
  obtain v where "rev ?u = v @ dropWhile (\<lambda>x. x = c) (rev ?u)"
    by (metis takeWhile_dropWhile_id)
  then have "?u = t @ rev v" by (metis rev_append rev_rev_ident t)
  with assms(2) have "hd ?u = hd t" "?u \<noteq> []" by auto
  with hd_dropWhile [of "\<lambda>x. x = c" s] show "hd t \<noteq> c" by simp
qed

lemma trim_char_id: "t \<noteq> [] \<Longrightarrow> hd t \<noteq> c \<Longrightarrow> last t \<noteq> c \<Longrightarrow> trim_char c (t @ [c]) = t"
proof -
  assume t: "t \<noteq> []" "hd t \<noteq> c" "last t \<noteq> c"
  then have "dropWhile (\<lambda>x. x = c) (t @ [c]) = t @ [c]" by (cases t) auto
  moreover have "dropWhile (\<lambda>x. x = c) (c # rev t) = rev t"
    using t by (cases "rev t") (auto simp: last_rev)
  ultimately show ?thesis by (simp add: trim_char_def)
qed

text \<open>What an accepted prefix looks like: usable segments, one slash after each.\<close>

lemma NormalizePrefix_Ok:
  assumes "NormalizePrefix raw = Ok p" "p \<noteq> []"
  obtains t where "t = trim_char (CHR ''/'') (trim_space raw)" "t \<noteq> []" "p = t @ ''/''"
    "\<forall>s \<in> set (split_on (CHR ''/'') t). \<not> bad_segment s"
  using assms by (auto simp: NormalizePrefix_def Let_def split: if_splits)

lemma trim_space_unchanged:
  assumes "strip_seqs space_seqs p = p" "p \<noteq> []" "last p = CHR ''/''"
  shows "trim_space p = p"
proof -
  obtain q where p: "rev p = CHR ''/'' # q"
    using assms(2,3) by (metis append_butlast_last_id rev_eq_Cons_iff rev_rev_ident rev.simps(2) rev_append rev_singleton_conv append_Cons append_Nil)
  have "find (\<lambda>r. r \<noteq> [] \<and> has_prefix (CHR ''/'' # q) r) (map rev space_seqs) = None"
    by (simp add: space_seqs_def has_prefix_def)
  then have "strip_seqs (map rev space_seqs) (rev p) = rev p"
    unfolding p by (subst strip_seqs.simps) simp
  with assms(1) show ?thesis by (simp add: trim_space_def)
qed

lemma NormalizePrefix_idem:
  assumes "NormalizePrefix raw = Ok p" "strip_seqs space_seqs p = p"
  shows "NormalizePrefix p = Ok p"
proof (cases "p = []")
  case True
  then show ?thesis using assms(2)
    by (simp add: NormalizePrefix_def trim_space_def trim_char_def strip_seqs.simps
        space_seqs_def has_prefix_def)
next
  case False
  then obtain t where t: "t = trim_char (CHR ''/'') (trim_space raw)" "t \<noteq> []" "p = t @ ''/''"
      "\<forall>s \<in> set (split_on (CHR ''/'') t). \<not> bad_segment s"
    using NormalizePrefix_Ok assms(1) by blast
  have "trim_space p = p" using trim_space_unchanged [OF assms(2) False] t(3) by simp
  moreover have "trim_char (CHR ''/'') p = t"
    using trim_char_ends [OF t(1) [symmetric] t(2)] trim_char_id [OF t(2)] t(3) by simp
  ultimately show ?thesis using t by (simp add: NormalizePrefix_def Let_def)
qed

section \<open>Confinement\<close>

context plain_store
begin

text \<open>The wrapper is again a store, of the keys under the prefix.\<close>

lemma prefixed_plain: "plain_store (prefixed be p) (\<lambda>w k. view w (p @ k)) inv"
proof (unfold_locales, goal_cases)
  case (1 w k d tag im c)
  from get_found [OF this, of c] show ?case
    by (fastforce simp: prefixed_def px_key_def px_info_def px_strip_def)
next
  case (2 w k d tag im c)
  from get_changed [OF this, of c] show ?case by (fastforce simp: prefixed_def px_key_def)
next
  case (3 w k c im)
  from get_missing [OF this, of c im] show ?case by (fastforce simp: prefixed_def px_key_def)
next
  case (4 w r d opts k c)
  from put_stored [OF this, of c] show ?case
    by (fastforce simp: prefixed_def px_key_def fun_eq_iff)
next
  case (5 w r d opts k c)
  from put_exists [OF this, of c] show ?case by (fastforce simp: prefixed_def px_key_def)
next
  case (6 w r d opts tag k old c)
  from put_swapped [OF this, of c] show ?case
    by (fastforce simp: prefixed_def px_key_def fun_eq_iff)
next
  case (7 w r d opts im k old tag c)
  from put_stale [OF this, of c] show ?case by (fastforce simp: prefixed_def px_key_def)
next
  case (8 w r d opts k c)
  from put_absent [OF this, of c] show ?case by (fastforce simp: prefixed_def px_key_def)
next
  case (9 w dopts c k)
  from delete_done [OF this, of c "p @ k"] show ?case
    by (fastforce simp: prefixed_def px_key_def fun_eq_iff)
next
  case (10 w dopts tag k old c)
  from delete_matched [OF this, of c] show ?case
    by (fastforce simp: prefixed_def px_key_def fun_eq_iff)
next
  case (11 w dopts im k old tag c)
  from delete_stale [OF this, of c] show ?case by (fastforce simp: prefixed_def px_key_def)
qed

text \<open>So is what \<open>Open\<close> answers, prefix or not.\<close>

lemma opened_plain: "plain_store (apply_prefix p be) (\<lambda>w k. view w (p @ k)) inv"
  using prefixed_plain [of p] plain_store_axioms by (simp add: apply_prefix_def)

end

context object_store
begin

lemma opened_store: "object_store (apply_prefix p be) (\<lambda>w k. view w (p @ k)) inv"
proof (intro object_store.intro object_store_axioms.intro opened_plain, goal_cases)
  case (1 w r d err g c k opts)
  from put_broken [OF this, of c "p @ k" opts] put_broken [OF this, of c k opts] show ?case
    by (auto simp: apply_prefix_def prefixed_def px_key_def)
qed

end

context strict_store
begin

lemma opened_strict: "strict_store (apply_prefix p be) (\<lambda>w k. view w (p @ k)) inv"
proof (intro strict_store.intro strict_store_axioms.intro opened_store, goal_cases)
  case (1 w k d tag im c)
  from get_mismatch [OF this, of c] show ?case by (fastforce simp: apply_prefix_def prefixed_def px_key_def)
next
  case (2 w r d opts k c)
  from put_present [OF this, of c] show ?case by (fastforce simp: apply_prefix_def prefixed_def px_key_def)
next
  case (3 w r d opts im k c)
  from put_mismatch [OF this, of c] show ?case by (fastforce simp: apply_prefix_def prefixed_def px_key_def)
next
  case (4 c k dopts w)
  show ?case by (simp add: apply_prefix_def prefixed_def delete_unversioned [of _ _ dopts])
next
  case (5 w dopts im k c)
  from delete_mismatch [OF this, of c] show ?case by (fastforce simp: apply_prefix_def prefixed_def px_key_def)
qed

end

interpretation omem: strict_store "apply_prefix p (mem_backend sha256 bucket)"
    "\<lambda>w k. mem_view w (p @ k)" "mem_inv sha256"
  for sha256 bucket p
  by (rule mem.opened_strict)

section \<open>Properties\<close>

text \<open>An accepted prefix is empty, or ends in a slash after one or more segments none of which
  is empty, a dot or two dots, so that no key under it can climb out of it.\<close>

theorem NormalizePrefix_shape:
  assumes "NormalizePrefix raw = Ok p"
  shows "p = [] \<or> (\<exists>segs. segs \<noteq> [] \<and> p = join_with ''/'' segs @ ''/'' \<and>
     list_all (\<lambda>s. \<not> bad_segment s \<and> CHR ''/'' \<notin> set s) segs)"
proof (cases "p = []")
  case False
  obtain t where t: "p = t @ ''/''" "\<forall>s \<in> set (split_on (CHR ''/'') t). \<not> bad_segment s"
    using NormalizePrefix_Ok [OF assms False] by blast
  then show ?thesis
    by (intro disjI2 exI [of _ "split_on (CHR ''/'') t"]) (auto simp: list_all_iff dest: split_on_no_sep)
qed simp

lemma NormalizePrefix_shape_witness: "NormalizePrefix ''a/b'' = Ok ''a/b/'' \<and> \<not> bad_segment ''a''"
proof -
  have n: "NormalizePrefix ''a/b'' = Ok ''a/b/''"
    by (simp add: NormalizePrefix_def trim_space_def strip_seqs.simps space_seqs_def has_prefix_def trim_char_def bad_segment_def)
  from NormalizePrefix_shape [OF n] n show ?thesis by (simp add: bad_segment_def)
qed

text \<open>normalizing is not idempotent: a space after a leading slash survives the first pass and
  is trimmed by a second one, which names a different prefix.\<close>

theorem NormalizePrefix_not_idempotent:
  "NormalizePrefix ''/ a/'' = Ok '' a/'' \<and> NormalizePrefix '' a/'' = Ok ''a/''"
  by (simp add: NormalizePrefix_def trim_space_def strip_seqs.simps space_seqs_def has_prefix_def trim_char_def bad_segment_def)

lemma mem_ops_view:
  "k \<noteq> key \<Longrightarrow> mem_view (snd (mem_Put sha256 c key r po w)) k = mem_view w k"
  "k \<noteq> key \<Longrightarrow> mem_view (snd (mem_Delete c key dopts w)) k = mem_view w k"
  "k \<noteq> key \<Longrightarrow> mem_view (snd (mem_Copy c src key co w)) k = mem_view w k"
  by (auto simp: mem_Put_def mem_Delete_def mem_Copy_def Let_def split: option.splits prod.splits)

text \<open>C39: a prefixed store, over any inner store and whatever keys the caller names, calls the inner
  store only on keys, and lists only under prefixes, that begin with the prefix, and never passes a
  native call through: replacing what the inner store does on any other call by anything at all
  changes nothing. So over the in-memory store, which takes keys literally, Put, Delete, DeleteMany
  and Copy leave every key outside the prefix as it was.\<close>

theorem prefixed_confined:
  "prefixed (splice (\<lambda>k. has_prefix k p) be other) p = prefixed be p \<and>
   (\<not> has_prefix k p \<longrightarrow>
    mem_view (snd (be_Put (prefixed (mem_backend sha256 b) p) c key r po w)) k = mem_view w k \<and>
    mem_view (snd (be_Delete (prefixed (mem_backend sha256 b) p) c key dopts w)) k = mem_view w k \<and>
    mem_view (snd (be_DeleteMany (prefixed (mem_backend sha256 b) p) c ks w)) k = mem_view w k \<and>
    mem_view (snd (be_Copy (prefixed (mem_backend sha256 b) p) c src key co w)) k = mem_view w k)"
proof (intro conjI impI)
  show "prefixed (splice (\<lambda>k. has_prefix k p) be other) p = prefixed be p"
    by (simp add: prefixed_def splice_def px_key_def px_DeleteMany_def px_List_def fun_eq_iff)
next
  assume "\<not> has_prefix k p"
  then have ne: "k \<noteq> p @ x" for x by auto
  then have nk: "k \<notin> set (map (px_key p) ks)" by (auto simp: px_key_def)
  note d = prefixed_def mem_backend_def px_key_def px_DeleteMany_def mem_DeleteMany_def case_prod_beta
    mem_ops_view mem_DeleteMany_loop_view
  show "mem_view (snd (be_Put (prefixed (mem_backend sha256 b) p) c key r po w)) k = mem_view w k"
    "mem_view (snd (be_Delete (prefixed (mem_backend sha256 b) p) c key dopts w)) k = mem_view w k"
    "mem_view (snd (be_DeleteMany (prefixed (mem_backend sha256 b) p) c ks w)) k = mem_view w k"
    "mem_view (snd (be_Copy (prefixed (mem_backend sha256 b) p) c src key co w)) k = mem_view w k"
    using ne nk by (simp_all add: d)
qed

lemma prefixed_confined_witness:
  "mem_view (snd (be_Delete (prefixed (mem_backend (\<lambda>d. []) ''bucket'') ''t/'') background ''../b''
     \<lparr>do_VersionID = [], do_IfMatch = []\<rparr> sample_mem)) ''b'' \<noteq> None"
proof -
  have "\<not> has_prefix ''b'' ''t/''" by (simp add: has_prefix_def)
  with prefixed_confined [of "''t/''" "mem_backend (\<lambda>d. []) ''bucket''" "mem_backend (\<lambda>d. []) []" "''b''"]
  show ?thesis by (simp add: mem_view_def) (simp add: sample_mem_def)
qed

end
