(* ===== verification/Events.thy ===== *)
theory Events
  imports Reader "HOL-Library.AList"
begin

text \<open>
  The write-event fan-out of one replica (internal/events/events.go). A channel is its
  buffered events and whether it is closed; sending on or closing a closed channel is a
  panic (\<open>None\<close>). The step relation interleaves subscribers, publishers and
  consumers, and its invariant says what a Watch subscriber is owed.
\<close>

section \<open>State and operations\<close>

datatype Op = OpPut | OpDelete

record Event =
  ev_Key :: string
  ev_Op :: Op
  ev_ETag :: string
  ev_VersionID :: string
  ev_Time :: gotime

record Chan =
  ch_buf :: "Event list"
  ch_closed :: bool

record Hub =
  hub_subs :: "(nat \<times> string) list"
  hub_chans :: "nat \<Rightarrow> Chan option"
  hub_nextID :: nat
  hub_closed :: bool

definition subBuffer :: nat where "subBuffer = 256"

definition NewHub :: Hub where
  "NewHub = \<lparr>hub_subs = [], hub_chans = (\<lambda>_. None), hub_nextID = 0, hub_closed = False\<rparr>"

definition Subscribe :: "string \<Rightarrow> Hub \<Rightarrow> nat \<times> Hub" where
  "Subscribe p h = (let i = hub_nextID h in
     (i, h\<lparr>hub_nextID := i + 1, hub_subs := AList.update i p (hub_subs h),
           hub_chans := (hub_chans h)(i := Some \<lparr>ch_buf = [], ch_closed = False\<rparr>)\<rparr>))"

text \<open>\<open>close(s.ch)\<close> and \<open>delete(h.subs, id)\<close>, always done together.\<close>

definition drop_sub :: "nat \<Rightarrow> Hub \<Rightarrow> Hub option" where
  "drop_sub i h = (case hub_chans h i of
      None \<Rightarrow> None
    | Some ch \<Rightarrow> (if ch_closed ch then None
        else Some (h\<lparr>hub_subs := AList.delete i (hub_subs h),
                     hub_chans := (hub_chans h)(i := Some (ch\<lparr>ch_closed := True\<rparr>))\<rparr>)))"

definition Subscription_Close :: "nat \<Rightarrow> Hub \<Rightarrow> Hub option" where
  "Subscription_Close i h = (if map_of (hub_subs h) i \<noteq> None then drop_sub i h else Some h)"

definition offer :: "Event \<Rightarrow> nat \<Rightarrow> Hub \<Rightarrow> Hub option" where
  "offer e i h = (case hub_chans h i of
      None \<Rightarrow> None
    | Some ch \<Rightarrow> (if ch_closed ch then None
        else if length (ch_buf ch) < subBuffer
        then Some (h\<lparr>hub_chans := (hub_chans h)(i := Some (ch\<lparr>ch_buf := ch_buf ch @ [e]\<rparr>))\<rparr>)
        else drop_sub i h))"

fun dispatch_loop :: "Event \<Rightarrow> (nat \<times> string) list \<Rightarrow> Hub \<Rightarrow> Hub option" where
  "dispatch_loop e [] h = Some h"
| "dispatch_loop e ((i, p) # subs) h =
     (if \<not> has_prefix (ev_Key e) p then dispatch_loop e subs h
      else case offer e i h of None \<Rightarrow> None | Some h' \<Rightarrow> dispatch_loop e subs h')"

definition dispatch :: "Event \<Rightarrow> Hub \<Rightarrow> Hub option" where
  "dispatch e h = dispatch_loop e (hub_subs h) h"

definition stamp :: "gotime \<Rightarrow> Event \<Rightarrow> Event" where
  "stamp now e = (if ev_Time e = 0 then e\<lparr>ev_Time := now\<rparr> else e)"

definition Publish :: "gotime \<Rightarrow> Event \<Rightarrow> Hub \<Rightarrow> Hub option" where
  "Publish now e h = dispatch (stamp now e) h"

fun close_loop :: "(nat \<times> string) list \<Rightarrow> Hub \<Rightarrow> Hub option" where
  "close_loop [] h = Some h"
| "close_loop ((i, p) # subs) h = (case drop_sub i h of None \<Rightarrow> None | Some h' \<Rightarrow> close_loop subs h')"

definition Hub_Close :: "Hub \<Rightarrow> Hub option" where
  "Hub_Close h = (if hub_closed h then Some h
     else close_loop (hub_subs h) (h\<lparr>hub_closed := True\<rparr>))"

text \<open>A receive on \<open>Events()\<close>: an event, the end (channel closed), or it blocks.\<close>

datatype recv = Received Event Hub | Ended | Blocked

definition receive :: "nat \<Rightarrow> Hub \<Rightarrow> recv" where
  "receive i h = (case hub_chans h i of
      None \<Rightarrow> Blocked
    | Some ch \<Rightarrow> (case ch_buf ch of
        e # rest \<Rightarrow> Received e (h\<lparr>hub_chans := (hub_chans h)(i := Some (ch\<lparr>ch_buf := rest\<rparr>))\<rparr>)
      | [] \<Rightarrow> (if ch_closed ch then Ended else Blocked)))"

section \<open>Interleavings\<close>

text \<open>
  \<open>sys_got i\<close> is what subscriber \<open>i\<close> has received, \<open>sys_due i\<close> every
  event matching its prefix that was published while it was subscribed.
\<close>

record HubSys =
  sys_hub :: Hub
  sys_got :: "nat \<Rightarrow> Event list"
  sys_due :: "nat \<Rightarrow> Event list"

definition sys_init :: HubSys where
  "sys_init = \<lparr>sys_hub = NewHub, sys_got = (\<lambda>_. []), sys_due = (\<lambda>_. [])\<rparr>"

definition owed :: "Hub \<Rightarrow> Event \<Rightarrow> nat \<Rightarrow> Event list" where
  "owed h e i = (case map_of (hub_subs h) i of
      None \<Rightarrow> [] | Some p \<Rightarrow> if has_prefix (ev_Key e) p then [e] else [])"

inductive hub_step :: "HubSys \<Rightarrow> HubSys \<Rightarrow> bool" where
  subscribe: "Subscribe p (sys_hub s) = (i, h) \<Longrightarrow> hub_step s (s\<lparr>sys_hub := h\<rparr>)"
| publish: "Publish now e (sys_hub s) = Some h \<Longrightarrow>
     hub_step s (s\<lparr>sys_hub := h, sys_due := (\<lambda>i. sys_due s i @ owed (sys_hub s) (stamp now e) i)\<rparr>)"
| consume: "receive i (sys_hub s) = Received e h \<Longrightarrow>
     hub_step s (s\<lparr>sys_hub := h, sys_got := (sys_got s)(i := sys_got s i @ [e])\<rparr>)"
| unsubscribe: "Subscription_Close i (sys_hub s) = Some h \<Longrightarrow> hub_step s (s\<lparr>sys_hub := h\<rparr>)"
| close_hub: "Hub_Close (sys_hub s) = Some h \<Longrightarrow> hub_step s (s\<lparr>sys_hub := h\<rparr>)"

inductive hub_reachable :: "HubSys \<Rightarrow> bool" where
  init: "hub_reachable sys_init"
| step: "hub_reachable s \<Longrightarrow> hub_step s t \<Longrightarrow> hub_reachable t"

inductive_cases hub_stepE: "hub_step s t"

section \<open>Invariant\<close>

definition sub_ok :: "Hub \<Rightarrow> nat \<Rightarrow> Event list \<Rightarrow> Event list \<Rightarrow> bool" where
  "sub_ok h i got due \<longleftrightarrow> (case hub_chans h i of
      None \<Rightarrow> map_of (hub_subs h) i = None \<and> hub_nextID h \<le> i \<and> got = [] \<and> due = []
    | Some ch \<Rightarrow> i < hub_nextID h \<and> length (ch_buf ch) \<le> subBuffer
        \<and> (ch_closed ch \<longleftrightarrow> map_of (hub_subs h) i = None)
        \<and> (\<exists>lost. due = got @ ch_buf ch @ lost \<and> (\<not> ch_closed ch \<longrightarrow> lost = [])))"

definition hub_inv :: "HubSys \<Rightarrow> bool" where
  "hub_inv s \<longleftrightarrow> distinct (map fst (hub_subs (sys_hub s)))
     \<and> (\<forall>i. sub_ok (sys_hub s) i (sys_got s i) (sys_due s i))"

text \<open>A subscriber's view of the hub: steps at another subscriber leave it alone.\<close>

definition same_sub :: "nat \<Rightarrow> Hub \<Rightarrow> Hub \<Rightarrow> bool" where
  "same_sub i h h' \<longleftrightarrow> hub_chans h' i = hub_chans h i
     \<and> map_of (hub_subs h') i = map_of (hub_subs h) i \<and> hub_nextID h' = hub_nextID h"

lemma same_sub_ok: "same_sub i h h' \<Longrightarrow> sub_ok h' i got due = sub_ok h i got due"
  unfolding same_sub_def sub_ok_def by (elim conjE) (simp split: option.split)

lemma drop_sub_other: "drop_sub i h = Some h' \<Longrightarrow> j \<noteq> i \<Longrightarrow> same_sub j h h'"
  by (auto simp: drop_sub_def same_sub_def delete_conv' split: option.splits if_splits)

lemma offer_other: "offer e i h = Some h' \<Longrightarrow> j \<noteq> i \<Longrightarrow> same_sub j h h'"
  by (auto simp: offer_def same_sub_def split: option.splits if_splits
      dest!: drop_sub_other [unfolded same_sub_def])

lemma drop_sub_ok:
  "sub_ok h i got due \<Longrightarrow> map_of (hub_subs h) i \<noteq> None \<Longrightarrow>
   \<exists>h'. drop_sub i h = Some h' \<and> sub_ok h' i got due \<and> sub_ok h' i got (due @ extra)"
  by (auto simp: sub_ok_def drop_sub_def delete_conv' split: option.splits)

lemma offer_ok:
  assumes "sub_ok h i got due" "map_of (hub_subs h) i \<noteq> None"
  shows "\<exists>h'. offer e i h = Some h' \<and> sub_ok h' i got (due @ [e])"
proof -
  obtain ch where ch: "hub_chans h i = Some ch" "\<not> ch_closed ch"
    using assms by (auto simp: sub_ok_def split: option.splits)
  show ?thesis
  proof (cases "length (ch_buf ch) < subBuffer")
    case True
    with ch assms show ?thesis by (auto simp: sub_ok_def offer_def)
  next
    case False
    with ch drop_sub_ok [OF assms, of "[e]"] show ?thesis by (auto simp: offer_def)
  qed
qed

lemma hub_subs_distinct:
  "drop_sub i h = Some h' \<Longrightarrow> distinct (map fst (hub_subs h)) \<Longrightarrow> distinct (map fst (hub_subs h'))"
  "offer e i h = Some h' \<Longrightarrow> distinct (map fst (hub_subs h)) \<Longrightarrow> distinct (map fst (hub_subs h'))"
  by (auto simp: drop_sub_def offer_def distinct_delete split: option.splits if_splits)

text \<open>
  The delivery loop, over a snapshot of the subscriptions: every listed subscriber is still
  registered when its turn comes, because only its own turn can drop it.
\<close>

lemma dispatch_loop_ok:
  assumes "distinct (map fst subs)" "\<forall>(i, p) \<in> set subs. map_of (hub_subs h) i = Some p"
    and "distinct (map fst (hub_subs h))" "\<forall>i. sub_ok h i (got i) (due i)"
  shows "\<exists>h'. dispatch_loop e subs h = Some h' \<and> distinct (map fst (hub_subs h'))
    \<and> (\<forall>i. sub_ok h' i (got i) (due i @ (case map_of subs i of
          None \<Rightarrow> [] | Some p \<Rightarrow> if has_prefix (ev_Key e) p then [e] else [])))"
  using assms
proof (induction subs arbitrary: h due)
  case (Cons ip subs)
  obtain i p where ip: "ip = (i, p)" by (cases ip)
  have i: "i \<notin> fst ` set subs" and reg: "map_of (hub_subs h) i = Some p"
    using Cons.prems(1,2) ip by auto
  have none: "map_of subs i = None" using i by (simp add: map_of_eq_None_iff)
  show ?case
  proof (cases "has_prefix (ev_Key e) p")
    case False
    obtain h' where h': "dispatch_loop e subs h = Some h'" "distinct (map fst (hub_subs h'))"
        "\<forall>j. sub_ok h' j (got j) (due j @ (case map_of subs j of
            None \<Rightarrow> [] | Some p \<Rightarrow> if has_prefix (ev_Key e) p then [e] else []))"
      using Cons.IH [of h due] Cons.prems by auto
    have "sub_ok h' j (got j) (due j @ (case map_of (ip # subs) j of
            None \<Rightarrow> [] | Some p \<Rightarrow> if has_prefix (ev_Key e) p then [e] else []))" for j
      using h'(3) [rule_format, of j] False none ip by (cases "j = i") auto
    with h'(1,2) False ip show ?thesis by auto
  next
    case True
    obtain h1 where h1: "offer e i h = Some h1" "sub_ok h1 i (got i) (due i @ [e])"
      using offer_ok [of h i "got i" "due i" e] reg Cons.prems(4) by auto
    let ?due = "due(i := due i @ [e])"
    have oth: "j \<noteq> i \<Longrightarrow> same_sub j h h1" for j using offer_other h1(1) by blast
    have "\<forall>(j, q) \<in> set subs. map_of (hub_subs h1) j = Some q"
    proof clarify
      fix j q assume jq: "(j, q) \<in> set subs"
      with i have "j \<noteq> i" by force
      with oth jq Cons.prems(2) show "map_of (hub_subs h1) j = Some q"
        by (auto simp: same_sub_def)
    qed
    moreover have "\<forall>j. sub_ok h1 j (got j) (?due j)"
      using h1(2) oth Cons.prems(4) same_sub_ok by (metis fun_upd_apply)
    moreover have "distinct (map fst (hub_subs h1))"
      using hub_subs_distinct(2) h1(1) Cons.prems(3) by blast
    ultimately obtain h' where h': "dispatch_loop e subs h1 = Some h'"
        "distinct (map fst (hub_subs h'))"
        "\<forall>j. sub_ok h' j (got j) (?due j @ (case map_of subs j of
            None \<Rightarrow> [] | Some p \<Rightarrow> if has_prefix (ev_Key e) p then [e] else []))"
      using Cons.IH [of h1 ?due] Cons.prems(1) by auto
    have "sub_ok h' j (got j) (due j @ (case map_of (ip # subs) j of
            None \<Rightarrow> [] | Some p \<Rightarrow> if has_prefix (ev_Key e) p then [e] else []))" for j
      using h'(3) [rule_format, of j] True none ip by (cases "j = i") auto
    with h'(1,2) h1(1) True ip show ?thesis by auto
  qed
qed auto

lemma close_loop_ok:
  assumes "distinct (map fst subs)" "\<forall>(i, p) \<in> set subs. map_of (hub_subs h) i = Some p"
    and "distinct (map fst (hub_subs h))" "\<forall>i. sub_ok h i (got i) (due i)"
  shows "\<exists>h'. close_loop subs h = Some h' \<and> distinct (map fst (hub_subs h'))
    \<and> (\<forall>i. sub_ok h' i (got i) (due i))"
  using assms
proof (induction subs arbitrary: h)
  case (Cons ip subs)
  obtain i p where ip: "ip = (i, p)" by (cases ip)
  have i: "i \<notin> fst ` set subs" and reg: "map_of (hub_subs h) i = Some p"
    using Cons.prems(1,2) ip by auto
  obtain h1 where h1: "drop_sub i h = Some h1" "sub_ok h1 i (got i) (due i)"
    using drop_sub_ok [of h i "got i" "due i" "[]"] reg Cons.prems(4) by auto
  have oth: "j \<noteq> i \<Longrightarrow> same_sub j h h1" for j using drop_sub_other h1(1) by blast
  have "\<forall>(j, q) \<in> set subs. map_of (hub_subs h1) j = Some q"
  proof clarify
    fix j q assume jq: "(j, q) \<in> set subs"
    with i have "j \<noteq> i" by force
    with oth jq Cons.prems(2) show "map_of (hub_subs h1) j = Some q"
      by (auto simp: same_sub_def)
  qed
  moreover have "\<forall>j. sub_ok h1 j (got j) (due j)"
    using h1(2) oth Cons.prems(4) same_sub_ok by metis
  moreover have "distinct (map fst (hub_subs h1))"
    using hub_subs_distinct(1) h1(1) Cons.prems(3) by blast
  ultimately show ?case using Cons.IH [of h1] Cons.prems(1) h1(1) ip by auto
qed auto

lemma subs_self: "distinct (map fst l) \<Longrightarrow> \<forall>(i, p) \<in> set l. map_of l i = Some p"
  by auto

section \<open>Preservation\<close>

lemma hub_inv_init: "hub_inv sys_init"
  by (simp add: hub_inv_def sys_init_def NewHub_def sub_ok_def)

lemma Publish_ok:
  assumes "hub_inv s"
  shows "\<exists>h. Publish now e (sys_hub s) = Some h
    \<and> hub_inv (s\<lparr>sys_hub := h, sys_due := (\<lambda>i. sys_due s i @ owed (sys_hub s) (stamp now e) i)\<rparr>)"
  using dispatch_loop_ok [of "hub_subs (sys_hub s)" "sys_hub s" "sys_got s" "sys_due s" "stamp now e"]
    subs_self assms
  by (auto simp: hub_inv_def Publish_def dispatch_def owed_def)

lemma Hub_Close_ok:
  assumes "hub_inv s"
  shows "\<exists>h. Hub_Close (sys_hub s) = Some h \<and> hub_inv (s\<lparr>sys_hub := h\<rparr>)"
proof -
  have "sub_ok (h\<lparr>hub_closed := b\<rparr>) i got due = sub_ok h i got due" for h b i got due
    by (simp add: sub_ok_def split: option.split)
  then show ?thesis
    using close_loop_ok [of "hub_subs (sys_hub s)" "(sys_hub s)\<lparr>hub_closed := True\<rparr>" "sys_got s" "sys_due s"]
      subs_self assms
    by (auto simp: hub_inv_def Hub_Close_def)
qed

lemma Subscribe_ok:
  assumes "hub_inv s" "Subscribe p (sys_hub s) = (i, h)"
  shows "hub_inv (s\<lparr>sys_hub := h\<rparr>)"
proof -
  have old: "sub_ok (sys_hub s) j (sys_got s j) (sys_due s j)" for j
    using assms(1) by (simp add: hub_inv_def)
  have "hub_chans (sys_hub s) (hub_nextID (sys_hub s)) = None"
    using old [of "hub_nextID (sys_hub s)"] by (auto simp: sub_ok_def split: option.splits)
  with old [of "hub_nextID (sys_hub s)"]
  have "sys_got s (hub_nextID (sys_hub s)) = []" "sys_due s (hub_nextID (sys_hub s)) = []"
    by (auto simp: sub_ok_def)
  then have "sub_ok h j (sys_got s j) (sys_due s j)" for j
    using assms(2) old [of j]
    by (cases "j = hub_nextID (sys_hub s)")
       (auto simp: Subscribe_def Let_def sub_ok_def update_conv' split: option.splits)
  with assms show ?thesis by (auto simp: hub_inv_def Subscribe_def Let_def distinct_update)
qed

lemma Close_ok:
  assumes "hub_inv s"
  shows "\<exists>h. Subscription_Close i (sys_hub s) = Some h \<and> hub_inv (s\<lparr>sys_hub := h\<rparr>)"
proof (cases "map_of (hub_subs (sys_hub s)) i = None")
  case True
  with assms show ?thesis by (simp add: Subscription_Close_def)
next
  case False
  have old: "sub_ok (sys_hub s) j (sys_got s j) (sys_due s j)" for j
    using assms(1) by (simp add: hub_inv_def)
  obtain h where h: "drop_sub i (sys_hub s) = Some h" "sub_ok h i (sys_got s i) (sys_due s i)"
    using drop_sub_ok [OF old [of i] False, of "[]"] by auto
  then have "sub_ok h j (sys_got s j) (sys_due s j)" for j
    using drop_sub_other [OF h(1), of j] same_sub_ok [of j "sys_hub s" h] old [of j] by (cases "j = i") auto
  with h False assms hub_subs_distinct(1) [OF h(1)] show ?thesis
    by (auto simp: Subscription_Close_def hub_inv_def)
qed

lemma receive_ok:
  assumes "hub_inv s" "receive i (sys_hub s) = Received e h"
  shows "hub_inv (s\<lparr>sys_hub := h, sys_got := (sys_got s)(i := sys_got s i @ [e])\<rparr>)"
proof -
  obtain ch rest where ch: "hub_chans (sys_hub s) i = Some ch" "ch_buf ch = e # rest"
      "h = (sys_hub s)\<lparr>hub_chans := (hub_chans (sys_hub s))(i := Some (ch\<lparr>ch_buf := rest\<rparr>))\<rparr>"
    using assms(2) by (auto simp: receive_def split: option.splits list.splits if_splits)
  have old: "sub_ok (sys_hub s) j (sys_got s j) (sys_due s j)" for j
    using assms(1) by (simp add: hub_inv_def)
  have "sub_ok h j (((sys_got s)(i := sys_got s i @ [e])) j) (sys_due s j)" for j
    using old [of j] ch by (auto simp: sub_ok_def split: option.splits)
  with assms(1) ch(3) show ?thesis by (simp add: hub_inv_def)
qed

lemma hub_step_inv: "hub_step s t \<Longrightarrow> hub_inv s \<Longrightarrow> hub_inv t"
proof (induction rule: hub_step.induct)
  case (publish now e s h)
  then show ?case using Publish_ok [of s now e] by auto
next
  case (unsubscribe i s h)
  then show ?case using Close_ok [of s i] by auto
next
  case (close_hub s h)
  then show ?case using Hub_Close_ok [of s] by auto
qed (auto intro: Subscribe_ok receive_ok)

lemma hub_reachable_inv: "hub_reachable s \<Longrightarrow> hub_inv s"
  by (induction rule: hub_reachable.induct) (auto intro: hub_inv_init hub_step_inv)

section \<open>Properties\<close>

text \<open>C12: in every interleaving of publishers, subscribers and consumers, no publish, close or
  unsubscribe panics, and each subscriber has received, in order and without a gap, the matching
  events published while it was subscribed: all but those still in its buffer while it is
  subscribed, and a prefix of them once it was dropped. No buffer exceeds its bound.\<close>

theorem hub_delivery:
  assumes "hub_reachable s"
  shows "Publish now e (sys_hub s) \<noteq> None \<and> Hub_Close (sys_hub s) \<noteq> None \<and>
    Subscription_Close i (sys_hub s) \<noteq> None \<and>
    (case hub_chans (sys_hub s) i of
       None \<Rightarrow> sys_got s i = [] \<and> sys_due s i = []
     | Some ch \<Rightarrow> length (ch_buf ch) \<le> subBuffer \<and>
         (\<exists>lost. sys_due s i = sys_got s i @ ch_buf ch @ lost \<and>
            (map_of (hub_subs (sys_hub s)) i \<noteq> None \<longrightarrow> lost = [])))"
proof -
  have inv: "hub_inv s" by (rule hub_reachable_inv [OF assms])
  then have "sub_ok (sys_hub s) i (sys_got s i) (sys_due s i)" by (simp add: hub_inv_def)
  then show ?thesis using Publish_ok [OF inv, of now e] Hub_Close_ok [OF inv] Close_ok [OF inv, of i]
    by (auto simp: sub_ok_def split: option.splits)
qed

lemma hub_delivery_witness:
  "Publish 5 \<lparr>ev_Key = ''a'', ev_Op = OpPut, ev_ETag = [], ev_VersionID = [], ev_Time = 0\<rparr> (sys_hub sys_init) \<noteq> None"
  using hub_delivery [OF hub_reachable.init] by blast

end
