(* ===== verification/Status.thy ===== *)
theory Status
  imports Backend Events
begin

text \<open>
  How errors and data leave the gateway (internal/server/errors.go and convert.go): gRPC
  statuses with their ErrorInfo and RetryInfo details, and the conversions between the
  contract's types and the wire messages. \<open>StreamErr\<close> is an error of the stream
  itself, which a handler returns as it is.
\<close>

section \<open>Statuses\<close>

datatype GrpcCode = C_NotFound | C_AlreadyExists | C_FailedPrecondition | C_Unimplemented
  | C_PermissionDenied | C_ResourceExhausted | C_InvalidArgument | C_Unavailable | C_Internal
  | C_Aborted

record ErrorInfo =
  ei_Domain :: string
  ei_Reason :: string
  ei_Metadata :: meta

datatype rpc_err =
    Status (st_Code: GrpcCode) (st_Message: string) (st_Info: ErrorInfo) (st_RetryDelay: "int option")
  | StreamErr goerr

definition ErrorDomain :: string where
  "ErrorDomain = ''object-storage.codefly.dev''"

definition defaultRetryDelay :: int where
  "defaultRetryDelay = 1000000000"

text \<open>
  Every detail the program attaches is ASCII, so \<open>WithDetails\<close>, which fails only on a
  message that cannot be marshalled, does not fail.
\<close>

definition refuse :: "GrpcCode \<Rightarrow> string \<Rightarrow> string \<Rightarrow> meta \<Rightarrow> int \<Rightarrow> rpc_err" where
  "refuse c msg reason m retryAfter =
     (if reason = ReasonStoreThrottled then
        (let source = (if retryAfter \<le> 0 then ''default'' else ''store'');
             delay = (if retryAfter \<le> 0 then defaultRetryDelay else retryAfter)
         in Status c msg \<lparr>ei_Domain = ErrorDomain, ei_Reason = reason,
              ei_Metadata = AList.update ''retry_delay_source'' source m\<rparr> (Some delay))
      else Status c msg \<lparr>ei_Domain = ErrorDomain, ei_Reason = reason, ei_Metadata = m\<rparr> None)"

fun grpc_code :: "Code \<Rightarrow> GrpcCode" where
  "grpc_code NotFound = C_NotFound"
| "grpc_code AlreadyExists = C_AlreadyExists"
| "grpc_code PreconditionFailed = C_FailedPrecondition"
| "grpc_code Unsupported = C_Unimplemented"
| "grpc_code PermissionDenied = C_PermissionDenied"
| "grpc_code Throttled = C_ResourceExhausted"
| "grpc_code InvalidArgument = C_InvalidArgument"
| "grpc_code Unavailable = C_Unavailable"
| "grpc_code TooLarge = C_ResourceExhausted"
| "grpc_code NotModified = C_Internal"
| "grpc_code Internal = C_Internal"

definition toStatus :: "goerr \<Rightarrow> rpc_err" where
  "toStatus err =
     (let (m, retryAfter) = (case as_coded err of
            Some coded \<Rightarrow> (coded_Meta coded, coded_RetryAfter coded) | None \<Rightarrow> ([], 0))
      in refuse (grpc_code (CodeOf err)) (Error err) (ReasonOf err) m retryAfter)"

fun rpc_code :: "rpc_err \<Rightarrow> GrpcCode option" where
  "rpc_code (Status c m i r) = Some c" | "rpc_code (StreamErr e) = None"

fun rpc_reason :: "rpc_err \<Rightarrow> string" where
  "rpc_reason (Status c m i r) = ei_Reason i" | "rpc_reason (StreamErr e) = []"

section \<open>Conversions\<close>

text \<open>Nanoseconds between January 1 of year 1 and the Unix epoch.\<close>

definition unix_epoch :: gotime where
  "unix_epoch = 62135596800 * 1000000000"

definition unixMS :: "gotime \<Rightarrow> int" where
  "unixMS t = (if t = 0 then 0 else (t - unix_epoch) div 1000000)"

definition fromUnixMS :: "int \<Rightarrow> gotime" where
  "fromUnixMS ms = (if ms = 0 then 0 else unix_epoch + ms * 1000000)"

record ProtoInfo =
  pi_Key :: string
  pi_Etag :: string
  pi_WeakEtag :: bool
  pi_Size :: int
  pi_LastModifiedUnixMs :: int
  pi_VersionId :: string
  pi_Generation :: int
  pi_Metageneration :: int
  pi_ContentType :: string
  pi_ContentEncoding :: string
  pi_CacheControl :: string
  pi_UserMetadata :: meta

definition toProtoInfo :: "ObjectInfo \<Rightarrow> ProtoInfo" where
  "toProtoInfo i = \<lparr>pi_Key = oi_Key i, pi_Etag = oi_ETag i, pi_WeakEtag = oi_WeakETag i,
     pi_Size = oi_Size i, pi_LastModifiedUnixMs = unixMS (oi_LastModified i),
     pi_VersionId = oi_VersionID i, pi_Generation = oi_Generation i,
     pi_Metageneration = oi_MetaGeneration i, pi_ContentType = oi_ContentType i,
     pi_ContentEncoding = oi_ContentEncoding i, pi_CacheControl = oi_CacheControl i,
     pi_UserMetadata = oi_UserMetadata i\<rparr>"

record ProtoCapabilities =
  pc_Backend :: string
  pc_ConditionalPut :: bool
  pc_ConditionalCopy :: bool
  pc_AtomicRename :: bool
  pc_Versions :: bool
  pc_Tags :: bool
  pc_Presign :: bool
  pc_PresignMaxExpirySeconds :: int
  pc_PresignAmbientCreds :: bool
  pc_BatchDeleteMax :: int
  pc_NativeVerbs :: "string list"
  pc_MaxObjectBytes :: int
  pc_MaxListLimit :: int
  pc_MaxGetManyItems :: int

text \<open>Go's integer division truncates; a narrowing to int32 wraps.\<close>

definition trunc_div :: "int \<Rightarrow> int \<Rightarrow> int" where
  "trunc_div a b = sgn a * sgn b * (\<bar>a\<bar> div \<bar>b\<bar>)"

definition wrap32 :: "int \<Rightarrow> int" where
  "wrap32 x = (x + 2 ^ 31) mod 2 ^ 32 - 2 ^ 31"

definition toProtoCapabilities :: "Capabilities \<Rightarrow> ProtoCapabilities" where
  "toProtoCapabilities c = \<lparr>pc_Backend = cap_Backend c, pc_ConditionalPut = cap_ConditionalPut c,
     pc_ConditionalCopy = cap_ConditionalCopy c, pc_AtomicRename = cap_AtomicRename c,
     pc_Versions = cap_Versions c, pc_Tags = cap_Tags c, pc_Presign = cap_Presign c,
     pc_PresignMaxExpirySeconds = trunc_div (cap_PresignMaxExpiry c) 1000000000,
     pc_PresignAmbientCreds = cap_PresignAmbientCreds c,
     pc_BatchDeleteMax = wrap32 (cap_BatchDeleteMax c), pc_NativeVerbs = cap_NativeVerbs c,
     pc_MaxObjectBytes = 0, pc_MaxListLimit = 0, pc_MaxGetManyItems = 0\<rparr>"

datatype WriteOp = WRITE_OP_UNSPECIFIED | WRITE_OP_PUT | WRITE_OP_DELETE

record WriteEvent =
  we_Key :: string
  we_Op :: WriteOp
  we_Etag :: string
  we_VersionId :: string
  we_TimeUnixMs :: int

fun writeOpToProto :: "Op \<Rightarrow> WriteOp" where
  "writeOpToProto OpPut = WRITE_OP_PUT"
| "writeOpToProto OpDelete = WRITE_OP_DELETE"

definition toProtoEvent :: "Event \<Rightarrow> WriteEvent" where
  "toProtoEvent e = \<lparr>we_Key = ev_Key e, we_Op = writeOpToProto (ev_Op e), we_Etag = ev_ETag e,
     we_VersionId = ev_VersionID e, we_TimeUnixMs = unixMS (ev_Time e)\<rparr>"

datatype ProtoPresignMethod = PRESIGN_METHOD_UNSPECIFIED | PRESIGN_METHOD_GET | PRESIGN_METHOD_PUT
  | PRESIGN_METHOD_OTHER int

definition presignMethodFromProto :: "ProtoPresignMethod \<Rightarrow> PresignMethod" where
  "presignMethodFromProto m = (if m = PRESIGN_METHOD_PUT then PresignPut else PresignGet)"

definition presignMethodToProto :: "PresignMethod \<Rightarrow> ProtoPresignMethod" where
  "presignMethodToProto m = (if m = PresignPut then PRESIGN_METHOD_PUT else PRESIGN_METHOD_GET)"

section \<open>Lemmas\<close>

lemma refuse_code [simp]: "rpc_code (refuse c msg reason m ra) = Some c"
  by (simp add: refuse_def Let_def)

lemma refuse_reason [simp]: "rpc_reason (refuse c msg reason m ra) = reason"
  by (simp add: refuse_def Let_def)

lemma refuse_not_stream [simp]: "refuse c msg reason m ra \<noteq> StreamErr e"
  by (simp add: refuse_def Let_def)

lemma refuse_retry: "st_RetryDelay (refuse c msg reason m ra) =
    (if reason = ReasonStoreThrottled then Some (if ra \<le> 0 then defaultRetryDelay else ra) else None)"
  by (simp add: refuse_def Let_def)

lemma refuse_message [simp]: "st_Message (refuse c msg reason m ra) = msg"
  by (simp add: refuse_def Let_def)

lemma toStatus_code [simp]: "rpc_code (toStatus e) = Some (grpc_code (CodeOf e))"
  by (simp add: toStatus_def case_prod_beta Let_def)

lemma toStatus_reason [simp]: "rpc_reason (toStatus e) = ReasonOf e"
  by (simp add: toStatus_def case_prod_beta Let_def)

lemma toStatus_message [simp]: "st_Message (toStatus e) = Error e"
  by (simp add: toStatus_def case_prod_beta Let_def)

lemma toStatus_not_stream [simp]: "toStatus e \<noteq> StreamErr e'"
  by (simp add: toStatus_def case_prod_beta Let_def)

section \<open>Properties\<close>

text \<open>Every error the gateway reports names a code, a reason and the gateway's domain; the
  code is the one of its normalized class, and it carries a positive retry delay exactly when the
  reason is a throttle, the store's own delay if it gave one.\<close>

theorem toStatus_complete:
  "\<exists>i d. toStatus e = Status (grpc_code (CodeOf e)) (Error e) i d \<and> ei_Domain i = ErrorDomain \<and>
     ei_Reason i = ReasonOf e \<and> ei_Reason i \<noteq> [] \<and>
     d = (if ReasonOf e \<noteq> ReasonStoreThrottled then None
          else Some (case as_coded e of
             Some c \<Rightarrow> if coded_RetryAfter c > 0 then coded_RetryAfter c else defaultRetryDelay
           | None \<Rightarrow> defaultRetryDelay)) \<and>
     (case d of Some n \<Rightarrow> n > 0 \<and> map_of (ei_Metadata i) ''retry_delay_source'' \<noteq> None | None \<Rightarrow> True)"
  using ReasonOf_nonempty [of e]
  by (cases "as_coded e") (auto simp: toStatus_def refuse_def defaultRetryDelay_def update_conv')

text \<open>A time in milliseconds survives the trip through the gateway's clock type, except the
  one instant that the zero time stands for.\<close>

theorem unixMS_roundtrip:
  "unixMS (fromUnixMS ms) = (if ms = - 62135596800000 then 0 else ms)"
  by (simp add: unixMS_def fromUnixMS_def unix_epoch_def)

end
