(* ===== verification/Streams.thy ===== *)
theory Streams
  imports Status
begin

text \<open>
  Server streams and the byte relay (\<open>streamBody\<close> of internal/server/server.go,
  \<open>capReader\<close> of internal/server/binding.go). A stream is what was sent on it and, for
  each send by its number, whether it fails. \<open>Capped\<close> is a body under a capReader.
\<close>

section \<open>Streams and bodies\<close>

record 'm Stream =
  sm_sent :: "'m list"
  sm_fail :: "nat \<Rightarrow> goerr option"

definition new_stream :: "'m Stream" where
  "new_stream = \<lparr>sm_sent = [], sm_fail = (\<lambda>_. None)\<rparr>"

lemma new_stream_sent [simp]: "sm_sent new_stream = []" "sm_fail new_stream = (\<lambda>_. None)"
  by (simp_all add: new_stream_def)

definition Send :: "'m \<Rightarrow> 'm Stream \<Rightarrow> goerr option \<times> 'm Stream" where
  "Send m s = (case sm_fail s (length (sm_sent s)) of
      Some e \<Rightarrow> (Some e, s) | None \<Rightarrow> (None, s\<lparr>sm_sent := sm_sent s @ [m]\<rparr>))"

datatype Body = Plain reader | Capped reader int

definition chunkSize :: nat where "chunkSize = 262144"

text \<open>\<open>capReader.Read\<close>: a read that runs past the cap delivers nothing.\<close>

fun body_read :: "nat \<Rightarrow> Body \<Rightarrow> (bytes \<times> rerr) \<times> Body" where
  "body_read n (Plain r) = (let (res, r') = read n r in (res, Plain r'))"
| "body_read n (Capped r left) =
     (let ((bs, e), r') = read n r; left' = left - int (length bs) in
      if left' < 0 then (([], RErr (Sentinel ErrObjectTooLarge) (new_guard 0)), Capped r' left')
      else ((bs, e), Capped r' left'))"

fun body_reader :: "Body \<Rightarrow> reader" where
  "body_reader (Plain r) = r" | "body_reader (Capped r left) = r"

fun body_cap :: "Body \<Rightarrow> int option" where
  "body_cap (Plain r) = None" | "body_cap (Capped r left) = Some left"

definition serrWrapInternal :: "goerr \<Rightarrow> goerr" where
  "serrWrapInternal err = (case as_coded err of Some _ \<Rightarrow> err | None \<Rightarrow> Wrap Internal ''stream'' err)"

definition longer :: "int \<Rightarrow> rpc_err" where
  "longer expect = refuse C_Aborted (''object is longer than its declared '' @ dec_int expect @ '' bytes'')
     ReasonBodySizeMismatch [(''declared_bytes'', dec_int expect)] 0"

definition shorter :: "int \<Rightarrow> int \<Rightarrow> rpc_err" where
  "shorter sent expect = refuse C_Aborted
     (''object ended at '' @ dec_int sent @ '' of its declared '' @ dec_int expect @ '' bytes'')
     ReasonBodySizeMismatch [(''declared_bytes'', dec_int expect), (''sent_bytes'', dec_int sent)] 0"

definition capMeta :: meta where
  "capMeta = [(''max_bytes'', ''5242880'')]"

definition object_too_large :: "string \<Rightarrow> rpc_err" where
  "object_too_large msg = refuse C_ResourceExhausted msg ReasonObjectTooLarge capMeta 0"

lemma body_read_shrinks:
  "body_read n b = ((bs, RNil), b') \<Longrightarrow> 0 < n \<Longrightarrow> reader_size (body_reader b') < reader_size (body_reader b)"
proof (cases b)
  case (Plain r)
  assume "body_read n b = ((bs, RNil), b')" "0 < n"
  with Plain show ?thesis using read_shrinks [of n r]
    by (cases "r = []") (auto simp: case_prod_beta)
next
  case (Capped r left)
  assume "body_read n b = ((bs, RNil), b')" "0 < n"
  with Capped show ?thesis using read_shrinks [of n r]
    by (cases "r = []") (auto simp: case_prod_beta Let_def split: if_splits)
qed

text \<open>The part of one turn that sends what was read.\<close>

definition relay :: "int \<Rightarrow> (bytes \<Rightarrow> 'm) \<Rightarrow> bytes \<Rightarrow> int \<Rightarrow> 'm Stream \<Rightarrow> (rpc_err, int) result \<times> 'm Stream" where
  "relay expect frame bs sent sm =
     (let ok = Ok sent :: (rpc_err, int) result in
      if length bs > 0 then
        (if expect \<ge> 0 \<and> sent + int (length bs) > expect then (Err (longer expect), sm)
         else (case Send (frame bs) sm of
                 (Some e, sm') \<Rightarrow> (Err (StreamErr e), sm')
               | (None, sm') \<Rightarrow> (Ok (sent + int (length bs)), sm')))
      else (ok, sm))"

function streamBody ::
  "(goerr \<Rightarrow> Guard \<Rightarrow> goerr) \<Rightarrow> int \<Rightarrow> (bytes \<Rightarrow> 'm) \<Rightarrow> Body \<Rightarrow> int \<Rightarrow> 'm Stream \<Rightarrow> rpc_err option \<times> 'm Stream" where
  "streamBody classify expect frame body sent sm =
     (case body_read chunkSize body of ((bs, rerr), body') \<Rightarrow>
        (case relay expect frame bs sent sm of
           (Err err, sm') \<Rightarrow> (Some err, sm')
         | (Panic, sm') \<Rightarrow> (None, sm')
         | (Ok sent', sm') \<Rightarrow>
            (case rerr of
               REOF \<Rightarrow> (if expect \<ge> 0 \<and> sent' \<noteq> expect then (Some (shorter sent' expect), sm') else (None, sm'))
             | RErr e g \<Rightarrow>
                 (if errors_is e ErrObjectTooLarge then (Some (object_too_large (Error e)), sm')
                  else (Some (toStatus (serrWrapInternal (classify e g))), sm'))
             | RNil \<Rightarrow> streamBody classify expect frame body' sent' sm')))"
  by pat_completeness auto
termination
  by (relation "measure (\<lambda>(classify, expect, frame, body, sent, sm). reader_size (body_reader body))")
    (auto dest!: body_read_shrinks [OF sym] simp: chunkSize_def)

declare streamBody.simps [simp del]

section \<open>What a relay sends\<close>

definition body_data :: "Body \<Rightarrow> bytes" where
  "body_data b = fst (read_all (body_reader b))"

lemma body_read_under:
  assumes "body_read n b = ((bs, e), b')"
  obtains (same) "read n (body_reader b) = ((bs, e), body_reader b')"
      "body_cap b' = map_option (\<lambda>left. left - int (length bs)) (body_cap b)"
      "\<And>left. body_cap b = Some left \<Longrightarrow> int (length bs) \<le> left"
    | (over) "bs = []" "\<exists>g. e = RErr (Sentinel ErrObjectTooLarge) g" "body_cap b \<noteq> None" "body_cap b' \<noteq> None"
proof (cases b)
  case (Plain r)
  obtain cs f r' where "read n r = ((cs, f), r')" by (metis prod.collapse)
  then show ?thesis using assms same Plain by auto
next
  case (Capped r left)
  obtain cs f r' where q: "read n r = ((cs, f), r')" by (metis prod.collapse)
  show ?thesis
  proof (cases "left - int (length cs) < 0")
    case True
    then show ?thesis using assms over q Capped by auto
  next
    case False
    then show ?thesis using assms same q Capped by auto
  qed
qed

lemma body_read_facts:
  assumes "body_read n b = ((bs, e), b')"
  shows "length bs \<le> n \<and>
    (e = RNil \<longrightarrow> body_data b = bs @ body_data b' \<and> snd (read_all (body_reader b)) = snd (read_all (body_reader b'))) \<and>
    (e = REOF \<longrightarrow> body_data b = bs \<and> snd (read_all (body_reader b)) = None) \<and>
    (\<exists>rest. body_data b = bs @ rest) \<and>
    (body_cap b = None \<longrightarrow> e = RErr err g \<longrightarrow> snd (read_all (body_reader b)) = Some (err, g) \<and> body_cap b' = None) \<and>
    (body_cap b = None \<longrightarrow> body_cap b' = None) \<and>
    (body_cap b = Some left \<longrightarrow> left \<ge> 0 \<longrightarrow> int (length bs) \<le> left) \<and>
    (body_cap b = Some left \<longrightarrow> e = RNil \<longrightarrow> body_cap b' = Some (left - int (length bs)) \<and> 0 \<le> left - int (length bs))"
proof (cases rule: body_read_under [OF assms])
  case 1
  have "length bs \<le> n" using read_length [of n "body_reader b"] 1(1) by simp
  then show ?thesis using read_all_read [OF 1(1)] 1(2,3)
    by (cases e) (simp_all add: body_data_def)
next
  case 2
  then show ?thesis by auto
qed

lemma body_read_data:
  assumes "body_read n b = ((bs, e), b')"
  shows "length bs \<le> n"
    "e = RNil \<Longrightarrow> body_data b = bs @ body_data b' \<and> snd (read_all (body_reader b)) = snd (read_all (body_reader b'))"
    "e = REOF \<Longrightarrow> body_data b = bs \<and> snd (read_all (body_reader b)) = None"
    "\<exists>rest. body_data b = bs @ rest"
    "body_cap b = None \<Longrightarrow> e = RErr err g \<Longrightarrow> snd (read_all (body_reader b)) = Some (err, g) \<and> body_cap b' = None"
    "body_cap b = None \<Longrightarrow> body_cap b' = None"
    "body_cap b = Some left \<Longrightarrow> left \<ge> 0 \<Longrightarrow> int (length bs) \<le> left"
    "body_cap b = Some left \<Longrightarrow> e = RNil \<Longrightarrow> body_cap b' = Some (left - int (length bs)) \<and> 0 \<le> left - int (length bs)"
  using body_read_facts [OF assms, of err g left] by simp_all

lemma Send_cases:
  "Send m s = (None, s') \<Longrightarrow> sm_sent s' = sm_sent s @ [m] \<and> sm_fail s' = sm_fail s"
  "Send m s = (Some e, s') \<Longrightarrow> s' = s"
  by (auto simp: Send_def split: option.splits)

lemma relay_cases:
  assumes "relay expect frame bs sent sm = (res, sm')"
  shows "sm_fail sm' = sm_fail sm"
    "res = Ok sent' \<Longrightarrow> sent' = sent + int (length bs) \<and> sm_sent sm' = sm_sent sm @ (if bs = [] then [] else [frame bs])
       \<and> (expect \<ge> 0 \<and> bs \<noteq> [] \<longrightarrow> sent' \<le> expect)"
    "res = Err err \<Longrightarrow> sm' = sm"
    "res \<noteq> Panic"
  using assms by (auto simp: relay_def Let_def Send_def split: if_splits option.splits prod.splits)

text \<open>The chunks of a relay and the bytes they carry, whatever its outcome.\<close>

definition chunks_ok :: "bytes list \<Rightarrow> bool" where
  "chunks_ok cs = list_all (\<lambda>c. c \<noteq> [] \<and> length c \<le> chunkSize) cs"

lemma chunks_ok_simps [simp]:
  "chunks_ok []" "chunks_ok (c # cs) \<longleftrightarrow> c \<noteq> [] \<and> length c \<le> chunkSize \<and> chunks_ok cs"
  "chunks_ok (cs @ ds) \<longleftrightarrow> chunks_ok cs \<and> chunks_ok ds"
  by (simp_all add: chunks_ok_def)

lemma streamBody_spec:
  assumes "streamBody classify expect frame body sent sm = (res, sm')"
    and "expect \<ge> 0 \<longrightarrow> sent \<le> expect"
  shows "\<exists>cs rest. sm_sent sm' = sm_sent sm @ map frame cs \<and> chunks_ok cs \<and>
    body_data body = concat cs @ rest \<and>
    (expect \<ge> 0 \<longrightarrow> sent + int (length (concat cs)) \<le> expect) \<and>
    (case body_cap body of Some left \<Rightarrow> left \<ge> 0 \<longrightarrow> int (length (concat cs)) \<le> left | None \<Rightarrow> True) \<and>
    (res = None \<longrightarrow> rest = [] \<and> snd (read_all (body_reader body)) = None \<and>
       (expect \<ge> 0 \<longrightarrow> sent + int (length (concat cs)) = expect)) \<and> sm_fail sm' = sm_fail sm"
  using assms
proof (induction classify expect frame body sent sm arbitrary: res sm' rule: streamBody.induct)
  case (1 classify expect frame body sent sm)
  obtain bs rerr body' where rd: "body_read chunkSize body = ((bs, rerr), body')" by (metis prod.collapse)
  obtain st sm1 where rl: "relay expect frame bs sent sm = (st, sm1)" by fastforce
  note rdc = body_read_data [OF rd] and rlc = relay_cases [OF rl]
  obtain rest0 where rest0: "body_data body = bs @ rest0" using rdc(4) by blast
  show ?case
  proof (cases st)
    case Panic
    then show ?thesis using rlc(4) by simp
  next
    case (Err err)
    then have "res = Some err" "sm' = sm" using 1(2) rd rl rlc(3) by (auto simp: streamBody.simps)
    then show ?thesis using rlc(1) 1(3) by (auto intro!: exI [of _ "[]"] split: option.splits)
  next
    case (Ok sent')
    define cs0 where "cs0 = (if bs = [] then [] else [bs])"
    have s1: "sent' = sent + int (length bs)" "sm_sent sm1 = sm_sent sm @ map frame cs0"
      "expect \<ge> 0 \<longrightarrow> sent' \<le> expect" "sm_fail sm1 = sm_fail sm" "concat cs0 = bs" "chunks_ok cs0"
      using rlc(1,2) Ok 1(3) rdc(1) by (auto simp: cs0_def)
    show ?thesis
    proof (cases "rerr = RNil")
      case True
      then have "streamBody classify expect frame body' sent' sm1 = (res, sm')"
        using 1(2) rd rl Ok by (subst (asm) streamBody.simps) simp
      from 1(1) [OF rd [symmetric] refl rl [symmetric] Ok True this s1(3)]
      obtain cs rest where ih: "sm_sent sm' = sm_sent sm1 @ map frame cs" "chunks_ok cs"
        "body_data body' = concat cs @ rest" "expect \<ge> 0 \<longrightarrow> sent' + int (length (concat cs)) \<le> expect"
        "case body_cap body' of Some left \<Rightarrow> left \<ge> 0 \<longrightarrow> int (length (concat cs)) \<le> left | None \<Rightarrow> True"
        "res = None \<longrightarrow> rest = [] \<and> snd (read_all (body_reader body')) = None \<and>
           (expect \<ge> 0 \<longrightarrow> sent' + int (length (concat cs)) = expect)" "sm_fail sm' = sm_fail sm1"
        by blast
      have "case body_cap body of Some left \<Rightarrow> left \<ge> 0 \<longrightarrow> int (length (concat (cs0 @ cs))) \<le> left | None \<Rightarrow> True"
        using ih(5) rdc(8) [OF _ True] s1(5) by (fastforce split: option.splits)
      then show ?thesis
        using ih s1 rdc(2) [OF True] by (intro exI [of _ "cs0 @ cs"] exI [of _ rest]) auto
    next
      case False
      have c: "case body_cap body of Some left \<Rightarrow> left \<ge> 0 \<longrightarrow> int (length (concat cs0)) \<le> left | None \<Rightarrow> True"
        using rdc(7) s1(5) by (auto split: option.splits)
      have r: "sm' = sm1" "res = None \<longrightarrow> rerr = REOF \<and> (expect \<ge> 0 \<longrightarrow> sent' = expect)"
        using 1(2) rd rl Ok False
        by (auto simp: streamBody.simps split: rerr.splits if_splits)
      show ?thesis
      proof (cases "res = None")
        case True
        then show ?thesis using r s1 c rdc(3) by (intro exI [of _ cs0] exI [of _ "[]"]) auto
      next
        case False
        then show ?thesis using r s1 c rest0 by (intro exI [of _ cs0] exI [of _ rest0]) auto
      qed
    qed
  qed
qed

text \<open>A complete body of the declared size on a working stream is relayed.\<close>

lemma streamBody_complete:
  assumes "body_cap body = None" "snd (read_all (body_reader body)) = None" "sm_fail sm = (\<lambda>_. None)"
    and "expect \<ge> 0 \<longrightarrow> sent + int (length (body_data body)) = expect"
  shows "fst (streamBody classify expect frame body sent sm) = None"
  using assms
proof (induction classify expect frame body sent sm rule: streamBody.induct)
  case (1 classify expect frame body sent sm)
  obtain bs rerr body' where rd: "body_read chunkSize body = ((bs, rerr), body')" by (metis prod.collapse)
  obtain st sm1 where rl: "relay expect frame bs sent sm = (st, sm1)" by fastforce
  note rdc = body_read_data [OF rd] and rlc = relay_cases [OF rl]
  obtain rest0 where rest0: "body_data body = bs @ rest0" using rdc(4) by blast
  have st: "st = Ok (sent + int (length bs))"
    using rl 1(4,5) rest0 by (auto simp: relay_def Let_def Send_def split: if_splits option.splits)
  show ?case
  proof (cases rerr)
    case RNil
    then have "fst (streamBody classify expect frame body' (sent + int (length bs)) sm1) = None"
      using 1(1) [OF rd [symmetric] refl rl [symmetric] st RNil] 1(2-5) rdc(2,6) rlc(1) by auto
    then show ?thesis using rd rl st RNil by (subst streamBody.simps) simp
  next
    case REOF
    then show ?thesis using rd rl st rdc(3) 1(5) by (subst streamBody.simps) auto
  next
    case (RErr e g)
    then show ?thesis using rdc(5) 1(2,3) by auto
  qed
qed

section \<open>Properties\<close>

text \<open>A relay sends the body in non-empty frames within the chunk size, never more than the size
  it was told to expect, and succeeds exactly when the body ends without an error at that size, in
  which case every byte was sent.\<close>

theorem streamBody_exact:
  "(case streamBody classify expect frame (Plain r) 0 new_stream of (res, sm) \<Rightarrow>
     \<exists>cs rest. sm_sent sm = map frame cs \<and> chunks_ok cs \<and> fst (read_all r) = concat cs @ rest \<and>
       (expect \<ge> 0 \<longrightarrow> int (length (concat cs)) \<le> expect) \<and>
       (res = None \<longleftrightarrow> snd (read_all r) = None \<and> (expect < 0 \<or> int (length (fst (read_all r))) = expect)) \<and>
       (res = None \<longrightarrow> rest = []))"
proof -
  obtain res sm where s: "streamBody classify expect frame (Plain r) 0 new_stream = (res, sm)" by fastforce
  have p: "expect \<ge> 0 \<longrightarrow> (0::int) \<le> expect" by simp
  obtain cs rest where c: "sm_sent sm = sm_sent new_stream @ map frame cs" "chunks_ok cs" "fst (read_all r) = concat cs @ rest"
    "expect \<ge> 0 \<longrightarrow> int (length (concat cs)) \<le> expect"
    "res = None \<longrightarrow> rest = [] \<and> snd (read_all r) = None \<and> (expect \<ge> 0 \<longrightarrow> int (length (concat cs)) = expect)"
    using streamBody_spec [OF s p] by (auto simp: body_data_def)
  have "snd (read_all r) = None \<Longrightarrow> expect < 0 \<or> int (length (fst (read_all r))) = expect \<Longrightarrow> res = None"
    using streamBody_complete [of "Plain r" new_stream expect 0 classify frame] s by (auto simp: body_data_def)
  with c s show ?thesis by (auto intro!: exI [of _ cs])
qed

lemma streamBody_exact_witness:
  "\<exists>sm. streamBody (\<lambda>e g. e) 3 (\<lambda>d. d) (Plain [(''ab'', RNil), (''c'', REOF)]) 0 new_stream = (None, sm) \<and> concat (sm_sent sm) = ''abc''"
proof -
  obtain res sm where s: "streamBody (\<lambda>e g. e) 3 (\<lambda>d. d) (Plain [(''ab'', RNil), (''c'', REOF)]) 0 new_stream = (res, sm)"
    by fastforce
  from streamBody_exact [where classify = "\<lambda>e g. e" and expect = 3 and frame = "\<lambda>d. d" and
      r = "[(''ab'', RNil), (''c'', REOF)]"] s show ?thesis by auto
qed

end
