(* ===== verification/Health.thy ===== *)
theory Health
  imports Backend
begin

text \<open>
  The readiness monitor (internal/health/health.go). \<open>mn_set\<close> is the sequence of
  \<open>SetServingStatus\<close> calls the monitor made on the gRPC health service. \<open>Run\<close> is
  driven by what its select wakes up to: a tick, with the store's answer to the probe, or
  the end of its context. The store is any backend over a state.
\<close>

section \<open>State and operations\<close>

datatype ServingStatus = UNKNOWN | SERVING | NOT_SERVING

record Verdict =
  vd_Ready :: bool
  vd_Code :: string
  vd_Detail :: string
  vd_CheckedAt :: gotime

definition no_verdict :: Verdict where
  "no_verdict = \<lparr>vd_Ready = False, vd_Code = [], vd_Detail = [], vd_CheckedAt = 0\<rparr>"

record Monitor =
  mn_timeout :: int
  mn_last :: ServingStatus
  mn_verdict :: Verdict
  mn_set :: "ServingStatus list"

definition NewMonitor :: "int \<Rightarrow> Monitor" where
  "NewMonitor timeout = \<lparr>mn_timeout = timeout, mn_last = UNKNOWN, mn_verdict = no_verdict, mn_set = []\<rparr>"

text \<open>
  One check: it starts at \<open>start\<close> and completes at \<open>now\<close>; \<open>fin\<close> is whether the
  monitor's own context has ended by then.
\<close>

definition verdict_of :: "gotime \<Rightarrow> goerr option \<Rightarrow> Verdict" where
  "verdict_of now err = (case err of
      None \<Rightarrow> \<lparr>vd_Ready = True, vd_Code = [], vd_Detail = [], vd_CheckedAt = now\<rparr>
    | Some e \<Rightarrow> \<lparr>vd_Ready = False, vd_Code = Code_String (CodeOf e), vd_Detail = Error e, vd_CheckedAt = now\<rparr>)"

definition status_of :: "goerr option \<Rightarrow> ServingStatus" where
  "status_of err = (if err = None then SERVING else NOT_SERVING)"

definition check ::
  "'w Backend \<Rightarrow> ctx \<Rightarrow> gotime \<Rightarrow> gotime \<Rightarrow> bool \<Rightarrow> Monitor \<Rightarrow> 'w \<Rightarrow> Monitor \<times> 'w" where
  "check be c start now fin m w =
     (let (err, w') = be_Probe be (WithTimeout start (mn_timeout m) c) w in
      if fin then (m, w')
      else (let status = status_of err; changed = (status \<noteq> mn_last m);
                m' = m\<lparr>mn_verdict := verdict_of now err, mn_last := status\<rparr>
            in ((if changed then m'\<lparr>mn_set := mn_set m' @ [status]\<rparr> else m'), w')))"

datatype wake = Tick gotime gotime bool | Done

fun run_loop :: "'w Backend \<Rightarrow> ctx \<Rightarrow> wake list \<Rightarrow> Monitor \<Rightarrow> 'w \<Rightarrow> Monitor \<times> 'w" where
  "run_loop be c [] m w = (m, w)"
| "run_loop be c (Done # ws) m w = (m, w)"
| "run_loop be c (Tick start now fin # ws) m w =
     (let (m', w') = check be c start now fin m w in run_loop be c ws m' w')"

definition Run :: "'w Backend \<Rightarrow> ctx \<Rightarrow> gotime \<Rightarrow> gotime \<Rightarrow> bool \<Rightarrow> wake list \<Rightarrow> Monitor \<Rightarrow> 'w \<Rightarrow> Monitor \<times> 'w" where
  "Run be c start now fin ws m w =
     (let (m', w') = check be c start now fin m w in run_loop be c ws m' w')"

section \<open>Invariant\<close>

text \<open>What the health service was told and what \<open>Ready\<close> reports agree, and the service was
  told a status only when it changed.\<close>

definition monitor_inv :: "Monitor \<Rightarrow> bool" where
  "monitor_inv m \<longleftrightarrow> mn_last m = (if mn_set m = [] then UNKNOWN else last (mn_set m))
     \<and> UNKNOWN \<notin> set (mn_set m) \<and> distinct_adj (mn_set m)
     \<and> (mn_set m = [] \<longrightarrow> mn_verdict m = no_verdict)
     \<and> (mn_set m \<noteq> [] \<longrightarrow> (vd_Ready (mn_verdict m) \<longleftrightarrow> last (mn_set m) = SERVING)
          \<and> (vd_Ready (mn_verdict m) \<longrightarrow> vd_Code (mn_verdict m) = [] \<and> vd_Detail (mn_verdict m) = [])
          \<and> (\<not> vd_Ready (mn_verdict m) \<longrightarrow> vd_Code (mn_verdict m) \<noteq> []))"

lemma monitor_inv_New: "monitor_inv (NewMonitor t)"
  by (simp add: monitor_inv_def NewMonitor_def)

lemma Code_String_nonempty [simp]: "Code_String c \<noteq> []"
  by (cases c) auto

lemma distinct_adj_snoc: "distinct_adj (xs @ [x]) \<longleftrightarrow> distinct_adj xs \<and> (xs \<noteq> [] \<longrightarrow> last xs \<noteq> x)"
  by (cases "xs = []") (auto simp: distinct_adj_append_iff)

lemma check_inv:
  assumes "monitor_inv m"
  shows "monitor_inv (fst (check be c start now fin m w))"
  using assms
  by (cases "be_Probe be (WithTimeout start (mn_timeout m) c) w"; cases "fst (be_Probe be (WithTimeout start (mn_timeout m) c) w)")
    (auto simp: check_def Let_def monitor_inv_def status_of_def verdict_of_def distinct_adj_snoc)

lemma run_loop_inv: "monitor_inv m \<Longrightarrow> monitor_inv (fst (run_loop be c ws m w))"
proof (induction be c ws m w rule: run_loop.induct)
  case (3 be c start now fin ws m w)
  then show ?case using check_inv [of m be c start now fin w]
    by (simp add: case_prod_beta)
qed simp_all

section \<open>Properties\<close>

text \<open>C40: through any run the monitor keeps its invariant: the health service is told a status
  only when it differs from the one before, what it was told last is the verdict \<open>Ready\<close>
  reports, and a failing verdict always names its failure class.\<close>

theorem Run_inv:
  "monitor_inv (fst (Run be c start now fin ws (NewMonitor t) w))"
  by (simp add: Run_def case_prod_beta run_loop_inv check_inv monitor_inv_New)

text \<open>a probe that completes decides the verdict and the status by its own outcome alone; one
  cut short by the shutdown leaves the monitor as it was.\<close>

theorem check_outcome:
  "(case be_Probe be (WithTimeout start (mn_timeout m) c) w of (err, w') \<Rightarrow>
     check be c start now True m w = (m, w') \<and>
     (case check be c start now False m w of (m', w'') \<Rightarrow> w'' = w' \<and>
        mn_verdict m' = verdict_of now err \<and> mn_last m' = status_of err \<and>
        mn_set m' = (if status_of err = mn_last m then mn_set m else mn_set m @ [status_of err])))"
  by (cases "be_Probe be (WithTimeout start (mn_timeout m) c) w") (simp add: check_def Let_def)

end
