(* ===== verification/Binding.thy ===== *)
theory Binding
  imports Egress Prefix Streams Health
begin

text \<open>
  Bound calls (internal/server/binding.go): the validation of a caller's binding, the
  backend opened for one call through a guarded client, the deadlines it runs under, and the
  policy every error passes before it leaves. A call that belongs to no binding has no
  secrets and no guard. \<open>sv_guard\<close> reads, and \<open>sv_install\<close> sets, the guard of the
  running call in the world the backends act on, \<open>sv_json\<close> decodes the private key of a
  service account.
\<close>

section \<open>Messages and state\<close>

datatype Credential = NoCredential
  | AccessKey (ak_id: string) (ak_secret: string)
  | ServiceAccountKey bytes
  | AccessToken string

fun cred_Id :: "Credential \<Rightarrow> string" where
  "cred_Id (AccessKey i s) = i" | "cred_Id _ = []"

fun cred_Secret :: "Credential \<Rightarrow> string" where
  "cred_Secret (AccessKey i s) = s" | "cred_Secret _ = []"

fun cred_ServiceAccountKey :: "Credential \<Rightarrow> bytes" where
  "cred_ServiceAccountKey (ServiceAccountKey k) = k" | "cred_ServiceAccountKey _ = []"

fun cred_AccessToken :: "Credential \<Rightarrow> string" where
  "cred_AccessToken (AccessToken t) = t" | "cred_AccessToken _ = []"

record Binding =
  bd_Kind :: string
  bd_Endpoint :: string
  bd_Region :: string
  bd_Bucket :: string
  bd_Prefix :: string
  bd_Credential :: Credential

record 'w Server =
  sv_be :: "'w Backend"
  sv_composed :: Composed
  sv_readiness :: Verdict
  sv_registry :: "'w registry"
  sv_env :: EgressEnv
  sv_json :: "bytes \<Rightarrow> string option"
  sv_guard :: "'w \<Rightarrow> Guard"
  sv_install :: "Guard \<Rightarrow> 'w \<Rightarrow> 'w"

record 'w call =
  cl_Backend :: "'w Backend"
  cl_secrets :: "string list option"
  cl_guarded :: bool

definition maxBoundObjectBytes :: int where "maxBoundObjectBytes = 5242880"

definition maxBoundListLimit :: int where "maxBoundListLimit = 1000"

definition boundOperationTimeout :: int where "boundOperationTimeout = 30 * 1000000000"

definition boundBatchTimeout :: int where "boundBatchTimeout = 600 * 1000000000"

definition bindableKinds :: "string set" where
  "bindableKinds = {''s3'', ''minio'', ''gcs'', ''azure''}"

definition boundCall :: "gotime \<Rightarrow> ctx \<Rightarrow> Binding option \<Rightarrow> int \<Rightarrow> ctx" where
  "boundCall now c b budget = (case b of None \<Rightarrow> c | Some _ \<Rightarrow> WithTimeout now budget c)"

definition operation :: "gotime \<Rightarrow> string list option \<Rightarrow> ctx \<Rightarrow> ctx" where
  "operation now secrets c = (case secrets of None \<Rightarrow> c | Some _ \<Rightarrow> WithTimeout now boundOperationTimeout c)"

section \<open>The error policy\<close>

text \<open>\<open>call.err\<close>: the secrets are \<open>None\<close> for an unbound call; the guard is \<open>None\<close>
  until the binding has one.\<close>

definition call_err :: "string list option \<Rightarrow> Guard option \<Rightarrow> goerr \<Rightarrow> goerr" where
  "call_err secrets guard err = (case secrets of
      None \<Rightarrow> err
    | Some secs \<Rightarrow>
       (let (op, msg, m) = (case as_coded err of
              Some coded \<Rightarrow> (case coded_Err coded of
                  Some inner \<Rightarrow> (coded_Op coded, Error inner, coded_Meta coded)
                | None \<Rightarrow> (''binding'', Error err, []))
            | None \<Rightarrow> (''binding'', Error err, []));
            refused = (case guard of Some g \<Rightarrow> g_refused g | None \<Rightarrow> False);
            tooLarge = (case guard of Some g \<Rightarrow> g_tooLarge g | None \<Rightarrow> False);
            (code, reason, m, msg) =
              (if errors_is err ErrNonPublicDestination \<or> refused
               then (PermissionDenied, ReasonDestinationRefused, m, msg)
               else if errors_is err ErrResponseTooLarge \<or> tooLarge
               then (TooLarge, ReasonResponseTooLarge, [(''max_bytes'', ''5242880'')],
                     ''a response from the store exceeded 5242880 bytes; refused: '' @ msg)
               else if errors_is err DeadlineExceeded
               then (Unavailable, ReasonOperationDeadline,
                     [(''per_operation'', ''30s''), (''per_get_many'', ''10m0s'')],
                     ''the store did not complete the operation within its deadline (30s per operation, 10m0s per GetMany call): '' @ msg)
               else (CodeOf err, ReasonOf err, m, msg));
            all_secrets = (case guard of Some g \<Rightarrow> g_sent g @ secs | None \<Rightarrow> secs);
            retry = (case guard of Some g \<Rightarrow> if code = Throttled then g_retryAfter g else 0 | None \<Rightarrow> 0)
        in Coded code op (Some (Msg (Redact msg all_secrets))) reason m retry))"

definition bindingSecrets :: "(bytes \<Rightarrow> string option) \<Rightarrow> Binding \<Rightarrow> string list" where
  "bindingSecrets json b =
     (let cred = bd_Credential b;
          secrets = filter (\<lambda>v. v \<noteq> []) [cred_Secret cred, cred_AccessToken cred, cred_ServiceAccountKey cred]
      in case json (cred_ServiceAccountKey cred) of
           Some key \<Rightarrow> if key \<noteq> [] then secrets @ [key, replace_all key [CHR 0x0A] [CHR 0x5C, CHR ''n'']]
                       else secrets
         | None \<Rightarrow> secrets)"

section \<open>From a binding to a backend\<close>

definition bindingInvalid :: "string \<Rightarrow> string \<Rightarrow> goerr" where
  "bindingInvalid op msg = WithReason (New InvalidArgument op msg) ReasonBindingInvalid []"

definition bound_credential :: "Binding \<Rightarrow> Config \<Rightarrow> (goerr, Config) result" where
  "bound_credential b cfg =
     (let cred = bd_Credential b in
      if bd_Kind b = ''gcs'' then
        (if cred_ServiceAccountKey cred = [] \<and> cred_AccessToken cred = []
         then Err (bindingInvalid ''binding'' ''kind gcs requires credential.service_account_key or credential.access_token'')
         else Ok (cfg\<lparr>cfg_GCSCredentialsJSON := cred_ServiceAccountKey cred,
                      cfg_GCSAccessToken := cred_AccessToken cred\<rparr>))
      else if bd_Kind b = ''azure'' then
        (if cred_Id cred = [] \<or> cred_Secret cred = []
         then Err (bindingInvalid ''binding'' ''kind azure requires credential.access_key (account and shared key)'')
         else Ok (cfg\<lparr>cfg_AzureAccount := cred_Id cred, cfg_AzureKey := cred_Secret cred\<rparr>))
      else
        (if cred_Id cred = [] \<or> cred_Secret cred = []
         then Err (bindingInvalid ''binding'' (''kind '' @ bd_Kind b @ '' requires credential.access_key''))
         else Ok (cfg\<lparr>cfg_AccessKey := cred_Id cred, cfg_SecretKey := cred_Secret cred\<rparr>)))"

definition qualify_err :: "goerr \<Rightarrow> goerr" where
  "qualify_err err =
     (if errors_is err ErrNonPublicDestination
      then WithReason (Wrap PermissionDenied ''binding'' err) ReasonDestinationRefused []
      else if has_tag err DNSError
      then WithReason (Wrap Unavailable ''binding'' err) ReasonEndpointUnresolved []
      else WithReason (Wrap InvalidArgument ''binding'' err) ReasonBindingInvalid [])"

definition boundConfig :: "EgressEnv \<Rightarrow> Composed \<Rightarrow> Binding \<Rightarrow> (goerr, Config \<times> Admission \<times> Guard) result" where
  "boundConfig env composed b =
     (if bd_Kind b \<notin> bindableKinds
      then Err (bindingInvalid ''binding'' (''kind '' @ quoted (bd_Kind b) @ '' cannot be bound (want s3, minio, gcs or azure)''))
      else if bd_Bucket b = [] then Err (bindingInvalid ''binding'' ''bucket is required'')
      else if bd_Kind b = ''minio'' \<and> bd_Endpoint b = []
      then Err (bindingInvalid ''binding'' ''kind minio requires an endpoint'')
      else
       (let cfg = zero_config\<lparr>cfg_Kind := bd_Kind b, cfg_Bucket := bd_Bucket b, cfg_Prefix := bd_Prefix b,
              cfg_Region := (if bd_Region b = [] then ''us-east-1'' else bd_Region b),
              cfg_Endpoint := bd_Endpoint b, cfg_UsePathStyle := True\<rparr>
        in case bound_credential b cfg of
             Err e \<Rightarrow> Err e
           | Panic \<Rightarrow> Panic
           | Ok cfg \<Rightarrow>
              (case (if cfg_Endpoint cfg = [] then Inr no_admission
                     else Qualify env (cfg_Endpoint cfg) composed) of
                 Inl err \<Rightarrow> Err (qualify_err err)
               | Inr admission \<Rightarrow>
                   Ok (cfg\<lparr>cfg_HTTPClient := True\<rparr>, admission, new_guard (maxBoundObjectBytes + 1)))))"

definition backendFor :: "'w Server \<Rightarrow> ctx \<Rightarrow> Binding option \<Rightarrow> 'w \<Rightarrow> (goerr, 'w call) result \<times> 'w" where
  "backendFor s c b w = (case b of
      None \<Rightarrow> (Ok \<lparr>cl_Backend = sv_be s, cl_secrets = None, cl_guarded = False\<rparr>, w)
    | Some bd \<Rightarrow>
       (let secrets = bindingSecrets (sv_json s) bd in
        case boundConfig (sv_env s) (sv_composed s) bd of
          Err e \<Rightarrow> (Err (call_err (Some secrets) None e), w)
        | Panic \<Rightarrow> (Panic, w)
        | Ok (cfg, admission, guard) \<Rightarrow>
           (case Open (sv_registry s) c cfg (sv_install s guard w) of
              (Err e, w') \<Rightarrow> (Err (call_err (Some secrets) (Some (sv_guard s w')) e), w')
            | (Panic, w') \<Rightarrow> (Panic, w')
            | (Ok be, w') \<Rightarrow>
                (Ok \<lparr>cl_Backend = be, cl_secrets = Some secrets, cl_guarded = True\<rparr>, w'))))"

text \<open>\<open>c.err\<close> with the guard as it is now, \<open>c.Release\<close>.\<close>

definition guard_now :: "'w Server \<Rightarrow> 'w call \<Rightarrow> 'w \<Rightarrow> Guard option" where
  "guard_now s cl w = (if cl_guarded cl then Some (sv_guard s w) else None)"

definition cerr :: "'w Server \<Rightarrow> 'w call \<Rightarrow> 'w \<Rightarrow> goerr \<Rightarrow> goerr" where
  "cerr s cl w e = call_err (cl_secrets cl) (guard_now s cl w) e"

definition Release :: "'w call \<Rightarrow> 'w \<Rightarrow> 'w" where
  "Release cl w = (if cl_guarded cl then snd (be_Close (cl_Backend cl) w) else w)"

section \<open>Lemmas\<close>

lemma call_err_unbound [simp]: "call_err None g e = e"
  by (simp add: call_err_def)

lemma call_err_refused:
  assumes "errors_is e ErrNonPublicDestination \<or> g_refused g"
  shows "CodeOf (call_err (Some ss) (Some g) e) = PermissionDenied \<and>
    ReasonOf (call_err (Some ss) (Some g) e) = ReasonDestinationRefused"
  using assms by (auto simp: call_err_def Let_def split: option.splits)

lemma call_err_shape:
  "\<exists>code op msg reason m ra. call_err (Some ss) g e =
     Coded code op (Some (Msg (Redact msg (case g of Some g \<Rightarrow> g_sent g @ ss | None \<Rightarrow> ss)))) reason m ra"
  by (auto simp: call_err_def Let_def split: option.split)

lemma Ok_bound_credential:
  assumes "bound_credential b cfg = Ok cfg'"
  shows "cfg_Endpoint cfg' = cfg_Endpoint cfg" "cfg_Kind cfg' = cfg_Kind cfg" "cfg_Bucket cfg' = cfg_Bucket cfg"
    "cfg_Prefix cfg' = cfg_Prefix cfg" "cfg_Region cfg' = cfg_Region cfg"
    "cfg_GCSCredentialsFile cfg' = cfg_GCSCredentialsFile cfg"
    "bd_Kind b = ''gcs'' \<longrightarrow> cfg_GCSCredentialsJSON cfg' \<noteq> [] \<or> cfg_GCSAccessToken cfg' \<noteq> []"
    "bd_Kind b = ''azure'' \<longrightarrow> cfg_AzureAccount cfg' \<noteq> [] \<and> cfg_AzureKey cfg' \<noteq> []"
    "bd_Kind b \<noteq> ''gcs'' \<and> bd_Kind b \<noteq> ''azure'' \<longrightarrow> cfg_AccessKey cfg' \<noteq> [] \<and> cfg_SecretKey cfg' \<noteq> []"
  using assms by (auto simp: bound_credential_def Let_def split: if_splits)

section \<open>Properties\<close>

text \<open>C6: the error of a bound call made through the guarded client leaves with a refused dial as
  PERMISSION_DENIED however the SDK reported it, then an over-long response as TOO_LARGE, then a
  missed deadline as UNAVAILABLE, and otherwise with its own class and reason; and no secret of the
  call, nor any credential it put on the wire, is left in its message, if the secret can be told
  from the mark that replaces it: it is not empty, has no square bracket in it and is not a part
  of the word the mark is made of.\<close>

theorem call_err_policy:
  assumes "s \<in> set ss \<or> s \<in> set (g_sent g)" "redactable s"
  shows "\<exists>code op m reason mt ra. call_err (Some ss) (Some g) e = Coded code op (Some (Msg m)) reason mt ra \<and>
    \<not> contains m s \<and>
    (code, reason) =
      (if errors_is e ErrNonPublicDestination \<or> g_refused g then (PermissionDenied, ReasonDestinationRefused)
       else if errors_is e ErrResponseTooLarge \<or> g_tooLarge g then (TooLarge, ReasonResponseTooLarge)
       else if errors_is e DeadlineExceeded then (Unavailable, ReasonOperationDeadline)
       else (CodeOf e, ReasonOf e)) \<and>
    ra = (if code = Throttled then g_retryAfter g else 0)"
proof -
  have "s \<in> set (g_sent g @ ss)" using assms(1) by auto
  note clean = Redact_removes [OF this assms(2)]
  show ?thesis by (auto simp: call_err_def Let_def clean split: option.split)
qed

lemma call_err_policy_witness:
  "\<exists>m. call_err (Some [''hush'']) (Some (new_guard 1)) (New Throttled ''get'' ''slow down, hush'') =
     Coded Throttled ''get'' (Some (Msg m)) ReasonStoreThrottled [] 0 \<and> \<not> contains m ''hush''"
proof -
  have r: "redactable ''hush''" by (simp add: redactable_def has_prefix_def)
  obtain code op m reason mt ra where e: "call_err (Some [''hush'']) (Some (new_guard 1)) (New Throttled ''get'' ''slow down, hush'') =
     Coded code op (Some (Msg m)) reason mt ra" "\<not> contains m ''hush''"
    using call_err_policy [OF _ r, of "[''hush'']" "new_guard 1" "New Throttled ''get'' ''slow down, hush''"] by auto
  then have "code = Throttled" "op = ''get''" "reason = ReasonStoreThrottled" "mt = []" "ra = 0"
    by (auto simp: call_err_def Let_def new_guard_def New_def errors_is_def)
  with e show ?thesis by blast
qed

text \<open>C34: a binding the gateway accepts names a kind it may bind and a bucket, runs on a guarded
  client bounded just past the object cap, carries the credential its kind needs and never a
  credentials file of the gateway, and its endpoint, if it names one, was qualified.\<close>

theorem boundConfig_sound:
  assumes "boundConfig env composed b = Ok (cfg, adm, g)"
  shows "cfg_Kind cfg = bd_Kind b \<and> bd_Kind b \<in> bindableKinds \<and> cfg_Bucket cfg = bd_Bucket b \<and> bd_Bucket b \<noteq> [] \<and>
    cfg_Prefix cfg = bd_Prefix b \<and> cfg_Region cfg \<noteq> [] \<and> cfg_HTTPClient cfg \<and> cfg_GCSCredentialsFile cfg = [] \<and>
    g = new_guard (maxBoundObjectBytes + 1) \<and>
    (if bd_Kind b = ''gcs'' then cfg_GCSCredentialsJSON cfg \<noteq> [] \<or> cfg_GCSAccessToken cfg \<noteq> []
     else if bd_Kind b = ''azure'' then cfg_AzureAccount cfg \<noteq> [] \<and> cfg_AzureKey cfg \<noteq> []
     else cfg_AccessKey cfg \<noteq> [] \<and> cfg_SecretKey cfg \<noteq> []) \<and>
    (bd_Kind b = ''minio'' \<longrightarrow> bd_Endpoint b \<noteq> []) \<and>
    (if bd_Endpoint b = [] then adm = no_admission else Qualify env (bd_Endpoint b) composed = Inr adm)"
proof -
  from assms obtain cfg0 cfg1 where c: "bd_Kind b \<in> bindableKinds" "bd_Bucket b \<noteq> []"
    "\<not> (bd_Kind b = ''minio'' \<and> bd_Endpoint b = [])"
    "cfg0 = zero_config\<lparr>cfg_Kind := bd_Kind b, cfg_Bucket := bd_Bucket b, cfg_Prefix := bd_Prefix b,
              cfg_Region := (if bd_Region b = [] then ''us-east-1'' else bd_Region b),
              cfg_Endpoint := bd_Endpoint b, cfg_UsePathStyle := True\<rparr>"
    "bound_credential b cfg0 = Ok cfg1" "cfg = cfg1\<lparr>cfg_HTTPClient := True\<rparr>" "g = new_guard (maxBoundObjectBytes + 1)"
    "(if cfg_Endpoint cfg1 = [] then Inr no_admission else Qualify env (cfg_Endpoint cfg1) composed) = Inr adm"
    by (auto simp: boundConfig_def Let_def split: if_splits result.splits sum.splits)
  note k = Ok_bound_credential [OF c(5)]
  show ?thesis using c k by (auto simp: zero_config_def split: if_splits)
qed

lemma boundConfig_sound_witness:
  "\<exists>cfg adm. boundConfig sample_env {} \<lparr>bd_Kind = ''s3'', bd_Endpoint = [], bd_Region = [], bd_Bucket = ''b'',
     bd_Prefix = ''/r'', bd_Credential = AccessKey ''id'' ''secret''\<rparr> = Ok (cfg, adm, new_guard 5242881) \<and>
     cfg_SecretKey cfg \<noteq> [] \<and> cfg_Prefix cfg = ''/r'' \<and> adm = no_admission"
proof -
  let ?b = "\<lparr>bd_Kind = ''s3'', bd_Endpoint = [], bd_Region = [], bd_Bucket = ''b'',
     bd_Prefix = ''/r'', bd_Credential = AccessKey ''id'' ''secret''\<rparr>"
  obtain cfg adm g where c: "boundConfig sample_env {} ?b = Ok (cfg, adm, g)"
    by (simp add: boundConfig_def bindableKinds_def bound_credential_def zero_config_def)
  from boundConfig_sound [OF c] c show ?thesis by (auto simp: maxBoundObjectBytes_def)
qed

text \<open>C35: an RPC with a binding never runs on the gateway's own store: it runs on a backend opened
  for it from the binding's configuration, under the binding's prefix exactly as it was written,
  with its secrets recorded and its guard installed.\<close>

theorem backendFor_bound:
  assumes "backendFor s c (Some b) w = (Ok cl, w')"
  shows "\<exists>cfg adm g new inner. boundConfig (sv_env s) (sv_composed s) b = Ok (cfg, adm, g) \<and>
    map_of (sv_registry s) (bd_Kind b) = Some new \<and>
    new c (if bd_Prefix b \<noteq> [] \<and> cfg_ProbeKey cfg \<noteq> [] then cfg\<lparr>cfg_ProbeKey := bd_Prefix b @ cfg_ProbeKey cfg\<rparr> else cfg)
      (sv_install s g w) = (Ok inner, w') \<and>
    cl_Backend cl = apply_prefix (bd_Prefix b) inner \<and>
    cl_secrets cl = Some (bindingSecrets (sv_json s) b) \<and> cl_guarded cl"
proof -
  from assms obtain cfg adm g be where o: "boundConfig (sv_env s) (sv_composed s) b = Ok (cfg, adm, g)"
    "Open (sv_registry s) c cfg (sv_install s g w) = (Ok be, w')"
    "cl = \<lparr>cl_Backend = be, cl_secrets = Some (bindingSecrets (sv_json s) b), cl_guarded = True\<rparr>"
    by (auto simp: backendFor_def Let_def split: result.splits prod.splits)
  note k = boundConfig_sound [OF o(1)]
  have same: "cfg'\<lparr>cfg_Prefix := cfg_Prefix cfg'\<rparr> = cfg'" for cfg' :: Config by simp
  from o(2) k obtain new inner where n: "map_of (sv_registry s) (bd_Kind b) = Some new"
    "new c ((if bd_Prefix b \<noteq> [] \<and> cfg_ProbeKey cfg \<noteq> [] then cfg\<lparr>cfg_ProbeKey := bd_Prefix b @ cfg_ProbeKey cfg\<rparr> else cfg)
       \<lparr>cfg_Prefix := bd_Prefix b\<rparr>) (sv_install s g w) = (Ok inner, w')"
    "be = apply_prefix (bd_Prefix b) inner"
    by (auto simp: Open_def Let_def split: option.splits prod.splits)
  have "(if bd_Prefix b \<noteq> [] \<and> cfg_ProbeKey cfg \<noteq> [] then cfg\<lparr>cfg_ProbeKey := bd_Prefix b @ cfg_ProbeKey cfg\<rparr> else cfg)
       \<lparr>cfg_Prefix := bd_Prefix b\<rparr> =
     (if bd_Prefix b \<noteq> [] \<and> cfg_ProbeKey cfg \<noteq> [] then cfg\<lparr>cfg_ProbeKey := bd_Prefix b @ cfg_ProbeKey cfg\<rparr> else cfg)"
    using k by (cases cfg) auto
  with n o(1,3) show ?thesis by auto
qed

definition sample_server :: "MemState Server" where
  "sample_server = \<lparr>sv_be = mem_backend (\<lambda>d. []) ''bucket'', sv_composed = {}, sv_readiness = no_verdict,
     sv_registry = [(''s3'', \<lambda>c cfg w. (Ok (mem_backend (\<lambda>d. []) (cfg_Bucket cfg)), w))],
     sv_env = sample_env, sv_json = (\<lambda>k. None), sv_guard = (\<lambda>w. new_guard 0), sv_install = (\<lambda>g w. w)\<rparr>"

definition sample_binding :: Binding where
  "sample_binding = \<lparr>bd_Kind = ''s3'', bd_Endpoint = [], bd_Region = [], bd_Bucket = ''b'',
     bd_Prefix = ''/r'', bd_Credential = AccessKey ''id'' ''secret''\<rparr>"

lemma sample_backendFor:
  "backendFor sample_server c (Some sample_binding) w =
     (Ok \<lparr>cl_Backend = prefixed (mem_backend (\<lambda>d. []) ''b'') ''/r'', cl_secrets = Some [''secret''], cl_guarded = True\<rparr>, w)"
  by (simp add: backendFor_def sample_server_def sample_binding_def boundConfig_def bindableKinds_def
      bound_credential_def zero_config_def bindingSecrets_def Open_def apply_prefix_def)

lemma backendFor_bound_witness:
  "\<exists>cl inner. backendFor sample_server background (Some sample_binding) sample_mem = (Ok cl, sample_mem) \<and>
     cl_Backend cl = apply_prefix ''/r'' inner \<and> cl_secrets cl = Some [''secret'']"
  using backendFor_bound [OF sample_backendFor [of background sample_mem]] sample_backendFor [of background sample_mem]
  by (auto simp: sample_binding_def)

end
