(* ===== verification/Server.thy ===== *)
theory Server
  imports Binding
begin

text \<open>
  The ObjectStorage handlers (internal/server/server.go). A handler takes the server, the
  call's context, the request and the world (the state the backends act on), and for a
  streaming call the stream; a handler that publishes also takes the hub of write events
  and the time. The deferred \<open>Release\<close> of a bound call is the last change of the world
  on every path after \<open>backendFor\<close>.
\<close>

definition maxGetManyItems :: nat where "maxGetManyItems = 1000"

definition serrInvalid :: "string \<Rightarrow> goerr" where
  "serrInvalid msg = New InvalidArgument ''request'' msg"

abbreviation server_now :: "'w Server \<Rightarrow> gotime" where
  "server_now s \<equiv> Now (sv_env s)"

definition AdmitComposed :: "Composed \<Rightarrow> 'w Server \<Rightarrow> 'w Server" where
  "AdmitComposed composed s = s\<lparr>sv_composed := composed\<rparr>"

section \<open>Stat\<close>

record StatRequest =
  sq_Key :: string
  sq_VersionId :: string
  sq_IfNoneMatch :: string
  sq_IfMatch :: string
  sq_Binding :: "Binding option"

record GetHeader =
  gh_Info :: ProtoInfo
  gh_NotModified :: bool

definition server_Stat :: "'w Server \<Rightarrow> ctx \<Rightarrow> StatRequest \<Rightarrow> 'w \<Rightarrow> (rpc_err, GetHeader) result \<times> 'w" where
  "server_Stat s c0 req w0 =
     (let c = boundCall (server_now s) c0 (sq_Binding req) boundOperationTimeout in
      case backendFor s c (sq_Binding req) w0 of
        (Err e, w) \<Rightarrow> (Err (toStatus e), w)
      | (Panic, w) \<Rightarrow> (Panic, w)
      | (Ok cl, w) \<Rightarrow>
         (case be_Stat (cl_Backend cl) c (sq_Key req) (sq_VersionId req) w of
            (Err e, w') \<Rightarrow> (Err (toStatus (cerr s cl w' e)), Release cl w')
          | (Panic, w') \<Rightarrow> (Panic, w')
          | (Ok info, w') \<Rightarrow>
             ((if sq_IfNoneMatch req \<noteq> [] \<and> sq_IfNoneMatch req = oi_ETag info
               then Ok \<lparr>gh_Info = toProtoInfo info, gh_NotModified = True\<rparr>
               else if sq_IfMatch req \<noteq> [] \<and> sq_IfMatch req \<noteq> oi_ETag info
               then Err (refuse C_FailedPrecondition ''if-match: etag mismatch'' ReasonPreconditionFailed [] 0)
               else Ok \<lparr>gh_Info = toProtoInfo info, gh_NotModified = False\<rparr>), Release cl w')))"

section \<open>Get\<close>

record GetRequest =
  gq_Key :: string
  gq_VersionId :: string
  gq_Range :: "ByteRange option"
  gq_IfNoneMatch :: string
  gq_IfMatch :: string
  gq_IfModifiedSinceUnixMs :: int
  gq_Binding :: "Binding option"

datatype GetResponse = GetHdr GetHeader | GetData bytes

definition toBackendGetOptions :: "GetRequest \<Rightarrow> GetOptions" where
  "toBackendGetOptions req = \<lparr>go_Range = gq_Range req, go_IfNoneMatch = gq_IfNoneMatch req,
     go_IfMatch = gq_IfMatch req, go_IfModifiedSince = fromUnixMS (gq_IfModifiedSinceUnixMs req),
     go_VersionID = gq_VersionId req\<rparr>"

text \<open>What a handler that only streams returns, from an error or nil.\<close>

definition outcome :: "rpc_err option \<Rightarrow> (rpc_err, unit) result" where
  "outcome e = (case e of None \<Rightarrow> Ok () | Some err \<Rightarrow> Err err)"

definition classify :: "'w call \<Rightarrow> goerr \<Rightarrow> Guard \<Rightarrow> goerr" where
  "classify cl e g = call_err (cl_secrets cl) (if cl_guarded cl then Some g else None) e"

definition send_outcome :: "goerr option \<Rightarrow> (rpc_err, unit) result" where
  "send_outcome e = outcome (map_option StreamErr e)"

definition get_result :: "'w call \<Rightarrow> GetRequest \<Rightarrow> GetResult \<Rightarrow> GetResponse Stream
    \<Rightarrow> (rpc_err, unit) result \<times> GetResponse Stream" where
  "get_result cl req res sm =
     (if gr_NotModified res then
        (case Send (GetHdr \<lparr>gh_Info = toProtoInfo (gr_Info res), gh_NotModified = True\<rparr>) sm of
           (e, sm') \<Rightarrow> (send_outcome e, sm'))
      else if gq_Binding req \<noteq> None \<and> gq_Range req = None \<and> oi_Size (gr_Info res) > maxBoundObjectBytes
      then (Err (object_too_large (sentinel_msg ErrObjectTooLarge)), sm)
      else (let body = (if gq_Binding req \<noteq> None then Capped (gr_Body res) maxBoundObjectBytes
                        else Plain (gr_Body res)) in
        case Send (GetHdr \<lparr>gh_Info = toProtoInfo (gr_Info res), gh_NotModified = False\<rparr>) sm of
          (Some e, sm') \<Rightarrow> (Err (StreamErr e), sm')
        | (None, sm') \<Rightarrow>
           (case streamBody (classify cl) (- 1) GetData body 0 sm' of (e, sm'') \<Rightarrow> (outcome e, sm''))))"

definition server_Get :: "'w Server \<Rightarrow> ctx \<Rightarrow> GetRequest \<Rightarrow> GetResponse Stream \<Rightarrow> 'w
    \<Rightarrow> (rpc_err, unit) result \<times> GetResponse Stream \<times> 'w" where
  "server_Get s c0 req sm w0 =
     (let c = boundCall (server_now s) c0 (gq_Binding req) boundOperationTimeout in
      case backendFor s c (gq_Binding req) w0 of
        (Err e, w) \<Rightarrow> (Err (toStatus e), sm, w)
      | (Panic, w) \<Rightarrow> (Panic, sm, w)
      | (Ok cl, w) \<Rightarrow>
         (case be_Get (cl_Backend cl) c (gq_Key req) (toBackendGetOptions req) w of
            (Err e, w') \<Rightarrow> (Err (toStatus (cerr s cl w' e)), sm, Release cl w')
          | (Panic, w') \<Rightarrow> (Panic, sm, w')
          | (Ok res, w') \<Rightarrow>
             (case get_result cl req res sm of (out, sm') \<Rightarrow> (out, sm', Release cl w'))))"

section \<open>GetMany\<close>

record GetManyItem =
  gi_Key :: string
  gi_IfMatch :: string

record GetManyRequest =
  gm_Items :: "GetManyItem list"
  gm_Binding :: "Binding option"

datatype Outcome = OUTCOME_UNSPECIFIED | OUTCOME_OK | OUTCOME_CHANGED | OUTCOME_NOT_FOUND | OUTCOME_TOO_LARGE

record GetManyHeader =
  mh_Index :: int
  mh_Outcome :: Outcome
  mh_Info :: "ProtoInfo option"

datatype GetManyResponse = ManyHdr GetManyHeader | ManyData bytes

definition sendHeader :: "int \<Rightarrow> Outcome \<Rightarrow> ProtoInfo option \<Rightarrow> GetManyResponse Stream
    \<Rightarrow> (rpc_err, unit) result \<times> GetManyResponse Stream" where
  "sendHeader index oc info sm =
     (case Send (ManyHdr \<lparr>mh_Index = index, mh_Outcome = oc, mh_Info = info\<rparr>) sm of
        (e, sm') \<Rightarrow> (send_outcome e, sm'))"

text \<open>An item that the store answered: its size is learnt by reading when the store gave none.\<close>

definition many_result :: "'w call \<Rightarrow> int \<Rightarrow> bool \<Rightarrow> GetResult \<Rightarrow> GetManyResponse Stream
    \<Rightarrow> (rpc_err, unit) result \<times> GetManyResponse Stream" where
  "many_result cl index bound res sm =
     (if bound \<and> oi_Size (gr_Info res) > maxBoundObjectBytes then sendHeader index OUTCOME_TOO_LARGE None sm
      else
       (let sized = (if oi_Size (gr_Info res) \<le> 0 then
               (case read_all (limit_reader (nat (maxBoundObjectBytes + 1)) (gr_Body res)) of
                  (_, Some (rerr, g)) \<Rightarrow> Err (Some (toStatus (serrWrapInternal (classify cl rerr g))))
                | (buf, None) \<Rightarrow>
                    if int (length buf) > maxBoundObjectBytes then Err None
                    else Ok ((gr_Info res)\<lparr>oi_Size := int (length buf)\<rparr>, bytes_reader buf))
             else Ok (gr_Info res, gr_Body res))
        in case sized of
             Err (Some e) \<Rightarrow> (Err e, sm)
           | Err None \<Rightarrow> sendHeader index OUTCOME_TOO_LARGE None sm
           | Panic \<Rightarrow> (Panic, sm)
           | Ok (info, body) \<Rightarrow>
              (case sendHeader index OUTCOME_OK (Some (toProtoInfo info)) sm of
                 (Ok _, sm') \<Rightarrow>
                   (case streamBody (classify cl) (oi_Size info) ManyData (Plain body) 0 sm' of
                      (e, sm'') \<Rightarrow> (outcome e, sm''))
               | (Err e, sm') \<Rightarrow> (Err e, sm')
               | (Panic, sm') \<Rightarrow> (Panic, sm'))))"

definition getManyItem :: "'w Server \<Rightarrow> ctx \<Rightarrow> 'w call \<Rightarrow> int \<Rightarrow> GetManyItem \<Rightarrow> bool
    \<Rightarrow> GetManyResponse Stream \<Rightarrow> 'w \<Rightarrow> (rpc_err, unit) result \<times> GetManyResponse Stream \<times> 'w" where
  "getManyItem s c0 cl index item bound sm w =
     (let c = operation (server_now s) (cl_secrets cl) c0 in
      case be_Get (cl_Backend cl) c (gi_Key item) (get_options (gi_IfMatch item)) w of
        (Err e, w') \<Rightarrow>
          (if errors_is e ErrBucketNotFound then (Err (toStatus (cerr s cl w' e)), sm, w')
           else if CodeOf e = PreconditionFailed
           then (case sendHeader index OUTCOME_CHANGED None sm of (out, sm') \<Rightarrow> (out, sm', w'))
           else if CodeOf e = NotFound
           then (case sendHeader index OUTCOME_NOT_FOUND None sm of (out, sm') \<Rightarrow> (out, sm', w'))
           else (Err (toStatus (cerr s cl w' e)), sm, w'))
      | (Panic, w') \<Rightarrow> (Panic, sm, w')
      | (Ok res, w') \<Rightarrow> (case many_result cl index bound res sm of (out, sm') \<Rightarrow> (out, sm', w')))"

fun many_loop :: "'w Server \<Rightarrow> ctx \<Rightarrow> 'w call \<Rightarrow> int \<Rightarrow> GetManyItem list \<Rightarrow> bool
    \<Rightarrow> GetManyResponse Stream \<Rightarrow> 'w \<Rightarrow> (rpc_err, unit) result \<times> GetManyResponse Stream \<times> 'w" where
  "many_loop s c cl i [] bound sm w = (Ok (), sm, w)"
| "many_loop s c cl i (item # items) bound sm w =
     (case getManyItem s c cl i item bound sm w of
        (Ok _, sm', w') \<Rightarrow> many_loop s c cl (i + 1) items bound sm' w'
      | (out, sm', w') \<Rightarrow> (out, sm', w'))"

definition too_many_items :: "nat \<Rightarrow> rpc_err" where
  "too_many_items n = refuse C_InvalidArgument
     (''get-many: '' @ dec_nat n @ '' items, at most 1000 per call'') ReasonTooManyItems
     [(''max_items'', ''1000'')] 0"

definition server_GetMany :: "'w Server \<Rightarrow> ctx \<Rightarrow> GetManyRequest \<Rightarrow> GetManyResponse Stream \<Rightarrow> 'w
    \<Rightarrow> (rpc_err, unit) result \<times> GetManyResponse Stream \<times> 'w" where
  "server_GetMany s c0 req sm w0 =
     (if length (gm_Items req) > maxGetManyItems then (Err (too_many_items (length (gm_Items req))), sm, w0)
      else (let c = boundCall (server_now s) c0 (gm_Binding req) boundBatchTimeout in
        case backendFor s c (gm_Binding req) w0 of
          (Err e, w) \<Rightarrow> (Err (toStatus e), sm, w)
        | (Panic, w) \<Rightarrow> (Panic, sm, w)
        | (Ok cl, w) \<Rightarrow>
           (case many_loop s c cl 0 (gm_Items req) (gm_Binding req \<noteq> None) sm w of
              (out, sm', w') \<Rightarrow> (out, sm', Release cl w'))))"

section \<open>List\<close>

record ListRequest =
  lq_Prefix :: string
  lq_Delimiter :: string
  lq_PageToken :: string
  lq_Limit :: int
  lq_Binding :: "Binding option"

record ProtoListResult =
  pl_Objects :: "ProtoInfo list"
  pl_CommonPrefixes :: "string list"
  pl_NextPageToken :: string

definition list_limit_of :: "ListRequest \<Rightarrow> int" where
  "list_limit_of req = (let limit = lq_Limit req in
     if lq_Binding req \<noteq> None \<and> (limit \<le> 0 \<or> limit > maxBoundListLimit) then maxBoundListLimit else limit)"

definition over_long :: "nat \<Rightarrow> int \<Rightarrow> goerr" where
  "over_long n limit = WithReason (New TooLarge ''binding''
     (''the store returned '' @ dec_nat n @ '' entries for a page of at most '' @ dec_int limit @
      ''; refusing the over-long listing'')) ReasonListingTooLong
     [(''entries'', dec_nat n), (''max_entries'', dec_int limit)]"

definition server_List :: "'w Server \<Rightarrow> ctx \<Rightarrow> ListRequest \<Rightarrow> 'w \<Rightarrow> (rpc_err, ProtoListResult) result \<times> 'w" where
  "server_List s c0 req w0 =
     (let c = boundCall (server_now s) c0 (lq_Binding req) boundOperationTimeout in
      case backendFor s c (lq_Binding req) w0 of
        (Err e, w) \<Rightarrow> (Err (toStatus e), w)
      | (Panic, w) \<Rightarrow> (Panic, w)
      | (Ok cl, w) \<Rightarrow>
         (let limit = list_limit_of req in
          case be_List (cl_Backend cl) c \<lparr>lo_Prefix = lq_Prefix req, lo_Delimiter = lq_Delimiter req,
              lo_PageToken = lq_PageToken req, lo_Limit = limit\<rparr> w of
            (Err e, w') \<Rightarrow> (Err (toStatus (cerr s cl w' e)), Release cl w')
          | (Panic, w') \<Rightarrow> (Panic, w')
          | (Ok res, w') \<Rightarrow>
             (let n = length (lr_Objects res) + length (lr_CommonPrefixes res) in
              if lq_Binding req \<noteq> None \<and> int n > limit
              then (Err (toStatus (over_long n limit)), Release cl w')
              else (Ok \<lparr>pl_Objects = map toProtoInfo (lr_Objects res),
                        pl_CommonPrefixes = lr_CommonPrefixes res,
                        pl_NextPageToken = lr_NextPageToken res\<rparr>, Release cl w'))))"

section \<open>Capabilities, Ready, Native\<close>

definition server_Capabilities :: "'w Server \<Rightarrow> ctx \<Rightarrow> Binding option \<Rightarrow> 'w
    \<Rightarrow> (rpc_err, ProtoCapabilities) result \<times> 'w" where
  "server_Capabilities s c0 b w0 =
     (let c = boundCall (server_now s) c0 b boundOperationTimeout in
      case backendFor s c b w0 of
        (Err e, w) \<Rightarrow> (Err (toStatus e), w)
      | (Panic, w) \<Rightarrow> (Panic, w)
      | (Ok cl, w) \<Rightarrow>
         (let caps = be_Capabilities (cl_Backend cl) in
          if b \<noteq> None
          then (Ok \<lparr>pc_Backend = cap_Backend caps, pc_ConditionalPut = False, pc_ConditionalCopy = False,
                  pc_AtomicRename = False, pc_Versions = cap_Versions caps, pc_Tags = False,
                  pc_Presign = False, pc_PresignMaxExpirySeconds = 0, pc_PresignAmbientCreds = False,
                  pc_BatchDeleteMax = 0, pc_NativeVerbs = [], pc_MaxObjectBytes = maxBoundObjectBytes,
                  pc_MaxListLimit = maxBoundListLimit, pc_MaxGetManyItems = int maxGetManyItems\<rparr>, Release cl w)
          else (Ok ((toProtoCapabilities caps)\<lparr>pc_MaxGetManyItems := int maxGetManyItems\<rparr>), Release cl w)))"

record Readiness =
  rd_Ready :: bool
  rd_Backend :: string
  rd_Code :: string
  rd_Detail :: string
  rd_CheckedAtUnixMs :: int

definition server_Ready :: "'w Server \<Rightarrow> Readiness" where
  "server_Ready s =
     (let v = sv_readiness s;
          res = \<lparr>rd_Ready = vd_Ready v, rd_Backend = be_Name (sv_be s), rd_Code = [], rd_Detail = [],
                 rd_CheckedAtUnixMs = 0\<rparr>
      in if vd_CheckedAt v = 0
         then res\<lparr>rd_Code := Code_String Unavailable, rd_Detail := ''no readiness probe has completed yet''\<rparr>
         else (let res = res\<lparr>rd_CheckedAtUnixMs := unixMS (vd_CheckedAt v)\<rparr>
               in if vd_Ready v then res else res\<lparr>rd_Code := vd_Code v, rd_Detail := vd_Detail v\<rparr>))"

definition server_Native :: "'w Server \<Rightarrow> ctx \<Rightarrow> string \<Rightarrow> meta \<Rightarrow> 'w \<Rightarrow> (rpc_err, meta) result \<times> 'w" where
  "server_Native s c verb params w = (case be_Native (sv_be s) c verb params w of
      (Err e, w') \<Rightarrow> (Err (toStatus e), w')
    | (Panic, w') \<Rightarrow> (Panic, w')
    | (Ok values, w') \<Rightarrow> (Ok values, w'))"

end
