(* ===== verification/Writes.thy ===== *)
theory Writes
  imports Server
begin

text \<open>
  The writing handlers and Watch (internal/server/server.go: Put, Delete, DeleteMany, Copy,
  Presign, Watch). They act on the gateway's own store and publish to the hub; a panic of
  the hub is a panic of the handler. The reader a Put hands to the store is what its pump
  goroutine writes into the pipe.
\<close>

section \<open>Put\<close>

record PutHeader =
  ph_Key :: string
  ph_ContentType :: string
  ph_ContentEncoding :: string
  ph_CacheControl :: string
  ph_UserMetadata :: meta
  ph_IfNoneMatch :: string
  ph_IfMatch :: string
  ph_TotalSize :: int

datatype PutRequest = PutHdr PutHeader | PutData bytes | PutNone

record ProtoPutResult =
  pp_Etag :: string
  pp_VersionId :: string
  pp_Generation :: int

fun get_data :: "PutRequest \<Rightarrow> bytes" where
  "get_data (PutData d) = d" | "get_data _ = []"

fun get_header :: "PutRequest \<Rightarrow> PutHeader option" where
  "get_header (PutHdr h) = Some h" | "get_header _ = None"

text \<open>What \<open>Recv\<close> answers, message by message; \<open>io.EOF\<close> at the end of the list.\<close>

fun put_pump :: "(goerr + PutRequest) list \<Rightarrow> reader" where
  "put_pump [] = []"
| "put_pump (Inl err # ms) = [([], RErr err (new_guard 0))]"
| "put_pump (Inr msg # ms) =
     (if length (get_data msg) > 0 then (get_data msg, RNil) # put_pump ms else put_pump ms)"

definition put_options :: "PutHeader \<Rightarrow> PutOptions" where
  "put_options h = \<lparr>po_ContentType = ph_ContentType h, po_ContentEncoding = ph_ContentEncoding h,
     po_CacheControl = ph_CacheControl h, po_UserMetadata = ph_UserMetadata h,
     po_IfNoneMatch = ph_IfNoneMatch h, po_IfMatch = ph_IfMatch h, po_Size = ph_TotalSize h\<rparr>"

definition event :: "string \<Rightarrow> Op \<Rightarrow> string \<Rightarrow> string \<Rightarrow> Event" where
  "event key op etag version = \<lparr>ev_Key = key, ev_Op = op, ev_ETag = etag, ev_VersionID = version, ev_Time = 0\<rparr>"

text \<open>
  \<open>reply\<close> is what \<open>SendAndClose\<close> returns. A message received before anything else is
  the header; an error there, the end included, is an empty stream.
\<close>

definition server_Put :: "'w Server \<Rightarrow> ctx \<Rightarrow> gotime \<Rightarrow> (goerr + PutRequest) list \<Rightarrow> goerr option \<Rightarrow> Hub \<Rightarrow> 'w
    \<Rightarrow> (rpc_err, ProtoPutResult) result \<times> Hub \<times> 'w" where
  "server_Put s c now msgs reply hub w = (case msgs of
      [] \<Rightarrow> (Err (toStatus (serrInvalid ''put: empty stream'')), hub, w)
    | Inl _ # rest \<Rightarrow> (Err (toStatus (serrInvalid ''put: empty stream'')), hub, w)
    | Inr first # rest \<Rightarrow>
       (case get_header first of
          None \<Rightarrow> (Err (toStatus (serrInvalid ''put: first message must be the header'')), hub, w)
        | Some header \<Rightarrow>
           (case be_Put (sv_be s) c (ph_Key header) (put_pump rest) (put_options header) w of
              (Err e, w') \<Rightarrow> (Err (toStatus e), hub, w')
            | (Panic, w') \<Rightarrow> (Panic, hub, w')
            | (Ok res, w') \<Rightarrow>
               (case Publish now (event (ph_Key header) OpPut (pr_ETag res) (pr_VersionID res)) hub of
                  None \<Rightarrow> (Panic, hub, w')
                | Some hub' \<Rightarrow>
                   ((case reply of Some e \<Rightarrow> Err (StreamErr e)
                     | None \<Rightarrow> Ok \<lparr>pp_Etag = pr_ETag res, pp_VersionId = pr_VersionID res,
                                   pp_Generation = pr_Generation res\<rparr>), hub', w')))))"

section \<open>Delete and DeleteMany\<close>

record DeleteRequest =
  dq_Key :: string
  dq_VersionId :: string
  dq_IfMatch :: string

definition server_Delete :: "'w Server \<Rightarrow> ctx \<Rightarrow> gotime \<Rightarrow> DeleteRequest \<Rightarrow> Hub \<Rightarrow> 'w
    \<Rightarrow> (rpc_err, unit) result \<times> Hub \<times> 'w" where
  "server_Delete s c now req hub w =
     (case be_Delete (sv_be s) c (dq_Key req)
         \<lparr>do_VersionID = dq_VersionId req, do_IfMatch = dq_IfMatch req\<rparr> w of
        (Some e, w') \<Rightarrow> (Err (toStatus e), hub, w')
      | (None, w') \<Rightarrow>
         (case Publish now (event (dq_Key req) OpDelete [] (dq_VersionId req)) hub of
            None \<Rightarrow> (Panic, hub, w') | Some hub' \<Rightarrow> (Ok (), hub', w')))"

fun publish_deleted :: "gotime \<Rightarrow> DeleteEntry list \<Rightarrow> Hub \<Rightarrow> Hub option" where
  "publish_deleted now [] hub = Some hub"
| "publish_deleted now (e # es) hub =
     (if de_Error e = [] then
        (case Publish now (event (de_Key e) OpDelete [] []) hub of
           None \<Rightarrow> None | Some hub' \<Rightarrow> publish_deleted now es hub')
      else publish_deleted now es hub)"

definition server_DeleteMany :: "'w Server \<Rightarrow> ctx \<Rightarrow> gotime \<Rightarrow> string list \<Rightarrow> Hub \<Rightarrow> 'w
    \<Rightarrow> (rpc_err, DeleteEntry list) result \<times> Hub \<times> 'w" where
  "server_DeleteMany s c now ks hub w =
     (case be_DeleteMany (sv_be s) c ks w of ((entries, err), w') \<Rightarrow>
        (case err of
           Some e \<Rightarrow> if entries = [] then (Err (toStatus e), hub, w')
             else (case publish_deleted now entries hub of
                     None \<Rightarrow> (Panic, hub, w') | Some hub' \<Rightarrow> (Ok entries, hub', w'))
         | None \<Rightarrow> (case publish_deleted now entries hub of
                     None \<Rightarrow> (Panic, hub, w') | Some hub' \<Rightarrow> (Ok entries, hub', w'))))"

section \<open>Copy and Presign\<close>

record CopyRequest =
  cq_SourceKey :: string
  cq_DestKey :: string
  cq_IfNoneMatch :: string

definition server_Copy :: "'w Server \<Rightarrow> ctx \<Rightarrow> gotime \<Rightarrow> CopyRequest \<Rightarrow> Hub \<Rightarrow> 'w
    \<Rightarrow> (rpc_err, string \<times> string) result \<times> Hub \<times> 'w" where
  "server_Copy s c now req hub w =
     (case be_Copy (sv_be s) c (cq_SourceKey req) (cq_DestKey req) \<lparr>co_IfNoneMatch = cq_IfNoneMatch req\<rparr> w of
        (Err e, w') \<Rightarrow> (Err (toStatus e), hub, w')
      | (Panic, w') \<Rightarrow> (Panic, hub, w')
      | (Ok res, w') \<Rightarrow>
         (case Publish now (event (cq_DestKey req) OpPut (pr_ETag res) (pr_VersionID res)) hub of
            None \<Rightarrow> (Panic, hub, w')
          | Some hub' \<Rightarrow> (Ok (pr_ETag res, pr_VersionID res), hub', w')))"

record ProtoPresignResult =
  pq_Method :: ProtoPresignMethod
  pq_Url :: string
  pq_Headers :: meta
  pq_ExpiresAtUnixMs :: int

text \<open>The expiry in nanoseconds is an int64 product of the requested seconds.\<close>

definition server_Presign :: "'w Server \<Rightarrow> ctx \<Rightarrow> string \<Rightarrow> ProtoPresignMethod \<Rightarrow> int \<Rightarrow> 'w
    \<Rightarrow> (rpc_err, ProtoPresignResult) result \<times> 'w" where
  "server_Presign s c key m expirySeconds w =
     (let exp = wrap64 (expirySeconds * 1000000000) in
      case be_Presign (sv_be s) c key (presignMethodFromProto m) exp w of
        (Err e, w') \<Rightarrow> (Err (toStatus e), w')
      | (Panic, w') \<Rightarrow> (Panic, w')
      | (Ok res, w') \<Rightarrow>
         (Ok \<lparr>pq_Method = presignMethodToProto (ps_Method res), pq_Url = ps_URL res,
              pq_Headers = ps_Headers res, pq_ExpiresAtUnixMs = unixMS (ps_ExpiresAt res)\<rparr>, w'))"

section \<open>Watch\<close>

text \<open>
  One turn of the select loop of a watcher with subscription \<open>i\<close>: its context is done,
  or it receives from the channel. A turn that blocks changes nothing. Between turns the
  rest of the process acts on the hub: it publishes, subscribes others, or closes it.
\<close>

datatype watch_turn = CtxDone goerr | Recv

datatype 'm watch_result = Watching Hub "'m Stream" | Returned rpc_err Hub "'m Stream" | Panicked

definition watch_return :: "nat \<Rightarrow> rpc_err \<Rightarrow> Hub \<Rightarrow> 'm Stream \<Rightarrow> 'm watch_result" where
  "watch_return i e hub sm = (case Subscription_Close i hub of
      None \<Rightarrow> Panicked | Some hub' \<Rightarrow> Returned e hub' sm)"

definition fell_behind :: rpc_err where
  "fell_behind = refuse C_ResourceExhausted ''watch: consumer fell behind'' ReasonWatchConsumerBehind [] 0"

definition watch_turn_step :: "nat \<Rightarrow> watch_turn \<Rightarrow> Hub \<Rightarrow> WriteEvent Stream \<Rightarrow> WriteEvent watch_result" where
  "watch_turn_step i turn hub sm = (case turn of
      CtxDone e \<Rightarrow> watch_return i (StreamErr e) hub sm
    | Recv \<Rightarrow>
       (case receive i hub of
          Blocked \<Rightarrow> Watching hub sm
        | Ended \<Rightarrow> watch_return i fell_behind hub sm
        | Received ev hub' \<Rightarrow>
           (case Send (toProtoEvent ev) sm of
              (Some e, sm') \<Rightarrow> watch_return i (StreamErr e) hub' sm'
            | (None, sm') \<Rightarrow> Watching hub' sm')))"

datatype hub_act = ActPublish gotime Event | ActSubscribe string | ActUnsubscribe nat | ActCloseHub

fun hub_do :: "hub_act \<Rightarrow> Hub \<Rightarrow> Hub option" where
  "hub_do (ActPublish now e) h = Publish now e h"
| "hub_do (ActSubscribe p) h = Some (snd (Subscribe p h))"
| "hub_do (ActUnsubscribe j) h = Subscription_Close j h"
| "hub_do ActCloseHub h = Hub_Close h"

fun watch_loop :: "nat \<Rightarrow> (watch_turn + hub_act) list \<Rightarrow> Hub \<Rightarrow> WriteEvent Stream \<Rightarrow> WriteEvent watch_result" where
  "watch_loop i [] hub sm = Watching hub sm"
| "watch_loop i (Inl turn # ms) hub sm = (case watch_turn_step i turn hub sm of
      Watching hub' sm' \<Rightarrow> watch_loop i ms hub' sm' | r \<Rightarrow> r)"
| "watch_loop i (Inr act # ms) hub sm = (case hub_do act hub of
      None \<Rightarrow> Panicked | Some hub' \<Rightarrow> watch_loop i ms hub' sm)"

definition server_Watch :: "string \<Rightarrow> goerr option \<Rightarrow> (watch_turn + hub_act) list \<Rightarrow> Hub \<Rightarrow> WriteEvent Stream
    \<Rightarrow> WriteEvent watch_result" where
  "server_Watch p headerErr ms hub sm =
     (case Subscribe p hub of (i, hub') \<Rightarrow>
        (case headerErr of
           Some e \<Rightarrow> watch_return i (StreamErr e) hub' sm
         | None \<Rightarrow> watch_loop i ms hub' sm))"

end
