(* ===== verification/Reads.thy ===== *)
theory Reads
  imports Writes
begin

text \<open>
  What the reading handlers guarantee. The first part holds over any backend whatever it
  answers, bound or not: the framing of a GetMany, the caps of bound calls. The second part
  uses the contract \<open>object_store\<close>: what a reader gets is what the store holds. The
  gateway's own store, as \<open>Open\<close> builds it over the in-memory backend with or without
  a prefix, is the instance the properties are stated on.
\<close>

section \<open>Frames of one item\<close>

fun is_data :: "GetManyResponse \<Rightarrow> bool" where
  "is_data (ManyData d) = True" | "is_data (ManyHdr h) = False"

fun many_data :: "GetManyResponse \<Rightarrow> bytes" where
  "many_data (ManyData d) = d" | "many_data (ManyHdr h) = []"

fun item_framed :: "bool \<Rightarrow> int \<Rightarrow> GetManyResponse list \<Rightarrow> bool" where
  "item_framed bound i (ManyHdr h # fs) =
     (mh_Index h = i \<and> list_all is_data fs \<and>
      (case mh_Outcome h of
         OUTCOME_OK \<Rightarrow> (case mh_Info h of
             Some info \<Rightarrow> int (length (concat (map many_data fs))) = pi_Size info \<and>
               (bound \<longrightarrow> pi_Size info \<le> maxBoundObjectBytes)
           | None \<Rightarrow> False)
       | OUTCOME_UNSPECIFIED \<Rightarrow> False
       | _ \<Rightarrow> fs = []))"
| "item_framed bound i _ = False"

lemma map_ManyData [simp]:
  "list_all is_data (map ManyData cs)" "map (many_data \<circ> ManyData) cs = cs"
  by (induction cs) auto

lemma sendHeader_Ok:
  assumes "sendHeader i oc info sm = (Ok u, sm')"
  shows "sm_sent sm' = sm_sent sm @ [ManyHdr \<lparr>mh_Index = i, mh_Outcome = oc, mh_Info = info\<rparr>] \<and> sm_fail sm' = sm_fail sm"
  using assms by (auto simp: sendHeader_def send_outcome_def outcome_def Send_def split: option.splits prod.splits)

lemma outcome_Ok [simp]: "outcome e = Ok u \<longleftrightarrow> e = None"
  by (auto simp: outcome_def split: option.splits)

lemma sendHeader_framed:
  assumes "sendHeader i oc None sm = (Ok u, sm')" "oc \<noteq> OUTCOME_OK" "oc \<noteq> OUTCOME_UNSPECIFIED"
  shows "\<exists>fs. sm_sent sm' = sm_sent sm @ fs \<and> item_framed bound i fs"
  using sendHeader_Ok [OF assms(1)] assms(2,3) by (intro exI) (auto split: Outcome.splits)

lemma sized_body_framed:
  assumes "sendHeader i OUTCOME_OK (Some (toProtoInfo info)) sm = (Ok u, sm1)"
    and "streamBody cls (oi_Size info) ManyData (Plain body) 0 sm1 = (None, sm')"
    and "0 \<le> oi_Size info" "bound \<longrightarrow> oi_Size info \<le> maxBoundObjectBytes"
  shows "\<exists>fs. sm_sent sm' = sm_sent sm @ fs \<and> item_framed bound i fs"
proof -
  from streamBody_spec [OF assms(2)] assms(3) obtain cs where
    "sm_sent sm' = sm_sent sm1 @ map ManyData cs" "int (length (concat cs)) = oi_Size info" by auto
  with sendHeader_Ok [OF assms(1)] assms(4) show ?thesis
    by (intro exI [of _ "ManyHdr \<lparr>mh_Index = i, mh_Outcome = OUTCOME_OK, mh_Info = Some (toProtoInfo info)\<rparr> # map ManyData cs"])
      (simp add: toProtoInfo_def)
qed

lemma sent_Ok_framed:
  assumes "(case sendHeader i OUTCOME_OK (Some (toProtoInfo info)) sm of
       (Ok _, sm') \<Rightarrow> (case streamBody cls (oi_Size info) ManyData (Plain body) 0 sm' of
                      (e, sm'') \<Rightarrow> (outcome e, sm''))
     | (Err e, sm') \<Rightarrow> (Err e, sm')
     | (Panic, sm') \<Rightarrow> (Panic, sm')) = (Ok u, sm')"
    and "0 \<le> oi_Size info" "bound \<longrightarrow> oi_Size info \<le> maxBoundObjectBytes"
  shows "\<exists>fs. sm_sent sm' = sm_sent sm @ fs \<and> item_framed bound i fs"
proof -
  from assms(1) obtain v sm1 where h: "sendHeader i OUTCOME_OK (Some (toProtoInfo info)) sm = (Ok v, sm1)"
    by (auto split: prod.splits result.splits)
  from assms(1) h have "streamBody cls (oi_Size info) ManyData (Plain body) 0 sm1 = (None, sm')"
    by (auto split: prod.splits)
  from sized_body_framed [OF h this assms(2,3)] show ?thesis .
qed

lemma many_result_framed:
  assumes "many_result cl i bound res sm = (Ok u, sm')"
  shows "\<exists>fs. sm_sent sm' = sm_sent sm @ fs \<and> item_framed bound i fs"
proof (cases "bound \<and> oi_Size (gr_Info res) > maxBoundObjectBytes")
  case True
  then show ?thesis using assms sendHeader_framed [of i OUTCOME_TOO_LARGE sm u sm'] by (simp add: many_result_def)
next
  case small: False
  show ?thesis
  proof (cases "oi_Size (gr_Info res) \<le> 0")
    case False
    then show ?thesis using assms small
      by (intro sent_Ok_framed [where info = "gr_Info res" and cls = "classify cl" and body = "gr_Body res" and u = u])
        (auto simp: many_result_def Let_def)
  next
    case True
    obtain buf r where ra: "read_all (limit_reader (nat (maxBoundObjectBytes + 1)) (gr_Body res)) = (buf, r)"
      by fastforce
    show ?thesis
    proof (cases r)
      case (Some eg)
      then show ?thesis using assms small True ra by (cases eg) (simp add: many_result_def)
    next
      case None
      show ?thesis
      proof (cases "int (length buf) > maxBoundObjectBytes")
        case over: True
        then show ?thesis using assms small True ra None sendHeader_framed [of i OUTCOME_TOO_LARGE sm u sm']
          by (simp add: many_result_def)
      next
        case False
        let ?info = "(gr_Info res)\<lparr>oi_Size := int (length buf)\<rparr>"
        show ?thesis using assms small True ra None False
          by (intro sent_Ok_framed [where info = ?info and cls = "classify cl" and body = "bytes_reader buf" and u = u])
            (auto simp: many_result_def Let_def)
      qed
    qed
  qed
qed

lemma getManyItem_framed:
  assumes "getManyItem s c cl i item bound sm w = (Ok u, sm', w')"
  shows "\<exists>fs. sm_sent sm' = sm_sent sm @ fs \<and> item_framed bound i fs"
  using assms sendHeader_framed [of i OUTCOME_CHANGED sm u sm'] sendHeader_framed [of i OUTCOME_NOT_FOUND sm u sm']
    many_result_framed [of cl i bound _ sm u sm']
  by (auto simp: getManyItem_def split: result.splits prod.splits if_splits)

text \<open>A missing bucket ends the item with a status and sends nothing for it.\<close>

lemma getManyItem_no_bucket:
  assumes "be_Get (cl_Backend cl) (operation (server_now s) (cl_secrets cl) c) (gi_Key item)
      (get_options (gi_IfMatch item)) w = (Err e, w')" "errors_is e ErrBucketNotFound"
  shows "getManyItem s c cl i item bound sm w = (Err (toStatus (cerr s cl w' e)), sm, w')"
  using assms by (simp add: getManyItem_def)

lemma many_loop_framed:
  assumes "many_loop s c cl i items bound sm w = (Ok u, sm', w')"
  shows "\<exists>fss. sm_sent sm' = sm_sent sm @ concat fss \<and> length fss = length items \<and>
    (\<forall>k < length items. item_framed bound (i + int k) (fss ! k))"
  using assms
proof (induction items arbitrary: i sm w)
  case (Cons item items)
  obtain v sm1 w1 where it: "getManyItem s c cl i item bound sm w = (Ok v, sm1, w1)"
    and rest: "many_loop s c cl (i + 1) items bound sm1 w1 = (Ok u, sm', w')"
    using Cons.prems by (auto split: prod.splits result.splits)
  from getManyItem_framed [OF it] Cons.IH [OF rest] obtain fs fss where
    f: "sm_sent sm1 = sm_sent sm @ fs" "item_framed bound i fs"
       "sm_sent sm' = sm_sent sm1 @ concat fss" "length fss = length items"
       "\<forall>k < length items. item_framed bound (i + 1 + int k) (fss ! k)" by blast
  have "item_framed bound (i + int k) ((fs # fss) ! k)" if "k < length (item # items)" for k
    using that f(2,5) by (cases k) (auto simp: algebra_simps)
  then show ?case using f by (intro exI [of _ "fs # fss"]) auto
qed simp

section \<open>Properties over any backend\<close>

text \<open>C5: a GetMany that succeeds has framed every item, whatever the store answered and whether
  the call is bound or not: one header per item, in request order and with its index, an OK item
  followed by data that adds up to exactly the size its header declares (within the cap for a bound
  call), any other outcome by no data.\<close>

theorem GetMany_framed:
  assumes "server_GetMany s c req new_stream w = (Ok u, sm, w')"
  shows "length (gm_Items req) \<le> maxGetManyItems \<and>
    (\<exists>fss. sm_sent sm = concat fss \<and> length fss = length (gm_Items req) \<and>
       (\<forall>k < length (gm_Items req). item_framed (gm_Binding req \<noteq> None) (int k) (fss ! k)))"
proof -
  from assms obtain cl c1 w1 w2 where
    "many_loop s c1 cl 0 (gm_Items req) (gm_Binding req \<noteq> None) new_stream w1 = (Ok u, sm, w2)"
    "length (gm_Items req) \<le> maxGetManyItems"
    by (auto simp: server_GetMany_def Let_def split: if_splits result.splits prod.splits)
  from many_loop_framed [OF this(1)] this(2) show ?thesis by simp
qed

fun get_data_of :: "GetResponse \<Rightarrow> bytes" where
  "get_data_of (GetData d) = d" | "get_data_of (GetHdr h) = []"

lemma map_GetData [simp]: "map (get_data_of \<circ> GetData) cs = cs"
  by (induction cs) auto

lemma get_result_capped:
  assumes "gq_Binding req \<noteq> None" "get_result cl req res sm = (out, sm')" "sm_sent sm = []"
  shows "int (length (concat (map get_data_of (sm_sent sm')))) \<le> maxBoundObjectBytes"
proof -
  let ?h = "\<lambda>nm. GetHdr \<lparr>gh_Info = toProtoInfo (gr_Info res), gh_NotModified = nm\<rparr>"
  obtain e1 sm1 where s1: "Send (?h False) sm = (e1, sm1)" by fastforce
  obtain e2 sm2 where s2: "Send (?h True) sm = (e2, sm2)" by fastforce
  obtain e3 sm3 where st: "streamBody (classify cl) (- 1) GetData (Capped (gr_Body res) maxBoundObjectBytes) 0 sm1 = (e3, sm3)"
    by fastforce
  have hdr: "sm_sent sm1 = [] \<or> sm_sent sm1 = [?h False]" "sm_sent sm2 = [] \<or> sm_sent sm2 = [?h True]"
    using Send_cases s1 s2 assms(3) by (cases e1; cases e2; fastforce)+
  from streamBody_spec [OF st] hdr(1) have "int (length (concat (map get_data_of (sm_sent sm3)))) \<le> maxBoundObjectBytes"
    by (auto simp: maxBoundObjectBytes_def)
  moreover have "sm' \<in> {sm, sm1, sm2, sm3}"
    using assms(1,2) s1 s2 st by (auto simp: get_result_def split: if_splits option.splits)
  ultimately show ?thesis using hdr assms(3) by (auto simp: maxBoundObjectBytes_def)
qed

text \<open>C37: a bound Get never relays more than its cap, whatever size the store declares and
  however much it sends.\<close>

theorem bound_Get_capped:
  assumes "gq_Binding req \<noteq> None" "server_Get s c req new_stream w = (out, sm, w')"
  shows "int (length (concat (map get_data_of (sm_sent sm)))) \<le> maxBoundObjectBytes"
  using assms(2) get_result_capped [OF assms(1) _ new_stream_sent(1)]
  by (auto simp: server_Get_def Let_def maxBoundObjectBytes_def split: result.splits prod.splits)

text \<open>A bound List asks the store for at least one and at most a thousand entries, and a
  listing it returns has no more than it asked for.\<close>

theorem bound_List_capped:
  assumes "lq_Binding req \<noteq> None"
  shows "0 < list_limit_of req \<and> list_limit_of req \<le> maxBoundListLimit \<and>
    (case fst (server_List s c req w) of
       Ok res \<Rightarrow> int (length (pl_Objects res) + length (pl_CommonPrefixes res)) \<le> list_limit_of req
     | _ \<Rightarrow> True)"
  using assms
  by (auto simp: list_limit_of_def maxBoundListLimit_def server_List_def Let_def split: result.splits prod.splits if_splits)

section \<open>What a reader gets from a store that meets the contract\<close>

definition unbound_call :: "'w Server \<Rightarrow> 'w call" where
  "unbound_call s = \<lparr>cl_Backend = sv_be s, cl_secrets = None, cl_guarded = False\<rparr>"

lemma backendFor_None [simp]: "backendFor s c None w = (Ok (unbound_call s), w)"
  by (simp add: backendFor_def unbound_call_def)

lemma boundCall_None [simp]: "boundCall now c None budget = c"
  by (simp add: boundCall_def)

lemma unbound_call_simps [simp]:
  "cl_Backend (unbound_call s) = sv_be s" "cl_secrets (unbound_call s) = None"
  "operation now None c = c" "Release (unbound_call s) w = w"
  by (simp_all add: unbound_call_def operation_def Release_def)

lemma Send_works: "sm_fail sm = (\<lambda>_. None) \<Longrightarrow> Send m sm = (None, sm\<lparr>sm_sent := sm_sent sm @ [m]\<rparr>)"
  by (simp add: Send_def)

lemma sendHeader_works:
  "sm_fail sm = (\<lambda>_. None) \<Longrightarrow> sendHeader i oc info sm =
     (Ok (), sm\<lparr>sm_sent := sm_sent sm @ [ManyHdr \<lparr>mh_Index = i, mh_Outcome = oc, mh_Info = info\<rparr>]\<rparr>)"
  by (simp add: sendHeader_def Send_works send_outcome_def outcome_def)

text \<open>The frames an item is owed by the contents and ETags of a store.\<close>

definition item_delivers :: "(string \<Rightarrow> (bytes \<times> string) option) \<Rightarrow> int \<Rightarrow> GetManyItem \<Rightarrow> GetManyResponse list \<Rightarrow> bool" where
  "item_delivers content i item fs = (case content (gi_Key item) of
      None \<Rightarrow> fs = [ManyHdr \<lparr>mh_Index = i, mh_Outcome = OUTCOME_NOT_FOUND, mh_Info = None\<rparr>]
    | Some (d, tag) \<Rightarrow>
       (if gi_IfMatch item \<noteq> [] \<and> gi_IfMatch item \<noteq> tag
        then fs = [ManyHdr \<lparr>mh_Index = i, mh_Outcome = OUTCOME_CHANGED, mh_Info = None\<rparr>]
        else (\<exists>info cs. fs = ManyHdr \<lparr>mh_Index = i, mh_Outcome = OUTCOME_OK, mh_Info = Some info\<rparr> # map ManyData cs
                \<and> concat cs = d \<and> chunks_ok cs \<and> pi_Key info = gi_Key item \<and> pi_Etag info = tag
                \<and> pi_Size info = int (length d))))"

lemma streamBody_whole:
  assumes "read_all r = (d, None)" "sm_fail sm = (\<lambda>_. None)" "expect < 0 \<or> expect = int (length d)"
  obtains cs sm' where "streamBody cls expect frame (Plain r) 0 sm = (None, sm')"
    "sm_sent sm' = sm_sent sm @ map frame cs" "concat cs = d" "chunks_ok cs" "sm_fail sm' = (\<lambda>_. None)"
proof -
  obtain e sm' where s: "streamBody cls expect frame (Plain r) 0 sm = (e, sm')" by fastforce
  have "e = None" using streamBody_complete [of "Plain r" sm expect 0 cls frame] s assms
    by (auto simp: body_data_def)
  with s streamBody_spec [OF s] assms that show thesis by (fastforce simp: body_data_def)
qed

lemma info_same: "oi_Size i = n \<Longrightarrow> i\<lparr>oi_Size := n\<rparr> = i"
  by (cases i) simp

lemma many_result_unbound:
  assumes "read_all (gr_Body res) = (d, None)" "sm_fail sm = (\<lambda>_. None)"
    "oi_Size (gr_Info res) = int (length d)"
  shows "\<exists>sm' cs. many_result cl i False res sm = (Ok (), sm') \<and> sm_fail sm' = (\<lambda>_. None) \<and>
    sm_sent sm' = sm_sent sm @ ManyHdr \<lparr>mh_Index = i, mh_Outcome = OUTCOME_OK, mh_Info = Some (toProtoInfo (gr_Info res))\<rparr> # map ManyData cs
    \<and> concat cs = d \<and> chunks_ok cs"
proof -
  let ?sm1 = "sm\<lparr>sm_sent := sm_sent sm @ [ManyHdr \<lparr>mh_Index = i, mh_Outcome = OUTCOME_OK, mh_Info = Some (toProtoInfo (gr_Info res))\<rparr>]\<rparr>"
  define r where "r = (if d = [] then bytes_reader d else gr_Body res)"
  have r: "read_all r = (d, None)" using assms(1) by (simp add: r_def)
  have f: "sm_fail ?sm1 = (\<lambda>_. None)" using assms(2) by simp
  obtain cs sm' where s: "streamBody (classify cl) (int (length d)) ManyData (Plain r) 0 ?sm1 = (None, sm')"
    "sm_sent sm' = sm_sent ?sm1 @ map ManyData cs" "concat cs = d" "chunks_ok cs" "sm_fail sm' = (\<lambda>_. None)"
    using streamBody_whole [OF r f] by blast
  have "many_result cl i False res sm = (Ok (), sm')"
  proof (cases "d = []")
    case True
    then have "read_all (limit_reader (nat (maxBoundObjectBytes + 1)) (gr_Body res)) = ([], None)"
      using assms(1) read_all_limit_within [of "gr_Body res"] by (simp add: maxBoundObjectBytes_def)
    with True s(1) assms show ?thesis
      by (simp add: many_result_def info_same maxBoundObjectBytes_def sendHeader_works r_def outcome_def)
  next
    case False
    with s(1) assms show ?thesis
      by (simp add: many_result_def sendHeader_works r_def outcome_def)
  qed
  with s show ?thesis by auto
qed

context plain_store
begin

lemma get_answered:
  assumes "inv w" "view w k = Some (d, tag)" "im \<noteq> []" "im \<noteq> tag"
    and "strict_store be view inv \<or> clear_condition (view w) k im"
  shows "\<exists>e w'. be_Get be c k (get_options im) w = (Err e, w') \<and> CodeOf e = PreconditionFailed
    \<and> \<not> errors_is e ErrBucketNotFound \<and> view w' = view w \<and> inv w'"
  using assms(5)
proof
  assume "strict_store be view inv"
  from strict_store.get_mismatch [OF this assms(1-4)] show ?thesis .
next
  assume "clear_condition (view w) k im"
  then have "differ im tag" using assms by (simp add: clear_condition_def)
  from get_changed [OF assms(1,2) this] show ?thesis .
qed

lemma item_contract:
  assumes "sv_be s = be" "inv w" "sm_fail sm = (\<lambda>_. None)"
    and "strict_store be view inv \<or> clear_condition (view w) (gi_Key item) (gi_IfMatch item)"
  shows "\<exists>sm' w' fs. getManyItem s c (unbound_call s) i item False sm w = (Ok (), sm', w') \<and>
    sm_sent sm' = sm_sent sm @ fs \<and> sm_fail sm' = (\<lambda>_. None) \<and> view w' = view w \<and> inv w' \<and>
    item_delivers (view w) i item fs"
proof (cases "view w (gi_Key item)")
  case None
  from get_missing [OF assms(2) None, of c "gi_IfMatch item"] show ?thesis using assms None
    by (auto simp: getManyItem_def sendHeader_works item_delivers_def)
next
  case (Some dt)
  obtain d tag where dt: "view w (gi_Key item) = Some (d, tag)" using Some by (cases dt) auto
  show ?thesis
  proof (cases "gi_IfMatch item \<noteq> [] \<and> gi_IfMatch item \<noteq> tag")
    case True
    then show ?thesis using get_answered [OF assms(2) dt _ _ assms(4), of c] assms dt
      by (auto simp: getManyItem_def sendHeader_works item_delivers_def)
  next
    case False
    then obtain res w' where g: "be_Get be c (gi_Key item) (get_options (gi_IfMatch item)) w = (Ok res, w')"
      "read_all (gr_Body res) = (d, None)" "oi_Key (gr_Info res) = gi_Key item" "oi_ETag (gr_Info res) = tag"
      "oi_Size (gr_Info res) = int (length d)" "view w' = view w" "inv w'"
      using get_found [OF assms(2) dt, of "gi_IfMatch item" c] by blast
    from many_result_unbound [OF g(2) assms(3) g(5), of "unbound_call s" i] g False dt assms(1)
    show ?thesis by (fastforce simp: getManyItem_def item_delivers_def toProtoInfo_def)
  qed
qed

lemma many_loop_contract:
  assumes "sv_be s = be" "inv w" "sm_fail sm = (\<lambda>_. None)"
    and "strict_store be view inv \<or> (\<forall>item \<in> set items. clear_condition (view w) (gi_Key item) (gi_IfMatch item))"
  shows "\<exists>sm' w' fss. many_loop s c (unbound_call s) i items False sm w = (Ok (), sm', w') \<and>
    sm_sent sm' = sm_sent sm @ concat fss \<and> view w' = view w \<and> inv w' \<and> length fss = length items \<and>
    (\<forall>k < length items. item_delivers (view w) (i + int k) (items ! k) (fss ! k))"
  using assms(2-)
proof (induction items arbitrary: i sm w)
  case (Cons item items)
  have here: "strict_store be view inv \<or> clear_condition (view w) (gi_Key item) (gi_IfMatch item)"
    using Cons.prems(3) by auto
  obtain sm1 w1 fs where it: "getManyItem s c (unbound_call s) i item False sm w = (Ok (), sm1, w1)"
    "sm_sent sm1 = sm_sent sm @ fs" "sm_fail sm1 = (\<lambda>_. None)" "view w1 = view w" "inv w1"
    "item_delivers (view w) i item fs"
    using item_contract [OF assms(1) Cons.prems(1,2) here, of c i] by blast
  have there: "strict_store be view inv \<or> (\<forall>item \<in> set items. clear_condition (view w1) (gi_Key item) (gi_IfMatch item))"
    using Cons.prems(3) it(4) by auto
  obtain sm2 w2 fss where rest: "many_loop s c (unbound_call s) (i + 1) items False sm1 w1 = (Ok (), sm2, w2)"
    "sm_sent sm2 = sm_sent sm1 @ concat fss" "view w2 = view w1" "inv w2" "length fss = length items"
    "\<forall>k < length items. item_delivers (view w1) (i + 1 + int k) (items ! k) (fss ! k)"
    using Cons.IH [OF it(5,3) there] by blast
  have "item_delivers (view w) (i + int k) ((item # items) ! k) ((fs # fss) ! k)" if "k < length (item # items)" for k
    using that it(4,6) rest(6) by (cases k) (auto simp: algebra_simps)
  with it rest show ?case by (intro exI [of _ sm2] exI [of _ w2] exI [of _ "fs # fss"]) auto
qed simp

lemma GetMany_contract:
  assumes "sv_be s = be" "inv w" "gm_Binding req = None" "length (gm_Items req) \<le> maxGetManyItems"
    and "strict_store be view inv \<or> (\<forall>item \<in> set (gm_Items req). clear_condition (view w) (gi_Key item) (gi_IfMatch item))"
  shows "\<exists>sm w' fss. server_GetMany s c req new_stream w = (Ok (), sm, w') \<and>
    sm_sent sm = concat fss \<and> view w' = view w \<and> length fss = length (gm_Items req) \<and>
    (\<forall>k < length (gm_Items req). item_delivers (view w) (int k) (gm_Items req ! k) (fss ! k))"
  using many_loop_contract [OF assms(1,2) _ assms(5), of new_stream c 0] assms(3,4)
  by (auto simp: server_GetMany_def)

end

section \<open>Properties of reads\<close>

text \<open>A bound call that finds nothing, on the empty in-memory store, for the witnesses.\<close>

definition empty_mem :: MemState where
  "empty_mem = mem_New zero_config 0"

definition bound_many :: GetManyRequest where
  "bound_many = \<lparr>gm_Items = [\<lparr>gi_Key = ''k'', gi_IfMatch = []\<rparr>], gm_Binding = Some sample_binding\<rparr>"

definition bound_get :: GetRequest where
  "bound_get = \<lparr>gq_Key = ''k'', gq_VersionId = [], gq_Range = None, gq_IfNoneMatch = [], gq_IfMatch = [],
     gq_IfModifiedSinceUnixMs = 0, gq_Binding = Some sample_binding\<rparr>"

definition bound_list :: ListRequest where
  "bound_list = \<lparr>lq_Prefix = [], lq_Delimiter = [], lq_PageToken = [], lq_Limit = 5000, lq_Binding = Some sample_binding\<rparr>"

lemma sample_get_missing:
  "be_Get (prefixed (mem_backend sha256 b) p) c k opts empty_mem = (Err (New NotFound ''get'' (p @ k)), empty_mem)"
  by (simp add: prefixed_def mem_backend_def mem_Get_def mem_New_def px_key_def empty_mem_def)

lemma sample_close: "be_Close (prefixed (mem_backend sha256 b) p) w = (None, w)"
  by (simp add: prefixed_def mem_backend_def mem_Close_def)

lemma sample_many:
  "server_GetMany sample_server background bound_many new_stream empty_mem =
    (Ok (), new_stream\<lparr>sm_sent := [ManyHdr \<lparr>mh_Index = 0, mh_Outcome = OUTCOME_NOT_FOUND, mh_Info = None\<rparr>]\<rparr>, empty_mem)"
  by (simp add: server_GetMany_def bound_many_def maxGetManyItems_def sample_backendFor getManyItem_def
      sample_get_missing sendHeader_works Release_def sample_close)

lemma GetMany_framed_witness:
  "\<exists>fss. [ManyHdr \<lparr>mh_Index = 0, mh_Outcome = OUTCOME_NOT_FOUND, mh_Info = None\<rparr>] = concat fss \<and>
     length fss = 1 \<and> item_framed True 0 (fss ! 0)"
  using GetMany_framed [OF sample_many] by (simp add: bound_many_def)

lemma bound_Get_capped_witness:
  "\<exists>out sm w'. server_Get sample_server background bound_get new_stream empty_mem = (out, sm, w') \<and>
     int (length (concat (map get_data_of (sm_sent sm)))) \<le> maxBoundObjectBytes"
proof -
  obtain out sm w' where g: "server_Get sample_server background bound_get new_stream empty_mem = (out, sm, w')"
    by (metis prod_cases3)
  have "gq_Binding bound_get \<noteq> None" by (simp add: bound_get_def)
  from bound_Get_capped [OF this g] g show ?thesis by blast
qed

lemma bound_List_capped_witness: "list_limit_of bound_list = maxBoundListLimit \<and> 0 < list_limit_of bound_list"
proof -
  have "lq_Binding bound_list \<noteq> None" by (simp add: bound_list_def)
  from bound_List_capped [OF this, of sample_server background empty_mem] show ?thesis
    by (simp add: list_limit_of_def bound_list_def maxBoundListLimit_def)
qed

text \<open>When the store answers an item that its bucket does not exist, GetMany sends nothing for
  that item and ends with the status of that error, for a bound and an unbound call alike: a
  missing bucket never reads as a missing object. The items before it are delivered.\<close>

theorem GetMany_missing_bucket:
  assumes "gm_Items req = before @ item # after" "length (gm_Items req) \<le> maxGetManyItems"
    and "c = boundCall (server_now s) c0 (gm_Binding req) boundBatchTimeout"
    and "backendFor s c (gm_Binding req) w0 = (Ok cl, w1)"
    and "many_loop s c cl 0 before (gm_Binding req \<noteq> None) sm0 w1 = (Ok u, sm, w2)"
    and "be_Get (cl_Backend cl) (operation (server_now s) (cl_secrets cl) c) (gi_Key item)
        (get_options (gi_IfMatch item)) w2 = (Err e, w3)" "errors_is e ErrBucketNotFound"
  shows "server_GetMany s c0 req sm0 w0 = (Err (toStatus (cerr s cl w3 e)), sm, Release cl w3)"
proof -
  have step: "many_loop s c cl i (before @ item # after) bound sm0 w1 = (Err (toStatus (cerr s cl w3 e)), sm, w3)"
    if "many_loop s c cl i before bound sm0 w1 = (Ok u, sm, w2)" for i bound sm0 w1
    using that
  proof (induction before arbitrary: i sm0 w1)
    case Nil
    then show ?case using getManyItem_no_bucket [OF assms(6,7)] by simp
  next
    case (Cons x xs)
    then show ?case by (auto split: prod.splits result.splits)
  qed
  from step [OF assms(5)] assms(1-4) show ?thesis by (simp add: server_GetMany_def)
qed

definition no_bucket_backend :: "MemState Backend" where
  "no_bucket_backend = (mem_backend (\<lambda>d. []) ''gone'')\<lparr>be_Get := (\<lambda>c k opts w. (Err (BucketNotFound ''get'' (Msg ''gone'')), w))\<rparr>"

lemma GetMany_missing_bucket_witness:
  "\<exists>e. server_GetMany (sample_server\<lparr>sv_be := no_bucket_backend\<rparr>) background
      \<lparr>gm_Items = [\<lparr>gi_Key = ''k'', gi_IfMatch = []\<rparr>], gm_Binding = None\<rparr> new_stream empty_mem =
      (Err e, new_stream, empty_mem) \<and> rpc_reason e = ReasonBucketNotFound"
proof -
  let ?s = "sample_server\<lparr>sv_be := no_bucket_backend\<rparr>"
  let ?req = "\<lparr>gm_Items = [\<lparr>gi_Key = ''k'', gi_IfMatch = []\<rparr>], gm_Binding = None\<rparr>"
  let ?e = "BucketNotFound ''get'' (Msg ''gone'')"
  have i: "gm_Items ?req = [] @ \<lparr>gi_Key = ''k'', gi_IfMatch = []\<rparr> # []" "length (gm_Items ?req) \<le> maxGetManyItems"
    by (simp_all add: maxGetManyItems_def)
  have b: "backendFor ?s background (gm_Binding ?req) empty_mem = (Ok (unbound_call ?s), empty_mem)" by simp
  have l: "many_loop ?s background (unbound_call ?s) 0 [] (gm_Binding ?req \<noteq> None) new_stream empty_mem = (Ok (), new_stream, empty_mem)"
    by simp
  have g: "be_Get (cl_Backend (unbound_call ?s)) (operation (server_now ?s) (cl_secrets (unbound_call ?s)) background) (gi_Key \<lparr>gi_Key = ''k'', gi_IfMatch = []\<rparr>)
      (get_options (gi_IfMatch \<lparr>gi_Key = ''k'', gi_IfMatch = []\<rparr>)) empty_mem = (Err ?e, empty_mem)"
    by (simp add: no_bucket_backend_def)
  have c: "background = boundCall (server_now ?s) background (gm_Binding ?req) boundBatchTimeout" by simp
  from GetMany_missing_bucket [OF i c b l g] show ?thesis
    by (simp add: cerr_def)
qed



end
