(* ===== verification/Delivery.thy ===== *)
theory Delivery
  imports Reads
begin

text \<open>
  The write path and Watch over a store that meets the contract and a hub in any reachable
  state: a write that is reported is stored and published once, one that is refused changes
  and publishes nothing, what was put is what Get streams back, and a watcher is sent the
  matching events in order without a gap.
\<close>

section \<open>Put\<close>

definition upload :: "PutHeader \<Rightarrow> bytes list \<Rightarrow> (goerr + PutRequest) list" where
  "upload h ds = Inr (PutHdr h) # map (\<lambda>d. Inr (PutData d)) ds"

lemma put_pump_data: "read_all (put_pump (map (\<lambda>d. Inr (PutData d)) ds)) = (concat ds, None)"
  by (induction ds) auto

lemma put_pump_broken:
  "\<exists>g. read_all (put_pump (map (\<lambda>d. Inr (PutData d)) ds @ Inl e # ms)) = (concat ds, Some (e, g))"
  by (induction ds) auto

text \<open>The conditions of a Put: unconditional, create-if-absent, or compare-and-swap on an ETag.\<close>

definition put_allowed :: "(string \<Rightarrow> (bytes \<times> string) option) \<Rightarrow> PutHeader \<Rightarrow> bool" where
  "put_allowed content h \<longleftrightarrow>
     (if ph_IfMatch h = [] then ph_IfNoneMatch h = [] \<or> ph_IfNoneMatch h = ''*'' \<and> content (ph_Key h) = None
      else ph_IfNoneMatch h = [] \<and> (case content (ph_Key h) of Some (old, tag) \<Rightarrow> tag = ph_IfMatch h | None \<Rightarrow> False))"

definition put_refused :: "(string \<Rightarrow> (bytes \<times> string) option) \<Rightarrow> PutHeader \<Rightarrow> bool" where
  "put_refused content h \<longleftrightarrow>
     ph_IfNoneMatch h = ''*'' \<and> content (ph_Key h) \<noteq> None \<or>
     ph_IfNoneMatch h = [] \<and> ph_IfMatch h \<noteq> [] \<and>
       (case content (ph_Key h) of Some (old, tag) \<Rightarrow> tag \<noteq> ph_IfMatch h | None \<Rightarrow> True)"

text \<open>The refusals every plain store agrees on, whatever it takes for equal ETags.\<close>

definition put_rejected :: "(string \<Rightarrow> (bytes \<times> string) option) \<Rightarrow> PutHeader \<Rightarrow> bool" where
  "put_rejected content h \<longleftrightarrow> (case content (ph_Key h) of
     None \<Rightarrow> False
   | Some (old, tag) \<Rightarrow> ph_IfNoneMatch h = ''*'' \<and> ph_IfMatch h = [] \<or>
       ph_IfNoneMatch h = [] \<and> differ (ph_IfMatch h) tag)"

definition plain_get :: "string \<Rightarrow> string \<Rightarrow> GetRequest" where
  "plain_get k im = \<lparr>gq_Key = k, gq_VersionId = [], gq_Range = None, gq_IfNoneMatch = [], gq_IfMatch = im,
     gq_IfModifiedSinceUnixMs = 0, gq_Binding = None\<rparr>"

lemma plain_get_options [simp]: "toBackendGetOptions (plain_get k im) = get_options im"
  by (simp add: toBackendGetOptions_def plain_get_def get_options_def fromUnixMS_def)

lemma plain_get_simps [simp]: "gq_Binding (plain_get k im) = None" "gq_Key (plain_get k im) = k"
  by (simp_all add: plain_get_def)

lemma get_result_unbound:
  assumes "\<not> gr_NotModified res" "read_all (gr_Body res) = (d, None)" "gq_Binding req = None"
  shows "\<exists>sm cs. get_result cl req res new_stream = (Ok (), sm) \<and> concat cs = d \<and> chunks_ok cs \<and>
    sm_sent sm = GetHdr \<lparr>gh_Info = toProtoInfo (gr_Info res), gh_NotModified = False\<rparr> # map GetData cs"
proof -
  let ?sm1 = "new_stream\<lparr>sm_sent := [GetHdr \<lparr>gh_Info = toProtoInfo (gr_Info res), gh_NotModified = False\<rparr>]\<rparr>"
  have f: "sm_fail ?sm1 = (\<lambda>_. None)" "(-1 :: int) < 0 \<or> - 1 = int (length d)" by simp_all
  obtain cs sm' where s: "streamBody (classify cl) (- 1) GetData (Plain (gr_Body res)) 0 ?sm1 = (None, sm')"
    "sm_sent sm' = sm_sent ?sm1 @ map GetData cs" "concat cs = d" "chunks_ok cs"
    using streamBody_whole [OF assms(2) f] by blast
  have "get_result cl req res new_stream = (Ok (), sm')"
    using assms s(1) by (simp add: get_result_def Send_works outcome_def)
  with s show ?thesis by auto
qed

context plain_store
begin

lemma Get_contract:
  assumes "sv_be s = be" "inv w" "view w k = Some (d, tag)" "im = [] \<or> im = tag"
  shows "\<exists>sm w' info cs. server_Get s c (plain_get k im) new_stream w = (Ok (), sm, w') \<and>
    sm_sent sm = GetHdr \<lparr>gh_Info = info, gh_NotModified = False\<rparr> # map GetData cs \<and> concat cs = d \<and> chunks_ok cs \<and>
    pi_Key info = k \<and> pi_Etag info = tag \<and> pi_Size info = int (length d) \<and> view w' = view w \<and> inv w'"
proof -
  obtain res w' where g: "be_Get be c k (get_options im) w = (Ok res, w')" "\<not> gr_NotModified res"
      "read_all (gr_Body res) = (d, None)" "oi_Key (gr_Info res) = k" "oi_ETag (gr_Info res) = tag"
      "oi_Size (gr_Info res) = int (length d)" "view w' = view w" "inv w'"
    using get_found [OF assms(2,3,4), of c] by blast
  obtain sm cs where "get_result (unbound_call s) (plain_get k im) res new_stream = (Ok (), sm)"
    "concat cs = d" "chunks_ok cs"
    "sm_sent sm = GetHdr \<lparr>gh_Info = toProtoInfo (gr_Info res), gh_NotModified = False\<rparr> # map GetData cs"
    using get_result_unbound [OF g(2,3), of "plain_get k im" "unbound_call s"] by auto
  with g assms(1) show ?thesis by (auto simp: server_Get_def toProtoInfo_def)
qed

lemma Put_stored:
  assumes "sv_be s = be" "inv w" "put_allowed (view w) h"
  shows "\<exists>res w'. be_Put be c (ph_Key h) (put_pump (map (\<lambda>d. Inr (PutData d)) ds)) (put_options h) w = (Ok res, w') \<and>
    inv w' \<and> view w' = (view w)(ph_Key h := Some (concat ds, pr_ETag res))"
proof (cases "ph_IfMatch h = []")
  case True
  with assms(3) have "po_IfMatch (put_options h) = []"
    "po_IfNoneMatch (put_options h) = [] \<or> po_IfNoneMatch (put_options h) = ''*'' \<and> view w (ph_Key h) = None"
    by (auto simp: put_allowed_def put_options_def)
  from put_stored [OF assms(2) put_pump_data this, of c] show ?thesis by blast
next
  case False
  with assms(3) obtain old where "po_IfNoneMatch (put_options h) = []" "po_IfMatch (put_options h) = ph_IfMatch h"
    "view w (ph_Key h) = Some (old, ph_IfMatch h)"
    by (auto simp: put_allowed_def put_options_def split: option.splits)
  from put_swapped [OF assms(2) put_pump_data this, of c] show ?thesis by blast
qed

lemma Put_rejected:
  assumes "sv_be s = be" "inv w" "put_rejected (view w) h"
  shows "\<exists>e w'. server_Put s c now (upload h ds) reply hub w = (Err e, hub, w') \<and> view w' = view w \<and> inv w' \<and>
    rpc_code e = Some (if ph_IfNoneMatch h = ''*'' then C_AlreadyExists else C_FailedPrecondition)"
proof -
  obtain old tag where v: "view w (ph_Key h) = Some (old, tag)"
    "ph_IfNoneMatch h = ''*'' \<and> ph_IfMatch h = [] \<or> ph_IfNoneMatch h = [] \<and> differ (ph_IfMatch h) tag"
    using assms(3) by (auto simp: put_rejected_def split: option.splits)
  let ?r = "put_pump (map (\<lambda>d. Inr (PutData d)) ds)" and ?k = "ph_Key h"
  obtain e w' where "be_Put be c ?k ?r (put_options h) w = (Err e, w')" "view w' = view w" "inv w'"
    "CodeOf e = (if ph_IfNoneMatch h = ''*'' then AlreadyExists else PreconditionFailed)"
    using v(2)
  proof (elim disjE conjE)
    assume n: "ph_IfNoneMatch h = ''*''" "ph_IfMatch h = []"
    then have o: "po_IfNoneMatch (put_options h) = ''*''" "view w ?k \<noteq> None" "po_IfMatch (put_options h) = []"
      using v(1) by (simp_all add: put_options_def)
    from put_exists [OF assms(2) put_pump_data o, of c] n(1) that show thesis by fastforce
  next
    assume n: "ph_IfNoneMatch h = []" "differ (ph_IfMatch h) tag"
    then have o: "po_IfNoneMatch (put_options h) = []" "po_IfMatch (put_options h) = ph_IfMatch h"
      by (simp_all add: put_options_def)
    from put_stale [OF assms(2) put_pump_data o v(1) n(2), of c] n(1) that show thesis by fastforce
  qed
  then show ?thesis using assms(1) by (auto simp: server_Put_def upload_def)
qed

lemma Put_contract:
  assumes "sv_be s = be" "inv w" "put_allowed (view w) h" "hub_reachable sys"
  shows "\<exists>res hub' w'. server_Put s c now (upload h ds) None (sys_hub sys) w = (Ok res, hub', w') \<and>
    Publish now (event (ph_Key h) OpPut (pp_Etag res) (pp_VersionId res)) (sys_hub sys) = Some hub' \<and>
    inv w' \<and> view w' = (view w)(ph_Key h := Some (concat ds, pp_Etag res))"
proof -
  obtain res w' where p: "be_Put be c (ph_Key h) (put_pump (map (\<lambda>d. Inr (PutData d)) ds)) (put_options h) w = (Ok res, w')"
    "inv w'" "view w' = (view w)(ph_Key h := Some (concat ds, pr_ETag res))"
    using Put_stored [OF assms(1,2,3)] by blast
  obtain hub' where "Publish now (event (ph_Key h) OpPut (pr_ETag res) (pr_VersionID res)) (sys_hub sys) = Some hub'"
    using Publish_ok [OF hub_reachable_inv [OF assms(4)]] by blast
  with p assms(1) show ?thesis by (auto simp: server_Put_def upload_def)
qed

end

context object_store
begin

lemma Put_broken:
  assumes "sv_be s = be" "inv w"
  shows "\<exists>e w'. server_Put s c now (upload h ds @ Inl err # ms) reply hub w = (Err e, hub, w') \<and> view w' = view w \<and> inv w'"
proof -
  obtain g where "read_all (put_pump (map (\<lambda>d. Inr (PutData d)) ds @ Inl err # ms)) = (concat ds, Some (err, g))"
    using put_pump_broken by blast
  from put_broken [OF assms(2) this, of c "ph_Key h" "put_options h"] show ?thesis using assms(1)
    by (fastforce simp: server_Put_def upload_def)
qed

end

context strict_store
begin

lemma Put_refused:
  assumes "sv_be s = be" "inv w" "put_refused (view w) h"
  shows "\<exists>e w'. server_Put s c now (upload h ds) reply hub w = (Err e, hub, w') \<and> view w' = view w \<and> inv w' \<and>
    rpc_code e = Some (if ph_IfNoneMatch h = ''*'' then C_AlreadyExists else C_FailedPrecondition)"
proof (cases "ph_IfNoneMatch h = ''*''")
  case True
  with assms(3) have n: "po_IfNoneMatch (put_options h) = ''*''" "view w (ph_Key h) \<noteq> None"
    by (auto simp: put_refused_def put_options_def)
  obtain e w' where "be_Put be c (ph_Key h) (put_pump (map (\<lambda>d. Inr (PutData d)) ds)) (put_options h) w = (Err e, w')"
    "CodeOf e = AlreadyExists" "view w' = view w" "inv w'"
    using put_present [OF assms(2) put_pump_data n] by blast
  then show ?thesis using assms(1) True by (simp add: server_Put_def upload_def)
next
  case False
  with assms(3) have n: "po_IfNoneMatch (put_options h) = []" "po_IfMatch (put_options h) = ph_IfMatch h"
    "ph_IfMatch h \<noteq> []" "\<forall>old. view w (ph_Key h) \<noteq> Some (old, ph_IfMatch h)"
    by (auto simp: put_refused_def put_options_def split: option.splits)
  obtain e w' where "be_Put be c (ph_Key h) (put_pump (map (\<lambda>d. Inr (PutData d)) ds)) (put_options h) w = (Err e, w')"
    "CodeOf e = PreconditionFailed" "view w' = view w" "inv w'"
    using put_mismatch [OF assms(2) put_pump_data n] by blast
  then show ?thesis using assms(1) False by (simp add: server_Put_def upload_def)
qed

lemma Delete_contract:
  assumes "sv_be s = be" "inv w" "hub_reachable sys" "dq_IfMatch req = []"
  shows "\<exists>hub' w'. server_Delete s c now req (sys_hub sys) w = (Ok (), hub', w') \<and>
    Publish now (event (dq_Key req) OpDelete [] (dq_VersionId req)) (sys_hub sys) = Some hub' \<and>
    view w' = (view w)(dq_Key req := None) \<and> inv w'"
proof -
  obtain hub' where "Publish now (event (dq_Key req) OpDelete [] (dq_VersionId req)) (sys_hub sys) = Some hub'"
    using Publish_ok [OF hub_reachable_inv [OF assms(3)]] by blast
  with delete_all [OF assms(2), of "\<lparr>do_VersionID = dq_VersionId req, do_IfMatch = dq_IfMatch req\<rparr>" c "dq_Key req"] assms(1,4)
  show ?thesis by (fastforce simp: server_Delete_def)
qed

lemma Delete_stale:
  assumes "sv_be s = be" "inv w" "dq_IfMatch req \<noteq> []" "\<forall>old. view w (dq_Key req) \<noteq> Some (old, dq_IfMatch req)"
  shows "\<exists>e w'. server_Delete s c now req hub w = (Err e, hub, w') \<and> rpc_code e = Some C_FailedPrecondition \<and>
    view w' = view w \<and> inv w'"
  using delete_mismatch [OF assms(2), of "\<lparr>do_VersionID = dq_VersionId req, do_IfMatch = dq_IfMatch req\<rparr>" _ "dq_Key req" c] assms
  by (fastforce simp: server_Delete_def)

end

section \<open>Watch\<close>

text \<open>A subscription, once it has its number, only ever ends.\<close>

definition ages :: "nat \<Rightarrow> Hub \<Rightarrow> Hub \<Rightarrow> bool" where
  "ages i h h' \<longleftrightarrow> hub_nextID h \<le> hub_nextID h' \<and>
     (i < hub_nextID h \<longrightarrow> map_of (hub_subs h') i = None \<or> map_of (hub_subs h') i = map_of (hub_subs h) i)"

lemma ages_refl [simp]: "ages i h h"
  by (simp add: ages_def)

lemma ages_trans: "ages i h h1 \<Longrightarrow> ages i h1 h2 \<Longrightarrow> ages i h h2"
  by (auto simp: ages_def)

lemma drop_sub_ages: "drop_sub j h = Some h' \<Longrightarrow> ages i h h'"
  by (auto simp: drop_sub_def ages_def delete_conv' split: option.splits if_splits)

lemma offer_ages: "offer e j h = Some h' \<Longrightarrow> ages i h h'"
  by (auto simp: offer_def ages_def split: option.splits if_splits dest: drop_sub_ages [of _ _ _ i, unfolded ages_def])

lemma dispatch_loop_ages: "dispatch_loop e subs h = Some h' \<Longrightarrow> ages i h h'"
proof (induction e subs h rule: dispatch_loop.induct)
  case (2 e j q subs h)
  then show ?case by (auto split: if_splits option.splits intro: ages_trans [OF offer_ages])
qed simp

lemma close_loop_ages: "close_loop subs h = Some h' \<Longrightarrow> ages i h h'"
proof (induction subs h rule: close_loop.induct)
  case (2 j q subs h)
  then show ?case by (auto split: option.splits intro: ages_trans [OF drop_sub_ages])
qed simp

lemma hub_do_ages: "hub_do act h = Some h' \<Longrightarrow> ages i h h'"
proof (cases act)
  case ActCloseHub
  have "ages i h (h\<lparr>hub_closed := True\<rparr>)" by (simp add: ages_def)
  moreover assume "hub_do act h = Some h'"
  ultimately show ?thesis using ActCloseHub by (auto simp: Hub_Close_def split: if_splits intro: ages_trans dest: close_loop_ages [of _ _ _ i])
qed (auto simp: Publish_def dispatch_def dispatch_loop_ages Subscription_Close_def Subscribe_def Let_def ages_def
    update_conv' split: if_splits dest: dispatch_loop_ages [of _ _ _ _ i, unfolded ages_def] drop_sub_ages [of _ _ _ i, unfolded ages_def])

text \<open>What a Watch on the prefix \<open>p\<close> owes its caller: of the events published while
  it runs, those whose key has the prefix, with the time the hub stamped them with.\<close>

definition acts_due :: "string \<Rightarrow> (watch_turn + hub_act) list \<Rightarrow> Event list" where
  "acts_due p ms = concat (map (\<lambda>m. case m of
     Inr (ActPublish now e) \<Rightarrow> (if has_prefix (ev_Key e) p then [stamp now e] else []) | _ \<Rightarrow> []) ms)"

definition published :: "string \<Rightarrow> (watch_turn + hub_act) list \<Rightarrow> WriteEvent list" where
  "published p ms = map toProtoEvent (acts_due p ms)"

lemma acts_due_simps [simp]:
  "acts_due p [] = []" "acts_due p (xs @ ys) = acts_due p xs @ acts_due p ys" "acts_due p [Inl turn] = []"
  by (simp_all add: acts_due_def)

lemma stamp_key [simp]: "ev_Key (stamp now e) = ev_Key e"
  by (simp add: stamp_def)

text \<open>The watcher of subscription \<open>i\<close> after the interleaving \<open>past\<close>.\<close>

definition in_step :: "nat \<Rightarrow> string \<Rightarrow> (watch_turn + hub_act) list \<Rightarrow> HubSys \<Rightarrow> bool" where
  "in_step i p past t \<longleftrightarrow> hub_reachable t \<and> i < hub_nextID (sys_hub t) \<and> prefix (sys_due t i) (acts_due p past) \<and>
     (\<forall>q. map_of (hub_subs (sys_hub t)) i = Some q \<longrightarrow> q = p \<and> sys_due t i = acts_due p past)"

lemma in_step_quiet:
  assumes "in_step i p past t" "hub_reachable u" "sys_due u i = sys_due t i" "ages i (sys_hub t) (sys_hub u)" "acts_due p [m] = []"
  shows "in_step i p (past @ [m]) u"
  using assms by (auto simp: in_step_def ages_def)

lemma hub_do_step:
  assumes "in_step i p past t"
  shows "\<exists>u. hub_do act (sys_hub t) = Some (sys_hub u) \<and> sys_got u = sys_got t \<and> in_step i p (past @ [Inr act]) u"
proof -
  have r: "hub_reachable t" using assms by (simp add: in_step_def)
  show ?thesis
  proof (cases act)
    case (ActPublish now e)
    obtain h where h: "Publish now e (sys_hub t) = Some h" using Publish_ok [OF hub_reachable_inv [OF r]] by blast
    let ?u = "t\<lparr>sys_hub := h, sys_due := (\<lambda>i. sys_due t i @ owed (sys_hub t) (stamp now e) i)\<rparr>"
    have u: "hub_reachable ?u" using hub_reachable.step [OF r hub_step.publish [OF h]] .
    have a: "ages i (sys_hub t) h" using h by (auto simp: Publish_def dispatch_def intro: dispatch_loop_ages)
    have "in_step i p (past @ [Inr act]) ?u"
      using assms u a ActPublish by (auto simp: in_step_def ages_def owed_def acts_due_def split: option.splits)
    with h ActPublish show ?thesis by (intro exI [of _ ?u]) simp
  next
    case (ActSubscribe q)
    obtain j h where s: "Subscribe q (sys_hub t) = (j, h)" by fastforce
    have "hub_do act (sys_hub t) = Some h" using s ActSubscribe by simp
    with ActSubscribe in_step_quiet [OF assms hub_reachable.step [OF r hub_step.subscribe [OF s]]] hub_do_ages [OF this, of i]
    show ?thesis by (intro exI [of _ "t\<lparr>sys_hub := h\<rparr>"]) (simp add: acts_due_def)
  next
    case (ActUnsubscribe j)
    obtain h where c: "Subscription_Close j (sys_hub t) = Some h" using Close_ok [OF hub_reachable_inv [OF r]] by blast
    have "hub_do act (sys_hub t) = Some h" using c ActUnsubscribe by simp
    with ActUnsubscribe in_step_quiet [OF assms hub_reachable.step [OF r hub_step.unsubscribe [OF c]]] hub_do_ages [OF this, of i]
    show ?thesis by (intro exI [of _ "t\<lparr>sys_hub := h\<rparr>"]) (simp add: acts_due_def)
  next
    case ActCloseHub
    obtain h where c: "Hub_Close (sys_hub t) = Some h" using Hub_Close_ok [OF hub_reachable_inv [OF r]] by blast
    have "hub_do act (sys_hub t) = Some h" using c ActCloseHub by simp
    with ActCloseHub in_step_quiet [OF assms hub_reachable.step [OF r hub_step.close_hub [OF c]]] hub_do_ages [OF this, of i]
    show ?thesis by (intro exI [of _ "t\<lparr>sys_hub := h\<rparr>"]) (simp add: acts_due_def)
  qed
qed

text \<open>What is true of a watcher: while it runs, what it sent and what its buffer still holds are
  the first events it owes, all of them as long as it is subscribed.\<close>

definition watch_ok :: "nat \<Rightarrow> string \<Rightarrow> (watch_turn + hub_act) list \<Rightarrow> WriteEvent watch_result \<Rightarrow> bool" where
  "watch_ok i p ms r = (case r of
      Panicked \<Rightarrow> False
    | Watching hub sm \<Rightarrow> (\<exists>ch lost. hub_chans hub i = Some ch \<and>
         published p ms = sm_sent sm @ map toProtoEvent (ch_buf ch) @ lost \<and> (map_of (hub_subs hub) i \<noteq> None \<longrightarrow> lost = []))
    | Returned e hub sm \<Rightarrow> map_of (hub_subs hub) i = None \<and> prefix (sm_sent sm) (published p ms))"

lemma got_due: "hub_reachable t \<Longrightarrow> prefix (sys_got t i) (sys_due t i)"
proof -
  assume "hub_reachable t"
  then have "sub_ok (sys_hub t) i (sys_got t i) (sys_due t i)" using hub_reachable_inv by (simp add: hub_inv_def)
  then show ?thesis by (auto simp: sub_ok_def split: option.splits)
qed

lemma Subscription_Close_gone:
  assumes "Subscription_Close i h = Some h'"
  shows "map_of (hub_subs h') i = None"
  using assms by (auto simp: Subscription_Close_def drop_sub_def delete_conv' split: if_splits option.splits)

lemma got_published:
  assumes "in_step i p past t" "sm_sent sm = map toProtoEvent (sys_got t i)"
  shows "prefix (sm_sent sm) (published p past)"
proof -
  have "prefix (sys_got t i) (acts_due p past)" using got_due [of t i] assms(1) by (auto simp: in_step_def)
  with assms(2) show ?thesis by (simp add: published_def map_mono_prefix)
qed

lemma watch_return_ok:
  assumes "in_step i p past t" "prefix (sm_sent sm) (published p past)"
  shows "watch_ok i p past (watch_return i e (sys_hub t) sm)"
proof -
  have "hub_reachable t" using assms(1) by (simp add: in_step_def)
  then obtain h where h: "Subscription_Close i (sys_hub t) = Some h" using Close_ok [OF hub_reachable_inv] by blast
  with assms(2) Subscription_Close_gone [OF h] show ?thesis by (simp add: watch_return_def watch_ok_def)
qed

lemma watch_ok_later: "watch_ok i p past (Returned e hub sm) \<Longrightarrow> watch_ok i p (past @ ms) (Returned e hub sm)"
  by (auto simp: watch_ok_def published_def)

lemma watching_ok:
  assumes "in_step i p past t" "sm_sent sm = map toProtoEvent (sys_got t i)"
  shows "watch_ok i p past (Watching (sys_hub t) sm)"
proof -
  have r: "hub_reachable t" "i < hub_nextID (sys_hub t)" and d: "prefix (sys_due t i) (acts_due p past)"
    and q: "\<forall>q. map_of (hub_subs (sys_hub t)) i = Some q \<longrightarrow> sys_due t i = acts_due p past"
    using assms(1) by (auto simp: in_step_def)
  have "sub_ok (sys_hub t) i (sys_got t i) (sys_due t i)" using hub_reachable_inv [OF r(1)] by (simp add: hub_inv_def)
  then obtain ch lost where ch: "hub_chans (sys_hub t) i = Some ch" "sys_due t i = sys_got t i @ ch_buf ch @ lost"
    "map_of (hub_subs (sys_hub t)) i \<noteq> None \<longrightarrow> lost = []"
    using r(2) by (fastforce simp: sub_ok_def split: option.splits)
  obtain more where m: "acts_due p past = sys_due t i @ more" using d by (auto simp: prefix_def)
  have "published p past = sm_sent sm @ map toProtoEvent (ch_buf ch) @ map toProtoEvent (lost @ more)"
    using m ch(2) assms(2) by (simp add: published_def)
  moreover have "map_of (hub_subs (sys_hub t)) i \<noteq> None \<longrightarrow> lost @ more = []" using ch(3) m q by auto
  ultimately show ?thesis using ch(1) by (auto simp: watch_ok_def)
qed

lemma watch_turn_ok:
  assumes "in_step i p past t" "sm_sent sm = map toProtoEvent (sys_got t i)"
  shows "(\<exists>u sm'. watch_turn_step i turn (sys_hub t) sm = Watching (sys_hub u) sm' \<and> in_step i p (past @ [Inl turn]) u \<and>
      sm_sent sm' = map toProtoEvent (sys_got u i)) \<or>
    (\<exists>e hub sm'. watch_turn_step i turn (sys_hub t) sm = Returned e hub sm' \<and> watch_ok i p past (Returned e hub sm'))"
proof -
  note p = got_published [OF assms]
  have r: "hub_reachable t" using assms(1) by (simp add: in_step_def)
  have quiet: "in_step i p (past @ [Inl turn]) t" using in_step_quiet [OF assms(1) r] by simp
  have ret: "\<exists>e' hub sm'. watch_return i e (sys_hub u) sm = Returned e' hub sm' \<and> watch_ok i p past (Returned e' hub sm')"
    if "in_step i p past u" for e u
  proof -
    from watch_return_ok [OF that p, of e] show ?thesis
      by (cases "watch_return i e (sys_hub u) sm") (auto simp: watch_ok_def watch_return_def split: option.splits)
  qed
  show ?thesis
  proof (cases turn)
    case (CtxDone e)
    then show ?thesis using ret [OF assms(1)] by (simp add: watch_turn_step_def)
  next
    case Recv
    show ?thesis
    proof (cases "receive i (sys_hub t)")
      case (Received ev h)
      let ?t = "t\<lparr>sys_hub := h, sys_got := (sys_got t)(i := sys_got t i @ [ev])\<rparr>"
      have u: "hub_reachable ?t" using hub_reachable.step [OF r hub_step.consume [OF Received]] .
      have a: "ages i (sys_hub t) h" using Received by (auto simp: receive_def ages_def split: option.splits list.splits if_splits)
      have n: "in_step i p past ?t" using assms(1) u a by (auto simp: in_step_def ages_def)
      obtain e sm' where s: "Send (toProtoEvent ev) sm = (e, sm')" by fastforce
      show ?thesis
      proof (cases e)
        case None
        with s have "sm_sent sm' = sm_sent sm @ [toProtoEvent ev]" using Send_cases(1) [of "toProtoEvent ev" sm sm'] by simp
        moreover have "in_step i p (past @ [Inl turn]) ?t" using in_step_quiet [OF n u] by simp
        ultimately show ?thesis using Recv Received s None assms(2)
          by (intro disjI1 exI [of _ ?t] exI [of _ sm']) (simp add: watch_turn_step_def)
      next
        case (Some err)
        with s have "sm' = sm" using Send_cases(2) [of "toProtoEvent ev" sm err sm'] by simp
        then show ?thesis using Recv Received s Some ret [OF n] by (simp add: watch_turn_step_def)
      qed
    next
      case Ended
      then show ?thesis using Recv ret [OF assms(1)] by (simp add: watch_turn_step_def)
    next
      case Blocked
      then show ?thesis using Recv quiet assms(2) by (auto simp: watch_turn_step_def)
    qed
  qed
qed

lemma watch_loop_ok:
  assumes "in_step i p past t" "sm_sent sm = map toProtoEvent (sys_got t i)"
  shows "watch_ok i p (past @ ms) (watch_loop i ms (sys_hub t) sm)"
  using assms
proof (induction ms arbitrary: past t sm)
  case Nil
  then show ?case using watching_ok by simp
next
  case (Cons m ms)
  have app: "past @ m # ms = (past @ [m]) @ ms" by simp
  show ?case
  proof (cases m)
    case (Inl turn)
    from watch_turn_ok [OF Cons.prems, of turn] show ?thesis
    proof (elim disjE exE conjE)
      fix u sm'
      assume "watch_turn_step i turn (sys_hub t) sm = Watching (sys_hub u) sm'" "in_step i p (past @ [Inl turn]) u"
        "sm_sent sm' = map toProtoEvent (sys_got u i)"
      with Cons.IH [of "past @ [m]" u sm'] Inl app show ?thesis by simp
    next
      fix e hub sm'
      assume "watch_turn_step i turn (sys_hub t) sm = Returned e hub sm'" "watch_ok i p past (Returned e hub sm')"
      then show ?thesis using Inl watch_ok_later by simp
    qed
  next
    case (Inr act)
    obtain u where "hub_do act (sys_hub t) = Some (sys_hub u)" "sys_got u = sys_got t" "in_step i p (past @ [Inr act]) u"
      using hub_do_step [OF Cons.prems(1)] by blast
    with Inr Cons.IH [of "past @ [m]" u sm] Cons.prems(2) app show ?thesis by simp
  qed
qed

section \<open>Properties\<close>


definition sample_header :: PutHeader where
  "sample_header = \<lparr>ph_Key = ''new'', ph_ContentType = [], ph_ContentEncoding = [], ph_CacheControl = [],
     ph_UserMetadata = [], ph_IfNoneMatch = ''*'', ph_IfMatch = [], ph_TotalSize = 0\<rparr>"

lemma sample_opened: "sv_be sample_server = apply_prefix [] (mem_backend (\<lambda>d. []) ''bucket'')"
  by (simp add: sample_server_def apply_prefix_def)




text \<open>An unconditional Delete removes the key, publishes one event and succeeds even when the key
  was not there; one conditioned on an ETag the key does not have fails its precondition, removes
  nothing and publishes nothing.\<close>

theorem delete_effects:
  assumes "sv_be s = apply_prefix p (mem_backend sha256 bucket)" "mem_inv sha256 w" "hub_reachable sys"
    and "dq_IfMatch req = [] \<or> (\<forall>old. mem_view w (p @ dq_Key req) \<noteq> Some (old, dq_IfMatch req))"
  shows "\<exists>out hub' w'. server_Delete s c now req (sys_hub sys) w = (out, hub', w') \<and>
    (if dq_IfMatch req = []
     then out = Ok () \<and> Publish now (event (dq_Key req) OpDelete [] (dq_VersionId req)) (sys_hub sys) = Some hub' \<and>
       (\<forall>k. mem_view w' (p @ k) = (if k = dq_Key req then None else mem_view w (p @ k)))
     else (\<exists>e. out = Err e \<and> rpc_code e = Some C_FailedPrecondition) \<and> hub' = sys_hub sys \<and>
       (\<forall>k. mem_view w' (p @ k) = mem_view w (p @ k)))"
proof (cases "dq_IfMatch req = []")
  case True
  obtain hub' w' where d: "server_Delete s c now req (sys_hub sys) w = (Ok (), hub', w')"
    "Publish now (event (dq_Key req) OpDelete [] (dq_VersionId req)) (sys_hub sys) = Some hub'"
    "(\<lambda>k. mem_view w' (p @ k)) = (\<lambda>k. mem_view w (p @ k))(dq_Key req := None)"
    using omem.Delete_contract [OF assms(1-3) True] by blast
  then have "mem_view w' (p @ k) = (if k = dq_Key req then None else mem_view w (p @ k))" for k
    using fun_cong [OF d(3), of k] by simp
  with True d show ?thesis by auto
next
  case False
  with assms(4) have n: "\<forall>old. mem_view w (p @ dq_Key req) \<noteq> Some (old, dq_IfMatch req)" by blast
  obtain e w' where d: "server_Delete s c now req (sys_hub sys) w = (Err e, sys_hub sys, w')"
    "rpc_code e = Some C_FailedPrecondition" "(\<lambda>k. mem_view w' (p @ k)) = (\<lambda>k. mem_view w (p @ k))"
    using omem.Delete_stale [OF assms(1,2) False n] by blast
  with fun_cong [OF d(3)] False show ?thesis by auto
qed

lemma delete_effects_witness:
  "\<exists>hub' w'. server_Delete sample_server background 1 \<lparr>dq_Key = ''b'', dq_VersionId = [], dq_IfMatch = []\<rparr> NewHub sample_mem = (Ok (), hub', w') \<and>
     mem_view w' ''b'' = None \<and> mem_view w' ''a'' \<noteq> None"
proof -
  let ?req = "\<lparr>dq_Key = ''b'', dq_VersionId = [], dq_IfMatch = []\<rparr>"
  have c: "dq_IfMatch ?req = [] \<or> (\<forall>old. mem_view sample_mem ([] @ dq_Key ?req) \<noteq> Some (old, dq_IfMatch ?req))" by simp
  obtain out hub' w' where d: "server_Delete sample_server background 1 ?req (sys_hub sys_init) sample_mem = (out, hub', w')"
    "out = Ok ()" "\<forall>k. mem_view w' ([] @ k) = (if k = ''b'' then None else mem_view sample_mem ([] @ k))"
    using delete_effects [OF sample_opened sample_mem_inv hub_reachable.init c, of background 1] by auto
  have "mem_view sample_mem ''a'' \<noteq> None" by (simp add: sample_mem_def)
  with d show ?thesis by (fastforce simp: sys_init_def)
qed

text \<open>C13: whatever the publishers, the other subscribers and the client do while a Watch runs, it never
  panics the process. What it has sent are, in order and without a gap, the first of the events
  published since it subscribed whose key has the prefix it was asked for, each stamped with its
  time; while it is subscribed, the ones not sent yet are exactly those in its buffer; and when it
  returns its subscription is gone.\<close>

theorem watch_in_order:
  assumes "hub_reachable s"
  shows "watch_ok (hub_nextID (sys_hub s)) p ms (server_Watch p headerErr ms (sys_hub s) new_stream)"
proof -
  obtain i h where sub: "Subscribe p (sys_hub s) = (i, h)" by fastforce
  let ?t = "s\<lparr>sys_hub := h\<rparr>"
  have r: "hub_reachable ?t" using hub_reachable.step [OF assms hub_step.subscribe [OF sub]] .
  have i: "i = hub_nextID (sys_hub s)" "i < hub_nextID h" "map_of (hub_subs h) i = Some q \<Longrightarrow> q = p" for q
    using sub by (auto simp: Subscribe_def Let_def update_conv' split: if_splits)
  have "sub_ok (sys_hub s) i (sys_got s i) (sys_due s i)" using hub_reachable_inv [OF assms] by (simp add: hub_inv_def)
  then have fresh: "sys_got s i = []" "sys_due s i = []" using i(1) by (auto simp: sub_ok_def split: option.splits)
  have start: "in_step i p [] ?t" using r i fresh by (auto simp: in_step_def)
  show ?thesis
  proof (cases headerErr)
    case None
    then show ?thesis using watch_loop_ok [OF start, of new_stream ms] fresh sub i(1) by (simp add: server_Watch_def)
  next
    case (Some e)
    have "watch_ok i p [] (watch_return i (StreamErr e) h new_stream)"
      using watch_return_ok [OF start, of new_stream "StreamErr e"] by simp
    then have "watch_ok i p ms (watch_return i (StreamErr e) h new_stream)"
      using watch_ok_later [of i p "[]" _ _ _ ms]
      by (cases "watch_return i (StreamErr e) h new_stream") (auto simp: watch_return_def watch_ok_def split: option.splits)
    then show ?thesis using Some sub i(1) by (simp add: server_Watch_def)
  qed
qed

definition sample_acts :: "(watch_turn + hub_act) list" where
  "sample_acts = [Inr (ActPublish 7 (event ''ab'' OpPut [] [])), Inr (ActPublish 8 (event ''b'' OpPut [] [])), Inl Recv]"

lemma watch_in_order_witness:
  "watch_ok 0 ''a'' sample_acts (server_Watch ''a'' None sample_acts NewHub new_stream) \<and>
    published ''a'' sample_acts = [toProtoEvent ((event ''ab'' OpPut [] [])\<lparr>ev_Time := 7\<rparr>)]"
  using watch_in_order [OF hub_reachable.init, of "''a''" sample_acts None]
  by (simp add: sys_init_def NewHub_def) (simp add: published_def acts_due_def sample_acts_def event_def stamp_def has_prefix_def)

text \<open>A slow watcher is not buffered for without bound: when its buffer is full the event that
  does not fit ends its subscription, and its next receives drain the buffer and then end the
  stream as RESOURCE_EXHAUSTED with the reason that it fell behind.\<close>

theorem watch_overflow:
  assumes "hub_chans h i = Some ch" "\<not> ch_closed ch" "length (ch_buf ch) = subBuffer" "map_of (hub_subs h) i = Some p"
  shows "\<exists>h'. offer e i h = Some h' \<and> map_of (hub_subs h') i = None \<and>
    hub_chans h' i = Some (ch\<lparr>ch_closed := True\<rparr>) \<and>
    watch_turn_step i Recv (h'\<lparr>hub_chans := (hub_chans h')(i := Some (ch\<lparr>ch_closed := True, ch_buf := []\<rparr>))\<rparr>) sm =
      Returned fell_behind (h'\<lparr>hub_chans := (hub_chans h')(i := Some (ch\<lparr>ch_closed := True, ch_buf := []\<rparr>))\<rparr>) sm \<and>
    rpc_code fell_behind = Some C_ResourceExhausted \<and> rpc_reason fell_behind = ReasonWatchConsumerBehind"
  using assms
  by (auto simp: offer_def drop_sub_def delete_conv' watch_turn_step_def receive_def watch_return_def
      Subscription_Close_def fell_behind_def)

lemma watch_overflow_witness:
  "\<exists>h'. offer (event ''k'' OpPut [] []) 0 \<lparr>hub_subs = [(0, [])], hub_chans = (\<lambda>_. None)(0 := Some \<lparr>ch_buf = replicate 256 (event ''k'' OpPut [] []), ch_closed = False\<rparr>),
      hub_nextID = 1, hub_closed = False\<rparr> = Some h' \<and> map_of (hub_subs h') 0 = None"
proof -
  let ?ch = "\<lparr>ch_buf = replicate 256 (event ''k'' OpPut [] []), ch_closed = False\<rparr>"
  let ?h = "\<lparr>hub_subs = [(0, [])], hub_chans = (\<lambda>_. None)(0 := Some ?ch), hub_nextID = 1, hub_closed = False\<rparr>"
  have a: "hub_chans ?h 0 = Some ?ch" "\<not> ch_closed ?ch" "length (ch_buf ?ch) = subBuffer" "map_of (hub_subs ?h) 0 = Some []"
    by (simp_all only: Hub.simps Chan.simps fun_upd_same length_replicate subBuffer_def) simp_all
  from watch_overflow [OF a, of "event ''k'' OpPut [] []" new_stream] show ?thesis by blast
qed

end
