(* ===== verification/Durations.thy ===== *)
theory Durations
  imports Prelude
begin

text \<open>
  The textual form of Go's \<open>time.Duration\<close>, which the configuration reads and the
  error messages print: \<open>Duration.String\<close>, \<open>time.ParseDuration\<close> and
  \<open>strconv.ParseBool\<close>. The nanoseconds of a decimal fraction are a float64 product
  in Go, so the function that computes them is a parameter here.
\<close>

section \<open>Printing\<close>

abbreviation (input) nanosecond :: int where "nanosecond \<equiv> 1"
abbreviation second :: int where "second \<equiv> 1000000000"

definition strip_zeros :: "string \<Rightarrow> string" where
  "strip_zeros s = rev (dropWhile (\<lambda>c. c = CHR ''0'') (rev s))"

definition pad_zeros :: "nat \<Rightarrow> string \<Rightarrow> string" where
  "pad_zeros n s = replicate (n - length s) (CHR ''0'') @ s"

text \<open>\<open>fmtFrac\<close>: the fraction of \<open>u / 10^prec\<close> without trailing zeros.\<close>

definition fmt_frac :: "nat \<Rightarrow> nat \<Rightarrow> string" where
  "fmt_frac u prec = (let digits = strip_zeros (pad_zeros prec (dec_nat (u mod 10 ^ prec)))
     in if u mod 10 ^ prec = 0 then [] else ''.'' @ digits)"

definition duration_abs :: "nat \<Rightarrow> string" where
  "duration_abs u =
     (if u = 0 then ''0s''
      else if u < 1000 then dec_nat u @ ''ns''
      else if u < 1000000 then dec_nat (u div 1000) @ fmt_frac u 3 @ [CHR 0xC2, CHR 0xB5] @ ''s''
      else if u < 1000000000 then dec_nat (u div 1000000) @ fmt_frac u 6 @ ''ms''
      else let secs = u div 1000000000; mins = secs div 60; hours = mins div 60
           in (if hours > 0 then dec_nat hours @ ''h'' else [])
              @ (if mins > 0 then dec_nat (mins mod 60) @ ''m'' else [])
              @ dec_nat (secs mod 60) @ fmt_frac u 9 @ ''s'')"

definition Duration_String :: "int \<Rightarrow> string" where
  "Duration_String d = (if d < 0 then ''-'' else []) @ duration_abs (nat \<bar>d\<bar>)"

text \<open>\<open>Time.Sub\<close> saturates instead of wrapping.\<close>

definition time_Sub :: "int \<Rightarrow> int \<Rightarrow> int" where
  "time_Sub t u = max (- (2 ^ 63)) (min (2 ^ 63 - 1) (t - u))"

section \<open>Parsing\<close>

definition is_digit :: "char \<Rightarrow> bool" where
  "is_digit c \<longleftrightarrow> c \<in> set ''0123456789''"

definition digit_val :: "char \<Rightarrow> nat" where
  "digit_val c = of_char c - 48"

definition leading_int :: "string \<Rightarrow> nat option" where
  "leading_int digits = (let v = foldl (\<lambda>x c. 10 * x + digit_val c) 0 digits
     in if v > 2 ^ 63 then None else Some v)"

text \<open>\<open>leadingFraction\<close> stops accumulating at the first digit that would overflow.\<close>

fun frac_step :: "nat \<times> nat \<times> bool \<Rightarrow> char \<Rightarrow> nat \<times> nat \<times> bool" where
  "frac_step (x, scale, over) c =
     (if over \<or> x > (2 ^ 63 - 1) div 10 \<or> 10 * x + digit_val c > 2 ^ 63
      then (x, scale, True) else (10 * x + digit_val c, 10 * scale, False))"

definition leading_fraction :: "string \<Rightarrow> nat \<times> nat" where
  "leading_fraction digits = (let (x, scale, over) = foldl frac_step (0, 1, False) digits in (x, scale))"

definition unitMap :: "(string \<times> nat) list" where
  "unitMap = [(''ns'', 1), (''us'', 1000), ([CHR 0xC2, CHR 0xB5] @ ''s'', 1000),
     ([CHR 0xCE, CHR 0xBC] @ ''s'', 1000), (''ms'', 1000000), (''s'', 1000000000),
     (''m'', 60000000000), (''h'', 3600000000000)]"

text \<open>One number with its unit, and what follows; \<open>frac f unit scale\<close> is the truncated
  float64 value of \<open>f * (unit / scale)\<close>.\<close>

definition duration_item :: "(nat \<Rightarrow> nat \<Rightarrow> nat \<Rightarrow> nat) \<Rightarrow> string \<Rightarrow> (nat \<times> string) option" where
  "duration_item frac s =
     (let pre = takeWhile is_digit s; s1 = dropWhile is_digit s;
          dot = (s1 \<noteq> [] \<and> hd s1 = CHR ''.'');
          post = (if dot then takeWhile is_digit (tl s1) else []);
          s2 = (if dot then dropWhile is_digit (tl s1) else s1);
          is_unit = (\<lambda>c. c \<noteq> CHR ''.'' \<and> \<not> is_digit c);
          u = takeWhile is_unit s2; s3 = dropWhile is_unit s2;
          (f, scale) = leading_fraction post
      in case leading_int pre of
           None \<Rightarrow> None
         | Some v \<Rightarrow>
            if pre = [] \<and> post = [] then None
            else (case map_of unitMap u of
                None \<Rightarrow> None
              | Some unit \<Rightarrow>
                 if v > 2 ^ 63 div unit then None
                 else let w = v * unit + (if f > 0 then frac f unit scale else 0)
                      in if w > 2 ^ 63 then None else Some (w, s3)))"

lemma duration_item_shrinks: "duration_item frac s = Some (w, t) \<Longrightarrow> length t < length s"
proof -
  assume a: "duration_item frac s = Some (w, t)"
  define s2 where "s2 = (if dropWhile is_digit s \<noteq> [] \<and> hd (dropWhile is_digit s) = CHR ''.''
     then dropWhile is_digit (tl (dropWhile is_digit s)) else dropWhile is_digit s)"
  define P where "P = (\<lambda>c. c \<noteq> CHR ''.'' \<and> \<not> is_digit c)"
  have "t = dropWhile P s2 \<and> takeWhile P s2 \<noteq> []"
    using a unfolding duration_item_def s2_def P_def
    by (auto simp: Let_def unitMap_def split: option.splits if_splits prod.splits)
  then have "length t < length s2"
    by (metis append_Nil2 length_append length_greater_0_conv less_add_same_cancel2 takeWhile_dropWhile_id)
  moreover have "length s2 \<le> length s"
    unfolding s2_def
    using length_dropWhile_le [of is_digit s]
      length_dropWhile_le [of is_digit "tl (dropWhile is_digit s)"] by auto
  ultimately show ?thesis by simp
qed

function duration_items :: "(nat \<Rightarrow> nat \<Rightarrow> nat \<Rightarrow> nat) \<Rightarrow> string \<Rightarrow> nat \<Rightarrow> nat option" where
  "duration_items frac s d =
     (if s = [] then Some d
      else case duration_item frac s of
        None \<Rightarrow> None
      | Some (v, s') \<Rightarrow> if d + v > 2 ^ 63 then None else duration_items frac s' (d + v))"
  by pat_completeness auto
termination
  by (relation "measure (\<lambda>(frac, s, d). length s)") (auto dest: duration_item_shrinks)

declare duration_items.simps [simp del]

definition ParseDuration :: "(nat \<Rightarrow> nat \<Rightarrow> nat \<Rightarrow> nat) \<Rightarrow> string \<Rightarrow> int option" where
  "ParseDuration frac orig =
     (let signed = (orig \<noteq> [] \<and> hd orig \<in> {CHR ''-'', CHR ''+''});
          neg = (signed \<and> hd orig = CHR ''-'');
          s = (if signed then tl orig else orig)
      in if s = ''0'' then Some 0
         else if s = [] then None
         else (case duration_items frac s 0 of
             None \<Rightarrow> None
           | Some d \<Rightarrow> if neg then Some (- int d)
                       else if d > 2 ^ 63 - 1 then None else Some (int d)))"

text \<open>\<open>strconv.ParseBool\<close>.\<close>

definition ParseBool :: "string \<Rightarrow> bool option" where
  "ParseBool s =
     (if s \<in> {''1'', ''t'', ''T'', ''TRUE'', ''true'', ''True''} then Some True
      else if s \<in> {''0'', ''f'', ''F'', ''FALSE'', ''false'', ''False''} then Some False
      else None)"

lemma duration_items_bound: "duration_items frac s d = Some v \<Longrightarrow> d \<le> 2 ^ 63 \<Longrightarrow> v \<le> 2 ^ 63"
proof (induction frac s d rule: duration_items.induct)
  case (1 frac s d)
  show ?case
    using 1 by (subst (asm) (2) duration_items.simps) (auto split: if_splits option.splits)
qed

text \<open>What parses is an \<open>int64\<close>.\<close>

lemma ParseDuration_range: "ParseDuration frac s = Some d \<Longrightarrow> in_int64 d"
  by (auto simp: ParseDuration_def Let_def in_int64_def dest!: duration_items_bound split: if_splits option.splits)

end
