(* ===== verification/S3.thy ===== *)
theory S3
  imports Prefix Durations
begin

text \<open>
  The S3 backend (internal/backend/s3/s3.go). The AWS SDK is outside the repository: its
  client is the parameter \<open>S3Client\<close>, one field per call the code makes, with the
  request and response structures the code fills and reads (an unset pointer is
  \<open>None\<close>); \<open>s3_Now\<close> is \<open>time.Now\<close>. Every operation of the backend is
  defined over it, and against a client that behaves as the S3 documentation says the
  backend meets the contract \<open>object_store\<close>.
\<close>

section \<open>The SDK\<close>

record HeadObjectInput =
  hi_Bucket :: string
  hi_Key :: string
  hi_VersionId :: "string option"

record ObjectOutput =
  ot_ETag :: "string option"
  ot_ContentLength :: "int option"
  ot_LastModified :: "gotime option"
  ot_ContentType :: "string option"
  ot_ContentEncoding :: "string option"
  ot_CacheControl :: "string option"
  ot_VersionId :: "string option"
  ot_Metadata :: meta

record GetObjectInput =
  gt_Bucket :: string
  gt_Key :: string
  gt_Range :: "string option"
  gt_IfNoneMatch :: "string option"
  gt_IfMatch :: "string option"
  gt_IfModifiedSince :: "gotime option"
  gt_VersionId :: "string option"

record GetObjectOutput = ObjectOutput +
  ot_Body :: reader

record PutObjectInput =
  ui_Bucket :: string
  ui_Key :: string
  ui_Body :: reader
  ui_ContentType :: "string option"
  ui_ContentEncoding :: "string option"
  ui_CacheControl :: "string option"
  ui_Metadata :: meta
  ui_IfNoneMatch :: "string option"
  ui_IfMatch :: "string option"

record WriteOutput =
  wo_ETag :: "string option"
  wo_VersionId :: "string option"

record DeleteObjectInput =
  di_Bucket :: string
  di_Key :: string
  di_VersionId :: "string option"
  di_IfMatch :: "string option"

record DeleteFailure =
  df_Key :: "string option"
  df_Message :: "string option"
  df_Code :: "string option"

record ListObjectsInput =
  li_Bucket :: string
  li_Prefix :: "string option"
  li_Delimiter :: "string option"
  li_MaxKeys :: "int option"
  li_ContinuationToken :: "string option"

record S3Object =
  so_Key :: "string option"
  so_ETag :: "string option"
  so_Size :: "int option"
  so_LastModified :: "gotime option"

record ListObjectsOutput =
  lu_Contents :: "S3Object list"
  lu_CommonPrefixes :: "string option list"
  lu_IsTruncated :: "bool option"
  lu_NextContinuationToken :: "string option"

record CopyObjectInput =
  ci_Bucket :: string
  ci_Key :: string
  ci_CopySource :: string

record SignedRequest =
  sr_URL :: string
  sr_Headers :: meta

record Credentials =
  cr_CanExpire :: bool
  cr_Expires :: gotime

record 'w S3Client =
  s3_HeadObject :: "ctx \<Rightarrow> HeadObjectInput \<Rightarrow> 'w \<Rightarrow> (goerr + ObjectOutput) \<times> 'w"
  s3_GetObject :: "ctx \<Rightarrow> GetObjectInput \<Rightarrow> 'w \<Rightarrow> (goerr + GetObjectOutput) \<times> 'w"
  s3_Upload :: "ctx \<Rightarrow> PutObjectInput \<Rightarrow> 'w \<Rightarrow> (goerr + WriteOutput) \<times> 'w"
  s3_DeleteObject :: "ctx \<Rightarrow> DeleteObjectInput \<Rightarrow> 'w \<Rightarrow> goerr option \<times> 'w"
  s3_DeleteObjects :: "ctx \<Rightarrow> string \<Rightarrow> string list \<Rightarrow> 'w \<Rightarrow> (goerr + DeleteFailure list) \<times> 'w"
  s3_ListObjectsV2 :: "ctx \<Rightarrow> ListObjectsInput \<Rightarrow> 'w \<Rightarrow> (goerr + ListObjectsOutput) \<times> 'w"
  s3_CopyObject :: "ctx \<Rightarrow> CopyObjectInput \<Rightarrow> 'w \<Rightarrow> (goerr + WriteOutput) \<times> 'w"
  s3_PresignGetObject :: "ctx \<Rightarrow> string \<Rightarrow> string \<Rightarrow> int \<Rightarrow> 'w \<Rightarrow> (goerr + SignedRequest) \<times> 'w"
  s3_PresignPutObject :: "ctx \<Rightarrow> string \<Rightarrow> string \<Rightarrow> int \<Rightarrow> 'w \<Rightarrow> (goerr + SignedRequest) \<times> 'w"
  s3_Retrieve :: "ctx \<Rightarrow> 'w \<Rightarrow> (goerr + Credentials) \<times> 'w"
  s3_Now :: "'w \<Rightarrow> gotime"

text \<open>\<open>s3.Options\<close> as a bound call fills it, and the SDK's two ways to make a client.\<close>

record S3Options =
  op_Region :: string
  op_Credentials :: "string \<times> string"
  op_HTTPClient :: bool
  op_UsePathStyle :: bool
  op_BaseEndpoint :: "string option"

record ('a, 'w) AwsSDK =
  aws_LoadDefaultConfig :: "ctx \<Rightarrow> string \<Rightarrow> (string \<times> string) option \<Rightarrow> 'w \<Rightarrow> (goerr + 'a) \<times> 'w"
  aws_NewFromConfig :: "'a \<Rightarrow> string option \<Rightarrow> bool \<Rightarrow> 'w S3Client"
  aws_New :: "S3Options \<Rightarrow> 'w S3Client"

section \<open>Opening a backend\<close>

record 'w S3Backend =
  sb_client :: "'w S3Client"
  sb_bucket :: string
  sb_endpoint :: string
  sb_presignMax :: int
  sb_probe :: ProbeStrategy
  sb_probeKey :: string

definition presignHardMax :: int where "presignHardMax = 7 * 24 * 3600 * 1000000000"

definition batchDeleteMax :: nat where "batchDeleteMax = 1000"

definition s3_newBound :: "('a, 'w) AwsSDK \<Rightarrow> Config \<Rightarrow> 'w S3Backend" where
  "s3_newBound sdk cfg = \<lparr>
     sb_client = aws_New sdk \<lparr>op_Region = cfg_Region cfg,
       op_Credentials = (cfg_AccessKey cfg, cfg_SecretKey cfg), op_HTTPClient = cfg_HTTPClient cfg,
       op_UsePathStyle = cfg_UsePathStyle cfg,
       op_BaseEndpoint = (if cfg_Endpoint cfg = [] then None else Some (cfg_Endpoint cfg))\<rparr>,
     sb_bucket = cfg_Bucket cfg, sb_endpoint = cfg_Endpoint cfg, sb_presignMax = 0,
     sb_probe = Strategy cfg, sb_probeKey = cfg_ProbeKey cfg\<rparr>"

definition s3_New :: "('a, 'w) AwsSDK \<Rightarrow> ctx \<Rightarrow> Config \<Rightarrow> 'w \<Rightarrow> (goerr, 'w S3Backend) result \<times> 'w" where
  "s3_New sdk c cfg w =
     (if cfg_HTTPClient cfg then (Ok (s3_newBound sdk cfg), w)
      else case aws_LoadDefaultConfig sdk c (cfg_Region cfg)
          (if cfg_AccessKey cfg \<noteq> [] then Some (cfg_AccessKey cfg, cfg_SecretKey cfg) else None) w of
        (Inl err, w) \<Rightarrow> (Err (Wrap InvalidArgument ''s3.New'' err), w)
      | (Inr awscfg, w) \<Rightarrow> (Ok \<lparr>
          sb_client = aws_NewFromConfig sdk awscfg
            (if cfg_Endpoint cfg \<noteq> [] then Some (cfg_Endpoint cfg) else None) (cfg_UsePathStyle cfg),
          sb_bucket = cfg_Bucket cfg, sb_endpoint = cfg_Endpoint cfg,
          sb_presignMax = cfg_PresignMaxExpiry cfg,
          sb_probe = Strategy cfg, sb_probeKey = cfg_ProbeKey cfg\<rparr>, w))"

definition s3_Identity :: "'w S3Backend \<Rightarrow> string" where
  "s3_Identity b = (if sb_endpoint b \<noteq> [] then sb_endpoint b @ ''/'' @ sb_bucket b else sb_bucket b)"

definition s3_Capabilities :: Capabilities where
  "s3_Capabilities = \<lparr>cap_Backend = ''s3'', cap_ConditionalPut = True, cap_ConditionalCopy = False,
     cap_AtomicRename = False, cap_Versions = True, cap_Tags = False, cap_Presign = True,
     cap_PresignMaxExpiry = presignHardMax, cap_PresignAmbientCreds = True,
     cap_BatchDeleteMax = int batchDeleteMax, cap_NativeVerbs = []\<rparr>"

section \<open>Errors\<close>

text \<open>The API code and the HTTP status of the first error of the chain that has one.\<close>

fun tag_ApiCode :: "tag \<Rightarrow> string option" where
  "tag_ApiCode (ApiCode s) = Some s"
| "tag_ApiCode _ = None"

fun tag_HttpStatus :: "tag \<Rightarrow> int option" where
  "tag_HttpStatus (HttpStatus n) = Some n"
| "tag_HttpStatus _ = None"

definition first_some :: "('a \<Rightarrow> 'b option) \<Rightarrow> 'a list \<Rightarrow> 'b option" where
  "first_some f xs = (case List.map_filter f xs of [] \<Rightarrow> None | y # _ \<Rightarrow> Some y)"

definition apiCode :: "goerr \<Rightarrow> string" where
  "apiCode err = (case first_some tag_ApiCode (err_tags err) of None \<Rightarrow> [] | Some code \<Rightarrow> code)"

definition httpStatus :: "goerr \<Rightarrow> int" where
  "httpStatus err = (case first_some tag_HttpStatus (err_tags err) of None \<Rightarrow> 0 | Some n \<Rightarrow> n)"

definition s3_mapErr :: "string \<Rightarrow> goerr \<Rightarrow> goerr" where
  "s3_mapErr op err =
     (let code = apiCode err; status = httpStatus err in
      if code = ''NoSuchBucket'' then BucketNotFound op err
      else if has_tag err TypedNoSuchKey \<or> has_tag err TypedNotFound then Wrap NotFound op err
      else if code = ''NoSuchKey'' \<or> code = ''NotFound'' \<or> status = 404 then Wrap NotFound op err
      else if status = 304 \<or> code = ''NotModified'' then Wrap NotModified op err
      else if code = ''PreconditionFailed'' \<or> status = 412 then Wrap PreconditionFailed op err
      else if status = 409 then Wrap AlreadyExists op err
      else if code = ''AccessDenied'' \<or> status = 403 then Wrap PermissionDenied op err
      else if code = ''SlowDown'' \<or> status = 429 \<or> status = 503 then Wrap Throttled op err
      else Wrap Internal op err)"

definition isNotModified :: "goerr \<Rightarrow> bool" where
  "isNotModified err \<longleftrightarrow> Is (Some (s3_mapErr [] err)) NotModified"

definition s3_probeErr :: "string \<Rightarrow> goerr option \<Rightarrow> goerr option" where
  "s3_probeErr op err = (case err of
      None \<Rightarrow> None
    | Some e \<Rightarrow> Some (if Unreachable e then Wrap Unavailable op e else s3_mapErr op e))"

definition s3_Probe :: "'w S3Backend \<Rightarrow> ctx \<Rightarrow> 'w \<Rightarrow> goerr option \<times> 'w" where
  "s3_Probe b c w =
     (if sb_probe b = ProbeStat
      then (case s3_HeadObject (sb_client b) c
                 \<lparr>hi_Bucket = sb_bucket b, hi_Key = sb_probeKey b, hi_VersionId = None\<rparr> w of
          (Inr _, w) \<Rightarrow> (None, w)
        | (Inl err, w) \<Rightarrow>
            (if CodeOf (s3_mapErr ''s3.Probe'' err) \<in> {NotFound, PermissionDenied} then (None, w)
             else (s3_probeErr ''s3.Probe'' (Some err), w)))
      else (case s3_ListObjectsV2 (sb_client b) c \<lparr>li_Bucket = sb_bucket b, li_Prefix = None,
                 li_Delimiter = None, li_MaxKeys = Some 1, li_ContinuationToken = None\<rparr> w of
          (Inr _, w) \<Rightarrow> (s3_probeErr ''s3.Probe'' None, w)
        | (Inl err, w) \<Rightarrow> (s3_probeErr ''s3.Probe'' (Some err), w)))"

section \<open>Reading\<close>

definition or_empty :: "string option \<Rightarrow> string" where
  "or_empty v = (case v of None \<Rightarrow> [] | Some s \<Rightarrow> s)"

definition or_zero :: "int option \<Rightarrow> int" where
  "or_zero v = (case v of None \<Rightarrow> 0 | Some n \<Rightarrow> n)"

definition opt_str :: "string \<Rightarrow> string option" where
  "opt_str s = (if s \<noteq> [] then Some s else None)"

text \<open>A copied map, \<open>nil\<close> when it is empty: both read as the empty association list.\<close>

definition copyMeta :: "meta \<Rightarrow> meta" where
  "copyMeta m = (if m = [] then [] else map (\<lambda>(k, v). (k, v)) m)"

definition headToObjectInfo :: "string \<Rightarrow> ObjectOutput option \<Rightarrow> ObjectInfo" where
  "headToObjectInfo key out = (let oi = zero_info\<lparr>oi_Key := key\<rparr> in case out of
      None \<Rightarrow> oi
    | Some ot \<Rightarrow> oi\<lparr>oi_ETag := or_empty (ot_ETag ot), oi_Size := or_zero (ot_ContentLength ot),
        oi_LastModified := or_zero (ot_LastModified ot), oi_ContentType := or_empty (ot_ContentType ot),
        oi_ContentEncoding := or_empty (ot_ContentEncoding ot),
        oi_CacheControl := or_empty (ot_CacheControl ot),
        oi_VersionID := or_empty (ot_VersionId ot), oi_UserMetadata := copyMeta (ot_Metadata ot)\<rparr>)"

definition getToObjectInfo :: "string \<Rightarrow> GetObjectOutput option \<Rightarrow> ObjectInfo" where
  "getToObjectInfo key out = (let oi = zero_info\<lparr>oi_Key := key\<rparr> in case out of
      None \<Rightarrow> oi
    | Some ot \<Rightarrow> oi\<lparr>oi_ETag := or_empty (ot_ETag ot), oi_Size := or_zero (ot_ContentLength ot),
        oi_LastModified := or_zero (ot_LastModified ot), oi_ContentType := or_empty (ot_ContentType ot),
        oi_ContentEncoding := or_empty (ot_ContentEncoding ot),
        oi_CacheControl := or_empty (ot_CacheControl ot),
        oi_VersionID := or_empty (ot_VersionId ot), oi_UserMetadata := copyMeta (ot_Metadata ot)\<rparr>)"

definition s3_Stat :: "'w S3Backend \<Rightarrow> ctx \<Rightarrow> string \<Rightarrow> string \<Rightarrow> 'w \<Rightarrow> (goerr, ObjectInfo) result \<times> 'w" where
  "s3_Stat b c key versionID w =
     (case s3_HeadObject (sb_client b) c
         \<lparr>hi_Bucket = sb_bucket b, hi_Key = key, hi_VersionId = opt_str versionID\<rparr> w of
        (Inl err, w) \<Rightarrow> (Err (s3_mapErr ''s3.Stat'' err), w)
      | (Inr out, w) \<Rightarrow> (Ok (headToObjectInfo key (Some out)), w))"

text \<open>The inclusive HTTP byte range of a half-open one; the end is an int64 sum.\<close>

definition range_header :: "ByteRange \<Rightarrow> string" where
  "range_header r =
     (if br_Length r > 0
      then ''bytes='' @ dec_int (br_Offset r) @ ''-'' @ dec_int (wrap64 (br_Offset r + br_Length r - 1))
      else ''bytes='' @ dec_int (br_Offset r) @ ''-'')"

definition s3_get_input :: "'w S3Backend \<Rightarrow> string \<Rightarrow> GetOptions \<Rightarrow> GetObjectInput" where
  "s3_get_input b key opts = \<lparr>gt_Bucket = sb_bucket b, gt_Key = key,
     gt_Range = map_option range_header (go_Range opts),
     gt_IfNoneMatch = opt_str (go_IfNoneMatch opts), gt_IfMatch = opt_str (go_IfMatch opts),
     gt_IfModifiedSince = (if go_IfModifiedSince opts \<noteq> 0 then Some (go_IfModifiedSince opts) else None),
     gt_VersionId = opt_str (go_VersionID opts)\<rparr>"

definition s3_Get :: "'w S3Backend \<Rightarrow> ctx \<Rightarrow> string \<Rightarrow> GetOptions \<Rightarrow> 'w \<Rightarrow> (goerr, GetResult) result \<times> 'w" where
  "s3_Get b c key opts w =
     (case s3_GetObject (sb_client b) c (s3_get_input b key opts) w of
        (Inr out, w) \<Rightarrow> (Ok \<lparr>gr_Info = getToObjectInfo key (Some out), gr_Body = ot_Body out,
                              gr_NotModified = False\<rparr>, w)
      | (Inl err, w) \<Rightarrow>
         (if isNotModified err
          then (let res = \<lparr>gr_Info = zero_info\<lparr>oi_Key := key, oi_ETag := go_IfNoneMatch opts\<rparr>,
                            gr_Body = [], gr_NotModified = True\<rparr>
                in case s3_HeadObject (sb_client b) c
                     \<lparr>hi_Bucket = sb_bucket b, hi_Key = key, hi_VersionId = opt_str (go_VersionID opts)\<rparr> w of
                   (Inr hout, w) \<Rightarrow> (Ok (res\<lparr>gr_Info := headToObjectInfo key (Some hout)\<rparr>), w)
                 | (Inl herr, w) \<Rightarrow> (Ok res, w))
          else (Err (s3_mapErr ''s3.Get'' err), w)))"

section \<open>Writing\<close>

definition s3_put_input :: "'w S3Backend \<Rightarrow> string \<Rightarrow> reader \<Rightarrow> PutOptions \<Rightarrow> PutObjectInput" where
  "s3_put_input b key r opts = \<lparr>ui_Bucket = sb_bucket b, ui_Key = key, ui_Body = r,
     ui_ContentType = opt_str (po_ContentType opts), ui_ContentEncoding = opt_str (po_ContentEncoding opts),
     ui_CacheControl = opt_str (po_CacheControl opts), ui_Metadata = po_UserMetadata opts,
     ui_IfNoneMatch = opt_str (po_IfNoneMatch opts), ui_IfMatch = opt_str (po_IfMatch opts)\<rparr>"

definition write_result :: "WriteOutput \<Rightarrow> PutResult" where
  "write_result out = \<lparr>pr_ETag = or_empty (wo_ETag out), pr_VersionID = or_empty (wo_VersionId out),
     pr_Generation = 0\<rparr>"

definition s3_Put :: "'w S3Backend \<Rightarrow> ctx \<Rightarrow> string \<Rightarrow> reader \<Rightarrow> PutOptions \<Rightarrow> 'w
    \<Rightarrow> (goerr, PutResult) result \<times> 'w" where
  "s3_Put b c key r opts w =
     (case s3_Upload (sb_client b) c (s3_put_input b key r opts) w of
        (Inl err, w) \<Rightarrow>
          (if po_IfNoneMatch opts = ''*'' \<and> Is (Some (s3_mapErr ''s3.Put'' err)) PreconditionFailed
           then (Err (Wrap AlreadyExists ''s3.Put'' err), w)
           else (Err (s3_mapErr ''s3.Put'' err), w))
      | (Inr out, w) \<Rightarrow> (Ok (write_result out), w))"

definition s3_delete_input :: "'w S3Backend \<Rightarrow> string \<Rightarrow> DeleteOptions \<Rightarrow> DeleteObjectInput" where
  "s3_delete_input b key opts = \<lparr>di_Bucket = sb_bucket b, di_Key = key,
     di_VersionId = opt_str (do_VersionID opts), di_IfMatch = opt_str (do_IfMatch opts)\<rparr>"

definition s3_Delete :: "'w S3Backend \<Rightarrow> ctx \<Rightarrow> string \<Rightarrow> DeleteOptions \<Rightarrow> 'w \<Rightarrow> goerr option \<times> 'w" where
  "s3_Delete b c key opts w =
     (case s3_DeleteObject (sb_client b) c (s3_delete_input b key opts) w of
        (Some err, w) \<Rightarrow> (Some (s3_mapErr ''s3.Delete'' err), w)
      | (None, w) \<Rightarrow> (None, w))"

text \<open>\<open>idx\<close>: the last position of each key.\<close>

definition index_keys :: "string list \<Rightarrow> string \<Rightarrow> nat option" where
  "index_keys keys = foldl (\<lambda>m i. m(keys ! i \<mapsto> i)) Map.empty [0..<length keys]"

definition failure_text :: "DeleteFailure \<Rightarrow> string" where
  "failure_text e = (case df_Message e of Some m \<Rightarrow> m
     | None \<Rightarrow> (case df_Code e of Some code \<Rightarrow> code | None \<Rightarrow> ''delete failed''))"

definition set_error :: "nat \<Rightarrow> string \<Rightarrow> DeleteEntry list \<Rightarrow> DeleteEntry list" where
  "set_error i msg entries = entries[i := (entries ! i)\<lparr>de_Error := msg\<rparr>]"

fun note_failures :: "(string \<Rightarrow> nat option) \<Rightarrow> DeleteFailure list \<Rightarrow> DeleteEntry list \<Rightarrow> DeleteEntry list" where
  "note_failures idx [] entries = entries"
| "note_failures idx (e # es) entries = note_failures idx es
     (case df_Key e of None \<Rightarrow> entries
      | Some k \<Rightarrow> (case idx k of None \<Rightarrow> entries | Some i \<Rightarrow> set_error i (failure_text e) entries))"

definition mark_failed :: "nat \<Rightarrow> nat \<Rightarrow> string \<Rightarrow> DeleteEntry list \<Rightarrow> DeleteEntry list" where
  "mark_failed start stop msg entries = foldl (\<lambda>es i. set_error i msg es) entries [start..<stop]"

function s3_delete_batches :: "'w S3Backend \<Rightarrow> ctx \<Rightarrow> string list \<Rightarrow> nat \<Rightarrow> DeleteEntry list \<Rightarrow> 'w
    \<Rightarrow> DeleteEntry list \<times> 'w" where
  "s3_delete_batches b c keys start entries w =
     (if start \<ge> length keys then (entries, w)
      else let stop = (if start + batchDeleteMax > length keys then length keys else start + batchDeleteMax);
               objs = map (\<lambda>i. keys ! i) [start..<stop]
           in case s3_DeleteObjects (sb_client b) c (sb_bucket b) objs w of
                (Inl err, w') \<Rightarrow> s3_delete_batches b c keys (start + batchDeleteMax)
                   (mark_failed start stop (Error (s3_mapErr ''s3.DeleteMany'' err)) entries) w'
              | (Inr errors, w') \<Rightarrow> s3_delete_batches b c keys (start + batchDeleteMax)
                   (note_failures (index_keys keys) errors entries) w')"
  by pat_completeness auto
termination
  by (relation "measure (\<lambda>(b, c, keys, start, entries, w). length keys - start)")
    (auto simp: batchDeleteMax_def)

declare s3_delete_batches.simps [simp del]

definition s3_DeleteMany :: "'w S3Backend \<Rightarrow> ctx \<Rightarrow> string list \<Rightarrow> 'w
    \<Rightarrow> (DeleteEntry list \<times> goerr option) \<times> 'w" where
  "s3_DeleteMany b c keys w =
     (let (entries, w') = s3_delete_batches b c keys 0 (map (\<lambda>k. \<lparr>de_Key = k, de_Error = []\<rparr>) keys) w
      in ((entries, None), w'))"

section \<open>Listing, copying, presigning\<close>

definition s3_object_info :: "S3Object \<Rightarrow> ObjectInfo" where
  "s3_object_info so = zero_info\<lparr>oi_Key := or_empty (so_Key so), oi_ETag := or_empty (so_ETag so),
     oi_Size := or_zero (so_Size so), oi_LastModified := or_zero (so_LastModified so)\<rparr>"

definition s3_list_input :: "'w S3Backend \<Rightarrow> ListOptions \<Rightarrow> ListObjectsInput" where
  "s3_list_input b opts = \<lparr>li_Bucket = sb_bucket b, li_Prefix = opt_str (lo_Prefix opts),
     li_Delimiter = opt_str (lo_Delimiter opts),
     li_MaxKeys = (if lo_Limit opts > 0 then Some (lo_Limit opts) else None),
     li_ContinuationToken = opt_str (lo_PageToken opts)\<rparr>"

definition s3_List :: "'w S3Backend \<Rightarrow> ctx \<Rightarrow> ListOptions \<Rightarrow> 'w \<Rightarrow> (goerr, ListResult) result \<times> 'w" where
  "s3_List b c opts w =
     (case s3_ListObjectsV2 (sb_client b) c (s3_list_input b opts) w of
        (Inl err, w) \<Rightarrow> (Err (s3_mapErr ''s3.List'' err), w)
      | (Inr out, w) \<Rightarrow>
         (if lu_IsTruncated out = Some True \<and> or_empty (lu_NextContinuationToken out) = []
          then (Err (WithReason (New Internal ''s3.List''
                 ''incomplete listing: the store marked the page truncated but sent no continuation token'')
                 ReasonListingIncomplete []), w)
          else (Ok \<lparr>lr_Objects = map s3_object_info (lu_Contents out),
                 lr_CommonPrefixes = List.map_filter id (lu_CommonPrefixes out),
                 lr_NextPageToken = or_empty (lu_NextContinuationToken out)\<rparr>, w)))"

text \<open>\<open>url.PathEscape\<close>.\<close>

definition upper_hex :: "nat \<Rightarrow> char" where
  "upper_hex n = char_of (if n < 10 then n + 48 else n + 55)"

definition path_unreserved :: "char \<Rightarrow> bool" where
  "path_unreserved ch \<longleftrightarrow> ch \<in> set ''abcdefghijklmnopqrstuvwxyzABCDEFGHIJKLMNOPQRSTUVWXYZ0123456789-_.~$&+:=@''"

fun PathEscape :: "string \<Rightarrow> string" where
  "PathEscape [] = []"
| "PathEscape (ch # s) =
     (if path_unreserved ch then [ch] else [CHR 0x25, upper_hex (of_char ch div 16), upper_hex (of_char ch mod 16)])
     @ PathEscape s"

definition s3_Copy :: "'w S3Backend \<Rightarrow> ctx \<Rightarrow> string \<Rightarrow> string \<Rightarrow> CopyOptions \<Rightarrow> 'w
    \<Rightarrow> (goerr, PutResult) result \<times> 'w" where
  "s3_Copy b c srcKey dstKey opts w =
     (case s3_CopyObject (sb_client b) c \<lparr>ci_Bucket = sb_bucket b, ci_Key = dstKey,
           ci_CopySource = PathEscape (sb_bucket b @ ''/'' @ srcKey)\<rparr> w of
        (Inl err, w) \<Rightarrow> (Err (s3_mapErr ''s3.Copy'' err), w)
      | (Inr out, w) \<Rightarrow> (Ok (write_result out), w))"

definition clampToCreds :: "gotime \<Rightarrow> int \<Rightarrow> Credentials \<Rightarrow> goerr + int" where
  "clampToCreds now expiry creds =
     (if \<not> cr_CanExpire creds then Inr expiry
      else let remaining = time_Sub (cr_Expires creds) now in
        if remaining \<ge> expiry then Inr expiry
        else if remaining < second
        then Inl (Msg (''signing credentials expire in '' @ Duration_String remaining
                 @ '', too soon to presign a usable URL''))
        else Inr remaining)"

definition presign_lifetime :: "int \<Rightarrow> int \<Rightarrow> int" where
  "presign_lifetime presignMax expiry =
     (let expiry = (if expiry \<le> 0 \<or> expiry > presignHardMax then presignHardMax else expiry)
      in if presignMax > 0 \<and> expiry > presignMax then presignMax else expiry)"

fun method_number :: "PresignMethod \<Rightarrow> int" where
  "method_number PresignGet = 0"
| "method_number PresignPut = 1"
| "method_number (PresignUnknown n) = n"

definition s3_Presign :: "'w S3Backend \<Rightarrow> ctx \<Rightarrow> string \<Rightarrow> PresignMethod \<Rightarrow> int \<Rightarrow> 'w
    \<Rightarrow> (goerr, PresignResult) result \<times> 'w" where
  "s3_Presign b c key method expiry w =
     (let expiry = presign_lifetime (sb_presignMax b) expiry;
          (creds, w) = s3_Retrieve (sb_client b) c w
      in case (case creds of Inl _ \<Rightarrow> Inr expiry | Inr cr \<Rightarrow> clampToCreds (s3_Now (sb_client b) w) expiry cr) of
           Inl cerr \<Rightarrow> (Err (Wrap PreconditionFailed ''s3.Presign'' cerr), w)
         | Inr expiry \<Rightarrow>
            (let sign = (\<lambda>call. case call (sb_client b) c (sb_bucket b) key expiry w of
                   (Inl err, w) \<Rightarrow> (Err (s3_mapErr ''s3.Presign'' err), w)
                 | (Inr req, w) \<Rightarrow> (Ok \<lparr>ps_Method = method, ps_URL = sr_URL req, ps_Headers = sr_Headers req,
                      ps_ExpiresAt = s3_Now (sb_client b) w + expiry\<rparr>, w))
             in case method of
                  PresignGet \<Rightarrow> sign s3_PresignGetObject
                | PresignPut \<Rightarrow> sign s3_PresignPutObject
                | PresignUnknown n \<Rightarrow> (Err (New InvalidArgument ''s3.Presign''
                      (''unknown presign method '' @ dec_int n)), w)))"

definition s3_Native :: "ctx \<Rightarrow> string \<Rightarrow> meta \<Rightarrow> 'w \<Rightarrow> (goerr, meta) result \<times> 'w" where
  "s3_Native c verb params w = (Err (New Unsupported ''native'' verb), w)"

definition s3_Close :: "'w \<Rightarrow> goerr option \<times> 'w" where
  "s3_Close w = (None, w)"

definition s3_backend :: "'w S3Backend \<Rightarrow> 'w Backend" where
  "s3_backend b = \<lparr>be_Name = ''s3'', be_Identity = s3_Identity b, be_Capabilities = s3_Capabilities,
     be_Probe = s3_Probe b, be_Stat = s3_Stat b, be_Get = s3_Get b, be_Put = s3_Put b,
     be_Delete = s3_Delete b, be_DeleteMany = s3_DeleteMany b, be_List = s3_List b,
     be_Copy = s3_Copy b, be_Presign = s3_Presign b, be_Native = s3_Native, be_Close = s3_Close\<rparr>"

section \<open>What S3 documents\<close>

text \<open>
  The service behind the client, as the S3 API reference describes it, over the contents of
  one bucket: a read of a missing key is a 404 with code NoSuchKey, a failed precondition a
  412 with code PreconditionFailed, a conditional write of a missing key a 404, a
  conditional delete of one a success, and DeleteObjects takes at most 1000 keys.
\<close>

definition api_error :: "goerr \<Rightarrow> string \<Rightarrow> int \<Rightarrow> bool" where
  "api_error e code status \<longleftrightarrow> apiCode e = code \<and> httpStatus e = status \<and> \<not> has_tag e TypedNotFound \<and>
     (has_tag e TypedNoSuchKey \<longrightarrow> status = 404) \<and> \<not> errors_is e ErrBucketNotFound"

abbreviation "missing_key e \<equiv> api_error e ''NoSuchKey'' 404"
abbreviation "precondition_failed e \<equiv> api_error e ''PreconditionFailed'' 412"

definition plain_get_input :: "string \<Rightarrow> string \<Rightarrow> string option \<Rightarrow> GetObjectInput" where
  "plain_get_input bucket k im = \<lparr>gt_Bucket = bucket, gt_Key = k, gt_Range = None, gt_IfNoneMatch = None,
     gt_IfMatch = im, gt_IfModifiedSince = None, gt_VersionId = None\<rparr>"

definition current_delete :: "string \<Rightarrow> string \<Rightarrow> string option \<Rightarrow> DeleteObjectInput" where
  "current_delete bucket k im = \<lparr>di_Bucket = bucket, di_Key = k, di_VersionId = None, di_IfMatch = im\<rparr>"

locale s3_service =
  fixes cl :: "'w S3Client"
    and bucket :: string
    and view :: "'w \<Rightarrow> string \<Rightarrow> (bytes \<times> string) option"
    and inv :: "'w \<Rightarrow> bool"
  assumes GetObject_ok: "inv w \<Longrightarrow> view w k = Some (d, tag) \<Longrightarrow> mo = None \<or> mo = Some tag \<Longrightarrow>
      \<exists>out w'. s3_GetObject cl c (plain_get_input bucket k mo) w = (Inr out, w') \<and>
        read_all (ot_Body out) = (d, None) \<and> ot_ETag out = Some tag \<and>
        ot_ContentLength out = Some (int (length d)) \<and> view w' = view w \<and> inv w'"
    and GetObject_changed: "inv w \<Longrightarrow> view w k = Some (d, tag) \<Longrightarrow> differ im tag \<Longrightarrow>
      \<exists>e w'. s3_GetObject cl c (plain_get_input bucket k (Some im)) w = (Inl e, w') \<and>
        precondition_failed e \<and> view w' = view w \<and> inv w'"
    and GetObject_missing: "inv w \<Longrightarrow> view w k = None \<Longrightarrow> mo \<noteq> Some [] \<Longrightarrow>
      \<exists>e w'. s3_GetObject cl c (plain_get_input bucket k mo) w = (Inl e, w') \<and>
        missing_key e \<and> view w' = view w \<and> inv w'"
    and Upload_ok: "inv w \<Longrightarrow> ui_Bucket req = bucket \<Longrightarrow> ui_Key req = k \<Longrightarrow>
      read_all (ui_Body req) = (d, None) \<Longrightarrow>
      ui_IfNoneMatch req = None \<or> ui_IfNoneMatch req = Some ''*'' \<and> view w k = None \<Longrightarrow>
      ui_IfMatch req = None \<or>
        ui_IfNoneMatch req = None \<and> ui_IfMatch req = Some tag \<and> view w k = Some (old, tag) \<Longrightarrow>
      \<exists>out tag' w'. s3_Upload cl c req w = (Inr out, w') \<and> wo_ETag out = Some tag' \<and> tag' \<noteq> [] \<and>
        view w' = (view w)(k := Some (d, tag')) \<and> inv w'"
    and Upload_exists: "inv w \<Longrightarrow> ui_Bucket req = bucket \<Longrightarrow> ui_Key req = k \<Longrightarrow>
      read_all (ui_Body req) = (d, None) \<Longrightarrow> ui_IfNoneMatch req = Some ''*'' \<Longrightarrow> view w k \<noteq> None \<Longrightarrow> ui_IfMatch req = None \<Longrightarrow>
      \<exists>e w'. s3_Upload cl c req w = (Inl e, w') \<and> precondition_failed e \<and> view w' = view w \<and> inv w'"
    and Upload_stale: "inv w \<Longrightarrow> ui_Bucket req = bucket \<Longrightarrow> ui_Key req = k \<Longrightarrow>
      read_all (ui_Body req) = (d, None) \<Longrightarrow> ui_IfNoneMatch req = None \<Longrightarrow> ui_IfMatch req = Some im \<Longrightarrow>
      view w k = Some (old, tag) \<Longrightarrow> differ im tag \<Longrightarrow>
      \<exists>e w'. s3_Upload cl c req w = (Inl e, w') \<and> precondition_failed e \<and> view w' = view w \<and> inv w'"
    and Upload_absent: "inv w \<Longrightarrow> ui_Bucket req = bucket \<Longrightarrow> ui_Key req = k \<Longrightarrow>
      read_all (ui_Body req) = (d, None) \<Longrightarrow> ui_IfNoneMatch req = None \<Longrightarrow> ui_IfMatch req = Some im \<Longrightarrow>
      im \<noteq> [] \<Longrightarrow> view w k = None \<Longrightarrow>
      \<exists>e w'. s3_Upload cl c req w = (Inl e, w') \<and> missing_key e \<and> view w' = view w \<and> inv w'"
    and Upload_broken: "inv w \<Longrightarrow> ui_Bucket req = bucket \<Longrightarrow> read_all (ui_Body req) = (d, Some (err, g)) \<Longrightarrow>
      \<exists>e w'. s3_Upload cl c req w = (Inl e, w') \<and> view w' = view w \<and> inv w'"
    and DeleteObject_ok: "inv w \<Longrightarrow>
      mo = None \<or> mo = Some tag \<and> tag \<noteq> [] \<and> (view w k = None \<or> view w k = Some (old, tag)) \<Longrightarrow>
      \<exists>w'. s3_DeleteObject cl c (current_delete bucket k mo) w = (None, w') \<and>
        view w' = (view w)(k := None) \<and> inv w'"
    and DeleteObject_stale: "inv w \<Longrightarrow> view w k = Some (old, tag) \<Longrightarrow> differ im tag \<Longrightarrow>
      \<exists>e w'. s3_DeleteObject cl c (current_delete bucket k (Some im)) w = (Some e, w') \<and>
        precondition_failed e \<and> view w' = view w \<and> inv w'"
    and DeleteObjects_ok: "inv w \<Longrightarrow> ks \<noteq> [] \<Longrightarrow> length ks \<le> 1000 \<Longrightarrow>
      \<exists>w'. s3_DeleteObjects cl c bucket ks w = (Inr [], w') \<and>
        view w' = (\<lambda>k. if k \<in> set ks then None else view w k) \<and> inv w'"

section \<open>Error translation\<close>

lemma mapErr_missing:
  "missing_key e \<Longrightarrow> CodeOf (s3_mapErr op e) = NotFound \<and> \<not> errors_is (s3_mapErr op e) ErrBucketNotFound"
  by (simp add: api_error_def s3_mapErr_def Let_def)

lemma mapErr_precondition:
  "precondition_failed e \<Longrightarrow>
   s3_mapErr op e = Wrap PreconditionFailed op e \<and> \<not> errors_is (s3_mapErr op e) ErrBucketNotFound"
  by (auto simp: api_error_def s3_mapErr_def Let_def)

lemma not_modified_code: "isNotModified e \<longleftrightarrow> CodeOf (s3_mapErr op e) = NotModified"
  by (auto simp: isNotModified_def Is_def s3_mapErr_def Let_def)

lemma opt_str_simps [simp]: "opt_str [] = None" "s \<noteq> [] \<Longrightarrow> opt_str s = Some s"
  "opt_str s = None \<longleftrightarrow> s = []" "opt_str s = Some t \<longleftrightarrow> s = t \<and> t \<noteq> []"
  by (auto simp: opt_str_def)

lemma s3_get_input_plain: "s3_get_input b k (get_options im) = plain_get_input (sb_bucket b) k (opt_str im)"
  by (simp add: s3_get_input_def get_options_def plain_get_input_def)

lemma s3_Get_err:
  "s3_GetObject (sb_client b) c (s3_get_input b k opts) w = (Inl e, w') \<Longrightarrow> \<not> isNotModified e \<Longrightarrow>
   s3_Get b c k opts w = (Err (s3_mapErr ''s3.Get'' e), w')"
  by (simp add: s3_Get_def)

section \<open>The backend meets the contract\<close>

context s3_service
begin

lemma get_found:
  assumes "sb_client b = cl" "sb_bucket b = bucket" "inv w" "view w k = Some (d, tag)" "im = [] \<or> im = tag"
  shows "\<exists>res w'. s3_Get b c k (get_options im) w = (Ok res, w') \<and> \<not> gr_NotModified res
        \<and> read_all (gr_Body res) = (d, None) \<and> oi_Key (gr_Info res) = k
        \<and> oi_ETag (gr_Info res) = tag \<and> oi_Size (gr_Info res) = int (length d)
        \<and> view w' = view w \<and> inv w'"
proof -
  have "opt_str im = None \<or> opt_str im = Some tag" using assms(5) by (auto simp: opt_str_def)
  from GetObject_ok [OF assms(3,4) this, of c] assms(1,2) show ?thesis
    by (force simp: s3_Get_def s3_get_input_plain getToObjectInfo_def or_empty_def or_zero_def Let_def)
qed

lemma get_failed:
  assumes "sb_client b = cl" "sb_bucket b = bucket" "inv w"
    and "view w k = Some (d, tag) \<and> differ im tag \<and> code = PreconditionFailed \<or>
         view w k = None \<and> code = NotFound"
  shows "\<exists>e w'. s3_Get b c k (get_options im) w = (Err e, w') \<and> CodeOf e = code
        \<and> \<not> errors_is e ErrBucketNotFound \<and> view w' = view w \<and> inv w'"
proof -
  have m: "opt_str im \<noteq> Some []" by simp
  obtain e w' where e: "s3_GetObject cl c (plain_get_input bucket k (opt_str im)) w = (Inl e, w')"
      "code = PreconditionFailed \<and> precondition_failed e \<or> code = NotFound \<and> missing_key e"
      "view w' = view w" "inv w'"
    using assms(4)
  proof (elim disjE conjE)
    assume v: "view w k = Some (d, tag)" "differ im tag" "code = PreconditionFailed"
    have "opt_str im = Some im" using differD [OF v(2)] by simp
    with GetObject_changed [OF assms(3) v(1,2), of c] v(3) that show thesis by auto
  next
    assume v: "view w k = None" "code = NotFound"
    from GetObject_missing [OF assms(3) v(1) m, of c] v(2) that show thesis by auto
  qed
  then have "CodeOf (s3_mapErr op e) = code \<and> \<not> errors_is (s3_mapErr op e) ErrBucketNotFound" for op
    using mapErr_missing mapErr_precondition by fastforce
  moreover have "code \<noteq> NotModified" using e(2) by auto
  ultimately show ?thesis using e assms(1,2) s3_Get_err [of b c k "get_options im" w e w']
    by (auto simp: s3_get_input_plain not_modified_code [of e "''s3.Get''"])
qed

lemma put_stored:
  assumes "sb_client b = cl" "sb_bucket b = bucket" "inv w" "read_all r = (d, None)"
    and "po_IfNoneMatch opts = [] \<or> po_IfNoneMatch opts = ''*'' \<and> view w k = None"
    and "po_IfMatch opts = [] \<or> po_IfNoneMatch opts = [] \<and> view w k = Some (old, po_IfMatch opts)"
  shows "\<exists>res w'. s3_Put b c k r opts w = (Ok res, w') \<and> inv w'
        \<and> view w' = (view w)(k := Some (d, pr_ETag res)) \<and> pr_ETag res \<noteq> []"
proof -
  let ?req = "s3_put_input b k r opts"
  have "ui_IfNoneMatch ?req = None \<or> ui_IfNoneMatch ?req = Some ''*'' \<and> view w k = None"
    "ui_IfMatch ?req = None \<or> ui_IfNoneMatch ?req = None \<and> ui_IfMatch ?req = Some (po_IfMatch opts) \<and>
       view w k = Some (old, po_IfMatch opts)"
    using assms(5,6) by (auto simp: s3_put_input_def)
  from Upload_ok [OF assms(3) _ _ _ this, of d c] assms(1,2,4)
  obtain out tag' w' where "s3_Upload cl c ?req w = (Inr out, w')" "wo_ETag out = Some tag'" "tag' \<noteq> []"
    "view w' = (view w)(k := Some (d, tag'))" "inv w'"
    by (auto simp: s3_put_input_def)
  with assms(1) show ?thesis
    by (simp add: s3_Put_def write_result_def or_empty_def)
qed

lemma put_failed:
  assumes "sb_client b = cl" "s3_Upload cl c (s3_put_input b k r opts) w = (Inl e, w')"
  shows "s3_Put b c k r opts w =
    (Err (if po_IfNoneMatch opts = ''*'' \<and> CodeOf (s3_mapErr ''s3.Put'' e) = PreconditionFailed
          then Wrap AlreadyExists ''s3.Put'' e else s3_mapErr ''s3.Put'' e), w')"
  using assms by (simp add: s3_Put_def Is_def)

lemma put_input_simps:
  "ui_Bucket (s3_put_input b k r opts) = sb_bucket b" "ui_Key (s3_put_input b k r opts) = k"
  "ui_Body (s3_put_input b k r opts) = r" "ui_IfNoneMatch (s3_put_input b k r opts) = opt_str (po_IfNoneMatch opts)"
  "ui_IfMatch (s3_put_input b k r opts) = opt_str (po_IfMatch opts)"
  by (simp_all add: s3_put_input_def)

lemma delete_input:
  "do_VersionID opts = [] \<Longrightarrow>
   s3_delete_input b k opts = current_delete (sb_bucket b) k (opt_str (do_IfMatch opts))"
  by (simp add: current_delete_def s3_delete_input_def)

text \<open>Every law of the contract, for a backend opened on the client and bucket.\<close>

lemma s3_store:
  assumes b: "sb_client b = cl" "sb_bucket b = bucket"
  shows "object_store (s3_backend b) view inv"
proof (unfold_locales, goal_cases)
  case (1 w k d tag im c)
  from get_found [OF b this] show ?case by (simp add: s3_backend_def)
next
  case (2 w k d tag im c)
  then show ?case using get_failed [OF b, of w k d tag im PreconditionFailed c] by (simp add: s3_backend_def)
next
  case (3 w k c im)
  then show ?case using get_failed [OF b, of w k _ _ im NotFound c] by (simp add: s3_backend_def)
next
  case (4 w r d opts k c)
  then show ?case using put_stored [OF b, of w r d opts k _ c] by (simp add: s3_backend_def)
next
  case (5 w r d opts k c)
  then have "opt_str (po_IfNoneMatch opts) = Some ''*''" by simp
  with Upload_exists [OF 5(1), of "s3_put_input b k r opts" k d c] 5 b
  obtain e w' where "s3_Upload cl c (s3_put_input b k r opts) w = (Inl e, w')" "precondition_failed e"
    "view w' = view w" "inv w'" by (auto simp: put_input_simps)
  with put_failed [OF b(1)] mapErr_precondition [of e "''s3.Put''"] 5(3) show ?case
    by (auto simp: s3_backend_def)
next
  case (6 w r d opts tag k old c)
  then show ?case using put_stored [OF b, of w r d opts k old c] by (cases "tag = []") (simp_all add: s3_backend_def)
next
  case (7 w r d opts im k old tag c)
  then have "opt_str (po_IfNoneMatch opts) = None" "opt_str (po_IfMatch opts) = Some im"
    using differD [OF 7(6)] by simp_all
  with Upload_stale [OF 7(1), of "s3_put_input b k r opts" k d im old tag c] 7 b
  obtain e w' where "s3_Upload cl c (s3_put_input b k r opts) w = (Inl e, w')" "precondition_failed e"
    "view w' = view w" "inv w'" by (auto simp: put_input_simps)
  with put_failed [OF b(1)] mapErr_precondition [of e "''s3.Put''"] 7(3) show ?case
    by (auto simp: s3_backend_def)
next
  case (8 w r d opts k c)
  then have "opt_str (po_IfNoneMatch opts) = None" "opt_str (po_IfMatch opts) = Some (po_IfMatch opts)" by simp_all
  with Upload_absent [OF 8(1), of "s3_put_input b k r opts" k d "po_IfMatch opts" c] 8 b
  obtain e w' where "s3_Upload cl c (s3_put_input b k r opts) w = (Inl e, w')" "view w' = view w" "inv w'"
    by (auto simp: put_input_simps)
  with put_failed [OF b(1)] show ?case by (auto simp: s3_backend_def)
next
  case (9 w dopts c k)
  with DeleteObject_ok [OF 9(1), of None _ k _ c] b show ?case
    by (auto simp: s3_backend_def s3_Delete_def delete_input)
next
  case (10 w dopts tag k old c)
  with DeleteObject_ok [OF 10(1), of "opt_str tag" tag k old c] b show ?case
    by (auto simp: s3_backend_def s3_Delete_def delete_input)
next
  case (11 w dopts im k old tag c)
  with DeleteObject_stale [OF 11(1), of k old tag im c] differD [OF 11(5)] b obtain e w' where
    "s3_DeleteObject cl c (current_delete bucket k (Some im)) w = (Some e, w')" "precondition_failed e"
    "view w' = view w" "inv w'" by auto
  with 11 differD [OF 11(5)] b mapErr_precondition [of e "''s3.Delete''"] show ?case
    by (auto simp: s3_backend_def s3_Delete_def delete_input)
next
  case (12 w r d err g c k opts)
  with Upload_broken [OF 12(1), of "s3_put_input b k r opts" d err g c] b
  obtain e w' where "s3_Upload cl c (s3_put_input b k r opts) w = (Inl e, w')" "view w' = view w" "inv w'"
    by (auto simp: put_input_simps)
  with put_failed [OF b(1)] show ?case by (auto simp: s3_backend_def)
qed

end

section \<open>A bucket that behaves as documented\<close>

text \<open>
  The S3 API over any store that meets the contract: what the documentation asks of S3 can be
  had, so the laws of \<open>s3_service\<close> are satisfiable, and the two contracts are
  interchangeable.
\<close>

definition answer_error :: "string \<Rightarrow> int \<Rightarrow> goerr" where
  "answer_error code status = Lib code [ApiCode code, HttpStatus status] []"

definition answer :: "('a \<Rightarrow> 'b) \<Rightarrow> (goerr, 'a) result \<Rightarrow> goerr + 'b" where
  "answer f r = (case r of Ok a \<Rightarrow> Inr (f a)
     | Err e \<Rightarrow> Inl (if CodeOf e = NotFound then answer_error ''NoSuchKey'' 404
                     else answer_error ''PreconditionFailed'' 412)
     | Panic \<Rightarrow> Inl (answer_error ''InternalError'' 500))"

definition in_bucket :: "string \<Rightarrow> string \<Rightarrow> (goerr + 'b) \<times> 'w \<Rightarrow> 'w \<Rightarrow> (goerr + 'b) \<times> 'w" where
  "in_bucket bucket b r w = (if b = bucket then r else (Inl (answer_error ''NoSuchBucket'' 404), w))"

definition object_output :: "ObjectInfo \<Rightarrow> ObjectOutput" where
  "object_output i = \<lparr>ot_ETag = Some (oi_ETag i), ot_ContentLength = Some (oi_Size i),
     ot_LastModified = Some (oi_LastModified i), ot_ContentType = Some (oi_ContentType i),
     ot_ContentEncoding = Some (oi_ContentEncoding i), ot_CacheControl = Some (oi_CacheControl i),
     ot_VersionId = None, ot_Metadata = oi_UserMetadata i\<rparr>"

definition get_output :: "GetResult \<Rightarrow> GetObjectOutput" where
  "get_output g = ObjectOutput.extend (object_output (gr_Info g)) \<lparr>ot_Body = gr_Body g\<rparr>"

definition over_get :: "'w Backend \<Rightarrow> ctx \<Rightarrow> GetObjectInput \<Rightarrow> 'w \<Rightarrow> (goerr + GetObjectOutput) \<times> 'w" where
  "over_get be c req w = (let (r, w') = be_Get be c (gt_Key req) (get_options (or_empty (gt_IfMatch req))) w
     in (answer get_output r, w'))"

definition over_options :: "PutObjectInput \<Rightarrow> PutOptions" where
  "over_options req = \<lparr>po_ContentType = or_empty (ui_ContentType req),
     po_ContentEncoding = or_empty (ui_ContentEncoding req),
     po_CacheControl = or_empty (ui_CacheControl req), po_UserMetadata = ui_Metadata req,
     po_IfNoneMatch = or_empty (ui_IfNoneMatch req), po_IfMatch = or_empty (ui_IfMatch req), po_Size = -1\<rparr>"

lemma over_options_simps [simp]:
  "po_IfNoneMatch (over_options req) = or_empty (ui_IfNoneMatch req)"
  "po_IfMatch (over_options req) = or_empty (ui_IfMatch req)"
  by (simp_all add: over_options_def)

definition over_put :: "'w Backend \<Rightarrow> ctx \<Rightarrow> PutObjectInput \<Rightarrow> 'w \<Rightarrow> (goerr + WriteOutput) \<times> 'w" where
  "over_put be c req w =
     (let write = (\<lambda>w. let (r, w') = be_Put be c (ui_Key req) (ui_Body req) (over_options req) w
             in (answer (\<lambda>p. \<lparr>wo_ETag = Some (pr_ETag p), wo_VersionId = None\<rparr>) r, w'))
      in if ui_IfMatch req = None then write w
         else case be_Get be c (ui_Key req) (get_options []) w of
           (Ok _, w') \<Rightarrow> write w'
         | (_, w') \<Rightarrow> (Inl (answer_error ''NoSuchKey'' 404), w'))"

definition over_delete :: "'w Backend \<Rightarrow> ctx \<Rightarrow> DeleteObjectInput \<Rightarrow> 'w \<Rightarrow> goerr option \<times> 'w" where
  "over_delete be c req w =
     (let remove = (\<lambda>w. case be_Delete be c (di_Key req)
               \<lparr>do_VersionID = [], do_IfMatch = or_empty (di_IfMatch req)\<rparr> w of
             (None, w') \<Rightarrow> (None, w')
           | (Some e, w') \<Rightarrow> (Some (answer_error ''PreconditionFailed'' 412), w'))
      in if di_IfMatch req = None then remove w
         else case be_Get be c (di_Key req) (get_options []) w of
           (Ok _, w') \<Rightarrow> remove w'
         | (_, w') \<Rightarrow> (None, w'))"

fun over_delete_all :: "'w Backend \<Rightarrow> ctx \<Rightarrow> string list \<Rightarrow> 'w \<Rightarrow> 'w" where
  "over_delete_all be c [] w = w"
| "over_delete_all be c (k # ks) w =
     over_delete_all be c ks (snd (be_Delete be c k \<lparr>do_VersionID = [], do_IfMatch = []\<rparr> w))"

definition s3_over :: "string \<Rightarrow> 'w Backend \<Rightarrow> 'w S3Client" where
  "s3_over bucket be = \<lparr>
     s3_HeadObject = (\<lambda>c req w. let (r, w') = be_Stat be c (hi_Key req) [] w
        in in_bucket bucket (hi_Bucket req) (answer object_output r, w') w),
     s3_GetObject = (\<lambda>c req w. in_bucket bucket (gt_Bucket req) (over_get be c req w) w),
     s3_Upload = (\<lambda>c req w. in_bucket bucket (ui_Bucket req) (over_put be c req w) w),
     s3_DeleteObject = (\<lambda>c req w. if di_Bucket req = bucket then over_delete be c req w
        else (Some (answer_error ''NoSuchBucket'' 404), w)),
     s3_DeleteObjects = (\<lambda>c b ks w. in_bucket bucket b
        (if ks = [] \<or> length ks > 1000 then (Inl (answer_error ''MalformedXML'' 400), w)
         else (Inr [], over_delete_all be c ks w)) w),
     s3_ListObjectsV2 = (\<lambda>c req w. (Inl (answer_error ''NotImplemented'' 501), w)),
     s3_CopyObject = (\<lambda>c req w. (Inl (answer_error ''NotImplemented'' 501), w)),
     s3_PresignGetObject = (\<lambda>c b k l w. (Inr \<lparr>sr_URL = k, sr_Headers = []\<rparr>, w)),
     s3_PresignPutObject = (\<lambda>c b k l w. (Inr \<lparr>sr_URL = k, sr_Headers = []\<rparr>, w)),
     s3_Retrieve = (\<lambda>c w. (Inr \<lparr>cr_CanExpire = False, cr_Expires = 0\<rparr>, w)),
     s3_Now = (\<lambda>w. 0)\<rparr>"

lemma answer_error_kind [simp]:
  "missing_key (answer_error ''NoSuchKey'' 404)" "precondition_failed (answer_error ''PreconditionFailed'' 412)"
  by (auto simp: api_error_def answer_error_def apiCode_def httpStatus_def err_tags_def first_some_def
      List.map_filter_simps has_tag_def)

lemma get_output_simps [simp]:
  "ot_ETag (get_output g) = Some (oi_ETag (gr_Info g))" "ot_Body (get_output g) = gr_Body g"
  "ot_ContentLength (get_output g) = Some (oi_Size (gr_Info g))"
  by (simp_all add: get_output_def object_output_def ObjectOutput.extend_def)

lemma answer_simps [simp]:
  "answer f (Ok a) = Inr (f a)"
  "CodeOf e = NotFound \<Longrightarrow> answer f (Err e) = Inl (answer_error ''NoSuchKey'' 404)"
  "CodeOf e \<noteq> NotFound \<Longrightarrow> answer f (Err e) = Inl (answer_error ''PreconditionFailed'' 412)"
  by (simp_all add: answer_def)

lemma or_empty_simps [simp]: "or_empty None = []" "or_empty (Some s) = s"
  by (simp_all add: or_empty_def)

context object_store
begin

lemma over_get_ok:
  assumes "inv w" "view w k = Some (d, tag)" "mo = None \<or> mo = Some tag"
  shows "\<exists>out w'. over_get be c (plain_get_input b k mo) w = (Inr out, w') \<and> read_all (ot_Body out) = (d, None) \<and>
    ot_ETag out = Some tag \<and> ot_ContentLength out = Some (int (length d)) \<and> view w' = view w \<and> inv w'"
proof -
  have "or_empty mo = [] \<or> or_empty mo = tag" using assms(3) by auto
  from get_found [OF assms(1,2) this, of c] show ?thesis
    by (auto simp: over_get_def plain_get_input_def)
qed

lemma over_put_plain:
  assumes "ui_IfMatch req = None \<or> view w (ui_Key req) \<noteq> None" "inv w"
  shows "\<exists>w1. view w1 = view w \<and> inv w1 \<and> over_put be c req w =
    (let (r, w') = be_Put be c (ui_Key req) (ui_Body req) (over_options req) w1
     in (answer (\<lambda>p. \<lparr>wo_ETag = Some (pr_ETag p), wo_VersionId = None\<rparr>) r, w'))"
proof (cases "ui_IfMatch req = None")
  case True
  with assms(2) show ?thesis by (auto simp: over_put_def)
next
  case False
  then obtain d tag where "view w (ui_Key req) = Some (d, tag)" using assms(1) by auto
  from get_found [OF assms(2) this, of "[]" c] False show ?thesis by (fastforce simp: over_put_def)
qed

lemma over_put_missing:
  assumes "ui_IfMatch req \<noteq> None" "view w (ui_Key req) = None" "inv w"
  shows "\<exists>w'. over_put be c req w = (Inl (answer_error ''NoSuchKey'' 404), w') \<and> view w' = view w \<and> inv w'"
  using get_missing [OF assms(3,2), of c "[]"] assms(1) by (auto simp: over_put_def)

lemma over_delete_all_view:
  "inv w \<Longrightarrow> view (over_delete_all be c ks w) = (\<lambda>k. if k \<in> set ks then None else view w k) \<and>
    inv (over_delete_all be c ks w)"
proof (induction ks arbitrary: w)
  case (Cons k ks)
  from delete_done [OF Cons.prems, of "\<lparr>do_VersionID = [], do_IfMatch = []\<rparr>" c k] Cons.IH show ?case
    by (auto simp: fun_eq_iff)
qed simp

lemma over_service: "s3_service (s3_over bucket be) bucket view inv"
proof (unfold_locales, goal_cases)
  case (1 w k d tag mo c)
  from over_get_ok [OF this, of c bucket] show ?case
    by (auto simp: s3_over_def in_bucket_def plain_get_input_def)
next
  case (2 w k d tag im c)
  with get_changed [OF 2(1,2), of im c] show ?case
    by (auto simp: s3_over_def in_bucket_def plain_get_input_def over_get_def)
next
  case (3 w k mo c)
  with get_missing [OF 3(1,2), of c "or_empty mo"] show ?case
    by (auto simp: s3_over_def in_bucket_def plain_get_input_def over_get_def)
next
  case (4 w req k d tag old c)
  then have a: "ui_IfMatch req = None \<or> view w (ui_Key req) \<noteq> None" by auto
  obtain w1 where w1: "view w1 = view w" "inv w1" "over_put be c req w =
    (let (r, w') = be_Put be c (ui_Key req) (ui_Body req) (over_options req) w1
     in (answer (\<lambda>p. \<lparr>wo_ETag = Some (pr_ETag p), wo_VersionId = None\<rparr>) r, w'))"
    using over_put_plain [OF a 4(1), of c] by blast
  have "\<exists>res w'. be_Put be c k (ui_Body req) (over_options req) w1 = (Ok res, w') \<and> inv w'
        \<and> view w' = (view w1)(k := Some (d, pr_ETag res)) \<and> pr_ETag res \<noteq> []"
  proof (cases "ui_IfMatch req")
    case None
    with 4 put_stored [OF w1(2) 4(4), of "over_options req" k c] show ?thesis by (auto simp: w1(1))
  next
    case (Some im)
    with 4 put_swapped [OF w1(2) 4(4), of "over_options req" im k old c] show ?thesis by (auto simp: w1(1))
  qed
  with 4 w1 show ?case by (auto simp: s3_over_def in_bucket_def)
next
  case (5 w req k d c)
  then have a: "ui_IfMatch req = None \<or> view w (ui_Key req) \<noteq> None" by auto
  from over_put_plain [OF a 5(1), of c] obtain w1 where w1: "view w1 = view w" "inv w1" "over_put be c req w =
    (let (r, w') = be_Put be c (ui_Key req) (ui_Body req) (over_options req) w1
     in (answer (\<lambda>p. \<lparr>wo_ETag = Some (pr_ETag p), wo_VersionId = None\<rparr>) r, w'))" by blast
  from 5 put_exists [OF w1(2) 5(4), of "over_options req" k c] w1 show ?case by (auto simp: s3_over_def in_bucket_def)
next
  case (6 w req k d im old tag c)
  then have a: "ui_IfMatch req = None \<or> view w (ui_Key req) \<noteq> None" by auto
  from over_put_plain [OF a 6(1), of c] obtain w1 where w1: "view w1 = view w" "inv w1" "over_put be c req w =
    (let (r, w') = be_Put be c (ui_Key req) (ui_Body req) (over_options req) w1
     in (answer (\<lambda>p. \<lparr>wo_ETag = Some (pr_ETag p), wo_VersionId = None\<rparr>) r, w'))" by blast
  from 6 put_stale [OF w1(2) 6(4), of "over_options req" im k old tag c] w1 show ?case by (auto simp: s3_over_def in_bucket_def)
next
  case (7 w req k d im c)
  then show ?case using over_put_missing [of req w c] by (auto simp: s3_over_def in_bucket_def)
next
  case (8 w req d err g c)
  show ?case
  proof (cases "ui_IfMatch req = None \<or> view w (ui_Key req) \<noteq> None")
    case True
    from over_put_plain [OF this 8(1), of c] obtain w1 where w1: "view w1 = view w" "inv w1" "over_put be c req w =
      (let (r, w') = be_Put be c (ui_Key req) (ui_Body req) (over_options req) w1
       in (answer (\<lambda>p. \<lparr>wo_ETag = Some (pr_ETag p), wo_VersionId = None\<rparr>) r, w'))" by blast
    from put_broken [OF w1(2) 8(3), of c "ui_Key req" "over_options req"] w1 8(2) show ?thesis
      by (auto simp: s3_over_def in_bucket_def answer_def)
  next
    case False
    then have "ui_IfMatch req \<noteq> None" "view w (ui_Key req) = None" by (auto simp del: not_None_eq)
    from over_put_missing [OF this 8(1), of c] 8(2) show ?thesis by (auto simp: s3_over_def in_bucket_def)
  qed
next
  case (9 w mo tag k old c)
  let ?opts = "\<lparr>do_VersionID = [], do_IfMatch = or_empty mo\<rparr>"
  consider "mo = None" | "mo = Some tag" "tag \<noteq> []" "view w k = None" | "mo = Some tag" "view w k = Some (old, tag)"
    using 9(2) by (elim disjE conjE) simp_all
  then show ?case
  proof cases
    case 1
    with delete_done [OF 9(1), of ?opts c k] show ?thesis
      by (auto simp: s3_over_def over_delete_def current_delete_def)
  next
    case 2
    with get_missing [OF 9(1) 2(3), of c "[]"] show ?thesis
      by (auto simp: s3_over_def over_delete_def current_delete_def fun_eq_iff)
  next
    case 3
    obtain res w1 where w1: "be_Get be c k (get_options []) w = (Ok res, w1)" "view w1 = view w" "inv w1"
      using get_found [OF 9(1) 3(2), of "[]" c] by auto
    with delete_matched [OF w1(3), of ?opts tag k old c] 3 show ?thesis
      by (auto simp: s3_over_def over_delete_def current_delete_def)
  qed
next
  case (10 w k old tag im c)
  obtain res w1 where w1: "be_Get be c k (get_options []) w = (Ok res, w1)" "view w1 = view w" "inv w1"
    using get_found [OF 10(1,2), of "[]" c] by auto
  with delete_stale [OF w1(3), of "\<lparr>do_VersionID = [], do_IfMatch = im\<rparr>" im k old tag c] 10 differD [OF 10(3)] show ?case
    by (auto simp: s3_over_def over_delete_def current_delete_def)
next
  case (11 w ks c)
  with over_delete_all_view [OF 11(1), of c ks] show ?case by (auto simp: s3_over_def in_bucket_def)
qed

end

interpretation s3mem: s3_service "s3_over bucket (mem_backend sha256 name)" bucket mem_view "mem_inv sha256"
  for sha256 bucket name
  by (rule mem.over_service)

section \<open>Batch deletes\<close>

lemma set_error_keys [simp]: "map de_Key (set_error i m es) = map de_Key es"
  by (cases "i < length es") (auto simp: set_error_def map_update list_update_same_conv list_update_beyond)

lemma note_failures_keys [simp]: "map de_Key (note_failures idx fs es) = map de_Key es"
  by (induction idx fs es rule: note_failures.induct) (auto split: option.splits)

lemma mark_failed_keys [simp]: "map de_Key (mark_failed a z m es) = map de_Key es"
proof -
  have "map de_Key (foldl (\<lambda>es i. set_error i m es) es is) = map de_Key es" for "is"
    by (induction "is" arbitrary: es) auto
  then show ?thesis by (simp add: mark_failed_def)
qed

lemma batches_keys: "map de_Key (fst (s3_delete_batches b c keys start es w)) = map de_Key es"
proof (induction b c keys start es w rule: s3_delete_batches.induct)
  case (1 b c keys start es w)
  then show ?case
    by (subst s3_delete_batches.simps) (auto simp: Let_def split: prod.splits sum.splits)
qed

context s3_service
begin

lemma batches_remove:
  assumes "sb_client b = cl" "sb_bucket b = bucket" "inv w"
  shows "\<exists>w'. s3_delete_batches b c keys start es w = (es, w') \<and> inv w' \<and>
    view w' = (\<lambda>k. if k \<in> set (drop start keys) then None else view w k)"
  using assms
proof (induction b c keys start es w rule: s3_delete_batches.induct)
  case (1 b c keys start es w)
  show ?case
  proof (cases "start \<ge> length keys")
    case True
    then show ?thesis using 1(5) by (subst s3_delete_batches.simps) simp
  next
    case False
    define stop where "stop = (if start + batchDeleteMax > length keys then length keys else start + batchDeleteMax)"
    define objs where "objs = map (\<lambda>i. keys ! i) [start..<stop]"
    have o: "objs = take (stop - start) (drop start keys)"
      unfolding objs_def using False by (intro nth_equalityI) (auto simp: stop_def)
    then have "objs \<noteq> []" "length objs \<le> 1000" using False by (auto simp: stop_def batchDeleteMax_def)
    from DeleteObjects_ok [OF 1(5) this, of c] obtain w1 where
      d: "s3_DeleteObjects cl c bucket objs w = (Inr [], w1)"
      "view w1 = (\<lambda>k. if k \<in> set objs then None else view w k)" "inv w1" by blast
    have step: "s3_delete_batches b c keys start es w = s3_delete_batches b c keys (start + batchDeleteMax) es w1"
      using False d(1) 1(3,4)
      by (subst s3_delete_batches.simps) (simp add: Let_def flip: stop_def objs_def)
    have "(Inr [], w1) = s3_DeleteObjects (sb_client b) c (sb_bucket b) objs w" using d(1) 1(3,4) by simp
    from 1(2) [OF False stop_def objs_def this refl 1(3,4) d(3)]
    obtain w' where r: "s3_delete_batches b c keys (start + batchDeleteMax) es w1 = (es, w')" "inv w'"
      "view w' = (\<lambda>k. if k \<in> set (drop (start + batchDeleteMax) keys) then None else view w1 k)"
      by auto
    have "drop start keys = objs @ drop (start + batchDeleteMax) keys"
      unfolding o using append_take_drop_id [of batchDeleteMax "drop start keys"]
      by (auto simp: stop_def add.commute)
    then have "set (drop start keys) = set objs \<union> set (drop (start + batchDeleteMax) keys)" by simp
    with r d(2) step show ?thesis by (auto simp: fun_eq_iff)
  qed
qed

lemma DeleteMany_removes:
  assumes "sb_client b = cl" "sb_bucket b = bucket" "inv w"
  shows "\<exists>w'. s3_DeleteMany b c keys w = ((map (\<lambda>k. \<lparr>de_Key = k, de_Error = []\<rparr>) keys, None), w') \<and> inv w' \<and>
    view w' = (\<lambda>k. if k \<in> set keys then None else view w k)"
  using batches_remove [OF assms, of c keys 0 "map (\<lambda>k. \<lparr>de_Key = k, de_Error = []\<rparr>) keys"]
  by (auto simp: s3_DeleteMany_def)

end

section \<open>Presigned lifetimes\<close>

lemma presign_lifetime_bounds:
  "0 < presign_lifetime m e" "presign_lifetime m e \<le> presignHardMax" "0 < m \<Longrightarrow> presign_lifetime m e \<le> m"
  by (auto simp: presign_lifetime_def presignHardMax_def Let_def)

lemma clampToCreds_bounds:
  assumes "clampToCreds now e cr = Inr life" "0 < e"
  shows "0 < life" "life \<le> e" "cr_CanExpire cr \<Longrightarrow> life \<le> time_Sub (cr_Expires cr) now"
  using assms by (auto simp: clampToCreds_def Let_def split: if_splits)

section \<open>Properties\<close>

text \<open>C8: against a client that behaves as the S3 reference documents, the S3 backend meets the
  store contract the gateway relies on: create-if-absent, compare-and-swap, conditional reads
  and deletes are answered with the contract's codes, and a refused or broken write leaves the
  bucket as it was.\<close>

theorem s3_meets_contract:
  assumes "s3_service (sb_client b) (sb_bucket b) view ok"
  shows "object_store (s3_backend b) view ok"
  using s3_service.s3_store [OF assms refl refl] .

definition sample_s3 :: "MemState S3Backend" where
  "sample_s3 = \<lparr>sb_client = s3_over ''b'' (mem_backend (\<lambda>d. []) ''b''), sb_bucket = ''b'', sb_endpoint = [],
     sb_presignMax = 0, sb_probe = ProbeList, sb_probeKey = []\<rparr>"

lemma s3_meets_contract_witness:
  "object_store (s3_backend sample_s3) mem_view (mem_inv (\<lambda>d. []))"
  by (rule s3_meets_contract) (simp add: sample_s3_def s3mem.s3_service_axioms)

text \<open>C11: a batch delete of any number of keys sends no request above the 1000 keys S3 accepts: with a
  service that accepts no more, every listed key is gone, nothing else is, and every key is
  reported in the caller's order without an error.\<close>

theorem s3_DeleteMany_removes:
  assumes "s3_service (sb_client b) (sb_bucket b) view ok" "ok w"
  shows "\<exists>w'. s3_DeleteMany b c keys w = ((map (\<lambda>k. \<lparr>de_Key = k, de_Error = []\<rparr>) keys, None), w') \<and> ok w' \<and>
    view w' = (\<lambda>k. if k \<in> set keys then None else view w k)"
  using s3_service.DeleteMany_removes [OF assms(1) refl refl assms(2)] .

lemma s3_DeleteMany_removes_witness:
  "\<exists>w'. s3_DeleteMany sample_s3 background (replicate 2500 ''a'' @ [''x'']) (mem_New zero_config 5) =
     ((map (\<lambda>k. \<lparr>de_Key = k, de_Error = []\<rparr>) (replicate 2500 ''a'' @ [''x'']), None), w')"
proof -
  have "s3_service (sb_client sample_s3) (sb_bucket sample_s3) mem_view (mem_inv (\<lambda>d. []))"
    by (simp add: sample_s3_def s3mem.s3_service_axioms)
  from s3_DeleteMany_removes [OF this mem_inv_New] show ?thesis by blast
qed

text \<open>A presigned URL is reported with a lifetime that is positive, at most seven days, at most the
  configured maximum, and never beyond the expiry of the credentials that sign it.\<close>

theorem s3_Presign_lifetime:
  assumes "s3_Presign b c key method expiry w = (Ok res, w')"
  shows "\<exists>life creds w1. s3_Retrieve (sb_client b) c w = (creds, w1) \<and>
    ps_ExpiresAt res = s3_Now (sb_client b) w' + life \<and> 0 < life \<and> life \<le> presignHardMax \<and>
    (if 0 < sb_presignMax b then life \<le> sb_presignMax b else True) \<and>
    (case creds of Inl _ \<Rightarrow> True
     | Inr cr \<Rightarrow> cr_CanExpire cr \<longrightarrow> life \<le> time_Sub (cr_Expires cr) (s3_Now (sb_client b) w1))"
proof -
  obtain creds w1 where r: "s3_Retrieve (sb_client b) c w = (creds, w1)" by fastforce
  let ?e = "presign_lifetime (sb_presignMax b) expiry"
  let ?l = "case creds of Inl _ \<Rightarrow> Inr ?e | Inr cr \<Rightarrow> clampToCreds (s3_Now (sb_client b) w1) ?e cr"
  from assms r obtain life where l: "?l = Inr life"
    by (auto simp: s3_Presign_def Let_def split: sum.splits)
  have "ps_ExpiresAt res = s3_Now (sb_client b) w' + life"
    using assms r l
    by (auto simp: s3_Presign_def Let_def split: sum.splits PresignMethod.splits prod.splits)
  moreover have "0 < life \<and> life \<le> ?e \<and> (case creds of Inl _ \<Rightarrow> True
     | Inr cr \<Rightarrow> cr_CanExpire cr \<longrightarrow> life \<le> time_Sub (cr_Expires cr) (s3_Now (sb_client b) w1))"
    using l clampToCreds_bounds [OF _ presign_lifetime_bounds(1)] presign_lifetime_bounds(1)
    by (cases creds) auto
  moreover note presign_lifetime_bounds [of "sb_presignMax b" expiry]
  ultimately show ?thesis using r by (intro exI [of _ life]) fastforce
qed

lemma s3_Presign_lifetime_witness:
  "\<exists>res. s3_Presign sample_s3 background ''k'' PresignGet 0 (mem_New zero_config 5) = (Ok res, mem_New zero_config 5) \<and>
     ps_ExpiresAt res \<le> presignHardMax"
proof -
  have p: "s3_Presign sample_s3 background ''k'' PresignGet 0 (mem_New zero_config 5) =
     (Ok \<lparr>ps_Method = PresignGet, ps_URL = ''k'', ps_Headers = [], ps_ExpiresAt = presignHardMax\<rparr>, mem_New zero_config 5)"
    by (simp add: s3_Presign_def sample_s3_def s3_over_def presign_lifetime_def clampToCreds_def Let_def)
  from s3_Presign_lifetime [OF p] p show ?thesis by (simp add: sample_s3_def s3_over_def)
qed

text \<open>Opening a store for a bound call reads nothing of the gateway's own configuration: whatever the
  default credential chain would load, the client is the one built from the binding's region,
  endpoint and keys alone, and the world is untouched.\<close>

theorem s3_bound_isolated:
  assumes "cfg_HTTPClient cfg"
  shows "s3_New (sdk\<lparr>aws_LoadDefaultConfig := load, aws_NewFromConfig := build\<rparr>) c cfg w = s3_New sdk c cfg w \<and>
    (\<exists>b. s3_New sdk c cfg w = (Ok b, w) \<and> sb_bucket b = cfg_Bucket cfg \<and>
      sb_client b = aws_New sdk \<lparr>op_Region = cfg_Region cfg, op_Credentials = (cfg_AccessKey cfg, cfg_SecretKey cfg),
        op_HTTPClient = True, op_UsePathStyle = cfg_UsePathStyle cfg, op_BaseEndpoint = opt_str (cfg_Endpoint cfg)\<rparr>)"
  using assms by (simp add: s3_New_def s3_newBound_def opt_str_def)

definition sample_sdk :: "(unit, MemState) AwsSDK" where
  "sample_sdk = \<lparr>aws_LoadDefaultConfig = (\<lambda>c region static w. (Inl (Msg ''no configuration''), w)),
     aws_NewFromConfig = (\<lambda>a e p. sb_client sample_s3), aws_New = (\<lambda>o'. sb_client sample_s3)\<rparr>"

lemma s3_bound_isolated_witness:
  "\<forall>w. \<exists>b. s3_New sample_sdk background (zero_config\<lparr>cfg_HTTPClient := True, cfg_Bucket := ''b''\<rparr>) w = (Ok b, w) \<and>
     sb_bucket b = ''b''"
proof -
  have "cfg_HTTPClient (zero_config\<lparr>cfg_HTTPClient := True, cfg_Bucket := ''b''\<rparr>)" by simp
  from s3_bound_isolated [OF this, where sdk = sample_sdk] show ?thesis
    by (simp add: zero_config_def) blast
qed

text \<open>A page S3 marks truncated without a continuation token is refused as an incomplete listing,
  never passed on as a last page; any other page carries the objects in the store's order, and
  a truncated one a token to continue from.\<close>

theorem s3_List_never_short:
  "case s3_ListObjectsV2 (sb_client b) c (s3_list_input b opts) w of
     (Inl err, w') \<Rightarrow> s3_List b c opts w = (Err (s3_mapErr ''s3.List'' err), w')
   | (Inr out, w') \<Rightarrow>
      (case s3_List b c opts w of
         (Err e, w2) \<Rightarrow> lu_IsTruncated out = Some True \<and> ReasonOf e = ReasonListingIncomplete \<and> CodeOf e = Internal
       | (Ok res, w2) \<Rightarrow> lr_Objects res = map s3_object_info (lu_Contents out) \<and>
           \<not> (lu_IsTruncated out = Some True \<and> lr_NextPageToken res = [])
       | (Panic, w2) \<Rightarrow> False)"
  by (auto simp: s3_List_def split: prod.split sum.split)

end
