(* ===== verification/Minio.thy ===== *)
theory Minio
  imports S3
begin

text \<open>
  The MinIO backend (internal/backend/minio/minio.go). The minio-go client is outside the
  repository: \<open>MinioClient\<close> has one field per call the code makes, with the option and
  result structures the code fills and reads. A listing channel is the list of what it
  delivers.
\<close>

section \<open>The client\<close>

record MinioObject =
  mi_Key :: string
  mi_ETag :: string
  mi_Size :: int
  mi_LastModified :: gotime
  mi_VersionID :: string
  mi_ContentType :: string
  mi_ContentEncoding :: string
  mi_Metadata :: "(string \<times> string list) list option"
  mi_UserMetadata :: meta
  mi_Err :: "goerr option"

datatype MinioRange = WholeObject | SetRange int int | RangeHeader string

record MinioGet =
  mg_VersionID :: string
  mg_Range :: MinioRange
  mg_MatchETagExcept :: "string option"
  mg_MatchETag :: "string option"
  mg_Modified :: "gotime option"

record MinioPut =
  mp_ContentType :: string
  mp_ContentEncoding :: string
  mp_CacheControl :: string
  mp_UserMetadata :: meta
  mp_MatchETagExcept :: "string option"
  mp_MatchETag :: "string option"

record MinioList =
  ml_Prefix :: string
  ml_Recursive :: bool
  ml_StartAfter :: string
  ml_MaxKeys :: int

record MinioUpload =
  mu_ETag :: string
  mu_VersionID :: string

text \<open>The option setters that can refuse, and the lazy object a Get returns.\<close>

datatype MinioSetter = RangeSetter int int | ExceptSetter string | MatchSetter string | ModifiedSetter gotime

record 'w MinioHandle =
  mh_Stat :: "'w \<Rightarrow> (goerr + MinioObject) \<times> 'w"
  mh_Body :: reader

record 'w MinioClient =
  mc_Set :: "MinioSetter \<Rightarrow> goerr option"
  mc_StatObject :: "ctx \<Rightarrow> string \<Rightarrow> string \<Rightarrow> string \<Rightarrow> 'w \<Rightarrow> (goerr + MinioObject) \<times> 'w"
  mc_GetObject :: "ctx \<Rightarrow> string \<Rightarrow> string \<Rightarrow> MinioGet \<Rightarrow> 'w \<Rightarrow> (goerr + 'w MinioHandle) \<times> 'w"
  mc_PutObject :: "ctx \<Rightarrow> string \<Rightarrow> string \<Rightarrow> reader \<Rightarrow> int \<Rightarrow> MinioPut \<Rightarrow> 'w \<Rightarrow> (goerr + MinioUpload) \<times> 'w"
  mc_RemoveObject :: "ctx \<Rightarrow> string \<Rightarrow> string \<Rightarrow> string \<Rightarrow> 'w \<Rightarrow> goerr option \<times> 'w"
  mc_RemoveObjects :: "ctx \<Rightarrow> string \<Rightarrow> string list \<Rightarrow> 'w \<Rightarrow> (string \<times> goerr option) list \<times> 'w"
  mc_ListObjects :: "ctx \<Rightarrow> string \<Rightarrow> MinioList \<Rightarrow> 'w \<Rightarrow> MinioObject list \<times> 'w"
  mc_CopyObject :: "ctx \<Rightarrow> string \<Rightarrow> string \<Rightarrow> string \<Rightarrow> 'w \<Rightarrow> (goerr + MinioUpload) \<times> 'w"
  mc_PresignedGetObject :: "ctx \<Rightarrow> string \<Rightarrow> string \<Rightarrow> int \<Rightarrow> 'w \<Rightarrow> (goerr + string) \<times> 'w"
  mc_PresignedPutObject :: "ctx \<Rightarrow> string \<Rightarrow> string \<Rightarrow> int \<Rightarrow> 'w \<Rightarrow> (goerr + string) \<times> 'w"
  mc_CtxErr :: "ctx \<Rightarrow> 'w \<Rightarrow> goerr option"
  mc_Now :: "'w \<Rightarrow> gotime"

record MinioOptions =
  mo_Creds :: "string \<times> string"
  mo_Secure :: bool
  mo_Region :: string
  mo_PathLookup :: bool
  mo_Transport :: bool

section \<open>Opening a backend\<close>

record 'w MinioBackend =
  mb_client :: "'w MinioClient"
  mb_bucket :: string
  mb_endpoint :: string
  mb_presignMax :: int
  mb_probe :: ProbeStrategy
  mb_probeKey :: string

text \<open>The host of an endpoint that may carry a scheme and a trailing slash, and whether it is TLS.\<close>

definition minio_endpoint :: "string \<Rightarrow> string \<times> bool" where
  "minio_endpoint endpoint =
     (let (host, secure) =
        (if has_prefix endpoint ''https://'' then (trim_prefix endpoint ''https://'', True)
         else if has_prefix endpoint ''http://'' then (trim_prefix endpoint ''http://'', False)
         else (endpoint, False))
      in (trim_suffix host ''/'', secure))"

definition minio_New :: "(string \<Rightarrow> MinioOptions \<Rightarrow> goerr + 'w MinioClient) \<Rightarrow> Config \<Rightarrow> (goerr, 'w MinioBackend) result" where
  "minio_New sdk cfg =
     (let (endpoint, secure) = minio_endpoint (cfg_Endpoint cfg);
          region = (if cfg_Region cfg = [] then ''us-east-1'' else cfg_Region cfg)
      in case sdk endpoint \<lparr>mo_Creds = (cfg_AccessKey cfg, cfg_SecretKey cfg), mo_Secure = secure, mo_Region = region,
             mo_PathLookup = cfg_UsePathStyle cfg, mo_Transport = cfg_HTTPClient cfg\<rparr> of
           Inl err \<Rightarrow> Err (Wrap InvalidArgument ''minio.New'' err)
         | Inr client \<Rightarrow> Ok \<lparr>mb_client = client, mb_bucket = cfg_Bucket cfg, mb_endpoint = endpoint,
             mb_presignMax = cfg_PresignMaxExpiry cfg, mb_probe = Strategy cfg, mb_probeKey = cfg_ProbeKey cfg\<rparr>)"

definition minio_Identity :: "'w MinioBackend \<Rightarrow> string" where
  "minio_Identity b = mb_endpoint b @ ''/'' @ mb_bucket b"

definition minio_presignHardMax :: int where "minio_presignHardMax = 7 * 24 * 3600 * 1000000000"

definition minio_Capabilities :: Capabilities where
  "minio_Capabilities = \<lparr>cap_Backend = ''minio'', cap_ConditionalPut = True, cap_ConditionalCopy = False,
     cap_AtomicRename = False, cap_Versions = True, cap_Tags = False, cap_Presign = True,
     cap_PresignMaxExpiry = minio_presignHardMax, cap_PresignAmbientCreds = True,
     cap_BatchDeleteMax = 1000, cap_NativeVerbs = []\<rparr>"

section \<open>Errors\<close>

text \<open>\<open>minio.ToErrorResponse\<close> looks at the error itself; any other error reads as the zero response.\<close>

fun tag_MinioResp :: "tag \<Rightarrow> (string \<times> int \<times> string) option" where
  "tag_MinioResp (MinioResp code status message) = Some (code, status, message)"
| "tag_MinioResp _ = None"

definition ToErrorResponse :: "goerr \<Rightarrow> string \<times> int \<times> string" where
  "ToErrorResponse err = (case first_some tag_MinioResp (lib_tags err) of None \<Rightarrow> ([], 0, []) | Some r \<Rightarrow> r)"

definition minio_mapErr :: "string \<Rightarrow> goerr \<Rightarrow> goerr" where
  "minio_mapErr op err =
     (let (code, status, message) = ToErrorResponse err in
      if code = ''NoSuchBucket'' then BucketNotFound op err
      else if status = 404 \<or> code = ''NoSuchKey'' then Wrap NotFound op err
      else if status = 304 then Wrap NotModified op err
      else if status = 412 \<or> code = ''PreconditionFailed'' then Wrap PreconditionFailed op err
      else if status = 409 then Wrap AlreadyExists op err
      else if status = 403 \<or> code = ''AccessDenied'' then Wrap PermissionDenied op err
      else if status = 429 \<or> status = 503 \<or> code = ''SlowDown'' then Wrap Throttled op err
      else Wrap Internal op err)"

definition minio_probeErr :: "string \<Rightarrow> goerr \<Rightarrow> goerr" where
  "minio_probeErr op err = (if Unreachable err then Wrap Unavailable op err else minio_mapErr op err)"

definition minio_Probe :: "'w MinioBackend \<Rightarrow> ctx \<Rightarrow> 'w \<Rightarrow> goerr option \<times> 'w" where
  "minio_Probe b c w =
     (if mb_probe b = ProbeStat
      then (case mc_StatObject (mb_client b) c (mb_bucket b) (mb_probeKey b) [] w of
          (Inr _, w) \<Rightarrow> (None, w)
        | (Inl err, w) \<Rightarrow>
            (if CodeOf (minio_mapErr ''minio.Probe'' err) \<in> {NotFound, PermissionDenied} then (None, w)
             else (Some (minio_probeErr ''minio.Probe'' err), w)))
      else (case mc_ListObjects (mb_client b) c (mb_bucket b)
               \<lparr>ml_Prefix = [], ml_Recursive = False, ml_StartAfter = [], ml_MaxKeys = 1\<rparr> w of
          (items, w) \<Rightarrow>
            (case (case items of [] \<Rightarrow> None | obj # _ \<Rightarrow> mi_Err obj) of
               Some err \<Rightarrow> (Some (minio_probeErr ''minio.Probe'' err), w)
             | None \<Rightarrow> (case mc_CtxErr (mb_client b) c w of
                 Some err \<Rightarrow> (Some (Wrap Unavailable ''minio.Probe'' err), w)
               | None \<Rightarrow> (None, w)))))"

section \<open>Metadata\<close>

definition header_get :: "(string \<times> string list) list \<Rightarrow> string \<Rightarrow> string" where
  "header_get h k = (case map_of h k of Some (v # _) \<Rightarrow> v | _ \<Rightarrow> [])"

text \<open>\<open>strings.ToLower\<close> on a header name, which is ASCII.\<close>

definition lower :: "char \<Rightarrow> char" where
  "lower ch = (let n = of_char ch :: nat in if 65 \<le> n \<and> n \<le> 90 then char_of (n + 32) else ch)"

definition meta_prefixes :: "string list" where
  "meta_prefixes = [''x-amz-meta-'', ''x-minio-meta-'']"

fun collect_meta :: "(string \<times> string list) list \<Rightarrow> meta \<Rightarrow> meta" where
  "collect_meta [] out = out"
| "collect_meta ((k, vs) # h) out = collect_meta h
     (foldl (\<lambda>out pfx. case vs of
          v # _ \<Rightarrow> if has_prefix (map lower k) pfx then AList.update (trim_prefix (map lower k) pfx) v out else out
        | [] \<Rightarrow> out) out meta_prefixes)"

definition userMetadata :: "MinioObject \<Rightarrow> meta" where
  "userMetadata mi = (if mi_UserMetadata mi \<noteq> [] then mi_UserMetadata mi
     else case mi_Metadata mi of None \<Rightarrow> [] | Some h \<Rightarrow> collect_meta h [])"

definition toObjectInfo :: "string \<Rightarrow> MinioObject \<Rightarrow> ObjectInfo" where
  "toObjectInfo key mi =
     (let oi = zero_info\<lparr>oi_Key := (if key = [] then mi_Key mi else key), oi_ETag := mi_ETag mi, oi_Size := mi_Size mi,
            oi_LastModified := mi_LastModified mi, oi_VersionID := mi_VersionID mi,
            oi_ContentType := mi_ContentType mi, oi_ContentEncoding := mi_ContentEncoding mi,
            oi_UserMetadata := userMetadata mi\<rparr>
      in case mi_Metadata mi of
           None \<Rightarrow> oi
         | Some h \<Rightarrow> oi\<lparr>oi_CacheControl := header_get h ''Cache-Control'',
             oi_ContentEncoding := (if mi_ContentEncoding mi = [] then header_get h ''Content-Encoding''
                                    else mi_ContentEncoding mi)\<rparr>)"

section \<open>Reading\<close>

definition minio_Stat :: "'w MinioBackend \<Rightarrow> ctx \<Rightarrow> string \<Rightarrow> string \<Rightarrow> 'w \<Rightarrow> (goerr, ObjectInfo) result \<times> 'w" where
  "minio_Stat b c key versionID w =
     (case mc_StatObject (mb_client b) c (mb_bucket b) key versionID w of
        (Inl err, w) \<Rightarrow> (Err (minio_mapErr ''minio.Stat'' err), w)
      | (Inr mi, w) \<Rightarrow> (Ok (toObjectInfo key mi), w))"

text \<open>The request options, or the first setter that refuses one. The end of a range is an int64 sum.\<close>

definition minio_get_options :: "'w MinioBackend \<Rightarrow> GetOptions \<Rightarrow> goerr + MinioGet" where
  "minio_get_options b opts =
     (let set = mc_Set (mb_client b);
          range = (case go_Range opts of None \<Rightarrow> WholeObject
            | Some r \<Rightarrow> if br_Length r > 0
                then SetRange (br_Offset r) (wrap64 (br_Offset r + br_Length r - 1))
                else RangeHeader (''bytes='' @ dec_int (br_Offset r) @ ''-''));
          setters = (case range of SetRange i j \<Rightarrow> [RangeSetter i j] | _ \<Rightarrow> [])
            @ (if go_IfNoneMatch opts \<noteq> [] then [ExceptSetter (go_IfNoneMatch opts)] else [])
            @ (if go_IfMatch opts \<noteq> [] then [MatchSetter (go_IfMatch opts)] else [])
            @ (if go_IfModifiedSince opts \<noteq> 0 then [ModifiedSetter (go_IfModifiedSince opts)] else [])
      in case first_some set setters of
           Some err \<Rightarrow> Inl err
         | None \<Rightarrow> Inr \<lparr>mg_VersionID = go_VersionID opts, mg_Range = range,
             mg_MatchETagExcept = opt_str (go_IfNoneMatch opts), mg_MatchETag = opt_str (go_IfMatch opts),
             mg_Modified = (if go_IfModifiedSince opts \<noteq> 0 then Some (go_IfModifiedSince opts) else None)\<rparr>)"

definition minio_Get :: "'w MinioBackend \<Rightarrow> ctx \<Rightarrow> string \<Rightarrow> GetOptions \<Rightarrow> 'w \<Rightarrow> (goerr, GetResult) result \<times> 'w" where
  "minio_Get b c key opts w =
     (case minio_get_options b opts of
        Inl err \<Rightarrow> (Err (Wrap InvalidArgument ''minio.Get'' err), w)
      | Inr mopts \<Rightarrow>
         (case mc_GetObject (mb_client b) c (mb_bucket b) key mopts w of
            (Inl err, w) \<Rightarrow> (Err (minio_mapErr ''minio.Get'' err), w)
          | (Inr obj, w) \<Rightarrow>
             (case mh_Stat obj w of
                (Inl statErr, w) \<Rightarrow>
                  (if fst (snd (ToErrorResponse statErr)) = 304
                   then (Ok \<lparr>gr_Info = zero_info\<lparr>oi_Key := key, oi_ETag := go_IfNoneMatch opts\<rparr>,
                             gr_Body = [], gr_NotModified = True\<rparr>, w)
                   else (Err (minio_mapErr ''minio.Get'' statErr), w))
              | (Inr mi, w) \<Rightarrow> (Ok \<lparr>gr_Info = toObjectInfo key mi, gr_Body = mh_Body obj, gr_NotModified = False\<rparr>, w))))"

section \<open>Writing\<close>

definition minio_Put :: "'w MinioBackend \<Rightarrow> ctx \<Rightarrow> string \<Rightarrow> reader \<Rightarrow> PutOptions \<Rightarrow> 'w
    \<Rightarrow> (goerr, PutResult) result \<times> 'w" where
  "minio_Put b c key r opts w =
     (let mopts = \<lparr>mp_ContentType = po_ContentType opts, mp_ContentEncoding = po_ContentEncoding opts,
            mp_CacheControl = po_CacheControl opts, mp_UserMetadata = po_UserMetadata opts,
            mp_MatchETagExcept = opt_str (po_IfNoneMatch opts), mp_MatchETag = opt_str (po_IfMatch opts)\<rparr>;
          size = (if po_Size opts < 0 then -1 else po_Size opts)
      in case mc_PutObject (mb_client b) c (mb_bucket b) key r size mopts w of
           (Inl err, w) \<Rightarrow> (Err (minio_mapErr ''minio.Put'' err), w)
         | (Inr info, w) \<Rightarrow> (Ok \<lparr>pr_ETag = mu_ETag info, pr_VersionID = mu_VersionID info, pr_Generation = 0\<rparr>, w))"

definition minio_remove :: "'w MinioBackend \<Rightarrow> ctx \<Rightarrow> string \<Rightarrow> string \<Rightarrow> 'w \<Rightarrow> goerr option \<times> 'w" where
  "minio_remove b c key versionID w =
     (case mc_RemoveObject (mb_client b) c (mb_bucket b) key versionID w of
        (Some err, w) \<Rightarrow> (Some (minio_mapErr ''minio.Delete'' err), w)
      | (None, w) \<Rightarrow> (None, w))"

definition minio_Delete :: "'w MinioBackend \<Rightarrow> ctx \<Rightarrow> string \<Rightarrow> DeleteOptions \<Rightarrow> 'w \<Rightarrow> goerr option \<times> 'w" where
  "minio_Delete b c key opts w =
     (if do_IfMatch opts = [] then minio_remove b c key (do_VersionID opts) w
      else case mc_StatObject (mb_client b) c (mb_bucket b) key (do_VersionID opts) w of
        (Inl err, w) \<Rightarrow>
          (if Is (Some (minio_mapErr ''minio.Delete'' err)) NotFound
           then (Some (New PreconditionFailed ''minio.Delete'' ''if-match on missing object''), w)
           else (Some (minio_mapErr ''minio.Delete'' err), w))
      | (Inr mi, w) \<Rightarrow>
          (if mi_ETag mi \<noteq> do_IfMatch opts
           then (Some (New PreconditionFailed ''minio.Delete'' ''if-match mismatch''), w)
           else minio_remove b c key (do_VersionID opts) w))"

fun note_remove_errors :: "(string \<Rightarrow> nat option) \<Rightarrow> (string \<times> goerr option) list \<Rightarrow> DeleteEntry list \<Rightarrow> DeleteEntry list" where
  "note_remove_errors idx [] entries = entries"
| "note_remove_errors idx ((name, rerr) # rs) entries = note_remove_errors idx rs
     (case rerr of None \<Rightarrow> entries
      | Some err \<Rightarrow> (case idx name of None \<Rightarrow> entries | Some i \<Rightarrow> set_error i (Error err) entries))"

text \<open>The caller's context is not used: the removal runs under a background one.\<close>

definition minio_DeleteMany :: "'w MinioBackend \<Rightarrow> ctx \<Rightarrow> string list \<Rightarrow> 'w
    \<Rightarrow> (DeleteEntry list \<times> goerr option) \<times> 'w" where
  "minio_DeleteMany b c keys w =
     (let (rerrs, w') = mc_RemoveObjects (mb_client b) background (mb_bucket b) keys w
      in ((note_remove_errors (index_keys keys) rerrs (map (\<lambda>k. \<lparr>de_Key = k, de_Error = []\<rparr>) keys), None), w'))"

section \<open>Listing, copying, presigning\<close>

definition encodeToken :: "string \<Rightarrow> string" where
  "encodeToken key = b64_encode key"

definition decodeToken :: "string \<Rightarrow> goerr + string" where
  "decodeToken token = (if token = [] then Inr []
     else case b64_decode token of
       None \<Rightarrow> Inl (Lib ''illegal base64 data'' [] [])
     | Some raw \<Rightarrow> Inr raw)"

definition minio_truncated :: "goerr \<Rightarrow> bool" where
  "minio_truncated err \<longleftrightarrow> (let (code, status, message) = ToErrorResponse err
     in code = ''NotImplemented'' \<and> message = ''Truncated response should have continuation token set'')"

text \<open>The loop over the channel: what it collected, how many items and the last key.\<close>

fun minio_list_loop :: "string \<Rightarrow> int \<Rightarrow> MinioObject list \<Rightarrow> int \<Rightarrow> string \<Rightarrow> ObjectInfo list \<Rightarrow> string list
    \<Rightarrow> goerr + (ObjectInfo list \<times> string list \<times> int \<times> string)" where
  "minio_list_loop delim limit [] count lastKey os cps = Inr (os, cps, count, lastKey)"
| "minio_list_loop delim limit (obj # items) count lastKey os cps = (case mi_Err obj of
     Some err \<Rightarrow>
       (if minio_truncated err then Inl (WithReason (Wrap Internal ''minio.List'' err) ReasonListingIncomplete [])
        else Inl (minio_mapErr ''minio.List'' err))
   | None \<Rightarrow>
      (let (os', cps') = (if delim \<noteq> [] \<and> has_suffix (mi_Key obj) ''/''
             then (os, cps @ [mi_Key obj]) else (os @ [toObjectInfo (mi_Key obj) obj], cps))
       in if limit > 0 \<and> count + 1 \<ge> limit then Inr (os', cps', count + 1, mi_Key obj)
          else minio_list_loop delim limit items (count + 1) (mi_Key obj) os' cps'))"

definition minio_List :: "'w MinioBackend \<Rightarrow> ctx \<Rightarrow> ListOptions \<Rightarrow> 'w \<Rightarrow> (goerr, ListResult) result \<times> 'w" where
  "minio_List b c opts w =
     (case decodeToken (lo_PageToken opts) of
        Inl err \<Rightarrow> (Err (Wrap InvalidArgument ''minio.List'' err), w)
      | Inr startAfter \<Rightarrow>
         (let limit = lo_Limit opts;
              (items, w') = mc_ListObjects (mb_client b) c (mb_bucket b)
                \<lparr>ml_Prefix = lo_Prefix opts, ml_Recursive = (lo_Delimiter opts = []), ml_StartAfter = startAfter,
                 ml_MaxKeys = (if limit > 0 then limit else 0)\<rparr> w
          in case minio_list_loop (lo_Delimiter opts) limit items 0 [] [] [] of
               Inl err \<Rightarrow> (Err err, w')
             | Inr (os, cps, count, lastKey) \<Rightarrow>
                (Ok \<lparr>lr_Objects = os, lr_CommonPrefixes = cps,
                     lr_NextPageToken = (if limit > 0 \<and> count \<ge> limit \<and> lastKey \<noteq> [] then encodeToken lastKey else [])\<rparr>, w')))"

definition minio_Copy :: "'w MinioBackend \<Rightarrow> ctx \<Rightarrow> string \<Rightarrow> string \<Rightarrow> CopyOptions \<Rightarrow> 'w
    \<Rightarrow> (goerr, PutResult) result \<times> 'w" where
  "minio_Copy b c srcKey dstKey opts w =
     (let copy = (\<lambda>w. case mc_CopyObject (mb_client b) c (mb_bucket b) dstKey srcKey w of
            (Inl err, w) \<Rightarrow> (Err (minio_mapErr ''minio.Copy'' err), w)
          | (Inr info, w) \<Rightarrow> (Ok \<lparr>pr_ETag = mu_ETag info, pr_VersionID = mu_VersionID info, pr_Generation = 0\<rparr>, w))
      in if co_IfNoneMatch opts \<noteq> ''*'' then copy w
         else case mc_StatObject (mb_client b) c (mb_bucket b) dstKey [] w of
           (Inr _, w) \<Rightarrow> (Err (New AlreadyExists ''minio.Copy'' ''destination already exists''), w)
         | (Inl err, w) \<Rightarrow>
             (let (code, status, message) = ToErrorResponse err
              in if status \<noteq> 404 \<and> code \<noteq> ''NoSuchKey'' then (Err (minio_mapErr ''minio.Copy'' err), w) else copy w))"

definition minio_Presign :: "'w MinioBackend \<Rightarrow> ctx \<Rightarrow> string \<Rightarrow> PresignMethod \<Rightarrow> int \<Rightarrow> 'w
    \<Rightarrow> (goerr, PresignResult) result \<times> 'w" where
  "minio_Presign b c key method expiry w =
     (let expiry = (if expiry \<le> 0 \<or> expiry > minio_presignHardMax then minio_presignHardMax else expiry);
          expiry = (if mb_presignMax b > 0 \<and> expiry > mb_presignMax b then mb_presignMax b else expiry);
          sign = (\<lambda>call. case call (mb_client b) c (mb_bucket b) key expiry w of
              (Inl err, w) \<Rightarrow> (Err (minio_mapErr ''minio.Presign'' err), w)
            | (Inr u, w) \<Rightarrow> (Ok \<lparr>ps_Method = method, ps_URL = u, ps_Headers = [],
                ps_ExpiresAt = mc_Now (mb_client b) w + expiry\<rparr>, w))
      in case method of
           PresignGet \<Rightarrow> sign mc_PresignedGetObject
         | PresignPut \<Rightarrow> sign mc_PresignedPutObject
         | PresignUnknown n \<Rightarrow> (Err (New InvalidArgument ''minio.Presign'' (''unknown presign method '' @ dec_int n)), w))"

definition minio_Native :: "ctx \<Rightarrow> string \<Rightarrow> meta \<Rightarrow> 'w \<Rightarrow> (goerr, meta) result \<times> 'w" where
  "minio_Native c verb params w = (Err (New Unsupported ''native'' verb), w)"

definition minio_Close :: "'w \<Rightarrow> goerr option \<times> 'w" where
  "minio_Close w = (None, w)"

definition minio_backend :: "'w MinioBackend \<Rightarrow> 'w Backend" where
  "minio_backend b = \<lparr>be_Name = ''minio'', be_Identity = minio_Identity b, be_Capabilities = minio_Capabilities,
     be_Probe = minio_Probe b, be_Stat = minio_Stat b, be_Get = minio_Get b, be_Put = minio_Put b,
     be_Delete = minio_Delete b, be_DeleteMany = minio_DeleteMany b, be_List = minio_List b,
     be_Copy = minio_Copy b, be_Presign = minio_Presign b, be_Native = minio_Native, be_Close = minio_Close\<rparr>"

section \<open>Paging\<close>

lemma token_roundtrip [simp]: "decodeToken (encodeToken key) = Inr key"
  using b64_roundtrip [of key] by (cases "b64_encode key = []") (auto simp: decodeToken_def encodeToken_def b64_decode_def no_breaks_def)

text \<open>
  What minio-go documents of a recursive listing: the keys under the prefix that follow
  \<open>StartAfter\<close>, in order, each once. \<open>keys\<close> is the bucket's content.
\<close>

definition lists_keys :: "'w MinioClient \<Rightarrow> string \<Rightarrow> (string \<Rightarrow> MinioObject) \<Rightarrow> string list \<Rightarrow> 'w \<Rightarrow> bool" where
  "lists_keys cl bucket item keys w \<longleftrightarrow> sorted keys \<and> distinct keys \<and> [] \<notin> set keys \<and>
     (\<forall>k. mi_Key (item k) = k \<and> mi_Err (item k) = None) \<and>
     (\<forall>c pfx after n. mc_ListObjects cl c bucket
        \<lparr>ml_Prefix = pfx, ml_Recursive = True, ml_StartAfter = after, ml_MaxKeys = n\<rparr> w =
        (map item (filter (\<lambda>k. has_prefix k pfx \<and> after < k) keys), w))"

lemma list_loop_page:
  assumes "0 < limit" "count < limit" "\<forall>k. mi_Key (item k) = k \<and> mi_Err (item k) = None"
  shows "minio_list_loop [] limit (map item ks) count lastKey os [] =
    (let n = nat (limit - count); page = take n ks
     in Inr (os @ map (\<lambda>k. toObjectInfo k (item k)) page, [], count + int (length page),
             if page = [] then lastKey else last page))"
  using assms(2)
proof (induction ks arbitrary: count lastKey os)
  case (Cons k ks)
  show ?case
  proof (cases "count + 1 \<ge> limit")
    case True
    then have "nat (limit - count) = Suc 0" using Cons.prems by simp
    with True assms(1,3) show ?thesis by simp
  next
    case False
    then have n: "nat (limit - count) = Suc (nat (limit - (count + 1)))" "nat (limit - (count + 1)) > 0" by simp_all
    with False Cons.IH [of "count + 1" k "os @ [toObjectInfo k (item k)]"] assms(3)
    show ?thesis by (simp add: Let_def)
  qed
qed simp

lemma filter_after:
  fixes xs ys :: "'a::linorder list"
  assumes "sorted (xs @ ys)" "distinct (xs @ ys)" "xs \<noteq> []"
  shows "filter (\<lambda>k. last xs < k) (xs @ ys) = ys"
proof -
  have "\<forall>x \<in> set xs. \<not> last xs < x"
  proof -
    obtain as a where "xs = as @ [a]" using assms(3) by (cases xs rule: rev_cases) auto
    then show ?thesis using assms(1) by (auto simp: sorted_append)
  qed
  moreover have "\<forall>y \<in> set ys. last xs < y"
    using assms by (metis disjoint_iff distinct_append last_in_set order_le_less sorted_append)
  ultimately show ?thesis by (simp add: filter_empty_conv)
qed

lemma remaining_after_page:
  fixes keys :: "string list" and P :: "string \<Rightarrow> bool" and after :: string
  assumes "sorted keys" "distinct keys" "0 < n"
  defines "rem \<equiv> filter (\<lambda>k. P k \<and> after < k) keys"
  assumes "rem \<noteq> []"
  shows "filter (\<lambda>k. P k \<and> last (take n rem) < k) keys = drop n rem"
proof -
  let ?z = "last (take n rem)"
  have z: "?z \<in> set (take n rem)" using assms(3,5) by (intro last_in_set) auto
  then have "after < ?z" by (auto dest!: in_set_takeD simp: rem_def)
  then have "filter (\<lambda>k. P k \<and> ?z < k) keys = filter (\<lambda>k. ?z < k) rem"
    unfolding rem_def filter_filter by (intro filter_cong) auto
  also have "\<dots> = drop n rem"
  proof -
    have "sorted (take n rem @ drop n rem)" "distinct (take n rem @ drop n rem)"
      using assms(1,2) by (simp_all add: rem_def sorted_filter [of "\<lambda>x. x", simplified])
    from filter_after [OF this] assms(3,5) show ?thesis by simp
  qed
  finally show ?thesis .
qed

lemma minio_pages_from:
  assumes "lists_keys (mb_client b) (mb_bucket b) item keys w" "0 < lo_Limit opts" "lo_Delimiter opts = []"
    and "decodeToken (lo_PageToken opts) = Inr after"
    and "length (filter (\<lambda>k. has_prefix k (lo_Prefix opts) \<and> after < k) keys) < fuel"
  shows "list_pages fuel (minio_backend b) c opts w =
    Some (map (\<lambda>k. toObjectInfo k (item k)) (filter (\<lambda>k. has_prefix k (lo_Prefix opts) \<and> after < k) keys), [])"
  using assms
proof (induction fuel arbitrary: opts after)
  case (Suc fuel)
  let ?P = "\<lambda>k. has_prefix k (lo_Prefix opts)"
  let ?rem = "filter (\<lambda>k. ?P k \<and> after < k) keys"
  let ?n = "nat (lo_Limit opts)"
  let ?page = "take ?n ?rem"
  have l: "sorted keys" "distinct keys" "[] \<notin> set keys" "\<forall>k. mi_Key (item k) = k \<and> mi_Err (item k) = None"
    "mc_ListObjects (mb_client b) c (mb_bucket b) \<lparr>ml_Prefix = lo_Prefix opts, ml_Recursive = True,
       ml_StartAfter = after, ml_MaxKeys = lo_Limit opts\<rparr> w = (map item ?rem, w)"
    using Suc.prems(1) by (auto simp: lists_keys_def)
  have loop: "minio_list_loop [] (lo_Limit opts) (map item ?rem) 0 [] [] [] =
    Inr (map (\<lambda>k. toObjectInfo k (item k)) ?page, [], int (length ?page), if ?page = [] then [] else last ?page)"
    using list_loop_page [of "lo_Limit opts" 0 item ?rem "[]" "[]"] l(4) Suc.prems(2) by (simp add: Let_def)
  have page: "be_List (minio_backend b) c opts w =
    (Ok \<lparr>lr_Objects = map (\<lambda>k. toObjectInfo k (item k)) ?page, lr_CommonPrefixes = [],
        lr_NextPageToken = (if int (length ?page) \<ge> lo_Limit opts \<and> (if ?page = [] then [] else last ?page) \<noteq> []
          then encodeToken (last ?page) else [])\<rparr>, w)"
    using Suc.prems(2,3,4) l(5) loop by (simp add: minio_backend_def minio_List_def Let_def)
  show ?case
  proof (cases "?rem = [] \<or> length ?rem < ?n")
    case True
    then have "take ?n ?rem = ?rem" "int (length ?rem) < lo_Limit opts" using Suc.prems(2) by auto
    with page show ?thesis by simp
  next
    case False
    then have n: "0 < ?n" "length ?page = ?n" "?page \<noteq> []" using Suc.prems(2) by auto
    have "last ?page \<in> set keys" using last_in_set [OF n(3)] by (auto dest!: in_set_takeD)
    then have ne: "last ?page \<noteq> []" using l(3) by metis
    then have tok: "encodeToken (last ?page) \<noteq> []"
      using token_roundtrip [of "last ?page"] by (auto simp: decodeToken_def)
    let ?opts = "opts\<lparr>lo_PageToken := encodeToken (last ?page)\<rparr>"
    have rem': "filter (\<lambda>k. ?P k \<and> last ?page < k) keys = drop ?n ?rem"
      using remaining_after_page [OF l(1,2) n(1), of ?P after] False by simp
    have len: "length (filter (\<lambda>k. has_prefix k (lo_Prefix ?opts) \<and> last ?page < k) keys) < fuel"
    proof -
      have "length (drop ?n ?rem) < length ?rem" using n(1) False by (cases ?rem) auto
      with Suc.prems(5) have "length (drop ?n ?rem) < fuel" by linarith
      then show ?thesis using rem' by simp
    qed
    have "list_pages fuel (minio_backend b) c ?opts w = Some (map (\<lambda>k. toObjectInfo k (item k)) (drop ?n ?rem), [])"
      using Suc.IH [OF Suc.prems(1) _ _ _ len] Suc.prems(2,3) rem' by simp
    with page n ne tok show ?thesis
      by (simp flip: map_append)
  qed
qed simp

section \<open>Properties\<close>

text \<open>C31: following the page tokens of a flat MinIO listing ends within one page more than there are
  keys and yields every key under the prefix once, in order: the token resumes after exactly
  the last key of its page.\<close>

theorem minio_pages_complete:
  assumes "lists_keys (mb_client b) (mb_bucket b) item keys w" "0 < lo_Limit opts" "lo_Delimiter opts = []"
    and "lo_PageToken opts = []" "length keys < fuel"
  shows "list_pages fuel (minio_backend b) c opts w =
    Some (map (\<lambda>k. toObjectInfo k (item k)) (filter (\<lambda>k. has_prefix k (lo_Prefix opts)) keys), [])"
proof -
  have "[] \<notin> set keys" using assms(1) by (simp add: lists_keys_def)
  then have f: "filter (\<lambda>k. has_prefix k (lo_Prefix opts) \<and> [] < k) keys = filter (\<lambda>k. has_prefix k (lo_Prefix opts)) keys"
  proof (intro filter_cong refl)
    fix k
    assume "k \<in> set keys"
    with \<open>[] \<notin> set keys\<close> show "(has_prefix k (lo_Prefix opts) \<and> [] < k) = has_prefix k (lo_Prefix opts)"
      by (cases k) auto
  qed
  have "decodeToken (lo_PageToken opts) = Inr []" using assms(4) by (simp add: decodeToken_def)
  from minio_pages_from [OF assms(1-3) this, of fuel c] f assms(5) show ?thesis
    by (simp add: order.strict_trans1 [OF length_filter_le])
qed

definition sample_item :: "string \<Rightarrow> MinioObject" where
  "sample_item k = \<lparr>mi_Key = k, mi_ETag = ''e'', mi_Size = 1, mi_LastModified = 0, mi_VersionID = [],
     mi_ContentType = [], mi_ContentEncoding = [], mi_Metadata = None, mi_UserMetadata = [], mi_Err = None\<rparr>"

definition sample_refusal :: goerr where
  "sample_refusal = Lib ''At least one of the pre-conditions you specified did not hold''
     [MinioResp ''PreconditionFailed'' 412 ''At least one of the pre-conditions you specified did not hold''] []"

text \<open>A bucket of two keys that refuses every conditional write.\<close>

definition sample_minio :: "unit MinioBackend" where
  "sample_minio = \<lparr>mb_client = \<lparr>mc_Set = (\<lambda>x. None), mc_StatObject = (\<lambda>c b k v w. (Inr (sample_item k), w)),
       mc_GetObject = (\<lambda>c b k mopts w. (Inl (Msg ''no''), w)),
       mc_PutObject = (\<lambda>c b k r n mopts w. (if mp_MatchETagExcept mopts = None \<and> mp_MatchETag mopts = None
          then Inr \<lparr>mu_ETag = ''e'', mu_VersionID = []\<rparr> else Inl sample_refusal, w)),
       mc_RemoveObject = (\<lambda>c b k v w. (None, w)), mc_RemoveObjects = (\<lambda>c b ks w. ([], w)),
       mc_ListObjects = (\<lambda>c b l w. (map sample_item
          (filter (\<lambda>k. has_prefix k (ml_Prefix l) \<and> ml_StartAfter l < k) [''a'', ''b'']), w)),
       mc_CopyObject = (\<lambda>c b d s w. (Inl (Msg ''no''), w)),
       mc_PresignedGetObject = (\<lambda>c b k n w. (Inl (Msg ''no''), w)),
       mc_PresignedPutObject = (\<lambda>c b k n w. (Inl (Msg ''no''), w)),
       mc_CtxErr = (\<lambda>c w. None), mc_Now = (\<lambda>w. 0)\<rparr>,
     mb_bucket = ''b'', mb_endpoint = ''localhost:9000'', mb_presignMax = 0, mb_probe = ProbeList, mb_probeKey = []\<rparr>"

lemma minio_pages_complete_witness:
  "list_pages 3 (minio_backend sample_minio) background
     \<lparr>lo_Prefix = [], lo_Delimiter = [], lo_PageToken = [], lo_Limit = 1\<rparr> () =
   Some ([toObjectInfo ''a'' (sample_item ''a''), toObjectInfo ''b'' (sample_item ''b'')], [])"
proof -
  have l: "lists_keys (mb_client sample_minio) (mb_bucket sample_minio) sample_item [''a'', ''b''] ()"
    by (auto simp: lists_keys_def sample_minio_def sample_item_def)
  from minio_pages_complete [OF l, of "\<lparr>lo_Prefix = [], lo_Delimiter = [], lo_PageToken = [], lo_Limit = 1\<rparr>" 3 background]
  show ?thesis by simp
qed

text \<open>A create-if-absent the MinIO server refuses is reported as a failed precondition, where the S3
  backend reports for the same refusal that the object already exists: the codes of the two
  stores differ on the condition their contract names.\<close>

theorem minio_create_if_absent_code:
  assumes "po_IfNoneMatch opts = ''*''" "ToErrorResponse e = (''PreconditionFailed'', 412, msg)"
    and "\<And>n mopts. mp_MatchETagExcept mopts = Some ''*'' \<Longrightarrow>
      mc_PutObject (mb_client b) c (mb_bucket b) key r n mopts w = (Inl e, w')"
    and "precondition_failed e'"
    and "\<And>req. ui_IfNoneMatch req = Some ''*'' \<Longrightarrow> s3_Upload (sb_client b') c req v = (Inl e', v')"
  shows "minio_Put b c key r opts w = (Err (Wrap PreconditionFailed ''minio.Put'' e), w') \<and>
    s3_Put b' c key r opts v = (Err (Wrap AlreadyExists ''s3.Put'' e'), v')"
  using assms mapErr_precondition [OF assms(4), of "''s3.Put''"]
  by (simp add: minio_Put_def minio_mapErr_def s3_Put_def Is_def Let_def s3_put_input_def)

definition create_options :: PutOptions where
  "create_options = \<lparr>po_ContentType = [], po_ContentEncoding = [], po_CacheControl = [], po_UserMetadata = [],
     po_IfNoneMatch = ''*'', po_IfMatch = [], po_Size = -1\<rparr>"

definition full_s3 :: "unit S3Backend" where
  "full_s3 = \<lparr>sb_client = (undefined :: unit S3Client)\<lparr>s3_Upload := (\<lambda>c req w. (Inl (answer_error ''PreconditionFailed'' 412), w))\<rparr>,
     sb_bucket = ''b'', sb_endpoint = [], sb_presignMax = 0, sb_probe = ProbeList, sb_probeKey = []\<rparr>"

lemma minio_create_if_absent_code_witness:
  "\<exists>e e'. minio_Put sample_minio background ''a'' [] create_options () = (Err e, ()) \<and> CodeOf e = PreconditionFailed \<and>
     s3_Put full_s3 background ''a'' [] create_options () = (Err e', ()) \<and> CodeOf e' = AlreadyExists"
proof -
  have o: "po_IfNoneMatch create_options = ''*''" by (simp add: create_options_def)
  have r: "\<exists>m. ToErrorResponse sample_refusal = (''PreconditionFailed'', 412, m)"
    by (simp add: ToErrorResponse_def sample_refusal_def first_some_def List.map_filter_simps)
  then obtain m where r: "ToErrorResponse sample_refusal = (''PreconditionFailed'', 412, m)" by blast
  have p: "mp_MatchETagExcept mopts = Some ''*'' \<Longrightarrow>
      mc_PutObject (mb_client sample_minio) background (mb_bucket sample_minio) ''a'' [] n mopts () = (Inl sample_refusal, ())"
    for n mopts by (simp add: sample_minio_def)
  have u: "s3_Upload (sb_client full_s3) background req () = (Inl (answer_error ''PreconditionFailed'' 412), ())" for req
    by (simp add: full_s3_def)
  from minio_create_if_absent_code [OF o r p answer_error_kind(2) u] show ?thesis by simp
qed

text \<open>A conditional delete never removes an object whose current ETag is another one or that is
  gone: the store is asked to remove nothing and the precondition fails.\<close>

theorem minio_Delete_guarded:
  assumes "do_IfMatch opts \<noteq> []" "mc_StatObject (mb_client b) c (mb_bucket b) key (do_VersionID opts) w = (r, w')"
    and "case r of Inr mi \<Rightarrow> mi_ETag mi \<noteq> do_IfMatch opts
      | Inl e \<Rightarrow> CodeOf (minio_mapErr ''minio.Delete'' e) = NotFound"
  shows "\<exists>e. minio_Delete b c key opts w = (Some e, w') \<and> CodeOf e = PreconditionFailed"
  using assms by (auto simp: minio_Delete_def Is_def split: sum.splits)

lemma minio_Delete_guarded_witness:
  "\<exists>e. minio_Delete sample_minio background ''a'' \<lparr>do_VersionID = [], do_IfMatch = ''old''\<rparr> () = (Some e, ()) \<and>
     CodeOf e = PreconditionFailed"
  using minio_Delete_guarded [of "\<lparr>do_VersionID = [], do_IfMatch = ''old''\<rparr>" sample_minio background "''a''" "()"
      "Inr (sample_item ''a'')" "()"]
  by (simp add: sample_minio_def sample_item_def)

end
