(* ===== verification/Gcs.thy ===== *)
theory Gcs
  imports S3 NetIP
begin

text \<open>
  The Google Cloud Storage backend (internal/backend/gcs/gcs.go). The storage SDK is outside
  the repository: \<open>GcsClient\<close> has one field per call the code makes on a client, a
  bucket or an object handle. A handle is a key with the generation it is pinned to and the
  precondition it carries; a writer is its handle, its attributes and what was written to it.
\<close>

section \<open>The SDK\<close>

record GcsAttrs =
  ga_Name :: string
  ga_Prefix :: string
  ga_Etag :: string
  ga_Size :: int
  ga_Updated :: gotime
  ga_Generation :: int
  ga_Metageneration :: int
  ga_ContentType :: string
  ga_ContentEncoding :: string
  ga_CacheControl :: string
  ga_Metadata :: meta

datatype GcsCondition = DoesNotExist | GenerationMatch int

record GcsHandle =
  gh_Key :: string
  gh_Generation :: "int option"
  gh_If :: "GcsCondition option"

record GcsWriter =
  gw_Object :: GcsHandle
  gw_ContentType :: string
  gw_ContentEncoding :: string
  gw_CacheControl :: string
  gw_Metadata :: meta
  gw_Written :: bytes

record GcsSign =
  gs_Method :: string
  gs_Expires :: gotime

text \<open>
  \<open>gc_First\<close> is the first step of an unfiltered listing; the end of an empty one is an
  error that carries \<open>IteratorDone\<close>.
\<close>

record 'w GcsClient =
  gc_Attrs :: "ctx \<Rightarrow> string \<Rightarrow> GcsHandle \<Rightarrow> 'w \<Rightarrow> (goerr + GcsAttrs) \<times> 'w"
  gc_NewRangeReader :: "ctx \<Rightarrow> string \<Rightarrow> GcsHandle \<Rightarrow> int \<Rightarrow> int \<Rightarrow> 'w \<Rightarrow> (goerr + reader) \<times> 'w"
  gc_Write :: "ctx \<Rightarrow> string \<Rightarrow> GcsWriter \<Rightarrow> bytes \<Rightarrow> 'w \<Rightarrow> goerr option \<times> 'w"
  gc_CloseWriter :: "ctx \<Rightarrow> string \<Rightarrow> GcsWriter \<Rightarrow> 'w \<Rightarrow> (goerr + GcsAttrs) \<times> 'w"
  gc_Delete :: "ctx \<Rightarrow> string \<Rightarrow> GcsHandle \<Rightarrow> 'w \<Rightarrow> goerr option \<times> 'w"
  gc_First :: "ctx \<Rightarrow> string \<Rightarrow> 'w \<Rightarrow> (goerr + GcsAttrs) \<times> 'w"
  gc_NextPage :: "ctx \<Rightarrow> string \<Rightarrow> string \<Rightarrow> string \<Rightarrow> int \<Rightarrow> string \<Rightarrow> 'w \<Rightarrow> (goerr + (GcsAttrs list \<times> string)) \<times> 'w"
  gc_CopierRun :: "ctx \<Rightarrow> string \<Rightarrow> GcsHandle \<Rightarrow> GcsHandle \<Rightarrow> 'w \<Rightarrow> (goerr + GcsAttrs) \<times> 'w"
  gc_SignedURL :: "string \<Rightarrow> string \<Rightarrow> GcsSign \<Rightarrow> 'w \<Rightarrow> (goerr + string) \<times> 'w"
  gc_Close :: "'w \<Rightarrow> goerr option \<times> 'w"
  gc_Now :: "'w \<Rightarrow> gotime"

text \<open>The HTTP client of a bound call: a fixed bearer, or a service account's token source.\<close>

datatype 'j GcsHTTP = StaticBearer string | JWTClient 'j

datatype 'j GcsOption = WithCredentialsFile string | WithHTTPClient "'j GcsHTTP" | WithoutAuthentication
  | WithDiscardLogger | WithDisabledClientMetrics | WithEndpoint string

record ('j, 'w) GcsSDK =
  gk_JWTConfigFromJSON :: "bytes \<Rightarrow> goerr + 'j"
  gk_NewClient :: "ctx \<Rightarrow> 'j GcsOption list \<Rightarrow> 'w \<Rightarrow> (goerr + 'w GcsClient) \<times> 'w"

section \<open>Errors\<close>

fun tag_GoogleApi :: "tag \<Rightarrow> int option" where
  "tag_GoogleApi (GoogleApi n) = Some n"
| "tag_GoogleApi _ = None"

definition gcs_mapErr :: "string \<Rightarrow> goerr \<Rightarrow> goerr" where
  "gcs_mapErr op err =
     (if has_tag err GcsBucketNotExist then BucketNotFound op err
      else if has_tag err GcsObjectNotExist then Wrap NotFound op err
      else case first_some tag_GoogleApi (err_tags err) of
        None \<Rightarrow> Wrap Internal op err
      | Some code \<Rightarrow>
          if code = 304 then Wrap NotModified op err
          else if code = 401 \<or> code = 403 then Wrap PermissionDenied op err
          else if code = 404 then Wrap NotFound op err
          else if code = 409 then Wrap AlreadyExists op err
          else if code = 412 then Wrap PreconditionFailed op err
          else if code = 429 \<or> code = 503 then Wrap Throttled op err
          else Wrap Internal op err)"

definition gcs_probeErr :: "string \<Rightarrow> goerr \<Rightarrow> goerr" where
  "gcs_probeErr op err = (if Unreachable err then Wrap Unavailable op err else gcs_mapErr op err)"

section \<open>Opening a backend\<close>

record 'w GcsBackend =
  gb_client :: "'w GcsClient"
  gb_bucket :: string
  gb_name :: string
  gb_cfg :: Config

definition gcs_maxPresignExpiry :: int where "gcs_maxPresignExpiry = 7 * 24 * 3600 * 1000000000"

definition defaultListPageSize :: int where "defaultListPageSize = 1000"

definition gcs_batchDeleteMax :: int where "gcs_batchDeleteMax = 100"

definition boundOptions :: "('j, 'w) GcsSDK \<Rightarrow> Config \<Rightarrow> goerr + 'j GcsOption list" where
  "boundOptions sdk cfg =
     (case (if cfg_GCSAccessToken cfg \<noteq> [] then Inr (StaticBearer (cfg_GCSAccessToken cfg))
            else case gk_JWTConfigFromJSON sdk (cfg_GCSCredentialsJSON cfg) of
              Inl err \<Rightarrow> Inl (WithReason (Wrap InvalidArgument ''gcs.New'' err) ReasonBindingInvalid [])
            | Inr jwt \<Rightarrow> Inr (JWTClient jwt)) of
        Inl err \<Rightarrow> Inl err
      | Inr client \<Rightarrow> Inr ([WithHTTPClient client, WithoutAuthentication, WithDiscardLogger, WithDisabledClientMetrics]
          @ (if cfg_Endpoint cfg \<noteq> []
             then [WithEndpoint (trim_suffix (cfg_Endpoint cfg) ''/'' @ ''/storage/v1/'')] else [])))"

definition gcs_New :: "('j, 'w) GcsSDK \<Rightarrow> ctx \<Rightarrow> Config \<Rightarrow> 'w \<Rightarrow> (goerr, 'w GcsBackend) result \<times> 'w" where
  "gcs_New sdk c cfg w =
     (case (if cfg_HTTPClient cfg then boundOptions sdk cfg
            else Inr (if cfg_GCSCredentialsFile cfg \<noteq> [] then [WithCredentialsFile (cfg_GCSCredentialsFile cfg)] else [])) of
        Inl err \<Rightarrow> (Err err, w)
      | Inr opts \<Rightarrow> (case gk_NewClient sdk c opts w of
           (Inl err, w) \<Rightarrow> (Err (gcs_mapErr ''new'' err), w)
         | (Inr client, w) \<Rightarrow> (Ok \<lparr>gb_client = client, gb_bucket = cfg_Bucket cfg, gb_name = ''gcs'', gb_cfg = cfg\<rparr>, w)))"

definition gcs_Identity :: "'w GcsBackend \<Rightarrow> string" where
  "gcs_Identity b = cfg_Bucket (gb_cfg b)"

definition gcs_Capabilities :: Capabilities where
  "gcs_Capabilities = \<lparr>cap_Backend = ''gcs'', cap_ConditionalPut = True, cap_ConditionalCopy = True,
     cap_AtomicRename = False, cap_Versions = True, cap_Tags = False, cap_Presign = True,
     cap_PresignMaxExpiry = gcs_maxPresignExpiry, cap_PresignAmbientCreds = False,
     cap_BatchDeleteMax = gcs_batchDeleteMax, cap_NativeVerbs = []\<rparr>"

section \<open>Reading\<close>

abbreviation live :: "string \<Rightarrow> GcsHandle" where
  "live key \<equiv> \<lparr>gh_Key = key, gh_Generation = None, gh_If = None\<rparr>"

text \<open>A version identifier is a generation in decimal.\<close>

definition gcs_obj :: "string \<Rightarrow> string \<Rightarrow> string \<Rightarrow> goerr + GcsHandle" where
  "gcs_obj op key versionID =
     (if versionID = [] then Inr (live key)
      else case atoi versionID of
        None \<Rightarrow> Inl (Wrap InvalidArgument op (Lib (''strconv.ParseInt: parsing '' @ quoted versionID) [] []))
      | Some gen \<Rightarrow> Inr ((live key)\<lparr>gh_Generation := Some gen\<rparr>))"

definition infoFromAttrs :: "string \<Rightarrow> GcsAttrs \<Rightarrow> ObjectInfo" where
  "infoFromAttrs key a = \<lparr>oi_Key = key, oi_ETag = ga_Etag a, oi_WeakETag = False, oi_Size = ga_Size a,
     oi_LastModified = ga_Updated a, oi_VersionID = dec_int (ga_Generation a), oi_Generation = ga_Generation a,
     oi_MetaGeneration = ga_Metageneration a, oi_ContentType = ga_ContentType a,
     oi_ContentEncoding = ga_ContentEncoding a, oi_CacheControl = ga_CacheControl a,
     oi_UserMetadata = ga_Metadata a\<rparr>"

definition gcs_Stat :: "'w GcsBackend \<Rightarrow> ctx \<Rightarrow> string \<Rightarrow> string \<Rightarrow> 'w \<Rightarrow> (goerr, ObjectInfo) result \<times> 'w" where
  "gcs_Stat b c key versionID w =
     (case gcs_obj ''stat'' key versionID of
        Inl err \<Rightarrow> (Err err, w)
      | Inr h \<Rightarrow> (case gc_Attrs (gb_client b) c (gb_bucket b) h w of
           (Inl err, w) \<Rightarrow> (Err (gcs_mapErr ''stat'' err), w)
         | (Inr a, w) \<Rightarrow> (Ok (infoFromAttrs key a), w)))"

definition objectErr :: "'w GcsBackend \<Rightarrow> ctx \<Rightarrow> string \<Rightarrow> goerr \<Rightarrow> 'w \<Rightarrow> goerr \<times> 'w" where
  "objectErr b c op err w =
     (if has_tag err GcsObjectNotExist
      then (case gc_First (gb_client b) c (gb_bucket b) w of
          (Inl lerr, w) \<Rightarrow> if has_tag lerr GcsBucketNotExist then (BucketNotFound op lerr, w) else (gcs_mapErr op err, w)
        | (Inr _, w) \<Rightarrow> (gcs_mapErr op err, w))
      else (gcs_mapErr op err, w))"

text \<open>The offset and length of a range read; \<open>-1\<close> reads to the end.\<close>

definition gcs_window :: "GetOptions \<Rightarrow> int \<times> int" where
  "gcs_window opts = (case go_Range opts of
      None \<Rightarrow> (0, -1)
    | Some r \<Rightarrow> (br_Offset r, if br_Length r \<le> 0 then -1 else br_Length r))"

definition gcs_Get :: "'w GcsBackend \<Rightarrow> ctx \<Rightarrow> string \<Rightarrow> GetOptions \<Rightarrow> 'w \<Rightarrow> (goerr, GetResult) result \<times> 'w" where
  "gcs_Get b c key opts w =
     (case gcs_obj ''get'' key (go_VersionID opts) of
        Inl err \<Rightarrow> (Err err, w)
      | Inr h \<Rightarrow>
         (case gc_Attrs (gb_client b) c (gb_bucket b) h w of
            (Inl err, w) \<Rightarrow> (let (e, w) = objectErr b c ''get'' err w in (Err e, w))
          | (Inr a, w) \<Rightarrow>
             (let info = infoFromAttrs key a; unmodified = (Ok \<lparr>gr_Info = info, gr_Body = [], gr_NotModified = True\<rparr>, w)
              in if go_IfNoneMatch opts \<noteq> [] \<and> ga_Etag a = go_IfNoneMatch opts then unmodified
                 else if go_IfModifiedSince opts \<noteq> 0 \<and> \<not> go_IfModifiedSince opts < ga_Updated a then unmodified
                 else if go_IfMatch opts \<noteq> [] \<and> ga_Etag a \<noteq> go_IfMatch opts
                 then (Err (New PreconditionFailed ''get'' ''if-match etag mismatch''), w)
                 else
                  (let (offset, len) = gcs_window opts;
                       h = (if go_VersionID opts = [] then h\<lparr>gh_If := Some (GenerationMatch (ga_Generation a))\<rparr> else h)
                   in case gc_NewRangeReader (gb_client b) c (gb_bucket b) h offset len w of
                        (Inl err, w) \<Rightarrow> (let (e, w) = objectErr b c ''get'' err w in (Err e, w))
                      | (Inr rc, w) \<Rightarrow> (Ok \<lparr>gr_Info = info, gr_Body = rc, gr_NotModified = False\<rparr>, w)))))"

section \<open>Writing\<close>

definition gcs_put_result :: "GcsAttrs \<Rightarrow> PutResult" where
  "gcs_put_result a = \<lparr>pr_ETag = ga_Etag a, pr_VersionID = dec_int (ga_Generation a), pr_Generation = ga_Generation a\<rparr>"

text \<open>The precondition of a write, from the caller's intent.\<close>

definition gcs_condition :: "'w GcsBackend \<Rightarrow> ctx \<Rightarrow> string \<Rightarrow> PutOptions \<Rightarrow> 'w \<Rightarrow> (goerr + GcsHandle) \<times> 'w" where
  "gcs_condition b c key opts w =
     (if po_IfNoneMatch opts = ''*'' then (Inr ((live key)\<lparr>gh_If := Some DoesNotExist\<rparr>), w)
      else if po_IfMatch opts \<noteq> []
      then (case gc_Attrs (gb_client b) c (gb_bucket b) (live key) w of
          (Inl err, w) \<Rightarrow> (Inl (gcs_mapErr ''put'' err), w)
        | (Inr a, w) \<Rightarrow>
            if ga_Etag a \<noteq> po_IfMatch opts then (Inl (New PreconditionFailed ''put'' ''if-match etag mismatch''), w)
            else (Inr ((live key)\<lparr>gh_If := Some (GenerationMatch (ga_Generation a))\<rparr>), w))
      else (Inr (live key), w))"

text \<open>
  \<open>io.Copy\<close> hands the writer what the reader delivers and fails with the writer's error or
  the reader's; the writer is closed either way.
\<close>

definition gcs_Put :: "'w GcsBackend \<Rightarrow> ctx \<Rightarrow> string \<Rightarrow> reader \<Rightarrow> PutOptions \<Rightarrow> 'w
    \<Rightarrow> (goerr, PutResult) result \<times> 'w" where
  "gcs_Put b c key r opts w =
     (case gcs_condition b c key opts w of
        (Inl err, w) \<Rightarrow> (Err err, w)
      | (Inr h, w) \<Rightarrow>
         (let writer = \<lparr>gw_Object = h, gw_ContentType = po_ContentType opts, gw_ContentEncoding = po_ContentEncoding opts,
                gw_CacheControl = po_CacheControl opts, gw_Metadata = po_UserMetadata opts, gw_Written = []\<rparr>;
              (d, rerr) = read_all r;
              (werr, w) = gc_Write (gb_client b) c (gb_bucket b) writer d w;
              (closed, w) = gc_CloseWriter (gb_client b) c (gb_bucket b) (writer\<lparr>gw_Written := d\<rparr>) w
          in case (case werr of Some e \<Rightarrow> Some e | None \<Rightarrow> map_option fst rerr) of
               Some err \<Rightarrow> (Err (gcs_mapErr ''put'' err), w)
             | None \<Rightarrow> (case closed of
                  Inl err \<Rightarrow>
                    (if po_IfNoneMatch opts = ''*'' \<and> CodeOf (gcs_mapErr ''put'' err) = PreconditionFailed
                     then (Err (Wrap AlreadyExists ''put'' err), w)
                     else (Err (gcs_mapErr ''put'' err), w))
                | Inr a \<Rightarrow> (Ok (gcs_put_result a), w))))"

text \<open>A delete whose object is gone is done.\<close>

definition gcs_remove :: "'w GcsBackend \<Rightarrow> ctx \<Rightarrow> GcsHandle \<Rightarrow> 'w \<Rightarrow> goerr option \<times> 'w" where
  "gcs_remove b c h w = (case gc_Delete (gb_client b) c (gb_bucket b) h w of
      (Some err, w) \<Rightarrow> (if has_tag err GcsObjectNotExist then (None, w) else (Some (gcs_mapErr ''delete'' err), w))
    | (None, w) \<Rightarrow> (None, w))"

definition gcs_Delete :: "'w GcsBackend \<Rightarrow> ctx \<Rightarrow> string \<Rightarrow> DeleteOptions \<Rightarrow> 'w \<Rightarrow> goerr option \<times> 'w" where
  "gcs_Delete b c key opts w =
     (case gcs_obj ''delete'' key (do_VersionID opts) of
        Inl err \<Rightarrow> (Some err, w)
      | Inr h \<Rightarrow>
         (if do_IfMatch opts = [] then gcs_remove b c h w
          else case gc_Attrs (gb_client b) c (gb_bucket b) (live key) w of
            (Inl err, w) \<Rightarrow> (if has_tag err GcsObjectNotExist then (None, w) else (Some (gcs_mapErr ''delete'' err), w))
          | (Inr a, w) \<Rightarrow>
              (if ga_Etag a \<noteq> do_IfMatch opts
               then (Some (New PreconditionFailed ''delete'' ''if-match etag mismatch''), w)
               else gcs_remove b c (h\<lparr>gh_If := Some (GenerationMatch (ga_Generation a))\<rparr>) w)))"

fun gcs_delete_each :: "'w GcsBackend \<Rightarrow> ctx \<Rightarrow> string list \<Rightarrow> 'w \<Rightarrow> DeleteEntry list \<times> 'w" where
  "gcs_delete_each b c [] w = ([], w)"
| "gcs_delete_each b c (key # keys) w =
     (let (err, w) = gc_Delete (gb_client b) c (gb_bucket b) (live key) w;
          text = (case err of Some e \<Rightarrow> if has_tag e GcsObjectNotExist then [] else Error e | None \<Rightarrow> []);
          (out, w) = gcs_delete_each b c keys w
      in (\<lparr>de_Key = key, de_Error = text\<rparr> # out, w))"

definition gcs_DeleteMany :: "'w GcsBackend \<Rightarrow> ctx \<Rightarrow> string list \<Rightarrow> 'w \<Rightarrow> (DeleteEntry list \<times> goerr option) \<times> 'w" where
  "gcs_DeleteMany b c keys w = (let (out, w) = gcs_delete_each b c keys w in ((out, None), w))"

section \<open>Listing, copying, presigning\<close>

definition gcs_List :: "'w GcsBackend \<Rightarrow> ctx \<Rightarrow> ListOptions \<Rightarrow> 'w \<Rightarrow> (goerr, ListResult) result \<times> 'w" where
  "gcs_List b c opts w =
     (let pageSize = (if lo_Limit opts > 0 then lo_Limit opts else defaultListPageSize)
      in case gc_NextPage (gb_client b) c (gb_bucket b) (lo_Prefix opts) (lo_Delimiter opts) pageSize (lo_PageToken opts) w of
           (Inl err, w) \<Rightarrow> (Err (gcs_mapErr ''list'' err), w)
         | (Inr (items, nextTok), w) \<Rightarrow>
             (Ok \<lparr>lr_Objects = map (\<lambda>a. infoFromAttrs (ga_Name a) a) (filter (\<lambda>a. ga_Prefix a = []) items),
                  lr_CommonPrefixes = map ga_Prefix (filter (\<lambda>a. ga_Prefix a \<noteq> []) items),
                  lr_NextPageToken = nextTok\<rparr>, w))"

definition gcs_Copy :: "'w GcsBackend \<Rightarrow> ctx \<Rightarrow> string \<Rightarrow> string \<Rightarrow> CopyOptions \<Rightarrow> 'w
    \<Rightarrow> (goerr, PutResult) result \<times> 'w" where
  "gcs_Copy b c srcKey dstKey opts w =
     (let dst = (if co_IfNoneMatch opts = ''*'' then (live dstKey)\<lparr>gh_If := Some DoesNotExist\<rparr> else live dstKey)
      in case gc_CopierRun (gb_client b) c (gb_bucket b) dst (live srcKey) w of
           (Inl err, w) \<Rightarrow> (Err (gcs_mapErr ''copy'' err), w)
         | (Inr a, w) \<Rightarrow> (Ok (gcs_put_result a), w))"

definition clampExpiry :: "int \<Rightarrow> int \<Rightarrow> int" where
  "clampExpiry expiry cfgMax =
     (let expiry = (if expiry \<le> 0 \<or> expiry > gcs_maxPresignExpiry then gcs_maxPresignExpiry else expiry)
      in if cfgMax > 0 \<and> expiry > cfgMax then cfgMax else expiry)"

definition gcs_Presign :: "'w GcsBackend \<Rightarrow> ctx \<Rightarrow> string \<Rightarrow> PresignMethod \<Rightarrow> int \<Rightarrow> 'w
    \<Rightarrow> (goerr, PresignResult) result \<times> 'w" where
  "gcs_Presign b c key method expiry w =
     (let expiresAt = gc_Now (gb_client b) w + clampExpiry expiry (cfg_PresignMaxExpiry (gb_cfg b))
      in case gc_SignedURL (gb_client b) (gb_bucket b) key
             \<lparr>gs_Method = (if method = PresignPut then ''PUT'' else ''GET''), gs_Expires = expiresAt\<rparr> w of
           (Inl err, w) \<Rightarrow> (Err (New Unsupported ''presign'' ''no signing credentials (needs SA key or IAM signBlob)''), w)
         | (Inr url, w) \<Rightarrow> (Ok \<lparr>ps_Method = method, ps_URL = url, ps_Headers = [], ps_ExpiresAt = expiresAt\<rparr>, w))"

definition gcs_Native :: "ctx \<Rightarrow> string \<Rightarrow> meta \<Rightarrow> 'w \<Rightarrow> (goerr, meta) result \<times> 'w" where
  "gcs_Native c verb params w = (Err (New Unsupported ''native'' verb), w)"

definition gcs_Probe :: "'w GcsBackend \<Rightarrow> ctx \<Rightarrow> 'w \<Rightarrow> goerr option \<times> 'w" where
  "gcs_Probe b c w =
     (if Strategy (gb_cfg b) = ProbeStat
      then (case gc_Attrs (gb_client b) c (gb_bucket b) (live (cfg_ProbeKey (gb_cfg b))) w of
          (Inr _, w) \<Rightarrow> (None, w)
        | (Inl err, w) \<Rightarrow> (if has_tag err GcsObjectNotExist then (None, w) else (Some (gcs_probeErr ''probe'' err), w)))
      else (case gc_First (gb_client b) c (gb_bucket b) w of
          (Inr _, w) \<Rightarrow> (None, w)
        | (Inl err, w) \<Rightarrow> (if has_tag err IteratorDone then (None, w) else (Some (gcs_probeErr ''probe'' err), w))))"

definition gcs_backend :: "'w GcsBackend \<Rightarrow> 'w Backend" where
  "gcs_backend b = \<lparr>be_Name = ''gcs'', be_Identity = gcs_Identity b, be_Capabilities = gcs_Capabilities,
     be_Probe = gcs_Probe b, be_Stat = gcs_Stat b, be_Get = gcs_Get b, be_Put = gcs_Put b,
     be_Delete = gcs_Delete b, be_DeleteMany = gcs_DeleteMany b, be_List = gcs_List b,
     be_Copy = gcs_Copy b, be_Presign = gcs_Presign b, be_Native = gcs_Native,
     be_Close = gc_Close (gb_client b)\<rparr>"

section \<open>What Cloud Storage documents\<close>

text \<open>
  The service behind the client over the contents and the generations of one bucket: a
  precondition that fails is a 412, a missing object is \<open>ErrObjectNotExist\<close>, and a writer
  that is closed creates the object of what was written to it.
\<close>

definition object_gone :: "goerr \<Rightarrow> bool" where
  "object_gone e \<longleftrightarrow> has_tag e GcsObjectNotExist \<and> \<not> has_tag e GcsBucketNotExist \<and> \<not> errors_is e ErrBucketNotFound"

definition gcs_refused :: "goerr \<Rightarrow> bool" where
  "gcs_refused e \<longleftrightarrow> \<not> has_tag e GcsObjectNotExist \<and> \<not> has_tag e GcsBucketNotExist \<and>
     first_some tag_GoogleApi (err_tags e) = Some 412"

locale gcs_service =
  fixes cl :: "'w GcsClient"
    and bucket :: string
    and view :: "'w \<Rightarrow> string \<Rightarrow> (bytes \<times> string) option"
    and generation :: "'w \<Rightarrow> string \<Rightarrow> int"
    and inv :: "'w \<Rightarrow> bool"
  assumes Attrs_ok: "inv w \<Longrightarrow> view w k = Some (d, tag) \<Longrightarrow>
      \<exists>a w'. gc_Attrs cl c bucket (live k) w = (Inr a, w') \<and> ga_Etag a = tag \<and> ga_Size a = int (length d) \<and>
        ga_Generation a = generation w k \<and> view w' = view w \<and> generation w' = generation w \<and> inv w'"
    and Attrs_gone: "inv w \<Longrightarrow> view w k = None \<Longrightarrow>
      \<exists>e w'. gc_Attrs cl c bucket (live k) w = (Inl e, w') \<and> object_gone e \<and> view w' = view w \<and> inv w'"
    and First_answers: "inv w \<Longrightarrow> \<exists>r w'. gc_First cl c bucket w = (r, w') \<and>
        (case r of Inl e \<Rightarrow> \<not> has_tag e GcsBucketNotExist | Inr _ \<Rightarrow> True) \<and> view w' = view w \<and> inv w'"
    and Read_ok: "inv w \<Longrightarrow> view w k = Some (d, tag) \<Longrightarrow>
      \<exists>rc w'. gc_NewRangeReader cl c bucket ((live k)\<lparr>gh_If := Some (GenerationMatch (generation w k))\<rparr>) 0 (-1) w = (Inr rc, w') \<and>
        read_all rc = (d, None) \<and> view w' = view w \<and> inv w'"
    and Write_ok: "inv w \<Longrightarrow> \<exists>w'. gc_Write cl c bucket wr d w = (None, w') \<and> view w' = view w \<and>
        generation w' = generation w \<and> inv w'"
    and Close_ok: "inv w \<Longrightarrow> gh_Key (gw_Object wr) = k \<Longrightarrow>
      gh_If (gw_Object wr) = None \<or> gh_If (gw_Object wr) = Some DoesNotExist \<and> view w k = None \<or>
        gh_If (gw_Object wr) = Some (GenerationMatch (generation w k)) \<and> view w k \<noteq> None \<Longrightarrow>
      \<exists>a w'. gc_CloseWriter cl c bucket wr w = (Inr a, w') \<and> ga_Etag a \<noteq> [] \<and>
        view w' = (view w)(k := Some (gw_Written wr, ga_Etag a)) \<and> inv w'"
    and Close_exists: "inv w \<Longrightarrow> gh_Key (gw_Object wr) = k \<Longrightarrow> gh_If (gw_Object wr) = Some DoesNotExist \<Longrightarrow>
      view w k \<noteq> None \<Longrightarrow>
      \<exists>e w'. gc_CloseWriter cl c bucket wr w = (Inl e, w') \<and> gcs_refused e \<and> view w' = view w \<and> inv w'"
    and Delete_ok: "inv w \<Longrightarrow> view w k \<noteq> None \<Longrightarrow> cond = None \<or> cond = Some (GenerationMatch (generation w k)) \<Longrightarrow>
      \<exists>w'. gc_Delete cl c bucket ((live k)\<lparr>gh_If := cond\<rparr>) w = (None, w') \<and> view w' = (view w)(k := None) \<and> inv w'"
    and Delete_gone: "inv w \<Longrightarrow> view w k = None \<Longrightarrow>
      \<exists>e w'. gc_Delete cl c bucket (live k) w = (Some e, w') \<and> object_gone e \<and> view w' = view w \<and> inv w'"

section \<open>The backend is a plain store\<close>

lemma gcs_mapErr_gone:
  "object_gone e \<Longrightarrow> gcs_mapErr op e = Wrap NotFound op e \<and> \<not> errors_is e ErrBucketNotFound"
  by (simp add: object_gone_def gcs_mapErr_def)

lemma gcs_mapErr_refused: "gcs_refused e \<Longrightarrow> gcs_mapErr op e = Wrap PreconditionFailed op e"
  by (simp add: gcs_refused_def gcs_mapErr_def)

context gcs_service
begin

lemma objectErr_gone:
  assumes "gb_client b = cl" "gb_bucket b = bucket" "inv w" "object_gone e"
  shows "\<exists>w'. objectErr b c op e w = (Wrap NotFound op e, w') \<and> view w' = view w \<and> inv w'"
proof -
  obtain r w' where "gc_First cl c bucket w = (r, w')" "view w' = view w" "inv w'"
    "case r of Inl e \<Rightarrow> \<not> has_tag e GcsBucketNotExist | Inr _ \<Rightarrow> True"
    using First_answers [OF assms(3)] by blast
  with assms gcs_mapErr_gone [OF assms(4), of op] show ?thesis
    by (cases r) (simp_all add: objectErr_def)
qed

lemma gcs_get_found:
  assumes "gb_client b = cl" "gb_bucket b = bucket" "inv w" "view w k = Some (d, tag)" "im = [] \<or> im = tag"
  shows "\<exists>res w'. gcs_Get b c k (get_options im) w = (Ok res, w') \<and> \<not> gr_NotModified res
        \<and> read_all (gr_Body res) = (d, None) \<and> oi_Key (gr_Info res) = k
        \<and> oi_ETag (gr_Info res) = tag \<and> oi_Size (gr_Info res) = int (length d)
        \<and> view w' = view w \<and> inv w'"
proof -
  obtain a w1 where a: "gc_Attrs cl c bucket (live k) w = (Inr a, w1)" "ga_Etag a = tag" "ga_Size a = int (length d)"
    "ga_Generation a = generation w k" "view w1 = view w" "generation w1 = generation w" "inv w1"
    using Attrs_ok [OF assms(3,4)] by blast
  obtain rc w2 where r: "gc_NewRangeReader cl c bucket ((live k)\<lparr>gh_If := Some (GenerationMatch (generation w k))\<rparr>) 0 (-1) w1 = (Inr rc, w2)"
    "read_all rc = (d, None)" "view w2 = view w1" "inv w2"
    using Read_ok [OF a(7), of k d tag c] a(5,6) assms(4) by auto
  show ?thesis
    using assms(1,2,5) a r by (auto simp: gcs_Get_def gcs_obj_def get_options_def gcs_window_def infoFromAttrs_def Let_def)
qed

lemma gcs_get_failed:
  assumes "gb_client b = cl" "gb_bucket b = bucket" "inv w"
    and "view w k = Some (d, tag) \<and> im \<noteq> [] \<and> im \<noteq> tag \<and> code = PreconditionFailed \<or>
         view w k = None \<and> code = NotFound"
  shows "\<exists>e w'. gcs_Get b c k (get_options im) w = (Err e, w') \<and> CodeOf e = code
        \<and> \<not> errors_is e ErrBucketNotFound \<and> view w' = view w \<and> inv w'"
  using assms(4)
proof (elim disjE conjE)
  assume v: "view w k = Some (d, tag)" "im \<noteq> []" "im \<noteq> tag" "code = PreconditionFailed"
  obtain a w1 where "gc_Attrs cl c bucket (live k) w = (Inr a, w1)" "ga_Etag a = tag" "view w1 = view w" "inv w1"
    using Attrs_ok [OF assms(3) v(1)] by blast
  with assms(1,2) v show ?thesis by (simp add: gcs_Get_def gcs_obj_def get_options_def Let_def)
next
  assume v: "view w k = None" "code = NotFound"
  obtain e w1 where e: "gc_Attrs cl c bucket (live k) w = (Inl e, w1)" "object_gone e" "view w1 = view w" "inv w1"
    using Attrs_gone [OF assms(3) v(1)] by blast
  with objectErr_gone [OF assms(1,2) e(4,2), of c "''get''"] assms(1,2) v gcs_mapErr_gone [OF e(2)] show ?thesis
    by (auto simp: gcs_Get_def gcs_obj_def get_options_def)
qed

text \<open>What a Put does once its precondition is settled.\<close>

lemma gcs_put_close:
  assumes "gb_client b = cl" "gb_bucket b = bucket" "inv w" "read_all r = (d, rerr)"
    and "gcs_condition b c k opts w = (Inr h, w1)" "view w1 = view w" "generation w1 = generation w" "inv w1"
  shows "\<exists>wr w2. gw_Object wr = h \<and> gw_Written wr = d \<and> view w2 = view w \<and> generation w2 = generation w \<and> inv w2 \<and>
    gcs_Put b c k r opts w = (let (closed, w') = gc_CloseWriter cl c bucket wr w2 in
      case rerr of Some (err, g) \<Rightarrow> (Err (gcs_mapErr ''put'' err), w')
      | None \<Rightarrow> (case closed of
          Inl err \<Rightarrow> (Err (if po_IfNoneMatch opts = ''*'' \<and> CodeOf (gcs_mapErr ''put'' err) = PreconditionFailed
             then Wrap AlreadyExists ''put'' err else gcs_mapErr ''put'' err), w')
        | Inr a \<Rightarrow> (Ok (gcs_put_result a), w')))"
proof -
  let ?wr = "\<lparr>gw_Object = h, gw_ContentType = po_ContentType opts, gw_ContentEncoding = po_ContentEncoding opts,
                gw_CacheControl = po_CacheControl opts, gw_Metadata = po_UserMetadata opts, gw_Written = []\<rparr>"
  obtain w2 where w2: "gc_Write cl c bucket ?wr d w1 = (None, w2)" "view w2 = view w1" "generation w2 = generation w1" "inv w2"
    using Write_ok [OF assms(8)] by blast
  show ?thesis
    by (rule exI [of _ "?wr\<lparr>gw_Written := d\<rparr>"], rule exI [of _ w2])
      (use assms w2 in \<open>auto simp: gcs_Put_def Let_def split: option.split sum.split prod.split\<close>)
qed

lemma condition_plain: "po_IfNoneMatch opts = [] \<Longrightarrow> po_IfMatch opts = [] \<Longrightarrow> gcs_condition b c k opts w = (Inr (live k), w)"
  by (simp add: gcs_condition_def)

lemma condition_create:
  "po_IfNoneMatch opts = ''*'' \<Longrightarrow> gcs_condition b c k opts w = (Inr ((live k)\<lparr>gh_If := Some DoesNotExist\<rparr>), w)"
  by (simp add: gcs_condition_def)

lemma condition_swap:
  assumes "gb_client b = cl" "gb_bucket b = bucket" "inv w" "view w k = Some (old, tag)" "po_IfNoneMatch opts = []" "po_IfMatch opts \<noteq> []"
  shows "\<exists>w1. gcs_condition b c k opts w =
      (if tag = po_IfMatch opts then Inr ((live k)\<lparr>gh_If := Some (GenerationMatch (generation w k))\<rparr>)
       else Inl (New PreconditionFailed ''put'' ''if-match etag mismatch''), w1) \<and>
    view w1 = view w \<and> generation w1 = generation w \<and> inv w1"
  using Attrs_ok [OF assms(3,4), of c] assms(1,2,5,6) by (auto simp: gcs_condition_def)

lemma gcs_put_stored:
  assumes "gb_client b = cl" "gb_bucket b = bucket" "inv w" "read_all r = (d, None)"
    and "gcs_condition b c k opts w = (Inr h, w1)" "view w1 = view w" "generation w1 = generation w" "inv w1" "gh_Key h = k"
    and "gh_If h = None \<or> gh_If h = Some DoesNotExist \<and> view w k = None \<or>
        gh_If h = Some (GenerationMatch (generation w k)) \<and> view w k \<noteq> None"
  shows "\<exists>res w'. gcs_Put b c k r opts w = (Ok res, w') \<and> inv w'
        \<and> view w' = (view w)(k := Some (d, pr_ETag res)) \<and> pr_ETag res \<noteq> []"
proof -
  obtain wr w2 where w2: "gw_Object wr = h" "gw_Written wr = d" "view w2 = view w" "generation w2 = generation w" "inv w2"
    "gcs_Put b c k r opts w = (let (closed, w') = gc_CloseWriter cl c bucket wr w2 in
      case closed of
          Inl err \<Rightarrow> (Err (if po_IfNoneMatch opts = ''*'' \<and> CodeOf (gcs_mapErr ''put'' err) = PreconditionFailed
             then Wrap AlreadyExists ''put'' err else gcs_mapErr ''put'' err), w')
        | Inr a \<Rightarrow> (Ok (gcs_put_result a), w'))"
    using gcs_put_close [OF assms(1-8)] by auto
  from Close_ok [OF w2(5), of wr k c] w2 assms(9,10) show ?thesis by (auto simp: gcs_put_result_def)
qed

lemma gcs_put_refused:
  assumes "gcs_condition b c k opts w = (Inl e, w1)"
  shows "gcs_Put b c k r opts w = (Err e, w1)"
  using assms by (simp add: gcs_Put_def)

lemma gcs_remove_live:
  assumes "gb_client b = cl" "gb_bucket b = bucket" "inv w"
    and "cond = None \<or> cond = Some (GenerationMatch (generation w k)) \<and> view w k \<noteq> None"
  shows "\<exists>w'. gcs_remove b c ((live k)\<lparr>gh_If := cond\<rparr>) w = (None, w') \<and> view w' = (view w)(k := None) \<and> inv w'"
proof (cases "view w k = None")
  case True
  then have "cond = None" using assms(4) by auto
  with Delete_gone [OF assms(3) True, of c] assms(1,2) True show ?thesis
    by (auto simp: gcs_remove_def object_gone_def fun_eq_iff)
next
  case False
  from Delete_ok [OF assms(3) False, of cond c] assms show ?thesis by (auto simp: gcs_remove_def)
qed

text \<open>Every law of the plain contract.\<close>

lemma gcs_plain:
  assumes b: "gb_client b = cl" "gb_bucket b = bucket"
  shows "plain_store (gcs_backend b) view inv"
proof (unfold_locales, goal_cases)
  case (1 w k d tag im c)
  from gcs_get_found [OF b this] show ?case by (simp add: gcs_backend_def)
next
  case (2 w k d tag im c)
  then show ?case using gcs_get_failed [OF b, of w k d tag im PreconditionFailed c] differD [OF 2(3)] by (simp add: gcs_backend_def)
next
  case (3 w k c im)
  then show ?case using gcs_get_failed [OF b, of w k _ _ im NotFound c] by (simp add: gcs_backend_def)
next
  case (4 w r d opts k c)
  show ?case
  proof (cases "po_IfNoneMatch opts = []")
    case True
    from gcs_put_stored [OF b 4(1,2) condition_plain [OF True 4(3)] refl refl 4(1), of k c] show ?thesis
      by (simp add: gcs_backend_def)
  next
    case False
    then have n: "po_IfNoneMatch opts = ''*''" "view w k = None" using 4(4) by auto
    from gcs_put_stored [OF b 4(1,2) condition_create [OF n(1)] refl refl 4(1), of k c] n(2) show ?thesis
      by (simp add: gcs_backend_def)
  qed
next
  case (5 w r d opts k c)
  from gcs_put_close [OF b 5(1,2) condition_create [OF 5(3)] refl refl 5(1), of k c]
  obtain wr w2 where w2: "gw_Object wr = (live k)\<lparr>gh_If := Some DoesNotExist\<rparr>" "view w2 = view w" "inv w2"
    "gcs_Put b c k r opts w = (let (closed, w') = gc_CloseWriter cl c bucket wr w2 in
      case closed of
          Inl err \<Rightarrow> (Err (if po_IfNoneMatch opts = ''*'' \<and> CodeOf (gcs_mapErr ''put'' err) = PreconditionFailed
             then Wrap AlreadyExists ''put'' err else gcs_mapErr ''put'' err), w')
        | Inr a \<Rightarrow> (Ok (gcs_put_result a), w'))" by auto
  then obtain e w3 where "gc_CloseWriter cl c bucket wr w2 = (Inl e, w3)" "gcs_refused e" "view w3 = view w" "inv w3"
    using Close_exists [OF w2(3), of wr k c] 5(4) by auto
  with w2(4) 5(3) gcs_mapErr_refused [of e "''put''"] show ?case by (auto simp: gcs_backend_def)
next
  case (6 w r d opts tag k old c)
  show ?case
  proof (cases "tag = []")
    case True
    with 6 have "po_IfMatch opts = []" by simp
    from gcs_put_stored [OF b 6(1,2) condition_plain [OF 6(3) this] refl refl 6(1), of k c] show ?thesis
      by (simp add: gcs_backend_def)
  next
    case False
    obtain w1 where w1: "gcs_condition b c k opts w = (Inr ((live k)\<lparr>gh_If := Some (GenerationMatch (generation w k))\<rparr>), w1)"
      "view w1 = view w" "generation w1 = generation w" "inv w1"
      using condition_swap [OF b 6(1,5,3), of c] 6(4) False by auto
    from gcs_put_stored [OF b 6(1,2) w1] 6(5) show ?thesis by (simp add: gcs_backend_def)
  qed
next
  case (7 w r d opts im k old tag c)
  note d = differD [OF 7(6)]
  with 7 condition_swap [OF b 7(1,5,3), of c] obtain w1 where
    "gcs_condition b c k opts w = (Inl (New PreconditionFailed ''put'' ''if-match etag mismatch''), w1)"
    "view w1 = view w" "inv w1" by auto
  with gcs_put_refused [of b c k opts w] show ?case by (simp add: gcs_backend_def)
next
  case (8 w r d opts k c)
  obtain e w1 where "gc_Attrs cl c bucket (live k) w = (Inl e, w1)" "view w1 = view w" "inv w1"
    using Attrs_gone [OF 8(1,5), of c] by blast
  then have "gcs_condition b c k opts w = (Inl (gcs_mapErr ''put'' e), w1)"
    using b 8(3,4) by (simp add: gcs_condition_def)
  with gcs_put_refused [OF this] \<open>view w1 = view w\<close> \<open>inv w1\<close> show ?case by (simp add: gcs_backend_def)
next
  case (9 w dopts c k)
  from gcs_remove_live [OF b 9(1), of None k c] 9(2,3) show ?case
    by (simp add: gcs_backend_def gcs_Delete_def gcs_obj_def)
next
  case (10 w dopts tag k old c)
  show ?case
  proof (cases "tag = []")
    case True
    with gcs_remove_live [OF b 10(1), of None k c] 10(2,3) show ?thesis
      by (simp add: gcs_backend_def gcs_Delete_def gcs_obj_def)
  next
    case False
    obtain a w1 where a: "gc_Attrs cl c bucket (live k) w = (Inr a, w1)" "ga_Etag a = tag"
      "ga_Generation a = generation w k" "view w1 = view w" "generation w1 = generation w" "inv w1"
      using Attrs_ok [OF 10(1,4), of c] by blast
    with gcs_remove_live [OF b a(6), of "Some (GenerationMatch (generation w k))" k c] 10(2-4) b False show ?thesis
      by (simp add: gcs_backend_def gcs_Delete_def gcs_obj_def)
  qed
next
  case (11 w dopts im k old tag c)
  obtain a w1 where "gc_Attrs cl c bucket (live k) w = (Inr a, w1)" "ga_Etag a = tag" "view w1 = view w" "inv w1"
    using Attrs_ok [OF 11(1,4), of c] by blast
  with 11 differD [OF 11(5)] b show ?case by (simp add: gcs_backend_def gcs_Delete_def gcs_obj_def)
qed

text \<open>An upload whose reader fails is reported, and what arrived of it is stored.\<close>

lemma gcs_put_broken:
  assumes b: "gb_client b = cl" "gb_bucket b = bucket" and "inv w" "read_all r = (d, Some (err, g))"
    and "po_IfMatch opts = []" "po_IfNoneMatch opts = []"
  shows "\<exists>tag w'. gcs_Put b c k r opts w = (Err (gcs_mapErr ''put'' err), w') \<and> view w' = (view w)(k := Some (d, tag))"
proof -
  obtain wr w2 where w2: "gw_Object wr = live k" "gw_Written wr = d" "view w2 = view w" "inv w2"
    "gcs_Put b c k r opts w = (let (closed, w') = gc_CloseWriter cl c bucket wr w2 in (Err (gcs_mapErr ''put'' err), w'))"
    using gcs_put_close [OF b assms(3,4) condition_plain [OF assms(6,5)] refl refl assms(3), of k c] by auto
  from Close_ok [OF w2(4), of wr k c] w2 show ?thesis by auto
qed

end

section \<open>A bucket that behaves as documented\<close>

text \<open>
  The SDK over any store that meets the contract, with a generation counter per key, so the
  laws of \<open>gcs_service\<close> can be had.
\<close>

definition gcs_error :: "string \<Rightarrow> tag \<Rightarrow> goerr" where
  "gcs_error m t = Lib m [t] []"

abbreviation "gcs_missing \<equiv> gcs_error ''storage: object does not exist'' GcsObjectNotExist"
abbreviation "gcs_412 \<equiv> gcs_error ''conditionNotMet'' (GoogleApi 412)"

definition attrs_of :: "GetResult \<Rightarrow> int \<Rightarrow> GcsAttrs" where
  "attrs_of g n = \<lparr>ga_Name = oi_Key (gr_Info g), ga_Prefix = [], ga_Etag = oi_ETag (gr_Info g), ga_Size = oi_Size (gr_Info g),
     ga_Updated = oi_LastModified (gr_Info g), ga_Generation = n, ga_Metageneration = 1,
     ga_ContentType = oi_ContentType (gr_Info g), ga_ContentEncoding = oi_ContentEncoding (gr_Info g),
     ga_CacheControl = oi_CacheControl (gr_Info g), ga_Metadata = oi_UserMetadata (gr_Info g)\<rparr>"

text \<open>The live object, if the handle's generation and precondition admit it.\<close>

definition gcs_lookup :: "'w Backend \<Rightarrow> ctx \<Rightarrow> GcsHandle \<Rightarrow> 'w \<times> (string \<Rightarrow> int) \<Rightarrow> (goerr + GetResult) \<times> ('w \<times> (string \<Rightarrow> int))" where
  "gcs_lookup be c h = (\<lambda>(w, g). case be_Get be c (gh_Key h) (get_options []) w of
      (Ok res, w) \<Rightarrow>
        (if gh_Generation h \<noteq> None \<and> gh_Generation h \<noteq> Some (g (gh_Key h)) then (Inl gcs_missing, (w, g))
         else if gh_If h \<noteq> None \<and> gh_If h \<noteq> Some (GenerationMatch (g (gh_Key h))) then (Inl gcs_412, (w, g))
         else (Inr res, (w, g)))
    | (_, w) \<Rightarrow> (Inl gcs_missing, (w, g)))"

text \<open>
  What \<open>NewRangeReader\<close> documents: at most \<open>len\<close> bytes from the offset on, all of them when
  the length is negative; a negative offset counts from the end, and then the length must be negative.
\<close>

definition gcs_slice :: "int \<Rightarrow> int \<Rightarrow> bytes \<Rightarrow> bytes" where
  "gcs_slice offset len d =
     (let rest = (if offset < 0 then drop (length d - nat (- offset)) d else drop (nat offset) d)
      in if len < 0 then rest else take (nat len) rest)"

definition gcs_range :: "int \<Rightarrow> int \<Rightarrow> bytes \<Rightarrow> goerr + reader" where
  "gcs_range offset len d = (if offset < 0 \<and> 0 \<le> len then Inl (Lib ''storage: invalid offset'' [] [])
     else Inr (bytes_reader (gcs_slice offset len d)))"

definition gcs_store_options :: "GcsWriter \<Rightarrow> PutOptions" where
  "gcs_store_options wr = \<lparr>po_ContentType = gw_ContentType wr, po_ContentEncoding = gw_ContentEncoding wr,
     po_CacheControl = gw_CacheControl wr, po_UserMetadata = gw_Metadata wr,
     po_IfNoneMatch = (if gh_If (gw_Object wr) = Some DoesNotExist then ''*'' else []), po_IfMatch = [],
     po_Size = int (length (gw_Written wr))\<rparr>"

definition gcs_store :: "'w Backend \<Rightarrow> ctx \<Rightarrow> GcsWriter \<Rightarrow> 'w \<times> (string \<Rightarrow> int) \<Rightarrow> (goerr + GcsAttrs) \<times> ('w \<times> (string \<Rightarrow> int))" where
  "gcs_store be c wr = (\<lambda>(w, g). let k = gh_Key (gw_Object wr) in
     if (case gh_If (gw_Object wr) of Some (GenerationMatch n) \<Rightarrow> n \<noteq> g k | _ \<Rightarrow> False) then (Inl gcs_412, (w, g))
     else case be_Put be c k (bytes_reader (gw_Written wr)) (gcs_store_options wr) w of
        (Ok res, w) \<Rightarrow> (Inr (attrs_of \<lparr>gr_Info = zero_info\<lparr>oi_Key := k, oi_ETag := pr_ETag res\<rparr>, gr_Body = [], gr_NotModified = False\<rparr>
             (g k + 1)), (w, g(k := g k + 1)))
      | (_, w) \<Rightarrow> (Inl gcs_412, (w, g)))"

definition gcs_over :: "string \<Rightarrow> 'w Backend \<Rightarrow> ('w \<times> (string \<Rightarrow> int)) GcsClient" where
  "gcs_over bucket be = \<lparr>
     gc_Attrs = (\<lambda>c b h s. case gcs_lookup be c h s of
        (Inl e, s) \<Rightarrow> (Inl e, s) | (Inr res, s) \<Rightarrow> (Inr (attrs_of res (snd s (gh_Key h))), s)),
     gc_NewRangeReader = (\<lambda>c b h offset len s. case gcs_lookup be c h s of
        (Inl e, s) \<Rightarrow> (Inl e, s)
      | (Inr res, s) \<Rightarrow> (gcs_range offset len (fst (read_all (gr_Body res))), s)),
     gc_Write = (\<lambda>c b wr d s. (None, s)),
     gc_CloseWriter = (\<lambda>c b. gcs_store be c),
     gc_Delete = (\<lambda>c b h s. case gcs_lookup be c h s of
        (Inl e, s) \<Rightarrow> (Some e, s)
      | (Inr res, (w, g)) \<Rightarrow> (case be_Delete be c (gh_Key h) \<lparr>do_VersionID = [], do_IfMatch = []\<rparr> w of (e, w) \<Rightarrow> (e, (w, g)))),
     gc_First = (\<lambda>c b s. (Inl (gcs_error ''no more items in iterator'' IteratorDone), s)),
     gc_NextPage = (\<lambda>c b prefix delimiter n token s. (Inl (gcs_error ''not implemented'' (GoogleApi 501)), s)),
     gc_CopierRun = (\<lambda>c b dst src s. (Inl (gcs_error ''not implemented'' (GoogleApi 501)), s)),
     gc_SignedURL = (\<lambda>b k opts s. (Inr k, s)),
     gc_Close = (\<lambda>s. (None, s)),
     gc_Now = (\<lambda>s. 0)\<rparr>"

lemma gcs_error_kind [simp]: "object_gone gcs_missing" "gcs_refused gcs_412"
  by (simp_all add: object_gone_def gcs_refused_def gcs_error_def has_tag_def err_tags_def first_some_def
      List.map_filter_simps)

context object_store
begin

lemma lookup_found:
  assumes "inv w" "view w k = Some (d, tag)" "cond = None \<or> cond = Some (GenerationMatch (g k))"
  shows "\<exists>res w'. gcs_lookup be c ((live k)\<lparr>gh_If := cond\<rparr>) (w, g) = (Inr res, (w', g)) \<and> read_all (gr_Body res) = (d, None) \<and>
    oi_ETag (gr_Info res) = tag \<and> oi_Size (gr_Info res) = int (length d) \<and> view w' = view w \<and> inv w'"
  using get_found [OF assms(1,2), of "[]" c] assms(3) by (auto simp: gcs_lookup_def)

lemma lookup_gone:
  assumes "inv w" "view w k = None"
  shows "\<exists>w'. gcs_lookup be c (live k) (w, g) = (Inl gcs_missing, (w', g)) \<and> view w' = view w \<and> inv w'"
  using get_missing [OF assms, of c "[]"] by (auto simp: gcs_lookup_def)

lemma gcs_over_service: "gcs_service (gcs_over bucket be) bucket (\<lambda>s. view (fst s)) snd (\<lambda>s. inv (fst s))"
proof (unfold_locales, goal_cases)
  case (1 s k d tag c)
  then show ?case using lookup_found [of "fst s" k d tag None "snd s" c]
    by (auto simp: gcs_over_def attrs_of_def)
next
  case (2 s k c)
  then show ?case using lookup_gone [of "fst s" k c "snd s"] by (auto simp: gcs_over_def)
next
  case (3 s c)
  then show ?case by (auto simp: gcs_over_def gcs_error_def has_tag_def err_tags_def)
next
  case (4 s k d tag c)
  then show ?case using lookup_found [of "fst s" k d tag "Some (GenerationMatch (snd s k))" "snd s" c]
    by (auto simp: gcs_over_def gcs_range_def gcs_slice_def)
next
  case (5 s c wr d)
  then show ?case by (simp add: gcs_over_def)
next
  case (6 s wr k c)
  have o: "po_IfMatch (gcs_store_options wr) = []"
    "po_IfNoneMatch (gcs_store_options wr) = (if gh_If (gw_Object wr) = Some DoesNotExist then ''*'' else [])"
    by (simp_all add: gcs_store_options_def)
  then have "po_IfNoneMatch (gcs_store_options wr) = [] \<or> po_IfNoneMatch (gcs_store_options wr) = ''*'' \<and> view (fst s) k = None"
    using 6(3) by auto
  from put_stored [OF 6(1) read_all_bytes_reader o(1) this, of c "gw_Written wr"]
  obtain res w' where "be_Put be c k (bytes_reader (gw_Written wr)) (gcs_store_options wr) (fst s) = (Ok res, w')" "inv w'"
    "view w' = (view (fst s))(k := Some (gw_Written wr, pr_ETag res))" "pr_ETag res \<noteq> []" by blast
  with 6 show ?case
    by (cases s) (auto simp: gcs_over_def gcs_store_def attrs_of_def split: option.split GcsCondition.split)
next
  case (7 s wr k c)
  then have "po_IfNoneMatch (gcs_store_options wr) = ''*''" "po_IfMatch (gcs_store_options wr) = []"
    by (simp_all add: gcs_store_options_def)
  from put_exists [OF 7(1) read_all_bytes_reader this(1) 7(4) this(2), of c "gw_Written wr"] 7(2,3) show ?case
    by (cases s) (auto simp: gcs_over_def gcs_store_def)
next
  case (8 s k cond c)
  then obtain d tag where "view (fst s) k = Some (d, tag)" by auto
  then obtain res w' where
    l: "gcs_lookup be c ((live k)\<lparr>gh_If := cond\<rparr>) (fst s, snd s) = (Inr res, (w', snd s))" "view w' = view (fst s)" "inv w'"
    using lookup_found [of "fst s" k d tag cond "snd s" c] 8(1,3) by blast
  from delete_done [OF l(3), of "\<lparr>do_VersionID = [], do_IfMatch = []\<rparr>" c k] l show ?case
    by (cases s) (auto simp: gcs_over_def)
next
  case (9 s k c)
  then show ?case using lookup_gone [of "fst s" k c "snd s"] by (auto simp: gcs_over_def)
qed

end

interpretation gcsmem: gcs_service "gcs_over bucket (mem_backend sha256 name)" bucket
    "\<lambda>s. mem_view (fst s)" snd "\<lambda>s. mem_inv sha256 (fst s)"
  for sha256 bucket name
  by (rule mem.gcs_over_service)

section \<open>Generations\<close>

text \<open>
  Other writers may replace an object or its metadata between two calls of one Get, so nothing
  relates the states of the store they see. What holds of a generation is that its contents never
  change: \<open>past k n\<close> is what generation \<open>n\<close> of \<open>k\<close> holds, and whether it never
  carried the Content-Encoding gzip, which the service may decode on the way; a call that names
  a generation answers for that one, whatever the state is then. An ETag is not a function of the
  generation: it changes with the metadata.
\<close>

definition cut :: "int \<times> int \<Rightarrow> bytes \<Rightarrow> bytes" where
  "cut window d = gcs_slice (fst window) (snd window) d"

definition immutable_generations :: "'w GcsClient \<Rightarrow> string \<Rightarrow> (string \<Rightarrow> int \<Rightarrow> (bytes \<times> bool) option) \<Rightarrow> bool" where
  "immutable_generations cl bucket past \<longleftrightarrow>
     (\<forall>c h w a w'. gc_Attrs cl c bucket h w = (Inr a, w') \<longrightarrow>
        (\<exists>d plain. past (gh_Key h) (ga_Generation a) = Some (d, plain) \<and> ga_Size a = int (length d)) \<and>
        (case gh_Generation h of None \<Rightarrow> True | Some n \<Rightarrow> ga_Generation a = n)) \<and>
     (\<forall>c h n offset len w rc w' bs d. gc_NewRangeReader cl c bucket h offset len w = (Inr rc, w') \<and> read_all rc = (bs, None) \<and>
        (gh_Generation h = Some n \<or> gh_If h = Some (GenerationMatch n)) \<and> past (gh_Key h) n = Some (d, True) \<longrightarrow>
        bs = gcs_slice offset len d)"

lemma immutable_Attrs:
  "immutable_generations cl bucket past \<Longrightarrow> gc_Attrs cl c bucket h w = (Inr a, w') \<Longrightarrow>
   (\<exists>d plain. past (gh_Key h) (ga_Generation a) = Some (d, plain) \<and> ga_Size a = int (length d)) \<and>
   (case gh_Generation h of None \<Rightarrow> True | Some n \<Rightarrow> ga_Generation a = n)"
  unfolding immutable_generations_def by blast

lemma immutable_Read:
  "immutable_generations cl bucket past \<Longrightarrow> gc_NewRangeReader cl c bucket h offset len w = (Inr rc, w') \<Longrightarrow>
   read_all rc = (bs, None) \<Longrightarrow> gh_Generation h = Some n \<or> gh_If h = Some (GenerationMatch n) \<Longrightarrow>
   past (gh_Key h) n = Some (d, True) \<Longrightarrow> bs = gcs_slice offset len d"
  unfolding immutable_generations_def by blast

lemma gcs_obj_cases:
  assumes "gcs_obj op key v = Inr h"
  shows "gh_Key h = key \<and> gh_If h = None \<and>
    (v = [] \<and> gh_Generation h = None \<or> v \<noteq> [] \<and> (\<exists>n. atoi v = Some n \<and> gh_Generation h = Some n))"
  using assms by (auto simp: gcs_obj_def split: if_splits option.splits)

text \<open>A read that is answered went through all its steps.\<close>

lemma gcs_Get_steps:
  assumes "gcs_Get b c key opts w = (Ok res, w')" "\<not> gr_NotModified res"
  obtains h a w1 where "gcs_obj ''get'' key (go_VersionID opts) = Inr h"
    "gc_Attrs (gb_client b) c (gb_bucket b) h w = (Inr a, w1)" "gr_Info res = infoFromAttrs key a"
    "gc_NewRangeReader (gb_client b) c (gb_bucket b)
       (if go_VersionID opts = [] then h\<lparr>gh_If := Some (GenerationMatch (ga_Generation a))\<rparr> else h)
       (fst (gcs_window opts)) (snd (gcs_window opts)) w1 = (Inr (gr_Body res), w')"
    "go_IfMatch opts = [] \<or> go_IfMatch opts = ga_Etag a"
proof -
  obtain h where h: "gcs_obj ''get'' key (go_VersionID opts) = Inr h"
    using assms(1) by (cases "gcs_obj ''get'' key (go_VersionID opts)") (auto simp: gcs_Get_def)
  obtain x w1 where "gc_Attrs (gb_client b) c (gb_bucket b) h w = (x, w1)" by fastforce
  moreover from this obtain a where "x = Inr a"
    using assms(1) h by (cases x) (auto simp: gcs_Get_def split: prod.splits)
  ultimately have a: "gc_Attrs (gb_client b) c (gb_bucket b) h w = (Inr a, w1)" by simp
  obtain y w2 where r: "gc_NewRangeReader (gb_client b) c (gb_bucket b)
       (if go_VersionID opts = [] then h\<lparr>gh_If := Some (GenerationMatch (ga_Generation a))\<rparr> else h)
       (fst (gcs_window opts)) (snd (gcs_window opts)) w1 = (y, w2)" by fastforce
  have "y = Inr (gr_Body res) \<and> w2 = w' \<and> gr_Info res = infoFromAttrs key a \<and> (go_IfMatch opts = [] \<or> go_IfMatch opts = ga_Etag a)"
    using assms h a r
    by (cases y) (auto simp: gcs_Get_def Let_def split_beta split: if_splits prod.splits)
  with that [OF h a] r show thesis by simp
qed

section \<open>Properties\<close>

text \<open>C7: the bytes a GCS Get streams are those of the very generation it reports, whatever other
  writers do between its two requests: what it reports is one answer for that generation, with the
  ETag the caller asked for if it named one, the size is that of its contents, and the range it
  streams is that part of these contents and never of a replacement, unless the generation was
  marked as gzip, which Cloud Storage may decode as it serves it.\<close>

theorem gcs_Get_consistent:
  assumes "immutable_generations (gb_client b) (gb_bucket b) past"
    and "gcs_Get b c key opts w = (Ok res, w')" "\<not> gr_NotModified res" "read_all (gr_Body res) = (bs, None)"
  shows "\<exists>h a w1 d plain. gh_Key h = key \<and> gc_Attrs (gb_client b) c (gb_bucket b) h w = (Inr a, w1) \<and>
    gr_Info res = infoFromAttrs key a \<and> (go_IfMatch opts = [] \<or> oi_ETag (gr_Info res) = go_IfMatch opts) \<and>
    past key (oi_Generation (gr_Info res)) = Some (d, plain) \<and>
    oi_Size (gr_Info res) = int (length d) \<and> oi_VersionID (gr_Info res) = dec_int (oi_Generation (gr_Info res)) \<and>
    (plain \<longrightarrow> bs = cut (gcs_window opts) d)"
proof -
  obtain h a w1 where s: "gcs_obj ''get'' key (go_VersionID opts) = Inr h"
    "gc_Attrs (gb_client b) c (gb_bucket b) h w = (Inr a, w1)" "gr_Info res = infoFromAttrs key a"
    "gc_NewRangeReader (gb_client b) c (gb_bucket b)
       (if go_VersionID opts = [] then h\<lparr>gh_If := Some (GenerationMatch (ga_Generation a))\<rparr> else h)
       (fst (gcs_window opts)) (snd (gcs_window opts)) w1 = (Inr (gr_Body res), w')"
    "go_IfMatch opts = [] \<or> go_IfMatch opts = ga_Etag a"
    using gcs_Get_steps [OF assms(2,3)] .
  note h = gcs_obj_cases [OF s(1)]
  note at = immutable_Attrs [OF assms(1) s(2)]
  let ?h = "if go_VersionID opts = [] then h\<lparr>gh_If := Some (GenerationMatch (ga_Generation a))\<rparr> else h"
  have n: "gh_Generation ?h = Some (ga_Generation a) \<or> gh_If ?h = Some (GenerationMatch (ga_Generation a))"
    and k: "gh_Key ?h = key" "gh_Key h = key"
    using h at by auto
  obtain d plain where d: "past key (ga_Generation a) = Some (d, plain)" "ga_Size a = int (length d)"
    using at k by auto
  have "plain \<longrightarrow> bs = cut (gcs_window opts) d"
    using immutable_Read [OF assms(1) s(4) assms(4) n] d(1) k(1) by (auto simp: cut_def)
  moreover have "oi_Generation (gr_Info res) = ga_Generation a" "oi_ETag (gr_Info res) = ga_Etag a"
    "oi_Size (gr_Info res) = ga_Size a" "oi_VersionID (gr_Info res) = dec_int (ga_Generation a)"
    using s(3) by (simp_all add: infoFromAttrs_def)
  ultimately show ?thesis using s(2,3,5) k(2) d
    by (intro exI [of _ h] exI [of _ a] exI [of _ w1] exI [of _ d] exI [of _ plain]) auto
qed

text \<open>A bucket another writer replaces after every second request; the state counts the requests.\<close>

definition racing_past :: "string \<Rightarrow> int \<Rightarrow> (bytes \<times> bool) option" where
  "racing_past k n = Some (''v'' @ dec_int n, True)"

definition racing :: "nat GcsClient" where
  "racing = \<lparr>
     gc_Attrs = (\<lambda>c b h w. let n = int (w div 2) in
        if gh_Generation h = None \<or> gh_Generation h = Some n
        then (Inr \<lparr>ga_Name = gh_Key h, ga_Prefix = [], ga_Etag = dec_int n, ga_Size = int (length (''v'' @ dec_int n)),
               ga_Updated = n, ga_Generation = n, ga_Metageneration = 1, ga_ContentType = [],
               ga_ContentEncoding = [], ga_CacheControl = [], ga_Metadata = []\<rparr>, w + 1)
        else (Inl gcs_missing, w + 1)),
     gc_NewRangeReader = (\<lambda>c b h offset len w. let n = int (w div 2) in
        if (gh_Generation h = None \<or> gh_Generation h = Some n) \<and> (gh_If h = None \<or> gh_If h = Some (GenerationMatch n))
        then (gcs_range offset len (''v'' @ dec_int n), w + 1) else (Inl gcs_412, w + 1)),
     gc_Write = (\<lambda>c b wr d w. (None, w)), gc_CloseWriter = (\<lambda>c b wr w. (Inl gcs_412, w + 1)),
     gc_Delete = (\<lambda>c b h w. (None, w + 1)), gc_First = (\<lambda>c b w. (Inl (gcs_error ''done'' IteratorDone), w)),
     gc_NextPage = (\<lambda>c b prefix delimiter n token w. (Inr ([], []), w)),
     gc_CopierRun = (\<lambda>c b dst src w. (Inl gcs_412, w)), gc_SignedURL = (\<lambda>b k opts w. (Inr k, w)),
     gc_Close = (\<lambda>w. (None, w)), gc_Now = (\<lambda>w. 0)\<rparr>"

lemma racing_immutable: "immutable_generations racing bucket racing_past"
  unfolding immutable_generations_def
  by (auto simp: racing_def racing_past_def gcs_range_def Let_def split: if_splits)

definition racing_gcs :: "nat GcsBackend" where
  "racing_gcs = \<lparr>gb_client = racing, gb_bucket = ''b'', gb_name = ''gcs'', gb_cfg = zero_config\<rparr>"

text \<open>The last byte of the fourth version, by a negative offset.\<close>

definition tail_options :: GetOptions where
  "tail_options = (get_options [])\<lparr>go_Range := Some \<lparr>br_Offset = -1, br_Length = 0\<rparr>\<rparr>"

lemma gcs_Get_consistent_witness:
  "\<exists>res w' d. gcs_Get racing_gcs background ''k'' tail_options 6 = (Ok res, w') \<and>
     racing_past ''k'' (oi_Generation (gr_Info res)) = Some (d, True) \<and> d = ''v'' @ dec_int 3 \<and>
     fst (read_all (gr_Body res)) = drop (length d - 1) d"
proof -
  let ?r = "\<lparr>gr_Info = \<lparr>oi_Key = ''k'', oi_ETag = dec_int 3, oi_WeakETag = False, oi_Size = int (length (''v'' @ dec_int 3)),
     oi_LastModified = 3, oi_VersionID = dec_int 3, oi_Generation = 3,
     oi_MetaGeneration = 1, oi_ContentType = [],
     oi_ContentEncoding = [], oi_CacheControl = [],
     oi_UserMetadata = []\<rparr>, gr_Body = bytes_reader (gcs_slice (-1) (-1) (''v'' @ dec_int 3)), gr_NotModified = False\<rparr>"
  have g: "gcs_Get racing_gcs background ''k'' tail_options 6 = (Ok ?r, 8)"
    by (simp add: gcs_Get_def gcs_obj_def racing_gcs_def racing_def tail_options_def get_options_def gcs_window_def
        infoFromAttrs_def gcs_range_def Let_def)
  have im: "immutable_generations (gb_client racing_gcs) (gb_bucket racing_gcs) racing_past"
    by (simp add: racing_gcs_def racing_immutable)
  have "\<not> gr_NotModified ?r" "read_all (gr_Body ?r) = (gcs_slice (-1) (-1) (''v'' @ dec_int 3), None)" by simp_all
  from gcs_Get_consistent [OF im g this] show ?thesis
    using g by (simp add: racing_past_def gcs_window_def tail_options_def cut_def gcs_slice_def)
qed


definition sample_gcs :: "(MemState \<times> (string \<Rightarrow> int)) GcsBackend" where
  "sample_gcs = \<lparr>gb_client = gcs_over ''b'' (mem_backend (\<lambda>d. []) ''b''), gb_bucket = ''b'', gb_name = ''gcs'', gb_cfg = zero_config\<rparr>"

lemma sample_gcs_service:
  "gcs_service (gb_client sample_gcs) (gb_bucket sample_gcs) (\<lambda>s. mem_view (fst s)) snd (\<lambda>s. mem_inv (\<lambda>d. []) (fst s))"
  by (simp add: sample_gcs_def gcsmem.gcs_service_axioms)


text \<open>C28: an unconditional GCS Put whose reader fails answers the error, yet the object then holds what
  had arrived: closing the writer commits a truncated upload.\<close>

theorem gcs_Put_keeps_fragment:
  assumes "gcs_service (gb_client b) (gb_bucket b) view generation ok" "ok w"
    and "read_all r = (d, Some (err, g))" "po_IfMatch opts = []" "po_IfNoneMatch opts = []"
  shows "\<exists>tag w'. gcs_Put b c key r opts w = (Err (gcs_mapErr ''put'' err), w') \<and> view w' = (view w)(key := Some (d, tag))"
  using gcs_service.gcs_put_broken [OF assms(1) refl refl assms(2-5)] .

definition plain_put :: PutOptions where
  "plain_put = \<lparr>po_ContentType = [], po_ContentEncoding = [], po_CacheControl = [], po_UserMetadata = [],
     po_IfNoneMatch = [], po_IfMatch = [], po_Size = 10\<rparr>"

lemma gcs_Put_keeps_fragment_witness:
  "\<exists>e w'. gcs_Put sample_gcs background ''k'' [(''half'', RNil), ([], RErr (Msg ''reset'') (new_guard 0))] plain_put
       (mem_New zero_config 5, \<lambda>k. 0) = (Err e, w') \<and>
     (\<exists>tag. mem_view (fst w') ''k'' = Some (''half'', tag))"
proof -
  let ?r = "[(''half'', RNil), ([], RErr (Msg ''reset'') (new_guard 0))]"
  have r: "read_all ?r = (''half'', Some (Msg ''reset'', new_guard 0))" by simp
  have ok: "mem_inv (\<lambda>d. []) (fst (mem_New zero_config 5, \<lambda>k. 0 :: int))" by (simp add: mem_inv_New)
  from gcs_Put_keeps_fragment [OF sample_gcs_service ok r, of plain_put background "''k''"] show ?thesis
    by (auto simp: plain_put_def)
qed

text \<open>The version a GCS Stat or Get reports names the generation it observed: handed back as a version
  identifier it pins exactly that generation, for every int64.\<close>

theorem gcs_version_roundtrip:
  assumes "in_int64 (ga_Generation a)"
  shows "gcs_obj op key (oi_VersionID (infoFromAttrs key a)) =
    Inr \<lparr>gh_Key = key, gh_Generation = Some (ga_Generation a), gh_If = None\<rparr>"
  using atoi_dec_int [OF assms] by (simp add: gcs_obj_def infoFromAttrs_def)

lemma gcs_version_roundtrip_witness:
  "gcs_obj ''get'' ''k'' (dec_int 1700000000000001) = Inr \<lparr>gh_Key = ''k'', gh_Generation = Some 1700000000000001, gh_If = None\<rparr>"
  using gcs_version_roundtrip [of "attrs_of \<lparr>gr_Info = zero_info, gr_Body = [], gr_NotModified = False\<rparr> 1700000000000001" "''get''" "''k''"]
  by (simp add: attrs_of_def infoFromAttrs_def in_int64_def)

end
