(* ===== verification/Azure.thy ===== *)
theory Azure
  imports S3
begin

text \<open>
  The Azure Blob backend (internal/backend/azure/azure.go). The Azure SDK is outside the
  repository: \<open>AzClient\<close> has one field per call the code makes on a service, container or
  blob client, with the options and responses the code fills and reads (an unset pointer is
  \<open>None\<close>). A blob client is a key with the version it is pinned to.
\<close>

section \<open>The SDK\<close>

record AzBlob =
  ab_Key :: string
  ab_Version :: "string option"

record AzConditions =
  ac_IfNoneMatch :: "string option"
  ac_IfMatch :: "string option"
  ac_IfModifiedSince :: "gotime option"

type_synonym ptr_meta = "(string \<times> string option) list"

record AzProperties =
  ap_ETag :: "string option"
  ap_ContentLength :: "int option"
  ap_LastModified :: "gotime option"
  ap_VersionID :: "string option"
  ap_ContentType :: "string option"
  ap_ContentEncoding :: "string option"
  ap_CacheControl :: "string option"
  ap_Metadata :: ptr_meta

record AzDownload = AzProperties +
  ap_Body :: reader

record AzUpload =
  au_Conditions :: "AzConditions option"
  au_ContentType :: "string option"
  au_ContentEncoding :: "string option"
  au_CacheControl :: "string option"
  au_Metadata :: ptr_meta

record AzWritten =
  aw_ETag :: "string option"
  aw_VersionID :: "string option"

record AzListOptions =
  al_Prefix :: "string option"
  al_Marker :: "string option"
  al_MaxResults :: "int option"

record AzItemProperties =
  ai_ETag :: "string option"
  ai_ContentLength :: "int option"
  ai_LastModified :: "gotime option"
  ai_ContentType :: "string option"
  ai_ContentEncoding :: "string option"
  ai_CacheControl :: "string option"

record AzItem =
  am_Name :: "string option"
  am_VersionID :: "string option"
  am_Metadata :: ptr_meta
  am_Properties :: "AzItemProperties option"

text \<open>A page: its segment, if the answer has one, with the items and the prefixes, and the marker.\<close>

record AzPage =
  ag_Segment :: "(AzItem option list \<times> string option option list) option"
  ag_NextMarker :: "string option"

record AzPermissions =
  bp_Read :: bool
  bp_Create :: bool
  bp_Write :: bool

record AzSignature =
  sv_Protocol :: string
  sv_StartTime :: gotime
  sv_ExpiryTime :: gotime
  sv_Permissions :: AzPermissions
  sv_ContainerName :: string
  sv_BlobName :: string

record 'w AzClient =
  az_WithVersionID :: "string \<Rightarrow> string \<Rightarrow> string \<Rightarrow> goerr option"
  az_GetProperties :: "ctx \<Rightarrow> string \<Rightarrow> AzBlob \<Rightarrow> 'w \<Rightarrow> (goerr + AzProperties) \<times> 'w"
  az_DownloadStream :: "ctx \<Rightarrow> string \<Rightarrow> AzBlob \<Rightarrow> AzConditions option \<Rightarrow> int \<times> int \<Rightarrow> 'w \<Rightarrow> (goerr + AzDownload) \<times> 'w"
  az_UploadStream :: "ctx \<Rightarrow> string \<Rightarrow> string \<Rightarrow> reader \<Rightarrow> AzUpload \<Rightarrow> 'w \<Rightarrow> (goerr + AzWritten) \<times> 'w"
  az_DeleteBlob :: "ctx \<Rightarrow> string \<Rightarrow> AzBlob \<Rightarrow> AzConditions option \<Rightarrow> 'w \<Rightarrow> goerr option \<times> 'w"
  az_ListFlat :: "ctx \<Rightarrow> string \<Rightarrow> AzListOptions \<Rightarrow> 'w \<Rightarrow> (goerr + AzPage) \<times> 'w"
  az_ListHierarchy :: "ctx \<Rightarrow> string \<Rightarrow> string \<Rightarrow> AzListOptions \<Rightarrow> 'w \<Rightarrow> (goerr + AzPage) \<times> 'w"
  az_CopyFromURL :: "ctx \<Rightarrow> string \<Rightarrow> string \<Rightarrow> string \<Rightarrow> AzConditions option \<Rightarrow> 'w \<Rightarrow> (goerr + AzWritten) \<times> 'w"
  az_URL :: "string \<Rightarrow> string \<Rightarrow> string"
  az_Now :: "'w \<Rightarrow> gotime"

text \<open>\<open>'k\<close> is a shared key credential, \<open>'d\<close> the process's default one.\<close>

record ('k, 'd, 'w) AzSDK =
  ak_NewSharedKeyCredential :: "string \<Rightarrow> string \<Rightarrow> goerr + 'k"
  ak_NewClientWithSharedKey :: "string \<Rightarrow> 'k \<Rightarrow> bool \<Rightarrow> goerr + 'w AzClient"
  ak_NewDefaultCredential :: "'w \<Rightarrow> (goerr + 'd) \<times> 'w"
  ak_NewClient :: "string \<Rightarrow> 'd \<Rightarrow> goerr + 'w AzClient"
  ak_Sign :: "'k \<Rightarrow> AzSignature \<Rightarrow> goerr + string"

section \<open>Helpers\<close>

text \<open>A dereference reads the zero value where the pointer is nil.\<close>

definition derefStr :: "string option \<Rightarrow> string" where
  "derefStr s = (case s of None \<Rightarrow> [] | Some v \<Rightarrow> v)"

definition derefInt64 :: "int option \<Rightarrow> int" where
  "derefInt64 v = (case v of None \<Rightarrow> 0 | Some n \<Rightarrow> n)"

definition derefTime :: "gotime option \<Rightarrow> gotime" where
  "derefTime t = (case t of None \<Rightarrow> 0 | Some n \<Rightarrow> n)"

definition ptrIfSet :: "string \<Rightarrow> string option" where
  "ptrIfSet s = (if s = [] then None else Some s)"

definition toMetaPtr :: "meta \<Rightarrow> ptr_meta" where
  "toMetaPtr m = map (\<lambda>(k, v). (k, Some v)) m"

definition fromMetaPtr :: "ptr_meta \<Rightarrow> meta" where
  "fromMetaPtr m = map (\<lambda>(k, v). (k, derefStr v)) m"

definition etagStr :: "string option \<Rightarrow> string" where
  "etagStr e = (case e of None \<Rightarrow> [] | Some t \<Rightarrow> trim_char (CHR 0x22) t)"

definition wireETag :: "string \<Rightarrow> string" where
  "wireETag etag =
     (if etag = ''*'' \<or> has_prefix etag [CHR 0x22] \<or> has_prefix etag (''W/'' @ [CHR 0x22]) then etag
      else [CHR 0x22] @ etag @ [CHR 0x22])"

definition accessConditions :: "string \<Rightarrow> string \<Rightarrow> gotime \<Rightarrow> bool \<Rightarrow> AzConditions option" where
  "accessConditions ifNoneMatch ifMatch ifModifiedSince createIfAbsent =
     (if \<not> createIfAbsent \<and> ifNoneMatch = [] \<and> ifMatch = [] \<and> ifModifiedSince = 0 then None
      else Some \<lparr>ac_IfNoneMatch = (if createIfAbsent then Some ''*''
            else if ifNoneMatch \<noteq> [] then Some (wireETag ifNoneMatch) else None),
          ac_IfMatch = (if ifMatch \<noteq> [] then Some (wireETag ifMatch) else None),
          ac_IfModifiedSince = (if ifModifiedSince \<noteq> 0 then Some ifModifiedSince else None)\<rparr>)"

section \<open>Errors\<close>

fun tag_AzCode :: "tag \<Rightarrow> string option" where
  "tag_AzCode (AzCode s) = Some s"
| "tag_AzCode _ = None"

fun tag_AzStatus :: "tag \<Rightarrow> int option" where
  "tag_AzStatus (AzStatus n) = Some n"
| "tag_AzStatus _ = None"

definition HasCode :: "goerr \<Rightarrow> string \<Rightarrow> bool" where
  "HasCode err code \<longleftrightarrow> first_some tag_AzCode (err_tags err) = Some code"

definition az_mapErr :: "string \<Rightarrow> goerr \<Rightarrow> goerr" where
  "az_mapErr op err =
     (if HasCode err ''ContainerNotFound'' then BucketNotFound op err
      else if HasCode err ''BlobNotFound'' then Wrap NotFound op err
      else if HasCode err ''BlobAlreadyExists'' then Wrap AlreadyExists op err
      else if HasCode err ''ConditionNotMet'' then Wrap PreconditionFailed op err
      else case first_some tag_AzStatus (err_tags err) of
        None \<Rightarrow> Wrap Internal op err
      | Some status \<Rightarrow>
          if status = 304 then Wrap NotModified op err
          else if status = 412 then Wrap PreconditionFailed op err
          else if status = 404 then Wrap NotFound op err
          else if status = 409 then Wrap AlreadyExists op err
          else if status = 403 then Wrap PermissionDenied op err
          else if status = 429 \<or> status = 503 then Wrap Throttled op err
          else if status = 400 then Wrap InvalidArgument op err
          else Wrap Internal op err)"

definition az_probeErr :: "string \<Rightarrow> goerr option \<Rightarrow> goerr option" where
  "az_probeErr op err = (case err of
      None \<Rightarrow> None
    | Some e \<Rightarrow> Some (if Unreachable e then Wrap Unavailable op e else az_mapErr op e))"

section \<open>Opening a backend\<close>

record ('k, 'w) AzBackend =
  ab_client :: "'w AzClient"
  ab_container :: string
  ab_account :: string
  ab_sharedKey :: "'k option"
  ab_maxExpiry :: int
  ab_probe :: ProbeStrategy
  ab_probeKey :: string
  ab_sign :: "'k \<Rightarrow> AzSignature \<Rightarrow> goerr + string"

definition az_maxPresignExpiry :: int where "az_maxPresignExpiry = 7 * 24 * 3600 * 1000000000"

definition az_New :: "('k, 'd, 'w) AzSDK \<Rightarrow> ctx \<Rightarrow> Config \<Rightarrow> 'w \<Rightarrow> (goerr, ('k, 'w) AzBackend) result \<times> 'w" where
  "az_New sdk c cfg w =
     (let serviceURL = (if cfg_Endpoint cfg = [] then ''https://'' @ cfg_AzureAccount cfg @ ''.blob.core.windows.net/''
            else cfg_Endpoint cfg);
          backend = (\<lambda>client key. \<lparr>ab_client = client, ab_container = cfg_Bucket cfg, ab_account = cfg_AzureAccount cfg,
            ab_sharedKey = key, ab_maxExpiry = cfg_PresignMaxExpiry cfg, ab_probe = Strategy cfg,
            ab_probeKey = cfg_ProbeKey cfg, ab_sign = ak_Sign sdk\<rparr>)
      in if cfg_AzureKey cfg \<noteq> [] \<or> cfg_HTTPClient cfg
         then (case ak_NewSharedKeyCredential sdk (cfg_AzureAccount cfg) (cfg_AzureKey cfg) of
             Inl err \<Rightarrow> (Err (Wrap InvalidArgument ''azure.New'' err), w)
           | Inr cred \<Rightarrow> (case ak_NewClientWithSharedKey sdk serviceURL cred (cfg_HTTPClient cfg) of
                Inl err \<Rightarrow> (Err (Wrap Internal ''azure.New'' err), w)
              | Inr client \<Rightarrow> (Ok (backend client (Some cred)), w)))
         else (case ak_NewDefaultCredential sdk w of
             (Inl err, w) \<Rightarrow> (Err (Wrap PermissionDenied ''azure.New'' err), w)
           | (Inr cred, w) \<Rightarrow> (case ak_NewClient sdk serviceURL cred of
                Inl err \<Rightarrow> (Err (Wrap Internal ''azure.New'' err), w)
              | Inr client \<Rightarrow> (Ok (backend client None), w))))"

definition az_Identity :: "('k, 'w) AzBackend \<Rightarrow> string" where
  "az_Identity b = ab_account b @ ''/'' @ ab_container b"

definition az_Capabilities :: "('k, 'w) AzBackend \<Rightarrow> Capabilities" where
  "az_Capabilities b = \<lparr>cap_Backend = ''azure'', cap_ConditionalPut = True, cap_ConditionalCopy = True,
     cap_AtomicRename = False, cap_Versions = True, cap_Tags = False, cap_Presign = (ab_sharedKey b \<noteq> None),
     cap_PresignMaxExpiry = az_maxPresignExpiry, cap_PresignAmbientCreds = False,
     cap_BatchDeleteMax = 256, cap_NativeVerbs = []\<rparr>"

definition blobClient :: "('k, 'w) AzBackend \<Rightarrow> string \<Rightarrow> string \<Rightarrow> goerr + AzBlob" where
  "blobClient b key versionID =
     (if versionID = [] then Inr \<lparr>ab_Key = key, ab_Version = None\<rparr>
      else case az_WithVersionID (ab_client b) (ab_container b) key versionID of
        Some err \<Rightarrow> Inl err
      | None \<Rightarrow> Inr \<lparr>ab_Key = key, ab_Version = Some versionID\<rparr>)"

section \<open>Reading\<close>

definition propertiesInfo :: "string \<Rightarrow> ('a) AzProperties_scheme \<Rightarrow> ObjectInfo" where
  "propertiesInfo key p = zero_info\<lparr>oi_Key := key, oi_ETag := etagStr (ap_ETag p), oi_Size := derefInt64 (ap_ContentLength p),
     oi_LastModified := derefTime (ap_LastModified p), oi_VersionID := derefStr (ap_VersionID p),
     oi_ContentType := derefStr (ap_ContentType p), oi_ContentEncoding := derefStr (ap_ContentEncoding p),
     oi_CacheControl := derefStr (ap_CacheControl p), oi_UserMetadata := fromMetaPtr (ap_Metadata p)\<rparr>"

definition az_Stat :: "('k, 'w) AzBackend \<Rightarrow> ctx \<Rightarrow> string \<Rightarrow> string \<Rightarrow> 'w \<Rightarrow> (goerr, ObjectInfo) result \<times> 'w" where
  "az_Stat b c key versionID w =
     (case blobClient b key versionID of
        Inl err \<Rightarrow> (Err (Wrap InvalidArgument ''azure.Stat'' err), w)
      | Inr bc \<Rightarrow> (case az_GetProperties (ab_client b) c (ab_container b) bc w of
           (Inl err, w) \<Rightarrow> (Err (az_mapErr ''azure.Stat'' err), w)
         | (Inr resp, w) \<Rightarrow> (Ok (propertiesInfo key resp), w)))"

text \<open>\<open>blob.HTTPRange\<close>: a count of 0 reads to the end, so the zero value reads the whole blob.\<close>

definition az_range :: "GetOptions \<Rightarrow> int \<times> int" where
  "az_range opts = (case go_Range opts of
      None \<Rightarrow> (0, 0)
    | Some r \<Rightarrow> (br_Offset r, if br_Length r > 0 then br_Length r else 0))"

definition az_Get :: "('k, 'w) AzBackend \<Rightarrow> ctx \<Rightarrow> string \<Rightarrow> GetOptions \<Rightarrow> 'w \<Rightarrow> (goerr, GetResult) result \<times> 'w" where
  "az_Get b c key opts w =
     (case blobClient b key (go_VersionID opts) of
        Inl err \<Rightarrow> (Err (Wrap InvalidArgument ''azure.Get'' err), w)
      | Inr bc \<Rightarrow>
         (case az_DownloadStream (ab_client b) c (ab_container b) bc
              (accessConditions (go_IfNoneMatch opts) (go_IfMatch opts) (go_IfModifiedSince opts) False) (az_range opts) w of
            (Inr resp, w) \<Rightarrow> (Ok \<lparr>gr_Info = propertiesInfo key resp, gr_Body = ap_Body resp, gr_NotModified = False\<rparr>, w)
          | (Inl err, w) \<Rightarrow>
              (if CodeOf (az_mapErr ''azure.Get'' err) = NotModified
               then (case az_GetProperties (ab_client b) c (ab_container b) bc w of
                   (Inr props, w) \<Rightarrow> (Ok \<lparr>gr_Info = propertiesInfo key props, gr_Body = [], gr_NotModified = True\<rparr>, w)
                 | (Inl perr, w) \<Rightarrow> (Ok \<lparr>gr_Info = zero_info, gr_Body = [], gr_NotModified = True\<rparr>, w))
               else (Err (az_mapErr ''azure.Get'' err), w))))"

section \<open>Writing\<close>

definition az_write_result :: "AzWritten \<Rightarrow> PutResult" where
  "az_write_result resp = \<lparr>pr_ETag = etagStr (aw_ETag resp), pr_VersionID = derefStr (aw_VersionID resp), pr_Generation = 0\<rparr>"

text \<open>A create-if-absent that lost is reported as AlreadyExists, whichever conflict it met.\<close>

definition az_conflict :: "string \<Rightarrow> bool \<Rightarrow> goerr \<Rightarrow> goerr" where
  "az_conflict op createIfAbsent err =
     (if createIfAbsent \<and> CodeOf (az_mapErr op err) \<in> {PreconditionFailed, AlreadyExists}
      then Wrap AlreadyExists op err else az_mapErr op err)"

definition az_Put :: "('k, 'w) AzBackend \<Rightarrow> ctx \<Rightarrow> string \<Rightarrow> reader \<Rightarrow> PutOptions \<Rightarrow> 'w
    \<Rightarrow> (goerr, PutResult) result \<times> 'w" where
  "az_Put b c key r opts w =
     (let createIfAbsent = (po_IfNoneMatch opts = ''*'');
          uopts = \<lparr>au_Conditions = accessConditions (po_IfNoneMatch opts) (po_IfMatch opts) 0 createIfAbsent,
            au_ContentType = ptrIfSet (po_ContentType opts), au_ContentEncoding = ptrIfSet (po_ContentEncoding opts),
            au_CacheControl = ptrIfSet (po_CacheControl opts), au_Metadata = toMetaPtr (po_UserMetadata opts)\<rparr>
      in case az_UploadStream (ab_client b) c (ab_container b) key r uopts w of
           (Inl err, w) \<Rightarrow> (Err (az_conflict ''azure.Put'' createIfAbsent err), w)
         | (Inr resp, w) \<Rightarrow> (Ok (az_write_result resp), w))"

definition az_Delete :: "('k, 'w) AzBackend \<Rightarrow> ctx \<Rightarrow> string \<Rightarrow> DeleteOptions \<Rightarrow> 'w \<Rightarrow> goerr option \<times> 'w" where
  "az_Delete b c key opts w =
     (case blobClient b key (do_VersionID opts) of
        Inl err \<Rightarrow> (Some (Wrap InvalidArgument ''azure.Delete'' err), w)
      | Inr bc \<Rightarrow>
         (let conditional = (do_IfMatch opts \<noteq> [] \<or> do_VersionID opts \<noteq> [])
          in case az_DeleteBlob (ab_client b) c (ab_container b) bc (accessConditions [] (do_IfMatch opts) 0 False) w of
               (Some err, w) \<Rightarrow>
                 (if \<not> conditional \<and> HasCode err ''BlobNotFound'' then (None, w)
                  else (Some (az_mapErr ''azure.Delete'' err), w))
             | (None, w) \<Rightarrow> (None, w)))"

fun az_delete_each :: "('k, 'w) AzBackend \<Rightarrow> ctx \<Rightarrow> string list \<Rightarrow> 'w \<Rightarrow> DeleteEntry list \<times> 'w" where
  "az_delete_each b c [] w = ([], w)"
| "az_delete_each b c (k # keys) w =
     (let (err, w) = az_Delete b c k \<lparr>do_VersionID = [], do_IfMatch = []\<rparr> w;
          (out, w) = az_delete_each b c keys w
      in (\<lparr>de_Key = k, de_Error = (case err of None \<Rightarrow> [] | Some e \<Rightarrow> Error e)\<rparr> # out, w))"

definition az_DeleteMany :: "('k, 'w) AzBackend \<Rightarrow> ctx \<Rightarrow> string list \<Rightarrow> 'w \<Rightarrow> (DeleteEntry list \<times> goerr option) \<times> 'w" where
  "az_DeleteMany b c keys w = (let (out, w) = az_delete_each b c keys w in ((out, None), w))"

section \<open>Listing, copying, presigning\<close>

definition blobItemInfo :: "AzItem option \<Rightarrow> ObjectInfo" where
  "blobItemInfo item = (case item of
      None \<Rightarrow> zero_info
    | Some m \<Rightarrow>
        (let info = zero_info\<lparr>oi_Key := derefStr (am_Name m), oi_VersionID := derefStr (am_VersionID m),
               oi_UserMetadata := fromMetaPtr (am_Metadata m)\<rparr>
         in case am_Properties m of
              None \<Rightarrow> info
            | Some p \<Rightarrow> info\<lparr>oi_ETag := etagStr (ai_ETag p), oi_Size := derefInt64 (ai_ContentLength p),
                oi_LastModified := derefTime (ai_LastModified p), oi_ContentType := derefStr (ai_ContentType p),
                oi_ContentEncoding := derefStr (ai_ContentEncoding p), oi_CacheControl := derefStr (ai_CacheControl p)\<rparr>))"

definition az_List :: "('k, 'w) AzBackend \<Rightarrow> ctx \<Rightarrow> ListOptions \<Rightarrow> 'w \<Rightarrow> (goerr, ListResult) result \<times> 'w" where
  "az_List b c opts w =
     (let lopts = \<lparr>al_Prefix = ptrIfSet (lo_Prefix opts), al_Marker = ptrIfSet (lo_PageToken opts),
            al_MaxResults = (if lo_Limit opts > 0 then Some (lo_Limit opts) else None)\<rparr>
      in if lo_Delimiter opts \<noteq> []
         then (case az_ListHierarchy (ab_client b) c (ab_container b) (lo_Delimiter opts) lopts w of
             (Inl err, w) \<Rightarrow> (Err (az_mapErr ''azure.List'' err), w)
           | (Inr page, w) \<Rightarrow>
               (let (items, prefixes) = (case ag_Segment page of None \<Rightarrow> ([], []) | Some s \<Rightarrow> s)
                in (Ok \<lparr>lr_Objects = map blobItemInfo items,
                        lr_CommonPrefixes = map derefStr (List.map_filter id prefixes),
                        lr_NextPageToken = derefStr (ag_NextMarker page)\<rparr>, w)))
         else (case az_ListFlat (ab_client b) c (ab_container b) lopts w of
             (Inl err, w) \<Rightarrow> (Err (az_mapErr ''azure.List'' err), w)
           | (Inr page, w) \<Rightarrow>
               (let (items, prefixes) = (case ag_Segment page of None \<Rightarrow> ([], []) | Some s \<Rightarrow> s)
                in (Ok \<lparr>lr_Objects = map blobItemInfo items, lr_CommonPrefixes = [],
                        lr_NextPageToken = derefStr (ag_NextMarker page)\<rparr>, w))))"

definition az_signature :: "('k, 'w) AzBackend \<Rightarrow> gotime \<Rightarrow> gotime \<Rightarrow> AzPermissions \<Rightarrow> string \<Rightarrow> AzSignature" where
  "az_signature b now expiresAt perms key = \<lparr>sv_Protocol = ''https'', sv_StartTime = now - 5 * 60 * 1000000000,
     sv_ExpiryTime = expiresAt, sv_Permissions = perms, sv_ContainerName = ab_container b, sv_BlobName = key\<rparr>"

definition copySourceURL :: "('k, 'w) AzBackend \<Rightarrow> string \<Rightarrow> 'w \<Rightarrow> goerr + string" where
  "copySourceURL b srcKey w =
     (let base = az_URL (ab_client b) (ab_container b) srcKey in
      case ab_sharedKey b of
        None \<Rightarrow> Inr base
      | Some key \<Rightarrow>
          (let now = az_Now (ab_client b) w in
           case ab_sign b key (az_signature b now (now + 3600 * 1000000000)
                 \<lparr>bp_Read = True, bp_Create = False, bp_Write = False\<rparr> srcKey) of
             Inl err \<Rightarrow> Inl err
           | Inr qp \<Rightarrow> Inr (base @ ''?'' @ qp)))"

definition az_Copy :: "('k, 'w) AzBackend \<Rightarrow> ctx \<Rightarrow> string \<Rightarrow> string \<Rightarrow> CopyOptions \<Rightarrow> 'w
    \<Rightarrow> (goerr, PutResult) result \<times> 'w" where
  "az_Copy b c srcKey dstKey opts w =
     (case copySourceURL b srcKey w of
        Inl err \<Rightarrow> (Err (Wrap Internal ''azure.Copy'' err), w)
      | Inr srcURL \<Rightarrow>
         (case az_CopyFromURL (ab_client b) c (ab_container b) dstKey srcURL
              (if co_IfNoneMatch opts = ''*''
               then Some \<lparr>ac_IfNoneMatch = Some ''*'', ac_IfMatch = None, ac_IfModifiedSince = None\<rparr> else None) w of
            (Inl err, w) \<Rightarrow> (Err (az_conflict ''azure.Copy'' (co_IfNoneMatch opts = ''*'') err), w)
          | (Inr resp, w) \<Rightarrow> (Ok (az_write_result resp), w)))"

definition az_lifetime :: "int \<Rightarrow> int \<Rightarrow> int" where
  "az_lifetime maxExpiry expiry =
     (let clamped = (if expiry \<le> 0 \<or> expiry > az_maxPresignExpiry then az_maxPresignExpiry else expiry)
      in if maxExpiry > 0 \<and> clamped > maxExpiry then maxExpiry else clamped)"

definition az_permissions :: "PresignMethod \<Rightarrow> AzPermissions" where
  "az_permissions method = (if method = PresignPut then \<lparr>bp_Read = False, bp_Create = True, bp_Write = True\<rparr>
     else \<lparr>bp_Read = True, bp_Create = False, bp_Write = False\<rparr>)"

definition az_Presign :: "('k, 'w) AzBackend \<Rightarrow> ctx \<Rightarrow> string \<Rightarrow> PresignMethod \<Rightarrow> int \<Rightarrow> 'w
    \<Rightarrow> (goerr, PresignResult) result \<times> 'w" where
  "az_Presign b c key method expiry w =
     (case ab_sharedKey b of
        None \<Rightarrow> (Err (New Unsupported ''presign'' ''no account key (user-delegation SAS not implemented)''), w)
      | Some k \<Rightarrow>
         (let now = az_Now (ab_client b) w; expiresAt = now + az_lifetime (ab_maxExpiry b) expiry
          in case ab_sign b k (az_signature b now expiresAt (az_permissions method) key) of
               Inl err \<Rightarrow> (Err (Wrap Internal ''azure.Presign'' err), w)
             | Inr qp \<Rightarrow> (Ok \<lparr>ps_Method = method, ps_URL = az_URL (ab_client b) (ab_container b) key @ ''?'' @ qp,
                 ps_Headers = [], ps_ExpiresAt = expiresAt\<rparr>, w)))"

definition az_Native :: "ctx \<Rightarrow> string \<Rightarrow> meta \<Rightarrow> 'w \<Rightarrow> (goerr, meta) result \<times> 'w" where
  "az_Native c verb params w = (Err (New Unsupported ''native'' verb), w)"

definition az_Close :: "'w \<Rightarrow> goerr option \<times> 'w" where
  "az_Close w = (None, w)"

definition az_Probe :: "('k, 'w) AzBackend \<Rightarrow> ctx \<Rightarrow> 'w \<Rightarrow> goerr option \<times> 'w" where
  "az_Probe b c w =
     (if ab_probe b = ProbeStat
      then (case az_GetProperties (ab_client b) c (ab_container b) \<lparr>ab_Key = ab_probeKey b, ab_Version = None\<rparr> w of
          (Inr _, w) \<Rightarrow> (None, w)
        | (Inl err, w) \<Rightarrow> (if HasCode err ''BlobNotFound'' then (None, w) else (az_probeErr ''azure.Probe'' (Some err), w)))
      else (case az_ListFlat (ab_client b) c (ab_container b) \<lparr>al_Prefix = None, al_Marker = None, al_MaxResults = Some 1\<rparr> w of
          (Inl err, w) \<Rightarrow> (az_probeErr ''azure.Probe'' (Some err), w)
        | (Inr page, w) \<Rightarrow> (az_probeErr ''azure.Probe'' None, w)))"

definition azure_backend :: "('k, 'w) AzBackend \<Rightarrow> 'w Backend" where
  "azure_backend b = \<lparr>be_Name = ''azure'', be_Identity = az_Identity b, be_Capabilities = az_Capabilities b,
     be_Probe = az_Probe b, be_Stat = az_Stat b, be_Get = az_Get b, be_Put = az_Put b,
     be_Delete = az_Delete b, be_DeleteMany = az_DeleteMany b, be_List = az_List b,
     be_Copy = az_Copy b, be_Presign = az_Presign b, be_Native = az_Native, be_Close = az_Close\<rparr>"

section \<open>ETags on the wire\<close>

text \<open>An ETag the way the gateway reports an Azure one.\<close>

definition bare_tag :: "string \<Rightarrow> bool" where
  "bare_tag t \<longleftrightarrow> t \<noteq> [] \<and> t \<noteq> ''*'' \<and> CHR 0x22 \<notin> set t"

lemma bare_quoted [simp]: "CHR 0x22 \<notin> set t \<Longrightarrow> trim_char (CHR 0x22) (quoted t) = t"
proof -
  assume q: "CHR 0x22 \<notin> set t"
  then have "dropWhile (\<lambda>x. x = CHR 0x22) (t @ [CHR 0x22]) = (if t = [] then [] else t @ [CHR 0x22])"
    by (cases t) auto
  moreover have "dropWhile (\<lambda>x. x = CHR 0x22) (rev t) = rev t" using q by (cases "rev t") auto
  ultimately show ?thesis by (simp add: trim_char_def quoted_def)
qed

lemma bare_bare [simp]: "CHR 0x22 \<notin> set t \<Longrightarrow> bare t = t"
proof -
  assume q: "CHR 0x22 \<notin> set t"
  then have "dropWhile (\<lambda>x. x = CHR 0x22) t = t" by (cases t) auto
  moreover have "dropWhile (\<lambda>x. x = CHR 0x22) (rev t) = rev t" using q by (cases "rev t") auto
  ultimately show ?thesis by (simp add: bare_def trim_char_def)
qed

lemma etagStr_quoted [simp]: "bare_tag t \<Longrightarrow> etagStr (Some (quoted t)) = t"
  by (simp add: bare_tag_def etagStr_def)

lemma wireETag_bare [simp]: "bare_tag t \<Longrightarrow> wireETag t = quoted t"
  by (cases t) (auto simp: bare_tag_def wireETag_def quoted_def has_prefix_iff)

lemma wireETag_quoted [simp]: "wireETag (quoted t) = quoted t"
  by (simp add: wireETag_def quoted_def has_prefix_iff)

text \<open>A tag the caller sends that is not the object's goes out as one, bare or quoted.\<close>

lemma wireETag_differ:
  assumes "differ im tag" "bare_tag tag"
  shows "\<exists>x. wireETag im = quoted x \<and> bare_tag x \<and> x \<noteq> tag"
proof (intro exI conjI)
  have x: "bare_tag (bare im)" using assms(1) by (simp add: differ_def bare_tag_def)
  show "bare_tag (bare im)" by fact
  show "bare im \<noteq> tag" using assms by (auto simp: differ_def bare_tag_def)
  show "wireETag im = quoted (bare im)"
    using assms(1) wireETag_bare [OF x] wireETag_quoted [of "bare im"] unfolding differ_def by metis
qed

section \<open>What Azure documents\<close>

definition blob_error :: "goerr \<Rightarrow> string \<Rightarrow> bool" where
  "blob_error e code \<longleftrightarrow> HasCode e code \<and> \<not> errors_is e ErrBucketNotFound"

abbreviation if_match :: "string \<Rightarrow> AzConditions option" where
  "if_match t \<equiv> Some \<lparr>ac_IfNoneMatch = None, ac_IfMatch = Some (quoted t), ac_IfModifiedSince = None\<rparr>"

abbreviation if_absent :: "AzConditions option" where
  "if_absent \<equiv> Some \<lparr>ac_IfNoneMatch = Some ''*'', ac_IfMatch = None, ac_IfModifiedSince = None\<rparr>"

abbreviation current_blob :: "string \<Rightarrow> AzBlob" where
  "current_blob k \<equiv> \<lparr>ab_Key = k, ab_Version = None\<rparr>"

locale azure_service =
  fixes cl :: "'w AzClient"
    and container :: string
    and view :: "'w \<Rightarrow> string \<Rightarrow> (bytes \<times> string) option"
    and inv :: "'w \<Rightarrow> bool"
  assumes tags: "inv w \<Longrightarrow> view w k = Some (d, tag) \<Longrightarrow> bare_tag tag"
    and Download_ok: "inv w \<Longrightarrow> view w k = Some (d, tag) \<Longrightarrow> cond = None \<or> cond = if_match tag \<Longrightarrow>
      \<exists>out w'. az_DownloadStream cl c container (current_blob k) cond (0, 0) w = (Inr out, w') \<and>
        ap_ETag out = Some (quoted tag) \<and> ap_ContentLength out = Some (int (length d)) \<and>
        read_all (ap_Body out) = (d, None) \<and> view w' = view w \<and> inv w'"
    and Download_changed: "inv w \<Longrightarrow> view w k = Some (d, tag) \<Longrightarrow> bare_tag t \<Longrightarrow> t \<noteq> tag \<Longrightarrow>
      \<exists>e w'. az_DownloadStream cl c container (current_blob k) (if_match t) (0, 0) w = (Inl e, w') \<and>
        blob_error e ''ConditionNotMet'' \<and> view w' = view w \<and> inv w'"
    and Download_gone: "inv w \<Longrightarrow> view w k = None \<Longrightarrow>
      \<exists>e w'. az_DownloadStream cl c container (current_blob k) cond (0, 0) w = (Inl e, w') \<and>
        blob_error e ''BlobNotFound'' \<and> view w' = view w \<and> inv w'"
    and Upload_ok: "inv w \<Longrightarrow> read_all r = (d, None) \<Longrightarrow> au_Conditions u = None \<or>
        au_Conditions u = if_absent \<and> view w k = None \<or> (\<exists>tag old. au_Conditions u = if_match tag \<and> view w k = Some (old, tag)) \<Longrightarrow>
      \<exists>out tag w'. az_UploadStream cl c container k r u w = (Inr out, w') \<and> aw_ETag out = Some (quoted tag) \<and> bare_tag tag \<and>
        view w' = (view w)(k := Some (d, tag)) \<and> inv w'"
    and Upload_exists: "inv w \<Longrightarrow> read_all r = (d, None) \<Longrightarrow> au_Conditions u = if_absent \<Longrightarrow> view w k \<noteq> None \<Longrightarrow>
      \<exists>e w'. az_UploadStream cl c container k r u w = (Inl e, w') \<and>
        (blob_error e ''BlobAlreadyExists'' \<or> blob_error e ''ConditionNotMet'') \<and> view w' = view w \<and> inv w'"
    and Upload_stale: "inv w \<Longrightarrow> read_all r = (d, None) \<Longrightarrow> au_Conditions u = if_match t \<Longrightarrow> bare_tag t \<Longrightarrow>
      view w k = Some (old, tag) \<Longrightarrow> t \<noteq> tag \<Longrightarrow>
      \<exists>e w'. az_UploadStream cl c container k r u w = (Inl e, w') \<and> blob_error e ''ConditionNotMet'' \<and> view w' = view w \<and> inv w'"
    and Upload_absent: "inv w \<Longrightarrow> read_all r = (d, None) \<Longrightarrow> au_Conditions u = Some ac \<Longrightarrow> ac_IfMatch ac \<noteq> None \<Longrightarrow>
      view w k = None \<Longrightarrow>
      \<exists>e w'. az_UploadStream cl c container k r u w = (Inl e, w') \<and> view w' = view w \<and> inv w'"
    and Upload_broken: "inv w \<Longrightarrow> read_all r = (d, Some (err, g)) \<Longrightarrow>
      \<exists>e w'. az_UploadStream cl c container k r u w = (Inl e, w') \<and> view w' = view w \<and> inv w'"
    and Delete_ok: "inv w \<Longrightarrow> view w k = Some (d, tag) \<Longrightarrow> cond = None \<or> cond = if_match tag \<Longrightarrow>
      \<exists>w'. az_DeleteBlob cl c container (current_blob k) cond w = (None, w') \<and> view w' = (view w)(k := None) \<and> inv w'"
    and Delete_stale: "inv w \<Longrightarrow> view w k = Some (d, tag) \<Longrightarrow> bare_tag t \<Longrightarrow> t \<noteq> tag \<Longrightarrow>
      \<exists>e w'. az_DeleteBlob cl c container (current_blob k) (if_match t) w = (Some e, w') \<and>
        blob_error e ''ConditionNotMet'' \<and> view w' = view w \<and> inv w'"
    and Delete_gone: "inv w \<Longrightarrow> view w k = None \<Longrightarrow>
      \<exists>e w'. az_DeleteBlob cl c container (current_blob k) None w = (Some e, w') \<and>
        blob_error e ''BlobNotFound'' \<and> view w' = view w \<and> inv w'"

section \<open>The backend meets the contract\<close>

lemma az_mapErr_codes:
  "blob_error e ''BlobNotFound'' \<Longrightarrow> az_mapErr op e = Wrap NotFound op e"
  "blob_error e ''BlobAlreadyExists'' \<Longrightarrow> az_mapErr op e = Wrap AlreadyExists op e"
  "blob_error e ''ConditionNotMet'' \<Longrightarrow> az_mapErr op e = Wrap PreconditionFailed op e"
  by (simp_all add: blob_error_def az_mapErr_def HasCode_def)

lemma blob_error_bucket [simp]: "blob_error e code \<Longrightarrow> \<not> errors_is e ErrBucketNotFound"
  by (simp add: blob_error_def)

lemma conditions_simps [simp]:
  "accessConditions [] [] 0 False = None"
  "im \<noteq> [] \<Longrightarrow> accessConditions [] im 0 False =
     Some \<lparr>ac_IfNoneMatch = None, ac_IfMatch = Some (wireETag im), ac_IfModifiedSince = None\<rparr>"
  "accessConditions ''*'' [] 0 True = if_absent"
  by (simp_all add: accessConditions_def)

lemma blobClient_current [simp]: "blobClient b k [] = Inr (current_blob k)"
  by (simp add: blobClient_def)

lemma az_Get_plain:
  "az_Get b c k (get_options im) w =
     (case az_DownloadStream (ab_client b) c (ab_container b) (current_blob k) (accessConditions [] im 0 False) (0, 0) w of
        (Inr resp, w) \<Rightarrow> (Ok \<lparr>gr_Info = propertiesInfo k resp, gr_Body = ap_Body resp, gr_NotModified = False\<rparr>, w)
      | (Inl err, w) \<Rightarrow>
          (if CodeOf (az_mapErr ''azure.Get'' err) = NotModified
           then (case az_GetProperties (ab_client b) c (ab_container b) (current_blob k) w of
               (Inr props, w) \<Rightarrow> (Ok \<lparr>gr_Info = propertiesInfo k props, gr_Body = [], gr_NotModified = True\<rparr>, w)
             | (Inl perr, w) \<Rightarrow> (Ok \<lparr>gr_Info = zero_info, gr_Body = [], gr_NotModified = True\<rparr>, w))
           else (Err (az_mapErr ''azure.Get'' err), w)))"
  by (simp add: az_Get_def get_options_def az_range_def)

context azure_service
begin

lemma az_get_found:
  assumes "ab_client b = cl" "ab_container b = container" "inv w" "view w k = Some (d, tag)" "im = [] \<or> im = tag"
  shows "\<exists>res w'. az_Get b c k (get_options im) w = (Ok res, w') \<and> \<not> gr_NotModified res
        \<and> read_all (gr_Body res) = (d, None) \<and> oi_Key (gr_Info res) = k
        \<and> oi_ETag (gr_Info res) = tag \<and> oi_Size (gr_Info res) = int (length d)
        \<and> view w' = view w \<and> inv w'"
proof -
  have t: "bare_tag tag" using tags [OF assms(3,4)] .
  then have "tag \<noteq> []" by (simp add: bare_tag_def)
  with t assms(5) have "accessConditions [] im 0 False = None \<or> accessConditions [] im 0 False = if_match tag" by auto
  from Download_ok [OF assms(3,4) this, of c] assms(1,2) t show ?thesis
    by (auto simp: az_Get_plain propertiesInfo_def derefInt64_def)
qed

lemma az_get_changed:
  assumes "ab_client b = cl" "ab_container b = container" "inv w" "view w k = Some (d, tag)" "differ im tag"
  shows "\<exists>e w'. az_Get b c k (get_options im) w = (Err e, w') \<and> CodeOf e = PreconditionFailed
        \<and> \<not> errors_is e ErrBucketNotFound \<and> view w' = view w \<and> inv w'"
proof -
  obtain x where x: "wireETag im = quoted x" "bare_tag x" "x \<noteq> tag"
    using wireETag_differ [OF assms(5) tags [OF assms(3,4)]] by blast
  obtain e w' where "az_DownloadStream cl c container (current_blob k) (if_match x) (0, 0) w = (Inl e, w')"
    "blob_error e ''ConditionNotMet''" "view w' = view w" "inv w'"
    using Download_changed [OF assms(3,4) x(2,3)] by blast
  with assms(1,2) x(1) differD [OF assms(5)] az_mapErr_codes(3) [of e "''azure.Get''"] show ?thesis
    by (simp add: az_Get_plain)
qed

lemma az_get_gone:
  assumes "ab_client b = cl" "ab_container b = container" "inv w" "view w k = None"
  shows "\<exists>e w'. az_Get b c k (get_options im) w = (Err e, w') \<and> CodeOf e = NotFound
        \<and> \<not> errors_is e ErrBucketNotFound \<and> view w' = view w \<and> inv w'"
proof -
  obtain e w' where "az_DownloadStream cl c container (current_blob k) (accessConditions [] im 0 False) (0, 0) w = (Inl e, w')"
    "blob_error e ''BlobNotFound''" "view w' = view w" "inv w'"
    using Download_gone [OF assms(3,4)] by blast
  with assms(1,2) az_mapErr_codes(1) [of e "''azure.Get''"] show ?thesis by (simp add: az_Get_plain)
qed

text \<open>A Put, once its conditions are written out.\<close>

lemma az_Put_upload:
  assumes "ab_client b = cl" "ab_container b = container"
  shows "\<exists>u. au_Conditions u = accessConditions (po_IfNoneMatch opts) (po_IfMatch opts) 0 (po_IfNoneMatch opts = ''*'') \<and>
    (\<forall>w. az_Put b c k r opts w = (case az_UploadStream cl c container k r u w of
       (Inl err, w) \<Rightarrow> (Err (az_conflict ''azure.Put'' (po_IfNoneMatch opts = ''*'') err), w)
     | (Inr resp, w) \<Rightarrow> (Ok (az_write_result resp), w)))"
proof -
  let ?u = "\<lparr>au_Conditions = accessConditions (po_IfNoneMatch opts) (po_IfMatch opts) 0 (po_IfNoneMatch opts = ''*''),
            au_ContentType = ptrIfSet (po_ContentType opts), au_ContentEncoding = ptrIfSet (po_ContentEncoding opts),
            au_CacheControl = ptrIfSet (po_CacheControl opts), au_Metadata = toMetaPtr (po_UserMetadata opts)\<rparr>"
  have "az_Put b c k r opts w = (case az_UploadStream cl c container k r ?u w of
       (Inl err, w) \<Rightarrow> (Err (az_conflict ''azure.Put'' (po_IfNoneMatch opts = ''*'') err), w)
     | (Inr resp, w) \<Rightarrow> (Ok (az_write_result resp), w))" for w
    using assms by (simp add: az_Put_def Let_def)
  then show ?thesis by (intro exI [of _ ?u]) simp
qed

lemma az_put_stored:
  assumes "ab_client b = cl" "ab_container b = container" "inv w" "read_all r = (d, None)"
    and "po_IfNoneMatch opts = [] \<or> po_IfNoneMatch opts = ''*'' \<and> po_IfMatch opts = [] \<and> view w k = None"
    and "po_IfMatch opts = [] \<or> (\<exists>old. view w k = Some (old, po_IfMatch opts))"
  shows "\<exists>res w'. az_Put b c k r opts w = (Ok res, w') \<and> inv w'
        \<and> view w' = (view w)(k := Some (d, pr_ETag res)) \<and> pr_ETag res \<noteq> []"
proof -
  obtain u where u: "au_Conditions u = accessConditions (po_IfNoneMatch opts) (po_IfMatch opts) 0 (po_IfNoneMatch opts = ''*'')"
    "az_Put b c k r opts w = (case az_UploadStream cl c container k r u w of
       (Inl err, w) \<Rightarrow> (Err (az_conflict ''azure.Put'' (po_IfNoneMatch opts = ''*'') err), w)
     | (Inr resp, w) \<Rightarrow> (Ok (az_write_result resp), w))"
    using az_Put_upload [OF assms(1,2), of opts c k r] by blast
  have "au_Conditions u = None \<or> au_Conditions u = if_absent \<and> view w k = None \<or>
      (\<exists>tag old. au_Conditions u = if_match tag \<and> view w k = Some (old, tag))"
  proof (cases "po_IfMatch opts = []")
    case True
    with assms(5) show ?thesis unfolding u(1) by auto
  next
    case False
    then obtain old where v: "view w k = Some (old, po_IfMatch opts)" using assms(6) by blast
    with False assms(5) tags [OF assms(3) v] show ?thesis unfolding u(1) by auto
  qed
  from Upload_ok [OF assms(3,4) this, of c] obtain out tag w' where
    "az_UploadStream cl c container k r u w = (Inr out, w')" "aw_ETag out = Some (quoted tag)" "bare_tag tag"
    "view w' = (view w)(k := Some (d, tag))" "inv w'" by blast
  with u(2) show ?thesis by (auto simp: az_write_result_def bare_tag_def)
qed

text \<open>A Put the service refuses answers the error it maps to.\<close>

lemma az_put_failed:
  assumes "ab_client b = cl" "ab_container b = container"
    and "\<And>u. au_Conditions u = accessConditions (po_IfNoneMatch opts) (po_IfMatch opts) 0 (po_IfNoneMatch opts = ''*'') \<Longrightarrow>
      \<exists>e w'. az_UploadStream cl c container k r u w = (Inl e, w') \<and> P e \<and> view w' = view w \<and> inv w'"
  shows "\<exists>e w'. az_Put b c k r opts w = (Err (az_conflict ''azure.Put'' (po_IfNoneMatch opts = ''*'') e), w') \<and> P e \<and>
    view w' = view w \<and> inv w'"
proof -
  obtain u where u: "au_Conditions u = accessConditions (po_IfNoneMatch opts) (po_IfMatch opts) 0 (po_IfNoneMatch opts = ''*'')"
    "az_Put b c k r opts w = (case az_UploadStream cl c container k r u w of
       (Inl err, w) \<Rightarrow> (Err (az_conflict ''azure.Put'' (po_IfNoneMatch opts = ''*'') err), w)
     | (Inr resp, w) \<Rightarrow> (Ok (az_write_result resp), w))"
    using az_Put_upload [OF assms(1,2), of opts c k r] by blast
  from assms(3) [OF u(1)] u(2) show ?thesis by auto
qed

lemma az_Delete_current:
  "ab_client b = cl \<Longrightarrow> ab_container b = container \<Longrightarrow> do_VersionID opts = [] \<Longrightarrow>
   az_Delete b c k opts w = (case az_DeleteBlob cl c container (current_blob k) (accessConditions [] (do_IfMatch opts) 0 False) w of
      (Some err, w) \<Rightarrow> (if do_IfMatch opts = [] \<and> HasCode err ''BlobNotFound'' then (None, w) else (Some (az_mapErr ''azure.Delete'' err), w))
    | (None, w) \<Rightarrow> (None, w))"
  by (simp add: az_Delete_def cong: option.case_cong prod.case_cong)

lemma az_store:
  assumes b: "ab_client b = cl" "ab_container b = container"
  shows "object_store (azure_backend b) view inv"
proof (unfold_locales, goal_cases)
  case (1 w k d tag im c)
  from az_get_found [OF b this] show ?case by (simp add: azure_backend_def)
next
  case (2 w k d tag im c)
  from az_get_changed [OF b this] show ?case by (simp add: azure_backend_def)
next
  case (3 w k c im)
  from az_get_gone [OF b this] show ?case by (simp add: azure_backend_def)
next
  case (4 w r d opts k c)
  then show ?case using az_put_stored [OF b, of w r d opts k c] by (auto simp: azure_backend_def)
next
  case (5 w r d opts k c)
  have "\<exists>e w'. az_UploadStream cl c container k r u w = (Inl e, w') \<and>
      (blob_error e ''BlobAlreadyExists'' \<or> blob_error e ''ConditionNotMet'') \<and> view w' = view w \<and> inv w'"
    if "au_Conditions u = accessConditions (po_IfNoneMatch opts) (po_IfMatch opts) 0 (po_IfNoneMatch opts = ''*'')" for u
    using that Upload_exists [OF 5(1,2) _ 5(4), of u c] 5(3,5) by simp
  from az_put_failed [OF b this] obtain e w' where
    "az_Put b c k r opts w = (Err (az_conflict ''azure.Put'' (po_IfNoneMatch opts = ''*'') e), w')"
    "blob_error e ''BlobAlreadyExists'' \<or> blob_error e ''ConditionNotMet''" "view w' = view w" "inv w'" by blast
  with 5(3) az_mapErr_codes(2,3) [of e "''azure.Put''"] show ?case
    by (auto simp: azure_backend_def az_conflict_def)
next
  case (6 w r d opts tag k old c)
  then show ?case using az_put_stored [OF b, of w r d opts k c] by (auto simp: azure_backend_def)
next
  case (7 w r d opts im k old tag c)
  obtain x where x: "wireETag im = quoted x" "bare_tag x" "x \<noteq> tag"
    using wireETag_differ [OF 7(6) tags [OF 7(1,5)]] by blast
  have "\<exists>e w'. az_UploadStream cl c container k r u w = (Inl e, w') \<and> blob_error e ''ConditionNotMet'' \<and> view w' = view w \<and> inv w'"
    if "au_Conditions u = accessConditions (po_IfNoneMatch opts) (po_IfMatch opts) 0 (po_IfNoneMatch opts = ''*'')" for u
    using that Upload_stale [OF 7(1,2) _ x(2) 7(5) x(3), of u c] x(1) 7(3,4) differD [OF 7(6)] by simp
  from az_put_failed [OF b this] obtain e w' where
    "az_Put b c k r opts w = (Err (az_conflict ''azure.Put'' (po_IfNoneMatch opts = ''*'') e), w')"
    "blob_error e ''ConditionNotMet''" "view w' = view w" "inv w'" by blast
  with 7(3) az_mapErr_codes(3) [of e "''azure.Put''"] show ?case
    by (auto simp: azure_backend_def az_conflict_def)
next
  case (8 w r d opts k c)
  have "\<exists>e w'. az_UploadStream cl c container k r u w = (Inl e, w') \<and> True \<and> view w' = view w \<and> inv w'"
    if "au_Conditions u = accessConditions (po_IfNoneMatch opts) (po_IfMatch opts) 0 (po_IfNoneMatch opts = ''*'')" for u
    using that Upload_absent [OF 8(1,2) _ _ 8(5), of u _ c] 8(3,4) by simp
  from az_put_failed [OF b, of opts c k r w "\<lambda>e. True", OF this] show ?case by (auto simp: azure_backend_def)
next
  case (9 w dopts c k)
  show ?case
  proof (cases "view w k")
    case None
    with Delete_gone [OF 9(1) None, of c] 9(2,3) show ?thesis
      by (auto simp: azure_backend_def az_Delete_current [OF b] blob_error_def fun_eq_iff)
  next
    case (Some v)
    obtain d tag where "view w k = Some (d, tag)" using Some by (cases v) auto
    from Delete_ok [OF 9(1) this, of None c] 9(2,3) show ?thesis
      by (auto simp: azure_backend_def az_Delete_current [OF b])
  qed
next
  case (10 w dopts tag k old c)
  have t: "bare_tag tag" using tags [OF 10(1,4)] .
  then have "tag \<noteq> []" by (simp add: bare_tag_def)
  with t Delete_ok [OF 10(1,4), of "if_match tag" c] 10(2,3) show ?case
    by (auto simp: azure_backend_def az_Delete_current [OF b])
next
  case (11 w dopts im k old tag c)
  obtain x where x: "wireETag im = quoted x" "bare_tag x" "x \<noteq> tag"
    using wireETag_differ [OF 11(5) tags [OF 11(1,4)]] by blast
  from Delete_stale [OF 11(1,4) x(2,3), of c] obtain e w' where
    "az_DeleteBlob cl c container (current_blob k) (if_match x) w = (Some e, w')" "blob_error e ''ConditionNotMet''"
    "view w' = view w" "inv w'" by blast
  with 11(2,3) x(1) differD [OF 11(5)] az_mapErr_codes(3) [of e "''azure.Delete''"] show ?case
    by (auto simp: azure_backend_def az_Delete_current [OF b])
next
  case (12 w r d err g c k opts)
  have "\<exists>e w'. az_UploadStream cl c container k r u w = (Inl e, w') \<and> True \<and> view w' = view w \<and> inv w'"
    if "au_Conditions u = accessConditions (po_IfNoneMatch opts) (po_IfMatch opts) 0 (po_IfNoneMatch opts = ''*'')" for u
    using Upload_broken [OF 12, of c k u] by simp
  from az_put_failed [OF b, of opts c k r w "\<lambda>e. True", OF this] show ?case by (auto simp: azure_backend_def)
qed

end

section \<open>A container that behaves as documented\<close>

text \<open>
  The SDK over any store that meets the contract: its ETags, whatever they are, are served in
  hexadecimal and quoted, so the laws of \<open>azure_service\<close> can be had.
\<close>

definition hex_tag :: "string \<Rightarrow> string" where
  "hex_tag t = ''0x'' @ hex_encode t"

definition az_error :: "string \<Rightarrow> int \<Rightarrow> goerr" where
  "az_error code status = Lib code [AzCode code, AzStatus status] []"

definition hex_view :: "('w \<Rightarrow> string \<Rightarrow> (bytes \<times> string) option) \<Rightarrow> 'w \<Rightarrow> string \<Rightarrow> (bytes \<times> string) option" where
  "hex_view view w k = map_option (\<lambda>(d, t). (d, hex_tag t)) (view w k)"

text \<open>What the conditions ask, judged on the object that is there; \<open>None\<close> passes.\<close>

definition az_judge :: "AzConditions option \<Rightarrow> string option \<Rightarrow> goerr option" where
  "az_judge cond tag = (case cond of
      None \<Rightarrow> None
    | Some ac \<Rightarrow> (case tag of
        None \<Rightarrow> (if ac_IfMatch ac \<noteq> None then Some (az_error ''ConditionNotMet'' 412) else None)
      | Some t \<Rightarrow>
          (if ac_IfNoneMatch ac = Some ''*'' then Some (az_error ''BlobAlreadyExists'' 409)
           else if ac_IfMatch ac \<noteq> None \<and> ac_IfMatch ac \<noteq> Some (quoted (hex_tag t)) then Some (az_error ''ConditionNotMet'' 412)
           else None)))"

definition az_peek :: "'w Backend \<Rightarrow> ctx \<Rightarrow> string \<Rightarrow> 'w \<Rightarrow> GetResult option \<times> 'w" where
  "az_peek be c k w = (case be_Get be c k (get_options []) w of (Ok res, w) \<Rightarrow> (Some res, w) | (_, w) \<Rightarrow> (None, w))"

definition az_served :: "GetResult \<Rightarrow> AzDownload" where
  "az_served g = \<lparr>ap_ETag = Some (quoted (hex_tag (oi_ETag (gr_Info g)))), ap_ContentLength = Some (oi_Size (gr_Info g)),
     ap_LastModified = Some (oi_LastModified (gr_Info g)), ap_VersionID = None,
     ap_ContentType = Some (oi_ContentType (gr_Info g)), ap_ContentEncoding = Some (oi_ContentEncoding (gr_Info g)),
     ap_CacheControl = Some (oi_CacheControl (gr_Info g)), ap_Metadata = toMetaPtr (oi_UserMetadata (gr_Info g)),
     ap_Body = gr_Body g\<rparr>"

definition az_store_options :: "AzUpload \<Rightarrow> PutOptions" where
  "az_store_options u = \<lparr>po_ContentType = derefStr (au_ContentType u), po_ContentEncoding = derefStr (au_ContentEncoding u),
     po_CacheControl = derefStr (au_CacheControl u), po_UserMetadata = fromMetaPtr (au_Metadata u),
     po_IfNoneMatch = [], po_IfMatch = [], po_Size = -1\<rparr>"

definition azure_over :: "'w Backend \<Rightarrow> 'w AzClient" where
  "azure_over be = \<lparr>
     az_WithVersionID = (\<lambda>b k v. None),
     az_GetProperties = (\<lambda>c b k w. case az_peek be c (ab_Key k) w of
        (None, w) \<Rightarrow> (Inl (az_error ''BlobNotFound'' 404), w) | (Some res, w) \<Rightarrow> (Inr (AzProperties.truncate (az_served res)), w)),
     az_DownloadStream = (\<lambda>c b k cond r w. case az_peek be c (ab_Key k) w of
        (None, w) \<Rightarrow> (Inl (az_error ''BlobNotFound'' 404), w)
      | (Some res, w) \<Rightarrow> (case az_judge cond (Some (oi_ETag (gr_Info res))) of
           Some e \<Rightarrow> (Inl e, w) | None \<Rightarrow> (Inr (az_served res), w))),
     az_UploadStream = (\<lambda>c b k r u w. case az_peek be c k w of
        (found, w) \<Rightarrow> (case az_judge (au_Conditions u) (map_option (\<lambda>res. oi_ETag (gr_Info res)) found) of
           Some e \<Rightarrow> (Inl e, w)
         | None \<Rightarrow> (case be_Put be c k r (az_store_options u) w of
              (Ok p, w) \<Rightarrow> (Inr \<lparr>aw_ETag = Some (quoted (hex_tag (pr_ETag p))), aw_VersionID = None\<rparr>, w)
            | (_, w) \<Rightarrow> (Inl (az_error ''InternalError'' 500), w)))),
     az_DeleteBlob = (\<lambda>c b k cond w. case az_peek be c (ab_Key k) w of
        (None, w) \<Rightarrow> (Some (az_error ''BlobNotFound'' 404), w)
      | (Some res, w) \<Rightarrow> (case az_judge cond (Some (oi_ETag (gr_Info res))) of
           Some e \<Rightarrow> (Some e, w)
         | None \<Rightarrow> be_Delete be c (ab_Key k) \<lparr>do_VersionID = [], do_IfMatch = []\<rparr> w)),
     az_ListFlat = (\<lambda>c b l w. (Inl (az_error ''NotImplemented'' 501), w)),
     az_ListHierarchy = (\<lambda>c b d l w. (Inl (az_error ''NotImplemented'' 501), w)),
     az_CopyFromURL = (\<lambda>c b k u cond w. (Inl (az_error ''NotImplemented'' 501), w)),
     az_URL = (\<lambda>b k. ''https://host/'' @ b @ ''/'' @ k),
     az_Now = (\<lambda>w. 0)\<rparr>"

lemma hex_digit_plain: "n < 16 \<Longrightarrow> hex_digit n \<noteq> CHR 0x22"
proof -
  assume "n < 16"
  moreover have "\<forall>n \<in> set [0..<16]. hex_digit n \<noteq> CHR 0x22" by code_simp
  ultimately show ?thesis by simp
qed

lemma hex_tag_bare [simp]: "bare_tag (hex_tag t)"
proof -
  have n: "(of_char x :: nat) < 256" for x :: char
    using of_char_mod_256 [of x, where 'a = nat] by (metis mod_less_divisor zero_less_numeral)
  have "hex_digit (of_char x div 16) \<noteq> CHR 0x22" "hex_digit (of_char x mod 16) \<noteq> CHR 0x22" for x :: char
    by (rule hex_digit_plain, use n [of x] in linarith) (rule hex_digit_plain, simp)
  then have "CHR 0x22 \<notin> set (hex_encode t)" by (auto simp: hex_encode_def) (metis+)
  then show ?thesis by (simp add: bare_tag_def hex_tag_def)
qed

lemma az_error_kind [simp]:
  "blob_error (az_error code status) code"
  by (simp add: blob_error_def az_error_def HasCode_def err_tags_def first_some_def List.map_filter_simps)

lemma hex_view_simps:
  "hex_view view w k = None \<longleftrightarrow> view w k = None"
  "hex_view view w k = Some (d, t) \<longleftrightarrow> (\<exists>t'. view w k = Some (d, t') \<and> t = hex_tag t')"
  by (auto simp: hex_view_def)

context object_store
begin

lemma peek_found:
  assumes "inv w" "view w k = Some (d, tag)"
  shows "\<exists>res w'. az_peek be c k w = (Some res, w') \<and> read_all (gr_Body res) = (d, None) \<and>
    oi_ETag (gr_Info res) = tag \<and> oi_Size (gr_Info res) = int (length d) \<and> view w' = view w \<and> inv w'"
  using get_found [OF assms, of "[]" c] by (auto simp: az_peek_def)

lemma peek_gone:
  assumes "inv w" "view w k = None"
  shows "\<exists>w'. az_peek be c k w = (None, w') \<and> view w' = view w \<and> inv w'"
  using get_missing [OF assms, of c "[]"] by (auto simp: az_peek_def)

lemma peek_any:
  assumes "inv w"
  shows "\<exists>found w'. az_peek be c k w = (found, w') \<and> view w' = view w \<and> inv w' \<and>
    map_option (\<lambda>res. oi_ETag (gr_Info res)) found = map_option snd (view w k)"
  using peek_found [OF assms, of k] peek_gone [OF assms, of k] by (cases "view w k") fastforce+

lemma judge_simps [simp]:
  "az_judge None tag = None"
  "az_judge (if_match (hex_tag t)) (Some t) = None"
  "az_judge if_absent None = None"
  "az_judge if_absent (Some t) = Some (az_error ''BlobAlreadyExists'' 409)"
  "x \<noteq> hex_tag t \<Longrightarrow> az_judge (if_match x) (Some t) = Some (az_error ''ConditionNotMet'' 412)"
  by (auto simp: az_judge_def quoted_def)

lemma azure_over_service: "azure_service (azure_over be) container (hex_view view) inv"
proof (unfold_locales, goal_cases)
  case (1 w k d tag)
  then show ?case by (auto simp: hex_view_simps)
next
  case (2 w k d tag cond c)
  then obtain t where t: "view w k = Some (d, t)" "tag = hex_tag t" by (auto simp: hex_view_simps)
  from peek_found [OF 2(1) t(1), of c] 2(3) t(2) show ?case
    by (auto simp: azure_over_def az_served_def hex_view_def fun_eq_iff)
next
  case (3 w k d tag t' c)
  then obtain t where t: "view w k = Some (d, t)" "tag = hex_tag t" by (auto simp: hex_view_simps)
  from peek_found [OF 3(1) t(1), of c] 3(4) t(2) show ?case
    by (auto simp: azure_over_def hex_view_def fun_eq_iff)
next
  case (4 w k c cond)
  then show ?case using peek_gone [of w k c] by (auto simp: azure_over_def hex_view_simps hex_view_def fun_eq_iff)
next
  case (5 w r d u k c)
  obtain found w1 where p: "az_peek be c k w = (found, w1)" "view w1 = view w" "inv w1"
    "map_option (\<lambda>res. oi_ETag (gr_Info res)) found = map_option snd (view w k)"
    using peek_any [OF 5(1)] by blast
  have j: "az_judge (au_Conditions u) (map_option snd (view w k)) = None"
    using 5(3) by (auto simp: hex_view_simps)
  have o: "po_IfMatch (az_store_options u) = []" "po_IfNoneMatch (az_store_options u) = []"
    by (simp_all add: az_store_options_def)
  then have "po_IfNoneMatch (az_store_options u) = [] \<or> po_IfNoneMatch (az_store_options u) = ''*'' \<and> view w1 k = None" by simp
  from put_stored [OF p(3) 5(2) o(1) this, of c] obtain res w' where
    "be_Put be c k r (az_store_options u) w1 = (Ok res, w')" "inv w'" "view w' = (view w1)(k := Some (d, pr_ETag res))" by blast
  with p j show ?case by (auto simp: azure_over_def hex_view_def fun_eq_iff intro!: exI [of _ "hex_tag (pr_ETag res)"])
next
  case (6 w r d u k c)
  obtain found w1 where p: "az_peek be c k w = (found, w1)" "view w1 = view w" "inv w1"
    "map_option (\<lambda>res. oi_ETag (gr_Info res)) found = map_option snd (view w k)"
    using peek_any [OF 6(1)] by blast
  obtain t where "map_option snd (view w k) = Some t" using 6(4) by (auto simp: hex_view_def)
  with p 6(3) show ?case by (auto simp: azure_over_def hex_view_def fun_eq_iff)
next
  case (7 w r d u t k old tag c)
  obtain found w1 where p: "az_peek be c k w = (found, w1)" "view w1 = view w" "inv w1"
    "map_option (\<lambda>res. oi_ETag (gr_Info res)) found = map_option snd (view w k)"
    using peek_any [OF 7(1)] by blast
  obtain t' where "map_option snd (view w k) = Some t'" "tag = hex_tag t'" using 7(5) by (auto simp: hex_view_simps)
  with p 7(3,6) show ?case by (auto simp: azure_over_def hex_view_def fun_eq_iff)
next
  case (8 w r d u ac k c)
  obtain found w1 where p: "az_peek be c k w = (found, w1)" "view w1 = view w" "inv w1"
    "map_option (\<lambda>res. oi_ETag (gr_Info res)) found = map_option snd (view w k)"
    using peek_any [OF 8(1)] by blast
  with 8(3-5) show ?case by (auto simp: azure_over_def hex_view_def az_judge_def fun_eq_iff)
next
  case (9 w r d err g c k u)
  obtain found w1 where p: "az_peek be c k w = (found, w1)" "view w1 = view w" "inv w1"
    using peek_any [OF 9(1)] by blast
  obtain e w2 where "be_Put be c k r (az_store_options u) w1 = (Err e, w2)" "view w2 = view w1" "inv w2"
    using put_broken [OF p(3) 9(2)] by blast
  with p show ?case
    by (cases "az_judge (au_Conditions u) (map_option (\<lambda>res. oi_ETag (gr_Info res)) found)")
      (auto simp: azure_over_def hex_view_def fun_eq_iff)
next
  case (10 w k d tag cond c)
  then obtain t where t: "view w k = Some (d, t)" "tag = hex_tag t" by (auto simp: hex_view_simps)
  obtain res w1 where p: "az_peek be c k w = (Some res, w1)" "oi_ETag (gr_Info res) = t" "view w1 = view w" "inv w1"
    using peek_found [OF 10(1) t(1)] by blast
  from delete_done [OF p(4), of "\<lparr>do_VersionID = [], do_IfMatch = []\<rparr>" c k] p 10(3) t(2) show ?case
    by (auto simp: azure_over_def hex_view_def fun_eq_iff)
next
  case (11 w k d tag t' c)
  then obtain t where t: "view w k = Some (d, t)" "tag = hex_tag t" by (auto simp: hex_view_simps)
  from peek_found [OF 11(1) t(1), of c] 11(4) t(2) show ?case
    by (auto simp: azure_over_def hex_view_def fun_eq_iff)
next
  case (12 w k c)
  then show ?case using peek_gone [of w k c] by (auto simp: azure_over_def hex_view_simps hex_view_def fun_eq_iff)
qed

end

interpretation azmem: azure_service "azure_over (mem_backend sha256 name)" container "hex_view mem_view" "mem_inv sha256"
  for sha256 name container
  by (rule mem.azure_over_service)

section \<open>Properties\<close>

text \<open>C9: against a service that behaves as Azure documents, the Azure backend meets the store contract the
  gateway relies on, with the quotes of its ETags stripped and restored: whole reads, unconditional or conditional on
  If-Match, and conditional writes and deletes are answered with the contract's codes, and a refused
  or broken upload leaves the container as it was. Reads conditional on If-None-Match are not part
  of this contract: the backend masks their answer.\<close>

theorem azure_meets_contract:
  assumes "azure_service (ab_client b) (ab_container b) view ok"
  shows "object_store (azure_backend b) view ok"
  using azure_service.az_store [OF assms refl refl] .

definition sample_azure :: "(unit, MemState) AzBackend" where
  "sample_azure = \<lparr>ab_client = azure_over (mem_backend (\<lambda>d. []) ''b''), ab_container = ''b'', ab_account = ''acct'',
     ab_sharedKey = None, ab_maxExpiry = 0, ab_probe = ProbeList, ab_probeKey = [], ab_sign = (\<lambda>k s. Inr [])\<rparr>"

lemma azure_meets_contract_witness:
  "object_store (azure_backend sample_azure) (hex_view mem_view) (mem_inv (\<lambda>d. []))"
  by (rule azure_meets_contract) (simp add: sample_azure_def azmem.azure_service_axioms)

text \<open>An ETag the Azure backend reports goes back on the wire as the entity tag the service sent,
  whether the caller returns it as is or quotes it again.\<close>

theorem wireETag_roundtrip:
  assumes "bare_tag t"
  shows "wireETag (etagStr (Some (quoted t))) = quoted t \<and> wireETag (quoted (etagStr (Some (quoted t)))) = quoted t"
  using assms by simp

lemma wireETag_roundtrip_witness: "wireETag (etagStr (Some (quoted ''0x8D''))) = quoted ''0x8D''"
proof -
  have "bare_tag ''0x8D''" by (simp add: bare_tag_def)
  from wireETag_roundtrip [OF this] show ?thesis by simp
qed

text \<open>C29: a conditional read that Azure answers as not modified with the error code it documents for it,
  ConditionNotMet, is reported as a failed precondition: the code is matched before the 304
  status, so an unchanged object never reads as not modified.\<close>

theorem azure_not_modified_masked:
  assumes "blobClient b key (go_VersionID opts) = Inr bc"
    and "az_DownloadStream (ab_client b) c (ab_container b) bc
      (accessConditions (go_IfNoneMatch opts) (go_IfMatch opts) (go_IfModifiedSince opts) False) (az_range opts) w = (Inl err, w')"
    and "HasCode err ''ConditionNotMet''"
  shows "\<exists>e. az_Get b c key opts w = (Err e, w') \<and> CodeOf e = PreconditionFailed"
  using assms by (simp add: az_Get_def az_mapErr_def HasCode_def)

lemma azure_not_modified_masked_witness:
  "let b = sample_azure\<lparr>ab_client := (ab_client sample_azure)\<lparr>az_DownloadStream := \<lambda>c k bc cond r w. (Inl (az_error ''ConditionNotMet'' 304), w)\<rparr>\<rparr>
   in \<forall>w. \<exists>e. az_Get b background ''k'' ((get_options [])\<lparr>go_IfNoneMatch := ''0x8D''\<rparr>) w = (Err e, w) \<and> CodeOf e = PreconditionFailed"
  unfolding Let_def
  by (intro allI, rule azure_not_modified_masked [where bc = "current_blob ''k''" and err = "az_error ''ConditionNotMet'' 304"])
    (simp_all add: get_options_def az_error_def HasCode_def err_tags_def first_some_def List.map_filter_simps)

end
