(* ===== verification/Files.thy ===== *)
theory Files
  imports Serr "HOL-Library.AList"
begin

text \<open>
  The part of Go's \<open>os\<close> package the agent keeps its custody records with: a file
  system of directories, files and symbolic links, path resolution with its errors, and the
  calls as functions on it. A path is the list of its components. Every call may fail
  before it has an effect: \<open>fs_faults\<close> is the schedule of such failures, one entry per
  call, so a statement about every schedule is one about a failure at any point. Where a loss of
  power matters \<open>fs_disk\<close> keeps what the calls have not yet brought to the disk, and \<open>survives\<close>
  are the file systems that may be found afterwards; it does not influence the calls.
\<close>

section \<open>Nodes and resolution\<close>

type_synonym path = "string list"

datatype node = Dir | File string | Symlink path

type_synonym nodes = "(path \<times> node) list"

text \<open>
  What is not on the disk for certain: that a directory holds another entry than this older one,
  with whether the data of the file it named was itself not there; and the data of a file.
\<close>

datatype pending = Entry path "node option" bool | Data path

record FS =
  fs_nodes :: nodes
  fs_faults :: "goerr option list"
  fs_disk :: "pending list option"

definition node_at :: "nodes \<Rightarrow> path \<Rightarrow> node option" where
  "node_at ns p = (if p = [] then Some Dir else map_of ns p)"

definition not_a_directory :: goerr where "not_a_directory = Lib ''not a directory'' [] []"

definition is_a_directory :: goerr where "is_a_directory = Lib ''is a directory'' [] []"

definition too_many_links :: goerr where "too_many_links = Lib ''too many levels of symbolic links'' [] []"

text \<open>Resolution from the directory \<open>acc\<close>, following every link, at most \<open>k\<close> of them.\<close>

function walk :: "nat \<Rightarrow> nodes \<Rightarrow> path \<Rightarrow> path \<Rightarrow> goerr + path" where
  "walk k ns acc [] = Inr acc"
| "walk k ns acc (x # xs) = (case node_at ns (acc @ [x]) of
     None \<Rightarrow> (if xs = [] then Inr (acc @ [x]) else Inl (Sentinel ErrNotExist))
   | Some (File d) \<Rightarrow> (if xs = [] then Inr (acc @ [x]) else Inl not_a_directory)
   | Some Dir \<Rightarrow> walk k ns (acc @ [x]) xs
   | Some (Symlink t) \<Rightarrow> (case k of 0 \<Rightarrow> Inl too_many_links | Suc m \<Rightarrow> walk m ns [] (t @ xs)))"
  by pat_completeness auto
termination
  by (relation "measures [\<lambda>(k, ns, acc, xs). k, \<lambda>(k, ns, acc, xs). length xs]") auto

abbreviation resolve :: "nodes \<Rightarrow> path \<Rightarrow> goerr + path" where "resolve ns p \<equiv> walk 40 ns [] p"

text \<open>A name in its resolved directory, itself not followed (\<open>Lstat\<close>, \<open>Mkdir\<close>, \<open>Rename\<close>, \<open>Remove\<close>).\<close>

definition locate :: "nodes \<Rightarrow> path \<Rightarrow> goerr + path" where
  "locate ns p = (case resolve ns (butlast p) of
     Inl e \<Rightarrow> Inl e
   | Inr d \<Rightarrow> (case node_at ns d of
       Some Dir \<Rightarrow> Inr (d @ [last p])
     | None \<Rightarrow> Inl (Sentinel ErrNotExist)
     | Some _ \<Rightarrow> Inl not_a_directory))"

section \<open>Calls\<close>

text \<open>A call reads and changes a state and returns a value or an error.\<close>

type_synonym ('s, 'a) act = "'s \<Rightarrow> (goerr + 'a) \<times> 's"

type_synonym 'a io = "(FS, 'a) act"

definition effect :: "(nodes \<Rightarrow> nodes \<Rightarrow> pending list \<Rightarrow> pending list) \<Rightarrow> (nodes \<Rightarrow> (goerr + 'a) \<times> nodes) \<Rightarrow> 'a io" where
  "effect J f s = (case fs_faults s of
     Some e # rest \<Rightarrow> (Inl e, s\<lparr>fs_faults := rest\<rparr>)
   | faults \<Rightarrow> (let (r, ns) = f (fs_nodes s) in
       (r, s\<lparr>fs_nodes := ns, fs_faults := tl faults, fs_disk := map_option (J (fs_nodes s) ns) (fs_disk s)\<rparr>)))"

text \<open>A change is pending until it is synced: of a file's data, or of the entry of its directory.\<close>

fun holds_data :: "node option \<Rightarrow> bool" where
  "holds_data (Some (File d)) = True"
| "holds_data n = False"

definition changed :: "nodes \<Rightarrow> nodes \<Rightarrow> path list" where
  "changed ns ns' = filter (\<lambda>p. node_at ns p \<noteq> node_at ns' p) (map fst ns @ map fst ns')"

definition journal :: "nodes \<Rightarrow> nodes \<Rightarrow> pending list \<Rightarrow> pending list" where
  "journal ns ns' P = concat (map (\<lambda>p.
     if holds_data (node_at ns p) \<and> holds_data (node_at ns' p) then [Data p]
     else Entry p (node_at ns p) (Data p \<in> set P) # (if holds_data (node_at ns' p) then [Data p] else []))
     (changed ns ns')) @ P"

abbreviation syscall :: "(nodes \<Rightarrow> (goerr + 'a) \<times> nodes) \<Rightarrow> 'a io" where "syscall \<equiv> effect journal"

definition observe :: "(nodes \<Rightarrow> goerr + 'a) \<Rightarrow> 'a io" where
  "observe f = effect (\<lambda>_ _ P. P) (\<lambda>ns. (f ns, ns))"

definition ret :: "'a \<Rightarrow> ('s, 'a) act" where "ret a s = (Inr a, s)"

definition fail :: "goerr \<Rightarrow> ('s, 'a) act" where "fail e s = (Inl e, s)"

text \<open>The test of an error that returns it, and the form that handles the error.\<close>

definition handle :: "('s, 'a) act \<Rightarrow> (goerr \<Rightarrow> ('s, 'b) act) \<Rightarrow> ('a \<Rightarrow> ('s, 'b) act) \<Rightarrow> ('s, 'b) act" where
  "handle m h f s = (case m s of (Inl e, s) \<Rightarrow> h e s | (Inr a, s) \<Rightarrow> f a s)"

definition andthen :: "('s, 'a) act \<Rightarrow> ('a \<Rightarrow> ('s, 'b) act) \<Rightarrow> ('s, 'b) act" where
  "andthen m f = handle m fail f"

definition read_file :: "nodes \<Rightarrow> path \<Rightarrow> goerr + string" where
  "read_file ns p = (case resolve ns p of
     Inl e \<Rightarrow> Inl e
   | Inr q \<Rightarrow> (case node_at ns q of
       None \<Rightarrow> Inl (Sentinel ErrNotExist)
     | Some (File d) \<Rightarrow> Inr d
     | Some _ \<Rightarrow> Inl is_a_directory))"

definition lstat :: "nodes \<Rightarrow> path \<Rightarrow> goerr + node" where
  "lstat ns p = (case locate ns p of
     Inl e \<Rightarrow> Inl e
   | Inr q \<Rightarrow> (case node_at ns q of None \<Rightarrow> Inl (Sentinel ErrNotExist) | Some n \<Rightarrow> Inr n))"

definition children :: "nodes \<Rightarrow> path \<Rightarrow> string list" where
  "children ns d = [last p. (p, n) \<leftarrow> ns, p \<noteq> [] \<and> butlast p = d]"

definition read_dir :: "nodes \<Rightarrow> path \<Rightarrow> goerr + string list" where
  "read_dir ns p = (case resolve ns p of
     Inl e \<Rightarrow> Inl e
   | Inr q \<Rightarrow> (case node_at ns q of
       None \<Rightarrow> Inl (Sentinel ErrNotExist)
     | Some Dir \<Rightarrow> Inr (children ns q)
     | Some _ \<Rightarrow> Inl not_a_directory))"

definition open_dir :: "nodes \<Rightarrow> path \<Rightarrow> goerr + unit" where
  "open_dir ns p = (case resolve ns p of
     Inl e \<Rightarrow> Inl e
   | Inr q \<Rightarrow> (case node_at ns q of None \<Rightarrow> Inl (Sentinel ErrNotExist) | Some n \<Rightarrow> Inr ()))"

definition make_dir :: "path \<Rightarrow> nodes \<Rightarrow> (goerr + unit) \<times> nodes" where
  "make_dir p ns = (case locate ns p of
     Inl e \<Rightarrow> (Inl e, ns)
   | Inr q \<Rightarrow> (if node_at ns q \<noteq> None then (Inl (Sentinel ErrExist), ns)
               else (Inr (), AList.update q Dir ns)))"

text \<open>\<open>os.CreateTemp\<close>: \<open>pick\<close> draws the random part; a name that is taken is not handed out.
  The result is the name and the file behind the descriptor.\<close>

definition create_temp :: "(nodes \<Rightarrow> string) \<Rightarrow> path \<Rightarrow> string \<Rightarrow> nodes \<Rightarrow> (goerr + (path \<times> path)) \<times> nodes" where
  "create_temp pick dir pattern ns = (let name = pattern @ pick ns in
     case locate ns (dir @ [name]) of
       Inl e \<Rightarrow> (Inl e, ns)
     | Inr q \<Rightarrow> (if node_at ns q \<noteq> None then (Inl (Sentinel ErrExist), ns)
                 else (Inr (dir @ [name], q), AList.update q (File []) ns)))"

definition write_file :: "path \<Rightarrow> string \<Rightarrow> nodes \<Rightarrow> (goerr + unit) \<times> nodes" where
  "write_file q d ns = (Inr (), AList.update q (File d) ns)"

definition rename :: "path \<Rightarrow> path \<Rightarrow> nodes \<Rightarrow> (goerr + unit) \<times> nodes" where
  "rename a b ns = (case (locate ns a, locate ns b) of
     (Inr p, Inr q) \<Rightarrow> (case node_at ns p of
         None \<Rightarrow> (Inl (Sentinel ErrNotExist), ns)
       | Some n \<Rightarrow> (if node_at ns q = Some Dir then (Inl is_a_directory, ns)
                    else (Inr (), AList.update q n (AList.delete p ns))))
   | (Inl e, _) \<Rightarrow> (Inl e, ns)
   | (_, Inl e) \<Rightarrow> (Inl e, ns))"

definition remove :: "path \<Rightarrow> nodes \<Rightarrow> (goerr + unit) \<times> nodes" where
  "remove p ns = (case locate ns p of
     Inl e \<Rightarrow> (Inl e, ns)
   | Inr q \<Rightarrow> (case node_at ns q of
       None \<Rightarrow> (Inl (Sentinel ErrNotExist), ns)
     | Some n \<Rightarrow> (if n = Dir \<and> children ns q \<noteq> [] then (Inl (Lib ''directory not empty'' [] []), ns)
                  else (Inr (), AList.delete q ns))))"

text \<open>A rename moves a file with its data: what is on the disk of it is so under the new name.\<close>

definition moved :: "path \<Rightarrow> path \<Rightarrow> nodes \<Rightarrow> nodes \<Rightarrow> pending list \<Rightarrow> pending list" where
  "moved a b ns ns' P = (case (locate ns a, locate ns b) of
     (Inr p, Inr q) \<Rightarrow> if ns' = ns then P
       else Entry p (node_at ns p) (Data p \<in> set P) # Entry q (node_at ns q) (Data q \<in> set P) #
         (if Data p \<in> set P then [Data q] else []) @ filter (\<lambda>e. e \<noteq> Data p \<and> e \<noteq> Data q) P
   | _ \<Rightarrow> P)"

text \<open>\<open>fsync\<close> brings a file's data to the disk, or a directory's entries.\<close>

fun settles :: "path \<Rightarrow> pending \<Rightarrow> bool" where
  "settles q (Data p) \<longleftrightarrow> p = q"
| "settles q (Entry p n b) \<longleftrightarrow> p \<noteq> [] \<and> butlast p = q"

definition synced :: "path \<Rightarrow> nodes \<Rightarrow> nodes \<Rightarrow> pending list \<Rightarrow> pending list" where
  "synced p ns ns' P = (case resolve ns p of Inl e \<Rightarrow> P | Inr q \<Rightarrow> filter (\<lambda>e. \<not> settles q e) P)"

text \<open>After a loss of power every name reads as it did or as an older entry did, and a file
  whose data was not on the disk holds anything.\<close>

definition perhaps :: "node option \<Rightarrow> bool \<Rightarrow> node option \<Rightarrow> bool" where
  "perhaps n b m \<longleftrightarrow> m = n \<or> b \<and> holds_data n \<and> holds_data m"

definition survives :: "FS \<Rightarrow> nodes \<Rightarrow> bool" where
  "survives s ns' \<longleftrightarrow> (let P = case fs_disk s of None \<Rightarrow> [] | Some P \<Rightarrow> P in
     \<forall>p. perhaps (node_at (fs_nodes s) p) (Data p \<in> set P) (node_at ns' p) \<or>
       (\<exists>n b. Entry p n b \<in> set P \<and> perhaps n b (node_at ns' p)))"

lemma survives_refl: "survives s (fs_nodes s)"
  by (simp add: survives_def perhaps_def Let_def)

section \<open>What grows and what stays\<close>

text \<open>Every node there was is still there, unchanged.\<close>

definition grows :: "nodes \<Rightarrow> nodes \<Rightarrow> bool" where
  "grows ns ns' \<longleftrightarrow> (\<forall>p n. node_at ns p = Some n \<longrightarrow> node_at ns' p = Some n)"

definition fs_wf :: "nodes \<Rightarrow> bool" where
  "fs_wf ns \<longleftrightarrow> (\<forall>p \<in> set (map fst ns). p \<noteq> [] \<longrightarrow> node_at ns (butlast p) = Some Dir)"

lemma grows_refl [simp, intro]: "grows ns ns"
  by (simp add: grows_def)

lemma grows_trans: "grows a b \<Longrightarrow> grows b c \<Longrightarrow> grows a c"
  by (simp add: grows_def)

lemma growsD: "grows ns ns' \<Longrightarrow> node_at ns p = Some n \<Longrightarrow> node_at ns' p = Some n"
  by (simp add: grows_def)

lemma grows_None: "grows ns ns' \<Longrightarrow> node_at ns' p = None \<Longrightarrow> node_at ns p = None"
  by (metis growsD not_Some_eq)

lemma node_at_Nil [simp]: "node_at ns [] = Some Dir"
  by (simp add: node_at_def)

lemma node_at_update [simp]:
  "p \<noteq> [] \<Longrightarrow> node_at (AList.update p n ns) q = (if q = p then Some n else node_at ns q)"
  by (auto simp: node_at_def update_conv')

lemma node_at_delete [simp]:
  "p \<noteq> [] \<Longrightarrow> node_at (AList.delete p ns) q = (if q = p then None else node_at ns q)"
  by (auto simp: node_at_def delete_conv')

text \<open>A resolution that reached a node is not disturbed by what is added.\<close>

lemma walk_grows:
  "grows ns ns' \<Longrightarrow> walk k ns acc xs = Inr d \<Longrightarrow> node_at ns d \<noteq> None \<Longrightarrow> walk k ns' acc xs = Inr d"
proof (induction k ns acc xs rule: walk.induct)
  case (2 k ns acc x xs)
  show ?case
  proof (cases "node_at ns (acc @ [x])")
    case None
    then show ?thesis using 2 by (auto split: if_splits)
  next
    case (Some n)
    with 2(3) have "node_at ns' (acc @ [x]) = Some n" by (rule growsD)
    with Some 2 show ?thesis by (cases n) (auto split: nat.splits if_splits)
  qed
qed simp

lemma walk_append:
  "walk k ns acc xs = Inr d \<Longrightarrow> node_at ns d = Some Dir \<Longrightarrow> \<exists>k'. walk k ns acc (xs @ ys) = walk k' ns d ys"
proof (induction k ns acc xs rule: walk.induct)
  case (1 k ns acc)
  then show ?case by auto
next
  case (2 k ns acc x xs)
  show ?case
  proof (cases "node_at ns (acc @ [x])")
    case None
    then show ?thesis using 2 by (auto split: if_splits)
  next
    case (Some n)
    with 2 show ?thesis by (cases n) (auto split: nat.splits if_splits)
  qed
qed

lemma resolve_child:
  assumes "resolve ns dir = Inr d" "node_at ns d = Some Dir" "\<forall>t. node_at ns (d @ [x]) \<noteq> Some (Symlink t)"
  shows "resolve ns (dir @ [x]) = Inr (d @ [x])"
proof -
  obtain k where "resolve ns (dir @ [x]) = walk k ns d [x]" using walk_append [OF assms(1,2)] by blast
  with assms(3) show ?thesis by (auto split: option.splits node.splits)
qed

lemma locate_child: "resolve ns dir = Inr d \<Longrightarrow> node_at ns d = Some Dir \<Longrightarrow> locate ns (dir @ [x]) = Inr (d @ [x])"
  by (simp add: locate_def)

lemma locate_InrE:
  assumes "locate ns p = Inr q"
  obtains d where "resolve ns (butlast p) = Inr d" "node_at ns d = Some Dir" "q = d @ [last p]"
  using assms by (auto simp: locate_def split: sum.splits option.splits node.splits)

lemma locate_nonempty: "locate ns p = Inr q \<Longrightarrow> q \<noteq> []"
  by (auto elim: locate_InrE)

section \<open>Effects of the calls\<close>

lemma syscall_cases:
  obtains e rest where "fs_faults s = Some e # rest" "effect J f s = (Inl e, s\<lparr>fs_faults := rest\<rparr>)"
  | r ns where "f (fs_nodes s) = (r, ns)" "effect J f s = (r, s\<lparr>fs_nodes := ns, fs_faults := tl (fs_faults s),
      fs_disk := map_option (J (fs_nodes s) ns) (fs_disk s)\<rparr>)"
proof (cases "\<exists>e rest. fs_faults s = Some e # rest")
  case True
  then show thesis using that(1) by (auto simp: effect_def)
next
  case False
  obtain r ns where "f (fs_nodes s) = (r, ns)" by fastforce
  with False show thesis using that(2)
    by (auto simp: effect_def split: list.splits option.splits)
qed

lemma syscall_nodes:
  assumes "effect J f s = (r, s')"
  shows "fs_nodes s' = fs_nodes s \<and> (\<exists>e. r = Inl e) \<or> (r, fs_nodes s') = f (fs_nodes s)"
proof (cases rule: syscall_cases [of s J f])
  case (1 e rest)
  with assms show ?thesis by auto
next
  case (2 q ns)
  with assms show ?thesis by auto
qed

lemma observe_nodes:
  assumes "observe f s = (r, s')"
  shows "fs_nodes s' = fs_nodes s" "r = Inr a \<Longrightarrow> f (fs_nodes s) = Inr a"
  using syscall_nodes [OF assms [unfolded observe_def]] by auto

lemma handle_cases:
  assumes "handle m h f s = (r, s')"
  obtains e s1 where "m s = (Inl e, s1)" "h e s1 = (r, s')"
  | a s1 where "m s = (Inr a, s1)" "f a s1 = (r, s')"
  using assms by (cases "m s"; cases "fst (m s)") (auto simp: handle_def)

lemma andthen_cases:
  assumes "andthen m f s = (r, s')"
  obtains e where "m s = (Inl e, s')" "r = Inl e"
  | a s1 where "m s = (Inr a, s1)" "f a s1 = (r, s')"
  using assms unfolding andthen_def by (elim handle_cases) (auto simp: fail_def)

lemma ret_fail [simp]: "ret a s = (r, s') \<longleftrightarrow> r = Inr a \<and> s' = s" "fail e s = (r, s') \<longleftrightarrow> r = Inl e \<and> s' = s"
  by (auto simp: ret_def fail_def)

section \<open>Named errors\<close>

text \<open>\<open>*os.PathError\<close>: the call, the path and the cause.\<close>

definition path_string :: "path \<Rightarrow> string" where
  "path_string p = (if p = [] then ''/'' else concat (map (\<lambda>c. ''/'' @ c) p))"

definition named :: "string \<Rightarrow> path \<Rightarrow> 'a io \<Rightarrow> 'a io" where
  "named op p m s = (case m s of
     (Inl e, s) \<Rightarrow> (Inl (Wrapped (op @ '' '' @ path_string p @ '': '' @ Error e) [e]), s)
   | (Inr a, s) \<Rightarrow> (Inr a, s))"

text \<open>\<open>defer\<close>: the second call runs whatever the first returned, its own result dropped.\<close>

definition deferring :: "('s, 'a) act \<Rightarrow> ('s, 'b) act \<Rightarrow> ('s, 'a) act" where
  "deferring m c s = (let (r, s1) = m s; (_, s2) = c s1 in (r, s2))"

definition os_Mkdir :: "path \<Rightarrow> unit io" where "os_Mkdir p = named ''mkdir'' p (syscall (make_dir p))"

definition os_Lstat :: "path \<Rightarrow> node io" where
  "os_Lstat p = named ''lstat'' p (observe (\<lambda>ns. lstat ns p))"

definition os_ReadDir :: "path \<Rightarrow> string list io" where
  "os_ReadDir p = named ''open'' p (observe (\<lambda>ns. read_dir ns p))"

definition os_ReadFile :: "path \<Rightarrow> string io" where
  "os_ReadFile p = named ''open'' p (observe (\<lambda>ns. read_file ns p))"

definition os_CreateTemp :: "(nodes \<Rightarrow> string) \<Rightarrow> path \<Rightarrow> string \<Rightarrow> (path \<times> path) io" where
  "os_CreateTemp pick dir pattern = named ''createtemp'' dir (syscall (create_temp pick dir pattern))"

definition os_Write :: "path \<times> path \<Rightarrow> string \<Rightarrow> unit io" where
  "os_Write f d = named ''write'' (fst f) (syscall (write_file (snd f) d))"

definition os_Sync :: "path \<Rightarrow> unit io" where "os_Sync p = named ''sync'' p (effect (synced p) (\<lambda>ns. (Inr (), ns)))"

definition os_Close :: "path \<Rightarrow> unit io" where "os_Close p = named ''close'' p (observe (\<lambda>ns. Inr ()))"

definition os_Rename :: "path \<Rightarrow> path \<Rightarrow> unit io" where
  "os_Rename a b = named ''rename'' a (effect (moved a b) (rename a b))"

definition os_Remove :: "path \<Rightarrow> unit io" where "os_Remove p = named ''remove'' p (syscall (remove p))"

definition os_Open :: "path \<Rightarrow> unit io" where
  "os_Open p = named ''open'' p (observe (\<lambda>ns. open_dir ns p))"

lemma named_cases:
  assumes "named op p m s = (r, s')"
  obtains e where "m s = (Inl e, s')" "r = Inl (Wrapped (op @ '' '' @ path_string p @ '': '' @ Error e) [e])"
  | a where "m s = (Inr a, s')" "r = Inr a"
  using assms by (cases "m s"; cases "fst (m s)") (auto simp: named_def)

lemma named_syscall:
  assumes "named op p (effect J f) s = (r, s')"
  shows "fs_nodes s' = fs_nodes s \<and> (\<exists>e. r = Inl e) \<or>
    (\<exists>q. f (fs_nodes s) = (q, fs_nodes s') \<and> (\<forall>a. r = Inr a \<longleftrightarrow> q = Inr a))"
  using assms
proof (cases rule: named_cases)
  case (1 e)
  from syscall_nodes [OF 1(1)] show ?thesis
  proof
    assume "(Inl e, fs_nodes s') = f (fs_nodes s)"
    then show ?thesis using 1(2) by (intro disjI2 exI [of _ "Inl e"]) simp
  qed (simp add: 1(2))
next
  case (2 a)
  from syscall_nodes [OF 2(1)] have "f (fs_nodes s) = (Inr a, fs_nodes s')" by auto
  then show ?thesis using 2(2) by (intro disjI2 exI [of _ "Inr a"]) simp
qed

lemma named_observe:
  assumes "named op p (observe f) s = (r, s')"
  shows "fs_nodes s' = fs_nodes s \<and> (\<forall>a. r = Inr a \<longrightarrow> f (fs_nodes s) = Inr a)"
  using named_syscall [OF assms [unfolded observe_def]] by auto

lemma os_Lstat_nodes:
  "os_Lstat p s = (r, s') \<Longrightarrow> fs_nodes s' = fs_nodes s \<and> (\<forall>n. r = Inr n \<longrightarrow> lstat (fs_nodes s) p = Inr n)"
  unfolding os_Lstat_def by (rule named_observe)

lemma os_ReadDir_nodes:
  "os_ReadDir p s = (r, s') \<Longrightarrow> fs_nodes s' = fs_nodes s \<and> (\<forall>l. r = Inr l \<longrightarrow> read_dir (fs_nodes s) p = Inr l)"
  unfolding os_ReadDir_def by (rule named_observe)

lemma os_ReadFile_nodes:
  "os_ReadFile p s = (r, s') \<Longrightarrow> fs_nodes s' = fs_nodes s \<and> (\<forall>d. r = Inr d \<longrightarrow> read_file (fs_nodes s) p = Inr d)"
  unfolding os_ReadFile_def by (rule named_observe)

lemma os_Sync_nodes: "os_Sync p s = (r, s') \<Longrightarrow> fs_nodes s' = fs_nodes s"
  unfolding os_Sync_def by (drule named_syscall) auto

lemma os_Close_nodes: "os_Close p s = (r, s') \<Longrightarrow> fs_nodes s' = fs_nodes s"
  unfolding os_Close_def by (drule named_observe) simp

lemma os_Open_nodes: "os_Open p s = (r, s') \<Longrightarrow> fs_nodes s' = fs_nodes s"
  unfolding os_Open_def by (drule named_observe) simp

lemma os_Mkdir_nodes:
  assumes "os_Mkdir p s = (r, s')"
  shows "fs_nodes s' = fs_nodes s \<and> (\<exists>e. r = Inl e) \<or>
    (r = Inr () \<and> (\<exists>q. locate (fs_nodes s) p = Inr q \<and> node_at (fs_nodes s) q = None \<and>
       fs_nodes s' = AList.update q Dir (fs_nodes s)))"
proof -
  have m: "make_dir p ns = (q, ns') \<Longrightarrow> ns' = ns \<and> (\<exists>e. q = Inl e) \<or>
     q = Inr () \<and> (\<exists>l. locate ns p = Inr l \<and> node_at ns l = None \<and> ns' = AList.update l Dir ns)" for q ns ns'
    by (auto simp: make_dir_def split: sum.splits if_splits)
  from named_syscall [OF assms [unfolded os_Mkdir_def]] show ?thesis
  proof (elim disjE exE conjE)
    fix q
    assume "make_dir p (fs_nodes s) = (q, fs_nodes s')" "\<forall>a. (r = Inr a) = (q = Inr a)"
    with m [OF this(1)] show ?thesis by (cases r) auto
  qed auto
qed

lemmas os_quiet = os_Sync_nodes os_Close_nodes os_Open_nodes

section \<open>Triples\<close>

text \<open>
  Partial correctness over the nodes alone: from \<open>P\<close>, a call that returns a value
  establishes \<open>Q\<close> and one that returns an error \<open>E\<close>, whatever the schedule of
  failures.
\<close>

definition hoare :: "(nodes \<Rightarrow> bool) \<Rightarrow> 'a io \<Rightarrow> ('a \<Rightarrow> nodes \<Rightarrow> bool) \<Rightarrow> (goerr \<Rightarrow> nodes \<Rightarrow> bool) \<Rightarrow> bool" where
  "hoare P m Q E \<longleftrightarrow> (\<forall>s. P (fs_nodes s) \<longrightarrow>
     (case m s of (Inr a, s') \<Rightarrow> Q a (fs_nodes s') | (Inl e, s') \<Rightarrow> E e (fs_nodes s')))"

named_theorems triples \<open>rules for triples\<close>

lemma hoareD:
  "hoare P m Q E \<Longrightarrow> P (fs_nodes s) \<Longrightarrow> m s = (r, s') \<Longrightarrow>
   (case r of Inr a \<Rightarrow> Q a (fs_nodes s') | Inl e \<Rightarrow> E e (fs_nodes s'))"
  unfolding hoare_def by (auto split: sum.splits dest: spec [of _ s])

lemma hoareI:
  "(\<And>s r s'. P (fs_nodes s) \<Longrightarrow> m s = (r, s') \<Longrightarrow>
     (case r of Inr a \<Rightarrow> Q a (fs_nodes s') | Inl e \<Rightarrow> E e (fs_nodes s'))) \<Longrightarrow> hoare P m Q E"
  unfolding hoare_def by (fastforce split: sum.splits prod.splits)

lemma hoare_weaken:
  "hoare P m Q E \<Longrightarrow> (\<And>ns. P' ns \<Longrightarrow> P ns) \<Longrightarrow> (\<And>a ns. Q a ns \<Longrightarrow> Q' a ns) \<Longrightarrow>
   (\<And>e ns. E e ns \<Longrightarrow> E' e ns) \<Longrightarrow> hoare P' m Q' E'"
  unfolding hoare_def by (fastforce split: sum.splits prod.splits)

lemma hoare_ret [triples]: "hoare (Q a) (ret a) Q E"
  by (simp add: hoare_def ret_def)

lemma hoare_fail [triples]: "hoare (E e) (fail e) Q E"
  by (simp add: hoare_def fail_def)

lemma hoare_handle [triples]:
  "hoare P m R F \<Longrightarrow> (\<And>e. hoare (F e) (h e) Q E) \<Longrightarrow> (\<And>a. hoare (R a) (f a) Q E) \<Longrightarrow>
   hoare P (handle m h f) Q E"
  unfolding hoare_def handle_def by (fastforce split: sum.splits prod.splits)

lemma hoare_andthen [triples]:
  "hoare P m R E \<Longrightarrow> (\<And>a. hoare (R a) (f a) Q E) \<Longrightarrow> hoare P (andthen m f) Q E"
  unfolding andthen_def by (rule hoare_handle [where F = E]) (auto intro: triples)

lemma hoare_deferring [triples]:
  "hoare P m R F \<Longrightarrow> (\<And>a. hoare (R a) c (\<lambda>_. Q a) (\<lambda>_. Q a)) \<Longrightarrow>
   (\<And>e. hoare (F e) c (\<lambda>_. E e) (\<lambda>_. E e)) \<Longrightarrow> hoare P (deferring m c) Q E"
  unfolding hoare_def deferring_def Let_def by (fastforce split: sum.splits prod.splits)

lemma hoare_error: "hoare P m Q (\<lambda>_. P) \<Longrightarrow> (\<And>ns. P ns \<Longrightarrow> E ns) \<Longrightarrow> hoare P m Q (\<lambda>_. E)"
  by (erule hoare_weaken) auto

text \<open>A call that only observes keeps every assertion.\<close>

lemma hoare_named_observe:
  "hoare P (named op p (observe f)) (\<lambda>a ns. P ns \<and> f ns = Inr a) (\<lambda>_. P)"
  by (rule hoareI) (auto dest: named_observe split: sum.splits)

lemma hoare_quiet: "hoare P (named op p (observe f)) (\<lambda>_. P) (\<lambda>_. P)"
  by (rule hoare_weaken [OF hoare_named_observe [of P]]) simp_all

lemma hoare_Sync [triples]: "hoare P (os_Sync p) (\<lambda>_. P) (\<lambda>_. P)"
  by (rule hoareI) (auto dest!: os_Sync_nodes split: sum.split)

lemma hoare_Close [triples]: "hoare P (os_Close p) (\<lambda>_. P) (\<lambda>_. P)"
  unfolding os_Close_def by (rule hoare_quiet)

lemma hoare_Open [triples]: "hoare P (os_Open p) (\<lambda>_. P) (\<lambda>_. P)"
  unfolding os_Open_def by (rule hoare_quiet)

text \<open>The early return that closes the file first.\<close>

lemma hoare_fail_closing [triples]: "hoare P (deferring (fail err) (os_Close c)) Q (\<lambda>_. P)"
  by (rule hoare_deferring [where F = "\<lambda>_. P" and R = "\<lambda>_ _. False"])
    (rule hoare_fail, simp add: hoare_def, rule hoare_Close)

lemma hoare_Lstat [triples]: "hoare P (os_Lstat p) (\<lambda>n ns. P ns \<and> lstat ns p = Inr n) (\<lambda>_. P)"
  unfolding os_Lstat_def by (rule hoare_named_observe)

lemma hoare_ReadDir [triples]: "hoare P (os_ReadDir p) (\<lambda>l ns. P ns \<and> read_dir ns p = Inr l) (\<lambda>_. P)"
  unfolding os_ReadDir_def by (rule hoare_named_observe)

lemma hoare_ReadFile [triples]: "hoare P (os_ReadFile p) (\<lambda>d ns. P ns \<and> read_file ns p = Inr d) (\<lambda>_. P)"
  unfolding os_ReadFile_def by (rule hoare_named_observe)

text \<open>A call that acts: its effect, when no failure preceded it.\<close>

lemma hoare_named_syscall:
  assumes "\<And>ns r ns'. P ns \<Longrightarrow> f ns = (r, ns') \<Longrightarrow> (case r of Inr a \<Rightarrow> Q a ns' | Inl e \<Rightarrow> E ns')"
    and "\<And>ns. P ns \<Longrightarrow> E ns"
  shows "hoare P (named op p (effect J f)) Q (\<lambda>_. E)"
proof (rule hoareI)
  fix s r s'
  assume P: "P (fs_nodes s)" and m: "named op p (effect J f) s = (r, s')"
  show "case r of Inr a \<Rightarrow> Q a (fs_nodes s') | Inl e \<Rightarrow> E (fs_nodes s')"
  proof (cases "fs_nodes s' = fs_nodes s \<and> (\<exists>e. r = Inl e)")
    case True
    then obtain e where "r = Inl e" "fs_nodes s' = fs_nodes s" by blast
    with assms(2) [OF P] show ?thesis by simp
  next
    case False
    then obtain q where q: "f (fs_nodes s) = (q, fs_nodes s')" "\<forall>a. (r = Inr a) = (q = Inr a)"
      using named_syscall [OF m] by blast
    note out = assms(1) [OF P q(1)]
    show ?thesis
    proof (cases r)
      case (Inl e)
      with q(2) obtain e' where "q = Inl e'" by (cases q) auto
      with out Inl show ?thesis by simp
    next
      case (Inr a)
      with q(2) have "q = Inr a" by blast
      with out Inr show ?thesis by simp
    qed
  qed
qed

section \<open>Triples over any state\<close>

definition triple :: "('s \<Rightarrow> bool) \<Rightarrow> ('s, 'a) act \<Rightarrow> ('a \<Rightarrow> 's \<Rightarrow> bool) \<Rightarrow> (goerr \<Rightarrow> 's \<Rightarrow> bool) \<Rightarrow> bool" where
  "triple P m Q E \<longleftrightarrow> (\<forall>s. P s \<longrightarrow> (case m s of (Inr a, s') \<Rightarrow> Q a s' | (Inl e, s') \<Rightarrow> E e s'))"

named_theorems steps \<open>rules for triples over any state\<close>

lemma tripleD:
  "triple P m Q E \<Longrightarrow> P s \<Longrightarrow> m s = (r, s') \<Longrightarrow> (case r of Inr a \<Rightarrow> Q a s' | Inl e \<Rightarrow> E e s')"
  unfolding triple_def by (auto split: sum.splits dest: spec [of _ s])

lemma tripleI:
  "(\<And>s r s'. P s \<Longrightarrow> m s = (r, s') \<Longrightarrow> (case r of Inr a \<Rightarrow> Q a s' | Inl e \<Rightarrow> E e s')) \<Longrightarrow> triple P m Q E"
  unfolding triple_def by (fastforce split: sum.splits prod.splits)

lemma triple_weaken:
  "triple P m Q E \<Longrightarrow> (\<And>s. P' s \<Longrightarrow> P s) \<Longrightarrow> (\<And>a s. Q a s \<Longrightarrow> Q' a s) \<Longrightarrow> (\<And>e s. E e s \<Longrightarrow> E' e s) \<Longrightarrow>
   triple P' m Q' E'"
  unfolding triple_def by (fastforce split: sum.splits prod.splits)

lemma triple_ret [steps]: "triple (Q a) (ret a) Q E"
  by (simp add: triple_def ret_def)

lemma triple_fail [steps]: "triple (E e) (fail e) Q E"
  by (simp add: triple_def fail_def)

lemma triple_handle [steps]:
  "triple P m R F \<Longrightarrow> (\<And>e. triple (F e) (h e) Q E) \<Longrightarrow> (\<And>a. triple (R a) (f a) Q E) \<Longrightarrow> triple P (handle m h f) Q E"
  unfolding triple_def handle_def by (fastforce split: sum.splits prod.splits)

lemma triple_andthen [steps]:
  "triple P m R E \<Longrightarrow> (\<And>a. triple (R a) (f a) Q E) \<Longrightarrow> triple P (andthen m f) Q E"
  unfolding andthen_def by (rule triple_handle [where F = E]) (auto intro: steps)

lemma triple_deferring [steps]:
  "triple P m R F \<Longrightarrow> (\<And>a. triple (R a) c (\<lambda>_. Q a) (\<lambda>_. Q a)) \<Longrightarrow> (\<And>e. triple (F e) c (\<lambda>_. E e) (\<lambda>_. E e)) \<Longrightarrow>
   triple P (deferring m c) Q E"
  unfolding triple_def deferring_def Let_def by (fastforce split: sum.splits prod.splits)

lemma triple_if: "triple P m Q E \<Longrightarrow> triple P n Q E \<Longrightarrow> triple P (if b then m else n) Q E"
  by simp

lemma triple_pure: "(B \<Longrightarrow> triple P m Q E) \<Longrightarrow> triple (\<lambda>s. P s \<and> B) m Q E"
  by (simp add: triple_def)

lemma triple_each: "(\<And>s0. P s0 \<Longrightarrow> triple (\<lambda>s. s = s0) m Q E) \<Longrightarrow> triple P m Q E"
  by (simp add: triple_def)

section \<open>Triples over the files and the disk\<close>

lemma triple_effect:
  assumes "\<And>ns dk r ns'. A ns dk \<Longrightarrow> f ns = (r, ns') \<Longrightarrow>
      (case r of Inr a \<Rightarrow> Q a ns' (map_option (J ns ns') dk) | Inl e \<Rightarrow> E ns' (map_option (J ns ns') dk))"
    and "\<And>ns dk. A ns dk \<Longrightarrow> E ns dk"
  shows "triple (\<lambda>s. A (fs_nodes s) (fs_disk s)) (named op p (effect J f))
    (\<lambda>a s. Q a (fs_nodes s) (fs_disk s)) (\<lambda>_ s. E (fs_nodes s) (fs_disk s))"
proof (rule tripleI)
  fix s r s'
  assume A: "A (fs_nodes s) (fs_disk s)" and m: "named op p (effect J f) s = (r, s')"
  show "case r of Inr a \<Rightarrow> Q a (fs_nodes s') (fs_disk s') | Inl e \<Rightarrow> E (fs_nodes s') (fs_disk s')"
  proof (cases rule: syscall_cases [of s J f])
    case (1 e rest)
    with m have "\<exists>e. r = Inl e" "s' = s\<lparr>fs_faults := rest\<rparr>" by (auto simp: named_def)
    with assms(2) [OF A] show ?thesis by auto
  next
    case (2 q ns)
    note out = assms(1) [OF A 2(1)]
    from 2(2) m show ?thesis using out by (cases q) (auto simp: named_def)
  qed
qed

lemma triple_observed:
  "triple (\<lambda>s. A (fs_nodes s) (fs_disk s)) (named op p (observe f))
     (\<lambda>a s. A (fs_nodes s) (fs_disk s) \<and> f (fs_nodes s) = Inr a) (\<lambda>_ s. A (fs_nodes s) (fs_disk s))"
  unfolding observe_def
  by (rule triple_effect [where Q = "\<lambda>a ns dk. A ns dk \<and> f ns = Inr a" and E = A]) (auto simp: option.map_ident split: sum.split)

lemma triple_still:
  "triple (\<lambda>s. A (fs_nodes s) (fs_disk s)) (named op p (observe f)) (\<lambda>_ s. A (fs_nodes s) (fs_disk s)) (\<lambda>_ s. A (fs_nodes s) (fs_disk s))"
  by (rule triple_weaken [OF triple_observed [of A]]) simp_all

text \<open>What a call that changes the nodes leaves pending.\<close>

lemma journal_mem:
  "e \<in> set (journal ns ns' P) \<Longrightarrow>
   e \<in> set P \<or> (\<exists>p. node_at ns p \<noteq> node_at ns' p \<and> (e = Data p \<or> e = Entry p (node_at ns p) (Data p \<in> set P)))"
  by (auto simp: journal_def changed_def split: if_splits)

section \<open>Stable resolution\<close>

text \<open>Directories and links are as they were; files may have changed.\<close>

definition same_tree :: "nodes \<Rightarrow> nodes \<Rightarrow> bool" where
  "same_tree ns ns' \<longleftrightarrow> (\<forall>p n. node_at ns p = Some n \<and> (\<forall>d. n \<noteq> File d) \<longrightarrow> node_at ns' p = Some n)"

lemma walk_same_tree:
  "same_tree ns ns' \<Longrightarrow> walk k ns acc xs = Inr d \<Longrightarrow> node_at ns d = Some Dir \<Longrightarrow> walk k ns' acc xs = Inr d"
proof (induction k ns acc xs rule: walk.induct)
  case (2 k ns acc x xs)
  show ?case
  proof (cases "node_at ns (acc @ [x])")
    case None
    then show ?thesis using 2 by (auto split: if_splits)
  next
    case (Some n)
    show ?thesis
    proof (cases "\<exists>b. n = File b")
      case True
      then show ?thesis using 2 Some by (auto split: if_splits)
    next
      case False
      with Some 2(3) have "node_at ns' (acc @ [x]) = Some n" by (simp add: same_tree_def)
      with Some False 2 show ?thesis by (cases n) (auto split: nat.splits if_splits)
    qed
  qed
qed simp

lemma hoare_each: "(\<And>ns0. P ns0 \<Longrightarrow> hoare (\<lambda>ns. ns = ns0) m Q E) \<Longrightarrow> hoare P m Q E"
  by (simp add: hoare_def)

lemma hoare_if: "hoare P m1 Q E \<Longrightarrow> hoare P m2 Q E \<Longrightarrow> hoare P (if b then m1 else m2) Q E"
  by simp

text \<open>Nothing lies below what is not a directory.\<close>

lemma wf_nothing_below:
  assumes "fs_wf ns" "node_at ns r \<noteq> Some Dir" "p \<noteq> []"
  shows "node_at ns (r @ p) = None"
  using assms(3)
proof (induction p rule: rev_induct)
  case (snoc x p)
  have "node_at ns (r @ p) \<noteq> Some Dir" using snoc.IH assms(2) by (cases "p = []") auto
  then have "butlast (r @ p @ [x]) = r @ p" "node_at ns (r @ p) \<noteq> Some Dir" by (simp_all add: butlast_append)
  then have "r @ p @ [x] \<notin> set (map fst ns)" using assms(1) unfolding fs_wf_def
    by (metis Nil_is_append_conv not_Cons_self2)
  then show ?case by (simp add: node_at_def map_of_eq_None_iff)
qed simp

lemma no_children:
  assumes "children ns r = []"
  shows "node_at ns (r @ [x]) = None"
proof (rule ccontr)
  assume "node_at ns (r @ [x]) \<noteq> None"
  then obtain n where "(r @ [x], n) \<in> set ns" by (auto simp: node_at_def dest: map_of_SomeD)
  then have "last (r @ [x]) \<in> set (children ns r)" unfolding children_def by force
  with assms show False by simp
qed

lemma wf_empty_below:
  assumes "fs_wf ns" "children ns r = []" "p \<noteq> []"
  shows "node_at ns (r @ p) = None"
proof (cases p)
  case (Cons x xs)
  have "node_at ns (r @ [x]) = None" using no_children [OF assms(2)] .
  with wf_nothing_below [OF assms(1), of "r @ [x]" xs] Cons show ?thesis by (cases "xs = []") auto
qed (use assms in simp)

lemma grows_update: "p \<noteq> [] \<Longrightarrow> node_at ns p = None \<Longrightarrow> grows ns (AList.update p n ns)"
  by (auto simp: grows_def)

lemma read_child:
  "resolve ns dir = Inr d \<Longrightarrow> node_at ns d = Some Dir \<Longrightarrow> node_at ns (d @ [x]) = Some (File b) \<Longrightarrow>
   read_file ns (dir @ [x]) = Inr b"
  by (simp add: read_file_def resolve_child)

text \<open>Evaluation of calls on a concrete file system, the continuation not before its turn.\<close>

lemma io_cong:
  "m = m' \<Longrightarrow> s = s' \<Longrightarrow> handle m h f s = handle m' h f s'"
  "m = m' \<Longrightarrow> s = s' \<Longrightarrow> andthen m g s = andthen m' g s'"
  "m = m' \<Longrightarrow> s = s' \<Longrightarrow> deferring m c s = deferring m' c s'"
  by simp_all

lemmas io_eval = handle_def andthen_def ret_def fail_def deferring_def named_def effect_def observe_def
  os_Mkdir_def os_Lstat_def os_ReadDir_def os_ReadFile_def os_CreateTemp_def os_Write_def os_Sync_def
  os_Close_def os_Rename_def os_Remove_def os_Open_def make_dir_def create_temp_def write_file_def
  rename_def remove_def read_file_def lstat_def read_dir_def open_dir_def children_def locate_def node_at_def

end
