(* ===== verification/Custody.thy ===== *)
theory Custody
  imports Files
begin

text \<open>
  The custody of the agent's local MinIO data (src/minio_custody.go): the record beside the
  data and the marker inside it, which must agree before anything may be mounted or
  replaced. JSON encoding, the random id (\<open>callertoken.Generate\<close>) and the random part
  of a temporary name are parameters.
\<close>

section \<open>Records\<close>

record minioCustody =
  mc_Version :: int
  mc_Owner :: string
  mc_Bucket :: string
  mc_ID :: string
  mc_Phase :: string

record CustodyEnv =
  marshal :: "minioCustody \<Rightarrow> string"
  unmarshal :: "string \<Rightarrow> goerr + minioCustody"
  generate :: "goerr + string"
  pick :: "nodes \<Rightarrow> string"

abbreviation custody_json :: string where "custody_json \<equiv> ''custody.json''"
abbreviation marker_json :: string where "marker_json \<equiv> ''.codefly-custody.json''"
abbreviation temp_pattern :: string where "temp_pattern \<equiv> ''.custody-''"

definition errorf :: "string \<Rightarrow> goerr \<Rightarrow> goerr" where
  "errorf m e = Wrapped (m @ '': '' @ Error e) [e]"

text \<open>\<open>errors.Join\<close> of errors that are not nil: their messages, one per line.\<close>

fun join_lines :: "string list \<Rightarrow> string" where
  "join_lines [] = []"
| "join_lines [m] = m"
| "join_lines (m # ms) = m @ CHR 0x0A # join_lines ms"

definition errors_join :: "goerr list \<Rightarrow> goerr" where
  "errors_join es = Wrapped (join_lines (map Error es)) es"

section \<open>Claiming an empty root\<close>

definition claimEmptyCustodyRoot :: "path \<Rightarrow> unit io" where
  "claimEmptyCustodyRoot root =
     handle (os_Mkdir root)
       (\<lambda>err. let inaccessible = (\<lambda>e. fail (errorf (''refusing to initialize inaccessible custody directory '' @ path_string root) e)) in
          if \<not> errors_is err ErrExist then inaccessible err
          else handle (os_Lstat root) inaccessible
            (\<lambda>info. if info \<noteq> Dir
               then fail (Msg (''refusing to initialize custody path '' @ path_string root @ '': not a plain directory''))
               else handle (os_ReadDir root) inaccessible
                 (\<lambda>entries. if entries \<noteq> []
                    then fail (Msg (''missing custody record at '' @ path_string (root @ [custody_json])
                       @ '' but the directory holds existing data; refusing to initialize over it''))
                    else ret ())))
       (\<lambda>_. ret ())"

section \<open>Writing a record\<close>

definition writeCustodyRecord :: "CustodyEnv \<Rightarrow> path \<Rightarrow> string \<Rightarrow> unit io" where
  "writeCustodyRecord env p record =
     andthen (os_CreateTemp (pick env) (butlast p) temp_pattern)
       (\<lambda>file. deferring
         (handle (os_Write file record) (\<lambda>err. deferring (fail err) (os_Close (fst file)))
           (\<lambda>_. handle (os_Sync (fst file)) (\<lambda>err. deferring (fail err) (os_Close (fst file)))
             (\<lambda>_. andthen (os_Close (fst file))
               (\<lambda>_. andthen (os_Rename (fst file) p)
                 (\<lambda>_. andthen (os_Open (butlast p))
                   (\<lambda>_. deferring (os_Sync (butlast p)) (os_Close (butlast p))))))))
         (os_Remove (fst file)))"

section \<open>Custody\<close>

definition initialize_custody :: "CustodyEnv \<Rightarrow> path \<Rightarrow> string \<Rightarrow> string \<Rightarrow> bool \<Rightarrow> string io" where
  "initialize_custody env root owner bucket present =
     (let recordPath = root @ [custody_json]; data = root @ [''data'']; markerPath = data @ [marker_json] in
      if present
      then fail (Msg (''missing custody record at '' @ path_string recordPath
             @ '' while a MinIO container for this service exists; refusing to initialize over it''))
      else andthen (claimEmptyCustodyRoot root) (\<lambda>_.
        case generate env of
          Inl genErr \<Rightarrow> fail genErr
        | Inr i \<Rightarrow>
           (let record = marshal env \<lparr>mc_Version = 2, mc_Owner = owner, mc_Bucket = bucket, mc_ID = i, mc_Phase = ''pending''\<rparr>
            in andthen (os_Mkdir data) (\<lambda>_.
               andthen (writeCustodyRecord env markerPath record) (\<lambda>_.
               andthen (writeCustodyRecord env recordPath record) (\<lambda>_.
               andthen (os_Open (butlast root)) (\<lambda>_.
               handle (os_Sync (butlast root))
                 (\<lambda>syncErr. handle (os_Close (butlast root)) (\<lambda>closeErr. fail (errors_join [syncErr, closeErr]))
                   (\<lambda>_. fail (errors_join [syncErr])))
                 (\<lambda>_. handle (os_Close (butlast root)) (\<lambda>closeErr. fail (errors_join [closeErr]))
                   (\<lambda>_. ret record)))))))))"

fun refuse_symlinks :: "path list \<Rightarrow> unit io" where
  "refuse_symlinks [] = ret ()"
| "refuse_symlinks (p # ps) = andthen (os_Lstat p)
     (\<lambda>info. case info of
        Symlink t \<Rightarrow> fail (Msg (''custody path is a symlink: '' @ path_string p))
      | _ \<Rightarrow> refuse_symlinks ps)"

definition custody_mismatch :: "minioCustody \<Rightarrow> string \<Rightarrow> bool" where
  "custody_mismatch c owner \<longleftrightarrow> mc_Version c \<noteq> 2 \<or> mc_Owner c \<noteq> owner \<or> mc_ID c = [] \<or>
     (mc_Phase c \<noteq> ''pending'' \<and> mc_Phase c \<noteq> ''committed'')"

definition check_custody :: "CustodyEnv \<Rightarrow> path \<Rightarrow> string \<Rightarrow> string \<Rightarrow> string \<Rightarrow> unit io" where
  "check_custody env root owner bucket record =
     (let recordPath = root @ [custody_json]; data = root @ [''data'']; markerPath = data @ [marker_json] in
      case unmarshal env record of
        Inl err \<Rightarrow> fail (errorf ''invalid custody record'' err)
      | Inr custody \<Rightarrow>
         if mc_Bucket custody \<noteq> bucket
         then fail (Msg (''configured bucket changed from '' @ quoted (mc_Bucket custody) @ '' to '' @ quoted bucket
                @ '': the store at '' @ path_string root @ '' holds '' @ quoted (mc_Bucket custody)
                @ '' and this agent has no supported rename; restore the configured bucket name or provision a new store''))
         else if custody_mismatch custody owner
         then fail (Msg (''custody record owner, version or phase mismatch at '' @ path_string recordPath))
         else andthen (refuse_symlinks [root, data, recordPath, markerPath]) (\<lambda>_.
              andthen (os_ReadFile markerPath) (\<lambda>marker.
                case unmarshal env marker of
                  Inl err \<Rightarrow> fail err
                | Inr actual \<Rightarrow>
                   if mc_Phase actual \<noteq> ''pending''
                   then fail (Msg (''invalid data marker phase at '' @ path_string markerPath))
                   else if actual\<lparr>mc_Phase := mc_Phase custody\<rparr> \<noteq> custody
                   then fail (Msg (''data marker disagrees with custody record at '' @ path_string markerPath))
                   else ret ())))"

definition ensureMinIOCustody :: "CustodyEnv \<Rightarrow> path \<Rightarrow> string \<Rightarrow> string \<Rightarrow> bool \<Rightarrow> unit io" where
  "ensureMinIOCustody env root owner bucket present =
     handle
       (handle (os_ReadFile (root @ [custody_json]))
         (\<lambda>err. if errors_is err ErrNotExist then initialize_custody env root owner bucket present else fail err)
         ret)
       fail
       (check_custody env root owner bucket)"

record MinioRuntime =
  mr_custodyRoot :: path
  mr_newStore :: bool

definition commitMinIOProvisioning :: "CustodyEnv \<Rightarrow> MinioRuntime \<Rightarrow> MinioRuntime io" where
  "commitMinIOProvisioning env m =
     (let p = mr_custodyRoot m @ [custody_json] in
      andthen (os_ReadFile p) (\<lambda>record.
        case unmarshal env record of
          Inl err \<Rightarrow> fail err
        | Inr custody \<Rightarrow>
           andthen (writeCustodyRecord env p (marshal env (custody\<lparr>mc_Phase := ''committed''\<rparr>)))
             (\<lambda>_. ret (m\<lparr>mr_newStore := False\<rparr>))))"

section \<open>Mounts\<close>

record Mount =
  mt_Type :: string
  mt_Name :: string
  mt_Source :: string
  mt_Destination :: string
  mt_RW :: bool

record Container =
  ct_ID :: string
  ct_Mounts :: "Mount list"

text \<open>\<open>clean\<close> is \<open>filepath.Clean\<close>.\<close>

fun validate_mounts :: "(string \<Rightarrow> string) \<Rightarrow> string \<Rightarrow> Mount list \<Rightarrow> string \<Rightarrow> goerr option" where
  "validate_mounts clean i [] data =
     Some (Msg (''existing container '' @ i @ '' has no owned /data mount; refusing replacement''))"
| "validate_mounts clean i (m # ms) data =
     (if mt_Destination m = ''/data''
      then (if mt_Type m = ''bind'' \<and> clean (mt_Source m) = data \<and> mt_RW m then None
            else Some (Msg (''existing container '' @ i @ '' has a different /data mount (type '' @ mt_Type m
              @ '', source '' @ mt_Source m @ '', volume '' @ mt_Name m @ ''); refusing replacement'')))
      else validate_mounts clean i ms data)"

definition validateMinIOMount :: "(string \<Rightarrow> string) \<Rightarrow> Container \<Rightarrow> string \<Rightarrow> goerr option" where
  "validateMinIOMount clean existing data = validate_mounts clean (ct_ID existing) (ct_Mounts existing) data"

section \<open>A record is replaced whole or not at all\<close>

text \<open>
  The stages of a record write, seen from the nodes \<open>ns0\<close> it began with: nothing but
  the temporary file \<open>q\<close> and the record \<open>t\<close> is touched, and the record is what it
  was or what is being written.
\<close>

definition stage :: "nodes \<Rightarrow> path \<Rightarrow> path \<Rightarrow> string \<Rightarrow> nodes \<Rightarrow> bool" where
  "stage ns0 q t record ns \<longleftrightarrow> (\<forall>p. p \<noteq> q \<and> p \<noteq> t \<longrightarrow> node_at ns p = node_at ns0 p) \<and>
     (node_at ns t = node_at ns0 t \<or> node_at ns t = Some (File record)) \<and>
     (node_at ns q = None \<or> (\<exists>b. node_at ns q = Some (File b)))"

definition place :: "nodes \<Rightarrow> path \<Rightarrow> path \<Rightarrow> string \<Rightarrow> string \<Rightarrow> bool" where
  "place ns0 dir d a x \<longleftrightarrow> resolve ns0 dir = Inr d \<and> node_at ns0 d = Some Dir \<and> a \<noteq> x \<and>
     node_at ns0 (d @ [a]) = None \<and> (\<forall>n. node_at ns0 (d @ [x]) = Some n \<longrightarrow> (\<exists>b. n = File b))"

lemma stage_frame:
  assumes "place ns0 dir d a x" "stage ns0 (d @ [a]) (d @ [x]) rc ns" "node_at ns0 p = Some n" "p \<noteq> d @ [x]"
  shows "node_at ns p = Some n"
proof -
  have "p \<noteq> d @ [a]" using assms(1,3) by (auto simp: place_def)
  with assms show ?thesis by (simp add: stage_def)
qed

lemma stage_same_tree:
  assumes "place ns0 dir d a x" "stage ns0 (d @ [a]) (d @ [x]) rc ns"
  shows "same_tree ns0 ns"
  unfolding same_tree_def
proof (intro allI impI, elim conjE)
  fix p n
  assume n: "node_at ns0 p = Some n" "\<forall>b. n \<noteq> File b"
  then have "p \<noteq> d @ [x]" using assms(1) by (auto simp: place_def)
  with stage_frame [OF assms n(1)] show "node_at ns p = Some n" .
qed

lemma stage_resolve:
  assumes "place ns0 dir d a x" "stage ns0 (d @ [a]) (d @ [x]) rc ns" "resolve ns0 e = Inr f" "node_at ns0 f = Some Dir"
  shows "resolve ns e = Inr f" "node_at ns f = Some Dir"
  using walk_same_tree [OF stage_same_tree [OF assms(1,2)] assms(3,4)] stage_same_tree [OF assms(1,2)] assms(4)
  by (auto simp: same_tree_def)

lemma stage_locate:
  assumes "place ns0 dir d a x" "stage ns0 (d @ [a]) (d @ [x]) record ns"
  shows "locate ns (dir @ [y]) = Inr (d @ [y])"
  using stage_resolve [OF assms] assms(1) by (intro locate_child) (auto simp: place_def)

lemma stage_write:
  assumes "place ns0 dir d a x"
  shows "hoare (stage ns0 (d @ [a]) (d @ [x]) record) (os_Write (dir @ [a], d @ [a]) record)
    (\<lambda>_ ns. stage ns0 (d @ [a]) (d @ [x]) record ns \<and> node_at ns (d @ [a]) = Some (File record))
    (\<lambda>_. stage ns0 (d @ [a]) (d @ [x]) record)"
  unfolding os_Write_def
proof (rule hoare_named_syscall)
  fix ns r ns'
  assume "stage ns0 (d @ [a]) (d @ [x]) record ns" "write_file (snd (dir @ [a], d @ [a])) record ns = (r, ns')"
  then show "case r of Inr u \<Rightarrow> stage ns0 (d @ [a]) (d @ [x]) record ns' \<and> node_at ns' (d @ [a]) = Some (File record)
     | Inl e \<Rightarrow> stage ns0 (d @ [a]) (d @ [x]) record ns'"
    using assms by (auto simp: write_file_def stage_def place_def)
qed

lemma stage_rename:
  assumes "place ns0 dir d a x"
  shows "hoare (\<lambda>ns. stage ns0 (d @ [a]) (d @ [x]) record ns \<and> node_at ns (d @ [a]) = Some (File record))
    (os_Rename (dir @ [a]) (dir @ [x]))
    (\<lambda>_ ns. stage ns0 (d @ [a]) (d @ [x]) record ns \<and> node_at ns (d @ [x]) = Some (File record))
    (\<lambda>_. stage ns0 (d @ [a]) (d @ [x]) record)"
  unfolding os_Rename_def
proof (rule hoare_named_syscall)
  fix ns r ns'
  assume s: "stage ns0 (d @ [a]) (d @ [x]) record ns \<and> node_at ns (d @ [a]) = Some (File record)"
    and r: "rename (dir @ [a]) (dir @ [x]) ns = (r, ns')"
  have l: "locate ns (dir @ [y]) = Inr (d @ [y])" for y using stage_locate [OF assms] s by blast
  have "node_at ns (d @ [x]) \<noteq> Some Dir" using s assms by (auto simp: stage_def place_def)
  with r l s have "r = Inr () \<and> ns' = AList.update (d @ [x]) (File record) (AList.delete (d @ [a]) ns)"
    by (auto simp: rename_def)
  then show "case r of Inr u \<Rightarrow> stage ns0 (d @ [a]) (d @ [x]) record ns' \<and> node_at ns' (d @ [x]) = Some (File record)
     | Inl e \<Rightarrow> stage ns0 (d @ [a]) (d @ [x]) record ns'"
    using s assms by (auto simp: stage_def place_def)
qed simp

lemma stage_remove:
  assumes "place ns0 dir d a x"
  shows "hoare (\<lambda>ns. stage ns0 (d @ [a]) (d @ [x]) record ns \<and> (b \<longrightarrow> node_at ns (d @ [x]) = Some (File record)))
    (os_Remove (dir @ [a]))
    (\<lambda>_ ns. stage ns0 (d @ [a]) (d @ [x]) record ns \<and> (b \<longrightarrow> node_at ns (d @ [x]) = Some (File record)))
    (\<lambda>_ ns. stage ns0 (d @ [a]) (d @ [x]) record ns \<and> (b \<longrightarrow> node_at ns (d @ [x]) = Some (File record)))"
  unfolding os_Remove_def
proof (rule hoare_named_syscall)
  fix ns r ns'
  assume s: "stage ns0 (d @ [a]) (d @ [x]) record ns \<and> (b \<longrightarrow> node_at ns (d @ [x]) = Some (File record))"
    and r: "remove (dir @ [a]) ns = (r, ns')"
  have "locate ns (dir @ [a]) = Inr (d @ [a])" using stage_locate [OF assms] s by blast
  with r have "ns' = ns \<or> ns' = AList.delete (d @ [a]) ns" by (auto simp: remove_def split: option.splits if_splits)
  with s assms have "stage ns0 (d @ [a]) (d @ [x]) record ns' \<and> (b \<longrightarrow> node_at ns' (d @ [x]) = Some (File record))"
    by (auto simp: stage_def place_def)
  then show "case r of Inr u \<Rightarrow> stage ns0 (d @ [a]) (d @ [x]) record ns' \<and> (b \<longrightarrow> node_at ns' (d @ [x]) = Some (File record))
     | Inl e \<Rightarrow> stage ns0 (d @ [a]) (d @ [x]) record ns' \<and> (b \<longrightarrow> node_at ns' (d @ [x]) = Some (File record))"
    by (cases r) auto
qed simp

text \<open>Every outcome of a record write.\<close>

definition attempted :: "nodes \<Rightarrow> path \<Rightarrow> string \<Rightarrow> string \<Rightarrow> nodes \<Rightarrow> bool" where
  "attempted ns0 dir x record ns \<longleftrightarrow>
     ns = ns0 \<or> (\<exists>d a. place ns0 dir d a x \<and> stage ns0 (d @ [a]) (d @ [x]) record ns)"

definition written :: "nodes \<Rightarrow> path \<Rightarrow> string \<Rightarrow> string \<Rightarrow> nodes \<Rightarrow> bool" where
  "written ns0 dir x record ns \<longleftrightarrow>
     (\<exists>d a. place ns0 dir d a x \<and> stage ns0 (d @ [a]) (d @ [x]) record ns \<and> node_at ns (d @ [x]) = Some (File record))"

lemma create_spec:
  assumes "\<And>d n. resolve ns0 dir = Inr d \<Longrightarrow> node_at ns0 (d @ [x]) = Some n \<Longrightarrow> \<exists>b. n = File b"
    and "\<not> has_prefix x temp_pattern"
  shows "hoare (\<lambda>ns. ns = ns0) (os_CreateTemp pk dir temp_pattern)
    (\<lambda>file ns. \<exists>d a. place ns0 dir d a x \<and> file = (dir @ [a], d @ [a]) \<and> stage ns0 (d @ [a]) (d @ [x]) record ns)
    (\<lambda>_ ns. ns = ns0)"
  unfolding os_CreateTemp_def
proof (rule hoare_named_syscall)
  fix ns r ns'
  assume ns: "ns = ns0" and r: "create_temp pk dir temp_pattern ns = (r, ns')"
  let ?a = "temp_pattern @ pk ns"
  have "?a \<noteq> x" using assms(2) has_prefix_append [of temp_pattern "pk ns"] by metis
  show "case r of Inr file \<Rightarrow> \<exists>d a. place ns0 dir d a x \<and> file = (dir @ [a], d @ [a]) \<and> stage ns0 (d @ [a]) (d @ [x]) record ns'
    | Inl e \<Rightarrow> ns' = ns0"
  proof (cases "locate ns (dir @ [?a])")
    case (Inl e)
    then show ?thesis using r ns by (auto simp: create_temp_def Let_def)
  next
    case (Inr q)
    then obtain d where d: "resolve ns dir = Inr d" "node_at ns d = Some Dir" "q = d @ [?a]"
      by (auto elim: locate_InrE)
    show ?thesis
    proof (cases "node_at ns q = None")
      case True
      with d ns \<open>?a \<noteq> x\<close> assms(1) have "place ns0 dir d ?a x" by (auto simp: place_def)
      moreover from this True d ns have "stage ns0 (d @ [?a]) (d @ [x]) record (AList.update (d @ [?a]) (File []) ns)"
        by (auto simp: stage_def place_def)
      ultimately show ?thesis using r Inr True d by (auto simp: create_temp_def Let_def)
    next
      case False
      then show ?thesis using r Inr ns by (auto simp: create_temp_def Let_def)
    qed
  qed
qed simp

lemma write_tail:
  fixes rc :: string
  assumes "place ns0 dir d a x"
  defines "S \<equiv> stage ns0 (d @ [a]) (d @ [x]) rc"
  defines "T \<equiv> \<lambda>ns. S ns \<and> node_at ns (d @ [x]) = Some (File rc)"
  shows "hoare S (deferring
         (handle (os_Write (dir @ [a], d @ [a]) rc) (\<lambda>err. deferring (fail err) (os_Close c))
           (\<lambda>_. handle (os_Sync c) (\<lambda>err. deferring (fail err) (os_Close c))
             (\<lambda>_. andthen (os_Close c)
               (\<lambda>_. andthen (os_Rename (dir @ [a]) (dir @ [x]))
                 (\<lambda>_. andthen (os_Open dir)
                   (\<lambda>_. deferring (os_Sync dir) (os_Close dir)))))))
         (os_Remove (dir @ [a]))) (\<lambda>_. T) (\<lambda>_. S)"
proof -
  let ?W = "\<lambda>ns. S ns \<and> node_at ns (d @ [a]) = Some (File rc)"
  have wk: "hoare ?W m Q (\<lambda>_. ?W) \<Longrightarrow> hoare ?W m Q (\<lambda>_. S)" for m :: "unit io" and Q
    by (erule hoare_weaken) auto
  have tk: "hoare T m Q (\<lambda>_. T) \<Longrightarrow> hoare T m Q (\<lambda>_. S)" for m :: "unit io" and Q
    by (erule hoare_weaken) (auto simp: T_def)
  have r1: "hoare T (os_Remove (dir @ [a])) (\<lambda>_. T) (\<lambda>_. T)"
    using stage_remove [OF assms(1), of rc True] by (simp add: T_def S_def)
  have r2: "hoare S (os_Remove (dir @ [a])) (\<lambda>_. S) (\<lambda>_. S)"
    using stage_remove [OF assms(1), of rc False] by (simp add: S_def)
  have sync: "hoare T (deferring (os_Sync dir) (os_Close dir)) (\<lambda>_. T) (\<lambda>_. T)"
    by (rule hoare_deferring; rule triples)
  show ?thesis
    apply (rule hoare_deferring [OF _ r1 r2])
    apply (rule hoare_handle [OF stage_write [OF assms(1), of rc, folded S_def] hoare_fail_closing])
    apply (rule hoare_handle [where R = "\<lambda>_. ?W" and F = "\<lambda>_. S"])
      apply (rule wk, rule hoare_Sync)
     apply (rule hoare_fail_closing)
    apply (rule hoare_andthen [where R = "\<lambda>_. ?W"])
     apply (rule wk, rule hoare_Close)
    apply (rule hoare_andthen [OF stage_rename [OF assms(1), of rc, folded S_def, folded T_def]])
    apply (rule hoare_andthen [where R = "\<lambda>_. T"])
     apply (rule tk, rule hoare_Open)
    apply (rule tk, rule sync)
    done
qed

lemma write_record:
  assumes "\<And>d n. resolve ns0 dir = Inr d \<Longrightarrow> node_at ns0 (d @ [x]) = Some n \<Longrightarrow> \<exists>b. n = File b"
    and "\<not> has_prefix x temp_pattern"
  shows "hoare (\<lambda>ns. ns = ns0) (writeCustodyRecord env (dir @ [x]) record)
    (\<lambda>_. written ns0 dir x record) (\<lambda>_. attempted ns0 dir x record)"
  unfolding writeCustodyRecord_def butlast_snoc
proof (rule hoare_andthen [where R = "\<lambda>file ns. \<exists>d a. place ns0 dir d a x \<and> file = (dir @ [a], d @ [a]) \<and>
      stage ns0 (d @ [a]) (d @ [x]) record ns"])
  show "hoare (\<lambda>ns. ns = ns0) (os_CreateTemp (pick env) dir temp_pattern)
    (\<lambda>file ns. \<exists>d a. place ns0 dir d a x \<and> file = (dir @ [a], d @ [a]) \<and> stage ns0 (d @ [a]) (d @ [x]) record ns)
    (\<lambda>_. attempted ns0 dir x record)"
    by (rule hoare_weaken [OF create_spec [OF assms]]) (auto simp: attempted_def)
next
  fix f :: "path \<times> path"
  have w: "hoare (stage ns0 (d @ [a]) (d @ [x]) record) m (\<lambda>_ ns. stage ns0 (d @ [a]) (d @ [x]) record ns \<and>
       node_at ns (d @ [x]) = Some (File record)) (\<lambda>_. stage ns0 (d @ [a]) (d @ [x]) record) \<Longrightarrow>
     place ns0 dir d a x \<Longrightarrow>
     hoare (stage ns0 (d @ [a]) (d @ [x]) record) m (\<lambda>_. written ns0 dir x record) (\<lambda>_. attempted ns0 dir x record)"
    for m :: "unit io" and d a
    by (erule hoare_weaken) (auto simp: written_def attempted_def)
  have ex: "(\<And>d a. place ns0 dir d a x \<Longrightarrow> f = (dir @ [a], d @ [a]) \<Longrightarrow> hoare (stage ns0 (d @ [a]) (d @ [x]) record) m Q E) \<Longrightarrow>
     hoare (\<lambda>ns. \<exists>d a. place ns0 dir d a x \<and> f = (dir @ [a], d @ [a]) \<and> stage ns0 (d @ [a]) (d @ [x]) record ns) m Q E"
    for m :: "unit io" and Q E
    unfolding hoare_def by (intro allI impI; elim exE conjE; simp)
  show "hoare (\<lambda>ns. \<exists>d a. place ns0 dir d a x \<and> f = (dir @ [a], d @ [a]) \<and> stage ns0 (d @ [a]) (d @ [x]) record ns)
     (deferring
         (handle (os_Write f record) (\<lambda>err. deferring (fail err) (os_Close (fst f)))
           (\<lambda>_. handle (os_Sync (fst f)) (\<lambda>err. deferring (fail err) (os_Close (fst f)))
             (\<lambda>_. andthen (os_Close (fst f))
               (\<lambda>_. andthen (os_Rename (fst f) (dir @ [x]))
                 (\<lambda>_. andthen (os_Open dir)
                   (\<lambda>_. deferring (os_Sync dir) (os_Close dir)))))))
         (os_Remove (fst f)))
     (\<lambda>_. written ns0 dir x record) (\<lambda>_. attempted ns0 dir x record)"
    by (rule ex, rule w) (auto intro: write_tail)
qed

section \<open>Initializing destroys nothing\<close>

definition claimed :: "nodes \<Rightarrow> path \<Rightarrow> path \<Rightarrow> nodes \<Rightarrow> bool" where
  "claimed ns0 root rr ns \<longleftrightarrow> grows ns0 ns \<and> resolve ns root = Inr rr \<and> node_at ns rr = Some Dir \<and>
     (\<forall>p. p \<noteq> [] \<longrightarrow> node_at ns (rr @ p) = None)"

lemma mkdir_claims:
  assumes "fs_wf ns" "root \<noteq> []" "locate ns root = Inr q" "node_at ns q = None"
  shows "claimed ns root q (AList.update q Dir ns)"
proof -
  obtain d where d: "resolve ns (butlast root) = Inr d" "node_at ns d = Some Dir" "q = d @ [last root]"
    using assms(3) by (rule locate_InrE)
  let ?ns = "AList.update q Dir ns"
  have g: "grows ns ?ns" using grows_update [of q ns Dir] d(3) assms(4) by simp
  have "resolve ?ns (butlast root) = Inr d" "node_at ?ns d = Some Dir"
    using walk_grows [OF g d(1)] growsD [OF g d(2)] d(2) by auto
  from resolve_child [OF this, of "last root"] d(3) assms(2) have "resolve ?ns root = Inr q" by simp
  moreover have "node_at ?ns (q @ p) = None" if "p \<noteq> []" for p
    using wf_nothing_below [OF assms(1) _ that, of q] assms(4) d(3) that by simp
  ultimately show ?thesis using g d(3) by (simp add: claimed_def)
qed

lemma claim_spec:
  assumes "fs_wf ns0" "root \<noteq> []"
  shows "hoare (\<lambda>ns. ns = ns0) (claimEmptyCustodyRoot root) (\<lambda>_ ns. \<exists>rr. claimed ns0 root rr ns) (\<lambda>_ ns. ns = ns0)"
proof -
  have mk: "hoare (\<lambda>ns. ns = ns0) (os_Mkdir root) (\<lambda>_ ns. \<exists>rr. claimed ns0 root rr ns) (\<lambda>_ ns. ns = ns0)"
  proof (rule hoareI)
    fix s r s'
    assume "fs_nodes s = ns0" "os_Mkdir root s = (r, s')"
    with os_Mkdir_nodes [OF this(2)] mkdir_claims [OF assms] 
    show "case r of Inr a \<Rightarrow> \<exists>rr. claimed ns0 root rr (fs_nodes s') | Inl e \<Rightarrow> fs_nodes s' = ns0"
      by auto
  qed
  have dir: "claimed ns0 root q ns0" if "read_dir ns0 root = Inr []" "resolve ns0 root = Inr q" for q
    using that wf_empty_below [OF assms(1), of q]
    by (auto simp: claimed_def read_dir_def split: option.splits node.splits)
  have rd: "\<exists>q. resolve ns0 root = Inr q" if "read_dir ns0 root = Inr []"
    using that by (auto simp: read_dir_def split: sum.splits)
  show ?thesis
    unfolding claimEmptyCustodyRoot_def Let_def
    apply (rule hoare_handle [OF mk])
     apply (rule hoare_if, rule hoare_fail)
     apply (rule hoare_handle [OF hoare_Lstat hoare_fail])
     apply (rule hoare_if, rule hoare_weaken [OF hoare_fail [where E = "\<lambda>_ ns. ns = ns0"]], simp, simp, simp)
     apply (rule hoare_handle [where F = "\<lambda>_ ns. ns = ns0", OF hoare_weaken [OF hoare_ReadDir [of "\<lambda>ns. ns = ns0"]] hoare_fail], simp, assumption, simp)
     subgoal for e info entries
       using dir rd by (cases "entries = []") (auto simp: hoare_def ret_def fail_def)
    apply (rule hoare_ret)
    done
qed

definition prepared :: "nodes \<Rightarrow> path \<Rightarrow> path \<Rightarrow> nodes \<Rightarrow> bool" where
  "prepared ns0 root rr ns \<longleftrightarrow> grows ns0 ns \<and> resolve ns root = Inr rr \<and> node_at ns rr = Some Dir \<and>
     node_at ns (rr @ [''data'']) = Some Dir \<and>
     (\<forall>p. p \<noteq> [] \<and> p \<noteq> [''data''] \<longrightarrow> node_at ns (rr @ p) = None)"

lemma mkdir_data:
  assumes "claimed ns0 root rr ns1"
  shows "hoare (\<lambda>ns. ns = ns1) (os_Mkdir (root @ [''data''])) (\<lambda>_. prepared ns0 root rr) (\<lambda>_. grows ns0)"
proof (rule hoareI)
  fix s r s'
  assume s: "fs_nodes s = ns1" "os_Mkdir (root @ [''data'']) s = (r, s')"
  have c: "grows ns0 ns1" "resolve ns1 root = Inr rr" "node_at ns1 rr = Some Dir"
    "\<And>p. p \<noteq> [] \<Longrightarrow> node_at ns1 (rr @ p) = None" using assms by (auto simp: claimed_def)
  let ?ns = "AList.update (rr @ [''data'']) Dir ns1"
  have g: "grows ns1 ?ns" by (rule grows_update) (simp_all add: c(4))
  have "resolve ?ns root = Inr rr" "node_at ?ns rr = Some Dir"
    using walk_grows [OF g c(2)] growsD [OF g c(3)] c(3) by auto
  then have "prepared ns0 root rr ?ns" using grows_trans [OF c(1) g] c(4) by (simp add: prepared_def)
  with os_Mkdir_nodes [OF s(2)] s(1) locate_child [OF c(2,3)] c(1)
  show "case r of Inr a \<Rightarrow> prepared ns0 root rr (fs_nodes s') | Inl e \<Rightarrow> grows ns0 (fs_nodes s')" by auto
qed

lemma stage_grows:
  assumes "place ns0 dir d a x" "node_at ns0 (d @ [x]) = None" "stage ns0 (d @ [a]) (d @ [x]) record ns"
  shows "grows ns0 ns"
  unfolding grows_def
proof (intro allI impI)
  fix p n
  assume n: "node_at ns0 p = Some n"
  then have "p \<noteq> d @ [x]" using assms(2) by auto
  with stage_frame [OF assms(1,3) n] show "node_at ns p = Some n" .
qed

lemma write_fresh:
  assumes "resolve ns1 dir = Inr d" "node_at ns1 d = Some Dir" "node_at ns1 (d @ [x]) = None" "\<not> has_prefix x temp_pattern"
  shows "hoare (\<lambda>ns. ns = ns1) (writeCustodyRecord env (dir @ [x]) record)
    (\<lambda>_ ns. grows ns1 ns \<and> node_at ns (d @ [x]) = Some (File record) \<and>
       (\<exists>a. \<forall>p. p \<noteq> d @ [a] \<and> p \<noteq> d @ [x] \<longrightarrow> node_at ns p = node_at ns1 p))
    (\<lambda>_. grows ns1)"
proof (rule hoare_weaken [OF write_record [of ns1 dir x]])
  fix a ns
  assume "written ns1 dir x record ns"
  then obtain a where "place ns1 dir d a x" "stage ns1 (d @ [a]) (d @ [x]) record ns"
    "node_at ns (d @ [x]) = Some (File record)" using assms(1) by (auto simp: written_def place_def)
  then show "grows ns1 ns \<and> node_at ns (d @ [x]) = Some (File record) \<and>
       (\<exists>a. \<forall>p. p \<noteq> d @ [a] \<and> p \<noteq> d @ [x] \<longrightarrow> node_at ns p = node_at ns1 p)"
    using stage_grows [OF _ assms(3)] unfolding stage_def by blast
next
  fix e ns
  assume "attempted ns1 dir x record ns"
  then show "grows ns1 ns" using stage_grows [OF _ assms(3)] assms(1) by (auto simp: attempted_def place_def)
qed (use assms in auto)

text \<open>After the marker, then after the record.\<close>

definition marked :: "nodes \<Rightarrow> path \<Rightarrow> path \<Rightarrow> string \<Rightarrow> nodes \<Rightarrow> bool" where
  "marked ns0 root rr record ns \<longleftrightarrow> grows ns0 ns \<and> resolve ns root = Inr rr \<and> node_at ns rr = Some Dir \<and>
     node_at ns (rr @ [''data'']) = Some Dir \<and> node_at ns (rr @ [''data'', marker_json]) = Some (File record) \<and>
     node_at ns (rr @ [custody_json]) = None"

definition recorded :: "nodes \<Rightarrow> path \<Rightarrow> string \<Rightarrow> nodes \<Rightarrow> bool" where
  "recorded ns0 root record ns \<longleftrightarrow> grows ns0 ns \<and> read_file ns (root @ [custody_json]) = Inr record \<and>
     read_file ns (root @ [''data'', marker_json]) = Inr record"

lemma mark_spec:
  assumes "prepared ns0 root rr ns1"
  shows "hoare (\<lambda>ns. ns = ns1) (writeCustodyRecord env (root @ [''data''] @ [marker_json]) record)
    (\<lambda>_. marked ns0 root rr record) (\<lambda>_. grows ns0)"
proof -
  have p: "grows ns0 ns1" "resolve ns1 root = Inr rr" "node_at ns1 rr = Some Dir" "node_at ns1 (rr @ [''data'']) = Some Dir"
    "\<And>q. q \<noteq> [] \<Longrightarrow> q \<noteq> [''data''] \<Longrightarrow> node_at ns1 (rr @ q) = None" using assms by (auto simp: prepared_def)
  have d: "resolve ns1 (root @ [''data'']) = Inr (rr @ [''data''])" using resolve_child [OF p(2,3)] p(4) by simp
  have n: "node_at ns1 ((rr @ [''data'']) @ [marker_json]) = None" using p(5) [of "[''data'', marker_json]"] by simp
  show ?thesis
    unfolding append_assoc [symmetric]
  proof (rule hoare_weaken [OF write_fresh [OF d p(4) n]], goal_cases)
    case 1
    show ?case by (simp add: has_prefix_def)
  next
    case (3 u ns)
    then obtain a where a: "grows ns1 ns" "node_at ns (rr @ [''data'', marker_json]) = Some (File record)"
      "\<forall>p. p \<noteq> rr @ [''data'', a] \<and> p \<noteq> rr @ [''data'', marker_json] \<longrightarrow> node_at ns p = node_at ns1 p" by auto
    have "node_at ns (rr @ [custody_json]) = None" using a(3) p(5) [of "[custody_json]"] by simp
    with a walk_grows [OF a(1) p(2)] p(3,4) growsD [OF a(1)] grows_trans [OF p(1) a(1)] show ?case
      by (auto simp: marked_def)
  next
    case (4 e ns)
    then show ?case using grows_trans [OF p(1)] by blast
  qed simp
qed

lemma record_spec:
  assumes "marked ns0 root rr record ns1"
  shows "hoare (\<lambda>ns. ns = ns1) (writeCustodyRecord env (root @ [custody_json]) record)
    (\<lambda>_. recorded ns0 root record) (\<lambda>_. grows ns0)"
proof -
  have m: "grows ns0 ns1" "resolve ns1 root = Inr rr" "node_at ns1 rr = Some Dir" "node_at ns1 (rr @ [''data'']) = Some Dir"
    "node_at ns1 (rr @ [''data'', marker_json]) = Some (File record)" "node_at ns1 (rr @ [custody_json]) = None"
    using assms by (auto simp: marked_def)
  show ?thesis
  proof (rule hoare_weaken [OF write_fresh [OF m(2,3,6)]], goal_cases)
    case 1
    show ?case by (simp add: has_prefix_def)
  next
    case (3 u ns)
    then have g: "grows ns1 ns" "node_at ns (rr @ [custody_json]) = Some (File record)" by auto
    have r: "resolve ns root = Inr rr" "node_at ns rr = Some Dir"
      using walk_grows [OF g(1) m(2)] growsD [OF g(1) m(3)] m(3) by auto
    have "resolve ns (root @ [''data'']) = Inr (rr @ [''data''])" "node_at ns (rr @ [''data'']) = Some Dir"
      using resolve_child [OF r] growsD [OF g(1) m(4)] by auto
    from read_child [OF this] growsD [OF g(1) m(5)] read_child [OF r g(2)] grows_trans [OF m(1) g(1)]
    show ?case by (simp add: recorded_def)
  next
    case (4 e ns)
    then show ?case using grows_trans [OF m(1)] by blast
  qed simp
qed

text \<open>Syncing a directory and closing it, both errors reported together, observes only.\<close>

lemma sync_close_spec:
  "hoare (Q a) (handle (os_Sync p)
       (\<lambda>syncErr. handle (os_Close p) (\<lambda>closeErr. fail (errors_join [syncErr, closeErr])) (\<lambda>_. fail (errors_join [syncErr])))
       (\<lambda>_. handle (os_Close p) (\<lambda>closeErr. fail (errors_join [closeErr])) (\<lambda>_. ret a)))
     Q (\<lambda>_. Q a)"
  by (rule hoare_handle [OF hoare_Sync]; rule hoare_handle [OF hoare_Close]; rule hoare_fail hoare_ret)

lemma initialize_spec:
  assumes "fs_wf ns0" "root \<noteq> []"
  shows "hoare (\<lambda>ns. ns = ns0) (initialize_custody env root owner bucket present)
    (recorded ns0 root) (\<lambda>_. grows ns0)"
proof (cases present)
  case True
  then show ?thesis by (simp add: initialize_custody_def hoare_def fail_def)
next
  case False
  have claim: "hoare (\<lambda>ns. ns = ns0) (claimEmptyCustodyRoot root) (\<lambda>_ ns. \<exists>rr. claimed ns0 root rr ns) (\<lambda>_. grows ns0)"
    by (rule hoare_weaken [OF claim_spec [OF assms]]) auto
  have data: "hoare (\<lambda>ns. \<exists>rr. claimed ns0 root rr ns) (os_Mkdir (root @ [''data'']))
      (\<lambda>_ ns. \<exists>rr. prepared ns0 root rr ns) (\<lambda>_. grows ns0)"
  proof (rule hoare_each)
    fix ns assume "\<exists>rr. claimed ns0 root rr ns"
    then obtain rr where "claimed ns0 root rr ns" by blast
    then show "hoare (\<lambda>n. n = ns) (os_Mkdir (root @ [''data''])) (\<lambda>_ ns. \<exists>rr. prepared ns0 root rr ns) (\<lambda>_. grows ns0)"
      by (rule hoare_weaken [OF mkdir_data]) auto
  qed
  have mark: "hoare (\<lambda>ns. \<exists>rr. prepared ns0 root rr ns)
      (writeCustodyRecord env ((root @ [''data'']) @ [marker_json]) rc)
      (\<lambda>_ ns. \<exists>rr. marked ns0 root rr rc ns) (\<lambda>_. grows ns0)" for rc
  proof (rule hoare_each)
    fix ns assume "\<exists>rr. prepared ns0 root rr ns"
    then obtain rr where "prepared ns0 root rr ns" by blast
    then show "hoare (\<lambda>n. n = ns) (writeCustodyRecord env ((root @ [''data'']) @ [marker_json]) rc)
      (\<lambda>_ ns. \<exists>rr. marked ns0 root rr rc ns) (\<lambda>_. grows ns0)"
      unfolding append_assoc by (rule hoare_weaken [OF mark_spec]) auto
  qed
  have recd: "hoare (\<lambda>ns. \<exists>rr. marked ns0 root rr rc ns)
      (writeCustodyRecord env (root @ [custody_json]) rc) (\<lambda>_. recorded ns0 root rc) (\<lambda>_. grows ns0)" for rc
  proof (rule hoare_each)
    fix ns assume "\<exists>rr. marked ns0 root rr rc ns"
    then obtain rr where "marked ns0 root rr rc ns" by blast
    then show "hoare (\<lambda>n. n = ns) (writeCustodyRecord env (root @ [custody_json]) rc)
      (\<lambda>_. recorded ns0 root rc) (\<lambda>_. grows ns0)" by (rule record_spec)
  qed
  have rg: "recorded ns0 root rc ns \<Longrightarrow> grows ns0 ns" for rc ns by (simp add: recorded_def)
  show ?thesis
    unfolding initialize_custody_def Let_def if_not_P [OF False]
    apply (rule hoare_andthen [OF claim])
    apply (cases "generate env")
     apply (force simp: hoare_def fail_def claimed_def)
    apply simp
    apply (rule hoare_andthen [OF data])
    apply (rule hoare_andthen [OF mark [simplified]])
    apply (rule hoare_andthen [OF recd])
    apply (rule hoare_andthen [OF hoare_error [OF hoare_Open rg]], assumption)
    apply (rule hoare_error [OF sync_close_spec])
    apply (erule rg)
    done
qed

section \<open>What custody means\<close>

text \<open>
  The record and the marker agree, name this owner and bucket, and nothing between the root
  and them is a link.
\<close>

definition plain_paths :: "nodes \<Rightarrow> path list \<Rightarrow> bool" where
  "plain_paths ns ps \<longleftrightarrow> (\<forall>p \<in> set ps. \<exists>n. lstat ns p = Inr n \<and> (\<forall>t. n \<noteq> Symlink t))"

definition in_custody :: "CustodyEnv \<Rightarrow> path \<Rightarrow> string \<Rightarrow> string \<Rightarrow> minioCustody \<Rightarrow> nodes \<Rightarrow> bool" where
  "in_custody env root owner bucket c ns \<longleftrightarrow>
     mc_Version c = 2 \<and> mc_Owner c = owner \<and> mc_Bucket c = bucket \<and> mc_ID c \<noteq> [] \<and>
     (mc_Phase c = ''pending'' \<or> mc_Phase c = ''committed'') \<and>
     (\<exists>r. read_file ns (root @ [custody_json]) = Inr r \<and> unmarshal env r = Inr c) \<and>
     (\<exists>m. read_file ns (root @ [''data'', marker_json]) = Inr m \<and>
        unmarshal env m = Inr (c\<lparr>mc_Phase := ''pending''\<rparr>)) \<and>
     plain_paths ns [root, root @ [''data''], root @ [custody_json], root @ [''data'', marker_json]]"

lemma refuse_symlinks_spec:
  "hoare (\<lambda>ns. ns = ns0) (refuse_symlinks ps) (\<lambda>_ ns. ns = ns0 \<and> plain_paths ns0 ps) (\<lambda>_ ns. ns = ns0)"
proof (induction ps)
  case Nil
  then show ?case by (simp add: hoare_def ret_def plain_paths_def)
next
  case (Cons p ps)
  show ?case
    unfolding refuse_symlinks.simps
  proof (rule hoare_andthen [OF hoare_Lstat])
    fix n
    show "hoare (\<lambda>ns. ns = ns0 \<and> lstat ns p = Inr n)
      (case n of Symlink t \<Rightarrow> fail (Msg (''custody path is a symlink: '' @ path_string p)) | _ \<Rightarrow> refuse_symlinks ps)
      (\<lambda>_ ns. ns = ns0 \<and> plain_paths ns0 (p # ps)) (\<lambda>_ ns. ns = ns0)"
    proof (rule hoare_each)
      fix ns
      assume n: "ns = ns0 \<and> lstat ns p = Inr n"
      show "hoare (\<lambda>m. m = ns)
        (case n of Symlink t \<Rightarrow> fail (Msg (''custody path is a symlink: '' @ path_string p)) | _ \<Rightarrow> refuse_symlinks ps)
        (\<lambda>_ ns. ns = ns0 \<and> plain_paths ns0 (p # ps)) (\<lambda>_ ns. ns = ns0)"
      proof (cases "\<exists>t. n = Symlink t")
        case True
        with n show ?thesis by (auto simp: hoare_def fail_def)
      next
        case False
        then have "(case n of Symlink t \<Rightarrow> fail e | _ \<Rightarrow> refuse_symlinks ps) = refuse_symlinks ps" for e
          by (cases n) auto
        moreover have "plain_paths ns0 ps \<Longrightarrow> plain_paths ns0 (p # ps)" using n False by (auto simp: plain_paths_def)
        ultimately show ?thesis using n by (auto intro: hoare_weaken [OF Cons])
      qed
    qed
  qed
qed

lemma check_spec:
  assumes "read_file ns0 (root @ [custody_json]) = Inr r"
  shows "hoare (\<lambda>ns. ns = ns0) (check_custody env root owner bucket r)
    (\<lambda>_ ns. ns = ns0 \<and> (\<exists>c. in_custody env root owner bucket c ns0)) (\<lambda>_ ns. ns = ns0)"
proof (cases "unmarshal env r")
  case (Inl e)
  then show ?thesis by (simp add: check_custody_def hoare_def fail_def)
next
  case (Inr c)
  show ?thesis
  proof (cases "mc_Bucket c \<noteq> bucket \<or> custody_mismatch c owner")
    case True
    with Inr show ?thesis by (auto simp: check_custody_def Let_def hoare_def fail_def)
  next
    case False
    let ?ps = "[root, root @ [''data''], root @ [custody_json], root @ [''data'', marker_json]]"
    have m: "hoare (\<lambda>ns. (ns = ns0 \<and> plain_paths ns0 ?ps) \<and> read_file ns (root @ [''data'', marker_json]) = Inr m)
       (case unmarshal env m of
          Inl err \<Rightarrow> fail err
        | Inr actual \<Rightarrow>
           if mc_Phase actual \<noteq> ''pending'' then fail e1
           else if actual\<lparr>mc_Phase := mc_Phase c\<rparr> \<noteq> c then fail e2 else ret ())
       (\<lambda>_ ns. ns = ns0 \<and> (\<exists>c. in_custody env root owner bucket c ns0)) (\<lambda>_ ns. ns = ns0)" for m e1 e2
    proof (cases "unmarshal env m")
      case (Inr a)
      show ?thesis
      proof (cases "mc_Phase a = ''pending'' \<and> a\<lparr>mc_Phase := mc_Phase c\<rparr> = c")
        case True
        then have "a = c\<lparr>mc_Phase := ''pending''\<rparr>" by (metis minioCustody.surjective minioCustody.update_convs(5))
        with True False Inr \<open>unmarshal env r = Inr c\<close> assms show ?thesis
          by (auto simp: hoare_def ret_def in_custody_def custody_mismatch_def)
      qed (auto simp: Inr hoare_def fail_def)
    qed (simp add: hoare_def fail_def)
    have eq: "\<exists>e1 e2. check_custody env root owner bucket r = andthen (refuse_symlinks ?ps) (\<lambda>_.
        andthen (os_ReadFile (root @ [''data'', marker_json])) (\<lambda>m. case unmarshal env m of
          Inl err \<Rightarrow> fail err
        | Inr actual \<Rightarrow>
           if mc_Phase actual \<noteq> ''pending'' then fail e1
           else if actual\<lparr>mc_Phase := mc_Phase c\<rparr> \<noteq> c then fail e2 else ret ()))"
    proof -
      have b: "(mc_Bucket c \<noteq> bucket) = False" "custody_mismatch c owner = False" using False by auto
      show ?thesis
        unfolding check_custody_def Let_def Inr sum.case b if_False append_assoc append_Cons append_Nil
        by (intro exI) (rule refl)
    qed
    have read: "hoare (\<lambda>ns. ns = ns0 \<and> plain_paths ns0 ?ps) (os_ReadFile (root @ [''data'', marker_json]))
      (\<lambda>m ns. (ns = ns0 \<and> plain_paths ns0 ?ps) \<and> read_file ns (root @ [''data'', marker_json]) = Inr m) (\<lambda>_ ns. ns = ns0)"
      by (rule hoare_weaken [OF hoare_ReadFile [of "\<lambda>ns. ns = ns0 \<and> plain_paths ns0 ?ps"]]) auto
    from eq obtain e1 e2 where e: "check_custody env root owner bucket r = andthen (refuse_symlinks ?ps) (\<lambda>_.
        andthen (os_ReadFile (root @ [''data'', marker_json])) (\<lambda>m. case unmarshal env m of
          Inl err \<Rightarrow> fail err
        | Inr actual \<Rightarrow>
           if mc_Phase actual \<noteq> ''pending'' then fail e1
           else if actual\<lparr>mc_Phase := mc_Phase c\<rparr> \<noteq> c then fail e2 else ret ()))" by blast
    show ?thesis unfolding e by (rule hoare_andthen [OF refuse_symlinks_spec hoare_andthen [OF read m]])
  qed
qed

lemma ensure_spec:
  assumes "fs_wf ns0" "root \<noteq> []"
  shows "hoare (\<lambda>ns. ns = ns0) (ensureMinIOCustody env root owner bucket present)
    (\<lambda>_ ns. grows ns0 ns \<and> (\<exists>c. in_custody env root owner bucket c ns)) (\<lambda>_. grows ns0)"
proof -
  let ?R = "\<lambda>r ns. grows ns0 ns \<and> read_file ns (root @ [custody_json]) = Inr r"
  have read: "hoare (\<lambda>ns. ns = ns0)
      (handle (os_ReadFile (root @ [custody_json]))
         (\<lambda>err. if errors_is err ErrNotExist then initialize_custody env root owner bucket present else fail err) ret)
      ?R (\<lambda>_. grows ns0)"
    apply (rule hoare_handle [OF hoare_ReadFile])
     apply (rule hoare_if)
      apply (rule hoare_weaken [OF initialize_spec [OF assms]], simp, simp add: recorded_def, simp)
     apply (simp add: hoare_def fail_def)
    apply (auto simp: hoare_def ret_def)
    done
  show ?thesis
    unfolding ensureMinIOCustody_def
  proof (rule hoare_handle [OF read hoare_fail], rule hoare_each)
    fix r ns
    assume "?R r ns"
    then show "hoare (\<lambda>n. n = ns) (check_custody env root owner bucket r)
      (\<lambda>_ ns. grows ns0 ns \<and> (\<exists>c. in_custody env root owner bucket c ns)) (\<lambda>_. grows ns0)"
      by (intro hoare_weaken [OF check_spec]) auto
  qed
qed

section \<open>Existing data is refused\<close>

definition occupied :: "nodes \<Rightarrow> path \<Rightarrow> bool" where
  "occupied ns root \<longleftrightarrow> (case lstat ns root of
     Inl _ \<Rightarrow> False
   | Inr n \<Rightarrow> n \<noteq> Dir \<or> (case read_dir ns root of Inr [] \<Rightarrow> False | _ \<Rightarrow> True))"

lemma mkdir_occupied:
  assumes "occupied ns0 root"
  shows "hoare (\<lambda>ns. ns = ns0) (os_Mkdir root) (\<lambda>_ _. False) (\<lambda>_ ns. ns = ns0)"
proof (rule hoareI)
  fix s r s'
  assume "fs_nodes s = ns0" "os_Mkdir root s = (r, s')"
  with os_Mkdir_nodes [OF this(2)] assms
  show "case r of Inr a \<Rightarrow> False | Inl e \<Rightarrow> fs_nodes s' = ns0"
    by (auto simp: occupied_def lstat_def split: sum.splits option.splits)
qed

lemma claim_occupied:
  assumes "occupied ns0 root"
  shows "hoare (\<lambda>ns. ns = ns0) (claimEmptyCustodyRoot root) (\<lambda>_ _. False) (\<lambda>_ ns. ns = ns0)"
proof -
  have keep: "hoare (\<lambda>ns. ns = ns0 \<and> K ns) (fail e) (\<lambda>_ _. False) (\<lambda>_ ns. ns = ns0)" for e :: goerr and K
    by (simp add: hoare_def fail_def)
  show ?thesis
    unfolding claimEmptyCustodyRoot_def Let_def
    apply (rule hoare_handle [OF mkdir_occupied [OF assms]])
     apply (rule hoare_if, rule hoare_fail)
     apply (rule hoare_handle [OF hoare_Lstat hoare_fail])
     subgoal for e n
       apply (cases "n = Dir")
        apply simp
        apply (rule hoare_handle [OF hoare_ReadDir])
         apply (rule keep)
        subgoal for ls
          using assms by (cases "ls = []") (auto simp: hoare_def ret_def fail_def occupied_def)
       apply (simp add: keep)
       done
    apply (simp add: hoare_def)
    done
qed

lemma ensure_refuses:
  assumes "\<nexists>d. read_file ns0 (root @ [custody_json]) = Inr d" "present \<or> occupied ns0 root"
  shows "hoare (\<lambda>ns. ns = ns0) (ensureMinIOCustody env root owner bucket present) (\<lambda>_ _. False) (\<lambda>_ ns. ns = ns0)"
proof -
  have init: "hoare (\<lambda>ns. ns = ns0) (initialize_custody env root owner bucket present) (\<lambda>_ _. False) (\<lambda>_ ns. ns = ns0)"
  proof (cases present)
    case True
    then show ?thesis by (simp add: initialize_custody_def hoare_def fail_def)
  next
    case False
    with assms(2) have "occupied ns0 root" by simp
    from hoare_andthen [OF claim_occupied [OF this]] show ?thesis
      unfolding initialize_custody_def Let_def if_not_P [OF False] by (simp add: hoare_def)
  qed
  have read: "hoare (\<lambda>ns. ns = ns0) (os_ReadFile (root @ [custody_json])) (\<lambda>_ _. False) (\<lambda>_ ns. ns = ns0)"
    using assms(1) by (intro hoare_weaken [OF hoare_ReadFile [of "\<lambda>ns. ns = ns0"]]) auto
  have none: "hoare (\<lambda>_. False) (ret a) (\<lambda>_ _. False) (\<lambda>_ ns. ns = ns0)" for a :: string
    by (simp add: hoare_def)
  have none2: "hoare (\<lambda>_. False) m (\<lambda>_ _. False) (\<lambda>_ ns. ns = ns0)" for m :: "unit io"
    by (simp add: hoare_def)
  show ?thesis
    unfolding ensureMinIOCustody_def
    by (rule hoare_handle [OF hoare_handle [OF read hoare_if [OF init hoare_fail] none] hoare_fail none2])
qed

section \<open>Committing\<close>

lemma custody_plain:
  assumes "in_custody env root owner bucket c ns0" "resolve ns0 root = Inr d" "node_at ns0 (d @ [custody_json]) = Some n"
  shows "\<exists>b. n = File b"
proof -
  obtain r where r: "read_file ns0 (root @ [custody_json]) = Inr r" using assms(1) by (auto simp: in_custody_def)
  have "\<exists>n. lstat ns0 (root @ [custody_json]) = Inr n \<and> (\<forall>t. n \<noteq> Symlink t)"
    using assms(1) by (simp add: in_custody_def plain_paths_def)
  with assms(2,3) have dn: "node_at ns0 d = Some Dir" "\<forall>t. n \<noteq> Symlink t"
    by (auto simp: lstat_def locate_def split: sum.splits option.splits node.splits)
  with resolve_child [OF assms(2) dn(1)] assms(3) have "resolve ns0 (root @ [custody_json]) = Inr (d @ [custody_json])" by simp
  with r assms(3) show ?thesis by (auto simp: read_file_def split: node.splits)
qed

lemma custody_name: "\<not> has_prefix custody_json temp_pattern"
  by (simp add: has_prefix_def)

lemma commit_spec:
  assumes "in_custody env root owner bucket c ns0"
  shows "hoare (\<lambda>ns. ns = ns0) (commitMinIOProvisioning env \<lparr>mr_custodyRoot = root, mr_newStore = b\<rparr>)
    (\<lambda>m ns. written ns0 root custody_json (marshal env (c\<lparr>mc_Phase := ''committed''\<rparr>)) ns \<and>
       m = \<lparr>mr_custodyRoot = root, mr_newStore = False\<rparr>)
    (\<lambda>_ ns. attempted ns0 root custody_json (marshal env (c\<lparr>mc_Phase := ''committed''\<rparr>)) ns)"
proof -
  obtain r where r: "read_file ns0 (root @ [custody_json]) = Inr r" "unmarshal env r = Inr c"
    using assms(1) by (auto simp: in_custody_def)
  note plain = custody_plain [OF assms] and x = custody_name
  have read: "hoare (\<lambda>ns. ns = ns0) (os_ReadFile (root @ [custody_json])) (\<lambda>d ns. ns = ns0 \<and> d = r) (\<lambda>_ ns. ns = ns0)"
    using r(1) by (intro hoare_weaken [OF hoare_ReadFile [of "\<lambda>ns. ns = ns0"]]) auto
  have att: "attempted ns0 root custody_json rc ns0" for rc by (simp add: attempted_def)
  let ?rc = "marshal env (c\<lparr>mc_Phase := ''committed''\<rparr>)"
  let ?m = "\<lparr>mr_custodyRoot = root, mr_newStore = b\<rparr>\<lparr>mr_newStore := False\<rparr>"
  let ?Q = "\<lambda>m ns. written ns0 root custody_json ?rc ns \<and> m = \<lparr>mr_custodyRoot = root, mr_newStore = False\<rparr>"
  have w: "hoare (\<lambda>ns. ns = ns0) (andthen (writeCustodyRecord env (root @ [custody_json]) ?rc) (\<lambda>_. ret ?m))
      ?Q (\<lambda>_. attempted ns0 root custody_json ?rc)"
    by (rule hoare_andthen [OF write_record [OF plain x]]) (auto simp: hoare_def ret_def)
  have step: "hoare (\<lambda>ns. ns = ns0 \<and> d = r)
      (case unmarshal env d of Inl err \<Rightarrow> fail err
       | Inr custody \<Rightarrow> andthen (writeCustodyRecord env (root @ [custody_json])
             (marshal env (custody\<lparr>mc_Phase := ''committed''\<rparr>))) (\<lambda>_. ret ?m))
      ?Q (\<lambda>_. attempted ns0 root custody_json ?rc)" for d
  proof (cases "d = r")
    case True
    then show ?thesis using w r(2) by simp
  qed (simp add: hoare_def)
  have read': "hoare (\<lambda>ns. ns = ns0) (os_ReadFile (root @ [custody_json])) (\<lambda>d ns. ns = ns0 \<and> d = r)
      (\<lambda>_. attempted ns0 root custody_json ?rc)"
    by (rule hoare_weaken [OF read]) (auto simp: att)
  show ?thesis
    unfolding commitMinIOProvisioning_def Let_def MinioRuntime.select_convs
    by (rule hoare_andthen [OF read' step])
qed

text \<open>Replacing the record by one that differs in its phase keeps the custody.\<close>

lemma stage_lstat:
  assumes "place ns0 dir d a x" "stage ns0 (d @ [a]) (d @ [x]) rc ns" "lstat ns0 p = Inr n" "\<forall>t. n \<noteq> Symlink t"
  shows "\<exists>n'. lstat ns p = Inr n' \<and> (\<forall>t. n' \<noteq> Symlink t)"
proof -
  obtain q where q: "locate ns0 p = Inr q" "node_at ns0 q = Some n"
    using assms(3) by (auto simp: lstat_def split: sum.splits option.splits)
  then obtain e where e: "resolve ns0 (butlast p) = Inr e" "node_at ns0 e = Some Dir" "q = e @ [last p]"
    by (auto elim: locate_InrE)
  from stage_resolve [OF assms(1,2) e(1,2)] have l: "locate ns p = Inr q" by (simp add: locate_def e(3))
  have "q \<noteq> d @ [a]" using q(2) assms(1) by (auto simp: place_def)
  then have "node_at ns q = Some n \<or> node_at ns q = Some (File rc)"
    using assms(2) q(2) unfolding stage_def by metis
  with l assms(4) show ?thesis by (auto simp: lstat_def)
qed

lemma stage_keeps_custody:
  assumes "in_custody env root owner bucket c ns0" "place ns0 root d a custody_json"
    and "stage ns0 (d @ [a]) (d @ [custody_json]) (marshal env (c\<lparr>mc_Phase := ''committed''\<rparr>)) ns"
    and json: "unmarshal env (marshal env (c\<lparr>mc_Phase := ''committed''\<rparr>)) = Inr (c\<lparr>mc_Phase := ''committed''\<rparr>)"
  shows "in_custody env root owner bucket
     (if node_at ns (d @ [custody_json]) = node_at ns0 (d @ [custody_json]) then c
      else c\<lparr>mc_Phase := ''committed''\<rparr>) ns"
proof -
  let ?rc = "marshal env (c\<lparr>mc_Phase := ''committed''\<rparr>)"
  have d: "resolve ns0 root = Inr d" "node_at ns0 d = Some Dir" using assms(2) by (auto simp: place_def)
  have d': "resolve ns root = Inr d" "node_at ns d = Some Dir"
    using stage_resolve [OF assms(2,3) d] by auto
  obtain r m where rm: "read_file ns0 (root @ [custody_json]) = Inr r" "unmarshal env r = Inr c"
      "read_file ns0 (root @ [''data'', marker_json]) = Inr m" "unmarshal env m = Inr (c\<lparr>mc_Phase := ''pending''\<rparr>)"
    using assms(1) by (auto simp: in_custody_def)
  have plain: "plain_paths ns0 [root, root @ [''data''], root @ [custody_json], root @ [''data'', marker_json]]"
    using assms(1) by (simp add: in_custody_def)
  then have plain': "plain_paths ns [root, root @ [''data''], root @ [custody_json], root @ [''data'', marker_json]]"
    using stage_lstat [OF assms(2,3)] unfolding plain_paths_def by blast
  have rn: "node_at ns0 (d @ [custody_json]) = Some (File r)"
  proof -
    have "\<exists>n. lstat ns0 (root @ [custody_json]) = Inr n \<and> (\<forall>t. n \<noteq> Symlink t)" using plain by (simp add: plain_paths_def)
    with d have "\<forall>t. node_at ns0 (d @ [custody_json]) \<noteq> Some (Symlink t)"
      by (auto simp: lstat_def locate_def split: option.splits)
    from resolve_child [OF d this] rm(1) show ?thesis by (auto simp: read_file_def split: option.splits node.splits)
  qed
  have marker: "read_file ns (root @ [''data'', marker_json]) = Inr m"
  proof -
    have "\<exists>n. lstat ns0 ((root @ [''data'']) @ [marker_json]) = Inr n \<and> (\<forall>t. n \<noteq> Symlink t)" using plain by (simp add: plain_paths_def)
    then obtain n e where e: "resolve ns0 (root @ [''data'']) = Inr e" "node_at ns0 e = Some Dir"
      "node_at ns0 (e @ [marker_json]) = Some n" "\<forall>t. n \<noteq> Symlink t"
      by (auto simp: lstat_def locate_def butlast_append split: sum.splits option.splits node.splits)
    from resolve_child [OF e(1,2)] e(3,4) rm(3) have n: "n = File m"
      by (auto simp: read_file_def split: node.splits)
    have "e @ [marker_json] \<noteq> d @ [a]" using e(3) assms(2) by (auto simp: place_def)
    moreover have "e @ [marker_json] \<noteq> d @ [custody_json]" by simp
    ultimately have "node_at ns (e @ [marker_json]) = Some (File m)" using stage_frame [OF assms(2,3) e(3)] n by simp
    moreover have "resolve ns (root @ [''data'']) = Inr e" "node_at ns e = Some Dir"
      using stage_resolve [OF assms(2,3) e(1,2)] by auto
    ultimately show ?thesis using read_child [of ns "root @ [''data'']" e marker_json m] by simp
  qed
  show ?thesis
  proof (cases "node_at ns (d @ [custody_json]) = node_at ns0 (d @ [custody_json])")
    case True
    with read_child [OF d', of custody_json r] rn have "read_file ns (root @ [custody_json]) = Inr r" by simp
    with True assms(1) rm marker plain' show ?thesis by (simp add: in_custody_def)
  next
    case False
    then have "node_at ns (d @ [custody_json]) = Some (File ?rc)" using assms(3) by (auto simp: stage_def)
    from read_child [OF d' this] have "read_file ns (root @ [custody_json]) = Inr ?rc" .
    with False assms(1) rm marker plain' json show ?thesis by (simp add: in_custody_def)
  qed
qed

section \<open>Properties\<close>

definition sample_custody :: minioCustody where
  "sample_custody = \<lparr>mc_Version = 2, mc_Owner = ''me'', mc_Bucket = ''b'', mc_ID = ''id'', mc_Phase = ''pending''\<rparr>"

definition sample_json :: CustodyEnv where
  "sample_json = \<lparr>
     marshal = (\<lambda>c. if mc_Phase c = ''pending'' then ''P'' else ''C''),
     unmarshal = (\<lambda>s. if s = ''P'' then Inr sample_custody
        else if s = ''C'' then Inr (sample_custody\<lparr>mc_Phase := ''committed''\<rparr>) else Inl (Msg ''bad'')),
     generate = Inr ''id'', pick = (\<lambda>ns. ''1'')\<rparr>"

definition sample_fs :: "goerr option list \<Rightarrow> FS" where
  "sample_fs faults = \<lparr>fs_nodes = [([''h''], Dir), ([''h'', ''f''], File ''x'')], fs_faults = faults, fs_disk = None\<rparr>"

definition custody_fs :: nodes where
  "custody_fs = [([''h''], Dir), ([''h'', ''f''], File ''x''), ([''h'', ''s''], Dir), ([''h'', ''s'', ''data''], Dir),
     ([''h'', ''s'', ''data'', marker_json], File ''P''), ([''h'', ''s'', custody_json], File ''P'')]"

text \<open>A first run on the sample, call by call.\<close>

abbreviation sample_state :: "nat \<Rightarrow> FS" where
  "sample_state n \<equiv> \<lparr>fs_nodes = take n custody_fs, fs_faults = [], fs_disk = None\<rparr>"

lemma sample_claim:
  "claimEmptyCustodyRoot [''h'', ''s''] (sample_fs []) = (Inr (), sample_state 3)"
  "os_Mkdir [''h'', ''s'', ''data''] (sample_state 3) = (Inr (), sample_state 4)"
  by (simp_all add: sample_fs_def custody_fs_def claimEmptyCustodyRoot_def io_eval Let_def cong: io_cong)

lemma sample_writes:
  "writeCustodyRecord sample_json [''h'', ''s'', ''data'', marker_json] ''P'' (sample_state 4) = (Inr (), sample_state 5)"
  "writeCustodyRecord sample_json [''h'', ''s'', custody_json] ''P'' (sample_state 5) =
     (Inr (), \<lparr>fs_nodes = custody_fs, fs_faults = [], fs_disk = None\<rparr>)"
  by (simp_all add: custody_fs_def writeCustodyRecord_def sample_json_def io_eval Let_def cong: io_cong)

lemma sample_quiet:
  "os_Open [''h''] \<lparr>fs_nodes = custody_fs, fs_faults = [], fs_disk = None\<rparr> = (Inr (), \<lparr>fs_nodes = custody_fs, fs_faults = [], fs_disk = None\<rparr>)"
  "os_Sync p \<lparr>fs_nodes = custody_fs, fs_faults = [], fs_disk = None\<rparr> = (Inr (), \<lparr>fs_nodes = custody_fs, fs_faults = [], fs_disk = None\<rparr>)"
  "os_Close p \<lparr>fs_nodes = custody_fs, fs_faults = [], fs_disk = None\<rparr> = (Inr (), \<lparr>fs_nodes = custody_fs, fs_faults = [], fs_disk = None\<rparr>)"
  by (simp_all add: custody_fs_def io_eval Let_def cong: io_cong)

lemma sample_initialize:
  "initialize_custody sample_json [''h'', ''s''] ''me'' ''b'' False (sample_fs []) =
     (Inr ''P'', \<lparr>fs_nodes = custody_fs, fs_faults = [], fs_disk = None\<rparr>)"
proof -
  have "generate sample_json = Inr ''id''"
    "marshal sample_json \<lparr>mc_Version = 2, mc_Owner = ''me'', mc_Bucket = ''b'', mc_ID = ''id'', mc_Phase = ''pending''\<rparr> = ''P''"
    by (simp_all add: sample_json_def)
  then show ?thesis
    by (simp add: initialize_custody_def Let_def handle_def andthen_def ret_def sample_claim sample_writes
        sample_quiet cong: io_cong)
qed

lemma sample_check:
  "check_custody sample_json [''h'', ''s''] ''me'' ''b'' ''P'' \<lparr>fs_nodes = custody_fs, fs_faults = [], fs_disk = None\<rparr> =
     (Inr (), \<lparr>fs_nodes = custody_fs, fs_faults = [], fs_disk = None\<rparr>)"
  by (simp add: custody_fs_def check_custody_def custody_mismatch_def sample_json_def sample_custody_def
      io_eval Let_def cong: io_cong)

lemma sample_ensure:
  "ensureMinIOCustody sample_json [''h'', ''s''] ''me'' ''b'' False (sample_fs []) =
     (Inr (), \<lparr>fs_nodes = custody_fs, fs_faults = [], fs_disk = None\<rparr>)"
proof -
  obtain e where "os_ReadFile [''h'', ''s'', custody_json] (sample_fs []) = (Inl e, sample_fs [])" "errors_is e ErrNotExist"
    by (simp add: sample_fs_def io_eval errors_is_def Let_def)
  with sample_initialize sample_check show ?thesis by (simp add: ensureMinIOCustody_def handle_def)
qed

lemma sample_in_custody: "in_custody sample_json [''h'', ''s''] ''me'' ''b'' sample_custody custody_fs"
proof -
  have wf: "fs_wf (fs_nodes (sample_fs []))" by (simp add: fs_wf_def sample_fs_def node_at_def)
  from hoareD [OF ensure_spec [OF wf] refl sample_ensure] obtain c where
    c: "in_custody sample_json [''h'', ''s''] ''me'' ''b'' c custody_fs" by auto
  have "read_file custody_fs ([''h'', ''s''] @ [custody_json]) = Inr ''P''"
    by (simp add: read_file_def node_at_def custody_fs_def)
  with c have "unmarshal sample_json ''P'' = Inr c" unfolding in_custody_def by (metis sum.inject(2))
  moreover have "unmarshal sample_json ''P'' = Inr sample_custody" by (simp add: sample_json_def)
  ultimately show ?thesis using c by simp
qed

text \<open>C14: whatever call fails and wherever it stops, preparing custody destroys nothing: every file,
  directory and link that was there is there afterwards with what it held, and when it
  succeeds the record and the marker inside the data agree on this owner and bucket.\<close>

theorem ensure_destroys_nothing:
  assumes "fs_wf (fs_nodes s)" "root \<noteq> []" "ensureMinIOCustody env root owner bucket present s = (r, s')"
  shows "grows (fs_nodes s) (fs_nodes s') \<and>
    (case r of Inl e \<Rightarrow> True | Inr u \<Rightarrow> \<exists>c. in_custody env root owner bucket c (fs_nodes s'))"
  using hoareD [OF ensure_spec [OF assms(1,2)] refl assms(3)] by (cases r) auto

lemma ensure_destroys_nothing_witness:
  "\<exists>c. in_custody sample_json [''h'', ''s''] ''me'' ''b'' c custody_fs \<and>
    node_at custody_fs [''h'', ''f''] = Some (File ''x'')"
proof -
  have wf: "fs_wf (fs_nodes (sample_fs []))" by (simp add: fs_wf_def sample_fs_def node_at_def)
  from ensure_destroys_nothing [OF wf _ sample_ensure]
  have g: "grows (fs_nodes (sample_fs [])) custody_fs" "\<exists>c. in_custody sample_json [''h'', ''s''] ''me'' ''b'' c custody_fs"
    by auto
  moreover have "node_at (fs_nodes (sample_fs [])) [''h'', ''f''] = Some (File ''x'')" by (simp add: node_at_def sample_fs_def)
  ultimately show ?thesis using growsD by blast
qed

text \<open>C30: without a custody record, a live container or a root that is anything but an empty directory
  is refused, whatever fails on the way, and the file system is left exactly as it was.\<close>

theorem ensure_refuses_existing:
  assumes "\<nexists>d. read_file (fs_nodes s) (root @ [custody_json]) = Inr d" "present \<or> occupied (fs_nodes s) root"
    and "ensureMinIOCustody env root owner bucket present s = (r, s')"
  shows "(\<exists>e. r = Inl e) \<and> fs_nodes s' = fs_nodes s"
  using hoareD [OF ensure_refuses [OF assms(1,2)] refl assms(3)] by (cases r) auto

lemma ensure_refuses_existing_witness:
  "\<exists>e s'. ensureMinIOCustody sample_json [''h''] ''me'' ''b'' False (sample_fs []) = (Inl e, s') \<and>
     fs_nodes s' = fs_nodes (sample_fs [])"
proof -
  have a: "\<nexists>d. read_file (fs_nodes (sample_fs [])) ([''h''] @ [custody_json]) = Inr d"
    by (simp add: read_file_def sample_fs_def node_at_def)
  have b: "False \<or> occupied (fs_nodes (sample_fs [])) [''h'']"
    by (simp add: occupied_def lstat_def locate_def read_dir_def children_def sample_fs_def node_at_def)
  obtain r s' where e: "ensureMinIOCustody sample_json [''h''] ''me'' ''b'' False (sample_fs []) = (r, s')" by fastforce
  from ensure_refuses_existing [OF a b e] e show ?thesis by auto
qed

section \<open>A record is on the disk whole or not at all\<close>

text \<open>
  What may be pending while the record \<open>t\<close> is written through the temporary file \<open>q\<close>: anything
  about the temporary file, and of the record only the entry, whose data is on the disk.
\<close>

definition pends :: "nodes \<Rightarrow> path \<Rightarrow> path \<Rightarrow> string \<Rightarrow> pending \<Rightarrow> bool" where
  "pends ns0 q t record e \<longleftrightarrow> (case e of
     Data p \<Rightarrow> p = q
   | Entry p n b \<Rightarrow> p = q \<and> (n = None \<or> holds_data n) \<or> p = t \<and> \<not> b \<and> n = node_at ns0 t)"

definition in_write :: "nodes \<Rightarrow> path \<Rightarrow> path \<Rightarrow> string \<Rightarrow> nodes \<Rightarrow> pending list option \<Rightarrow> bool" where
  "in_write ns0 q t record ns dk \<longleftrightarrow> stage ns0 q t record ns \<and>
     (\<exists>P. dk = Some P \<and> (\<forall>e \<in> set P. pends ns0 q t record e))"

definition before_rename :: "nodes \<Rightarrow> path \<Rightarrow> path \<Rightarrow> string \<Rightarrow> nodes \<Rightarrow> pending list option \<Rightarrow> bool" where
  "before_rename ns0 q t record ns dk \<longleftrightarrow> in_write ns0 q t record ns dk \<and> node_at ns t = node_at ns0 t"

definition flushed :: "nodes \<Rightarrow> path \<Rightarrow> path \<Rightarrow> string \<Rightarrow> nodes \<Rightarrow> pending list option \<Rightarrow> bool" where
  "flushed ns0 q t record ns dk \<longleftrightarrow> before_rename ns0 q t record ns dk \<and> node_at ns q = Some (File record) \<and>
     (\<forall>P. dk = Some P \<longrightarrow> Data q \<notin> set P)"

definition renamed :: "nodes \<Rightarrow> path \<Rightarrow> path \<Rightarrow> string \<Rightarrow> nodes \<Rightarrow> pending list option \<Rightarrow> bool" where
  "renamed ns0 q t record ns dk \<longleftrightarrow> in_write ns0 q t record ns dk \<and> node_at ns t = Some (File record)"

definition on_disk :: "nodes \<Rightarrow> path \<Rightarrow> path \<Rightarrow> string \<Rightarrow> nodes \<Rightarrow> pending list option \<Rightarrow> bool" where
  "on_disk ns0 q t record ns dk \<longleftrightarrow> renamed ns0 q t record ns dk \<and> (\<forall>P n b. dk = Some P \<longrightarrow> Entry t n b \<notin> set P)"

lemmas write_phases = in_write_def before_rename_def flushed_def renamed_def on_disk_def

text \<open>Whatever survives a loss of power is a stage of the write too, and the record once it is on the disk.\<close>

lemma survives_stage:
  assumes "q \<noteq> t" "in_write ns0 q t record (fs_nodes s) (fs_disk s)" "survives s ns"
  shows "stage ns0 q t record ns"
proof -
  obtain P where P: "fs_disk s = Some P" "\<And>e. e \<in> set P \<Longrightarrow> pends ns0 q t record e"
    and st: "stage ns0 q t record (fs_nodes s)" using assms(2) by (auto simp: in_write_def)
  have v: "perhaps (node_at (fs_nodes s) p) (Data p \<in> set P) (node_at ns p) \<or>
      (\<exists>n b. Entry p n b \<in> set P \<and> perhaps n b (node_at ns p))" for p
    using assms(3) P(1) by (simp add: survives_def)
  have other: "node_at ns p = node_at ns0 p" if "p \<noteq> q" "p \<noteq> t" for p
    using v [of p] that P(2) [of "Data p"] P(2) [of "Entry p n b" for n b] st by (auto simp: perhaps_def pends_def stage_def)
  have rec: "node_at ns t = node_at ns0 t \<or> node_at ns t = Some (File record)"
    using v [of t] assms(1) P(2) [of "Data t"] P(2) [of "Entry t n b" for n b] st by (auto simp: perhaps_def pends_def stage_def)
  have data: "holds_data n \<Longrightarrow> \<exists>b. n = Some (File b)" for n by (cases n rule: holds_data.cases) auto
  have temp: "node_at ns q = None \<or> (\<exists>b. node_at ns q = Some (File b))"
    using v [of q]
  proof (elim disjE exE conjE)
    assume "perhaps (node_at (fs_nodes s) q) (Data q \<in> set P) (node_at ns q)"
    then show ?thesis using st data by (auto simp: perhaps_def stage_def)
  next
    fix n b
    assume "Entry q n b \<in> set P" "perhaps n b (node_at ns q)"
    then show ?thesis using P(2) [of "Entry q n b"] assms(1) data by (auto simp: perhaps_def pends_def)
  qed
  from other rec temp show ?thesis by (simp add: stage_def)
qed

lemma survives_on_disk:
  assumes "q \<noteq> t" "on_disk ns0 q t record (fs_nodes s) (fs_disk s)" "survives s ns"
  shows "node_at ns t = Some (File record)"
proof -
  obtain P where P: "fs_disk s = Some P" "\<And>e. e \<in> set P \<Longrightarrow> pends ns0 q t record e" "\<And>n b. Entry t n b \<notin> set P"
    and n: "node_at (fs_nodes s) t = Some (File record)" using assms(2) by (auto simp: write_phases)
  have "Data t \<notin> set P" using P(2) [of "Data t"] assms(1) by (auto simp: pends_def)
  with assms(3) P(1,3) n show ?thesis by (auto simp: survives_def perhaps_def dest: spec [of _ t])
qed

text \<open>The calls of a record write.\<close>

lemma journal_pends:
  assumes "\<And>p. node_at ns p \<noteq> node_at ns' p \<Longrightarrow> p = q" "node_at ns q = None \<or> (\<exists>b. node_at ns q = Some (File b))"
    and "\<forall>e \<in> set P. pends ns0 q t record e"
  shows "\<forall>e \<in> set (journal ns ns' P). pends ns0 q t record e"
    and "q \<noteq> t \<Longrightarrow> Entry t n b \<in> set (journal ns ns' P) \<Longrightarrow> Entry t n b \<in> set P"
  using assms by (fastforce dest!: journal_mem simp: pends_def)+

lemma disk_create:
  assumes "\<And>d n. resolve ns0 dir = Inr d \<Longrightarrow> node_at ns0 (d @ [x]) = Some n \<Longrightarrow> \<exists>b. n = File b"
    and "\<not> has_prefix x temp_pattern"
  shows "triple (\<lambda>s. fs_nodes s = ns0 \<and> fs_disk s = Some []) (os_CreateTemp pk dir temp_pattern)
    (\<lambda>file s. \<exists>d a. place ns0 dir d a x \<and> file = (dir @ [a], d @ [a]) \<and>
       before_rename ns0 (d @ [a]) (d @ [x]) record (fs_nodes s) (fs_disk s))
    (\<lambda>_ s. fs_nodes s = ns0 \<and> fs_disk s = Some [])"
  unfolding os_CreateTemp_def
proof (rule triple_effect [where A = "\<lambda>ns dk. ns = ns0 \<and> dk = Some []" and E = "\<lambda>ns dk. ns = ns0 \<and> dk = Some []" and
      Q = "\<lambda>file ns dk. \<exists>d a. place ns0 dir d a x \<and> file = (dir @ [a], d @ [a]) \<and> before_rename ns0 (d @ [a]) (d @ [x]) record ns dk"])
  fix ns r ns' and dk :: "pending list option"
  assume s: "ns = ns0 \<and> dk = Some []" and r: "create_temp pk dir temp_pattern ns = (r, ns')"
  let ?a = "temp_pattern @ pk ns"
  have "?a \<noteq> x" using assms(2) has_prefix_append [of temp_pattern "pk ns"] by metis
  show "case r of
      Inr file \<Rightarrow> \<exists>d a. place ns0 dir d a x \<and> file = (dir @ [a], d @ [a]) \<and>
        before_rename ns0 (d @ [a]) (d @ [x]) record ns' (map_option (journal ns ns') dk)
    | Inl e \<Rightarrow> ns' = ns0 \<and> map_option (journal ns ns') dk = Some []"
  proof (cases r)
    case (Inl e)
    with r s show ?thesis by (auto simp: create_temp_def Let_def journal_def changed_def split: sum.splits if_splits)
  next
    case (Inr made)
    with r obtain q where q: "locate ns (dir @ [?a]) = Inr q" "node_at ns q = None" "made = (dir @ [?a], q)"
        "ns' = AList.update q (File []) ns"
      by (auto simp: create_temp_def Let_def split: sum.splits if_splits)
    then obtain d where d: "resolve ns dir = Inr d" "node_at ns d = Some Dir" "q = d @ [?a]" by (auto elim: locate_InrE)
    with q s assms(1) \<open>?a \<noteq> x\<close> have pl: "place ns0 dir d ?a x" by (auto simp: place_def)
    moreover have "stage ns0 q (d @ [x]) record ns'" "node_at ns' (d @ [x]) = node_at ns0 (d @ [x])"
      using pl q d(3) s by (auto simp: stage_def place_def)
    moreover have "\<forall>e \<in> set (journal ns ns' []). pends ns0 q (d @ [x]) record e"
      by (rule journal_pends) (use q d(3) in \<open>auto split: if_splits\<close>)
    ultimately have "before_rename ns0 (d @ [?a]) (d @ [x]) record ns' (map_option (journal ns ns') dk)"
      using s d(3) by (simp add: write_phases)
    with pl q(3) d(3) Inr show ?thesis by auto
  qed
qed simp

abbreviation at_phase ::
  "(nodes \<Rightarrow> path \<Rightarrow> path \<Rightarrow> string \<Rightarrow> nodes \<Rightarrow> pending list option \<Rightarrow> bool) \<Rightarrow>
   nodes \<Rightarrow> path \<Rightarrow> string \<Rightarrow> string \<Rightarrow> string \<Rightarrow> FS \<Rightarrow> bool" where
  "at_phase F ns0 d a x record s \<equiv> F ns0 (d @ [a]) (d @ [x]) record (fs_nodes s) (fs_disk s)"

abbreviation (input) written_temp :: "nodes \<Rightarrow> path \<Rightarrow> path \<Rightarrow> string \<Rightarrow> nodes \<Rightarrow> pending list option \<Rightarrow> bool" where
  "written_temp ns0 q t record ns dk \<equiv> before_rename ns0 q t record ns dk \<and> node_at ns q = Some (File record)"

lemma disk_write:
  assumes "place ns0 dir d a x"
  shows "triple (at_phase before_rename ns0 d a x rc) (os_Write (dir @ [a], d @ [a]) rc)
    (\<lambda>_. at_phase written_temp ns0 d a x rc) (\<lambda>_. at_phase before_rename ns0 d a x rc)"
  unfolding os_Write_def
proof (rule triple_effect [where Q = "\<lambda>_ ns dk. written_temp ns0 (d @ [a]) (d @ [x]) rc ns dk"])
  fix ns dk r ns'
  assume s: "before_rename ns0 (d @ [a]) (d @ [x]) rc ns dk" and r: "write_file (snd (dir @ [a], d @ [a])) rc ns = (r, ns')"
  then have r: "r = Inr ()" "ns' = AList.update (d @ [a]) (File rc) ns" by (auto simp: write_file_def)
  obtain P where P: "dk = Some P" "\<forall>e \<in> set P. pends ns0 (d @ [a]) (d @ [x]) rc e"
    and st: "stage ns0 (d @ [a]) (d @ [x]) rc ns" "node_at ns (d @ [x]) = node_at ns0 (d @ [x])" using s by (auto simp: write_phases)
  have "\<forall>e \<in> set (journal ns ns' P). pends ns0 (d @ [a]) (d @ [x]) rc e"
    by (rule journal_pends) (use r st P in \<open>auto simp: stage_def split: if_splits\<close>)
  then show "case r of
      Inr u \<Rightarrow> written_temp ns0 (d @ [a]) (d @ [x]) rc ns' (map_option (journal ns ns') dk)
    | Inl e \<Rightarrow> before_rename ns0 (d @ [a]) (d @ [x]) rc ns' (map_option (journal ns ns') dk)"
    using assms r P(1) st by (auto simp: write_phases stage_def place_def)
qed simp

lemma disk_sync_file:
  assumes "place ns0 dir d a x"
  shows "triple (at_phase written_temp ns0 d a x rc) (os_Sync (dir @ [a]))
    (\<lambda>_. at_phase flushed ns0 d a x rc) (\<lambda>_. at_phase before_rename ns0 d a x rc)"
  unfolding os_Sync_def
proof (rule triple_effect [where Q = "\<lambda>_ ns dk. flushed ns0 (d @ [a]) (d @ [x]) rc ns dk" and
      A = "\<lambda>ns dk. written_temp ns0 (d @ [a]) (d @ [x]) rc ns dk"])
  fix ns dk r ns'
  assume s: "written_temp ns0 (d @ [a]) (d @ [x]) rc ns dk" and r: "(Inr () :: goerr + unit, ns) = (r, ns')"
  have "stage ns0 (d @ [a]) (d @ [x]) rc ns" using s by (simp add: write_phases)
  from stage_resolve [OF assms this] s assms have "resolve ns (dir @ [a]) = Inr (d @ [a])"
    by (intro resolve_child) (auto simp: place_def)
  then show "case r of
      Inr u \<Rightarrow> flushed ns0 (d @ [a]) (d @ [x]) rc ns' (map_option (synced (dir @ [a]) ns ns') dk)
    | Inl e \<Rightarrow> before_rename ns0 (d @ [a]) (d @ [x]) rc ns' (map_option (synced (dir @ [a]) ns ns') dk)"
    using s r by (auto simp: write_phases synced_def)
qed simp

lemma disk_rename:
  assumes "place ns0 dir d a x"
  shows "triple (at_phase flushed ns0 d a x rc) (os_Rename (dir @ [a]) (dir @ [x]))
    (\<lambda>_. at_phase renamed ns0 d a x rc) (\<lambda>_. at_phase in_write ns0 d a x rc)"
  unfolding os_Rename_def
proof (rule triple_effect [where Q = "\<lambda>_ ns dk. renamed ns0 (d @ [a]) (d @ [x]) rc ns dk" and
      A = "\<lambda>ns dk. flushed ns0 (d @ [a]) (d @ [x]) rc ns dk"])
  fix ns dk r ns'
  assume s: "flushed ns0 (d @ [a]) (d @ [x]) rc ns dk" and r: "rename (dir @ [a]) (dir @ [x]) ns = (r, ns')"
  obtain P where P: "dk = Some P" "\<And>e. e \<in> set P \<Longrightarrow> pends ns0 (d @ [a]) (d @ [x]) rc e" "Data (d @ [a]) \<notin> set P"
    and st: "stage ns0 (d @ [a]) (d @ [x]) rc ns" "node_at ns (d @ [x]) = node_at ns0 (d @ [x])"
      "node_at ns (d @ [a]) = Some (File rc)" using s by (auto simp: write_phases)
  have l: "locate ns (dir @ [y]) = Inr (d @ [y])" for y using stage_locate [OF assms st(1)] .
  have ne: "a \<noteq> x" "node_at ns (d @ [x]) \<noteq> Some Dir" using st assms by (auto simp: place_def)
  with r l st have r: "r = Inr ()" "ns' = AList.update (d @ [x]) (File rc) (AList.delete (d @ [a]) ns)"
    by (auto simp: rename_def)
  have "ns' \<noteq> ns"
  proof
    assume "ns' = ns"
    then have "node_at ns' (d @ [a]) = Some (File rc)" using st by simp
    with r ne show False by simp
  qed
  moreover have "Data (d @ [x]) \<notin> set P" using P(2) [of "Data (d @ [x])"] ne by (auto simp: pends_def)
  ultimately have "\<forall>e \<in> set (moved (dir @ [a]) (dir @ [x]) ns ns' P). pends ns0 (d @ [a]) (d @ [x]) rc e"
    using P(2,3) l st by (auto simp: moved_def pends_def)
  then show "case r of
      Inr u \<Rightarrow> renamed ns0 (d @ [a]) (d @ [x]) rc ns' (map_option (moved (dir @ [a]) (dir @ [x]) ns ns') dk)
    | Inl e \<Rightarrow> in_write ns0 (d @ [a]) (d @ [x]) rc ns' (map_option (moved (dir @ [a]) (dir @ [x]) ns ns') dk)"
    using r P(1) st ne by (auto simp: write_phases stage_def)
qed (simp add: write_phases)

lemma disk_sync_dir:
  assumes "place ns0 dir d a x"
  shows "triple (at_phase renamed ns0 d a x rc) (os_Sync dir)
    (\<lambda>_. at_phase on_disk ns0 d a x rc) (\<lambda>_. at_phase in_write ns0 d a x rc)"
  unfolding os_Sync_def
proof (rule triple_effect [where Q = "\<lambda>_ ns dk. on_disk ns0 (d @ [a]) (d @ [x]) rc ns dk" and
      A = "\<lambda>ns dk. renamed ns0 (d @ [a]) (d @ [x]) rc ns dk"])
  fix ns dk r ns'
  assume s: "renamed ns0 (d @ [a]) (d @ [x]) rc ns dk" and r: "(Inr () :: goerr + unit, ns) = (r, ns')"
  have "stage ns0 (d @ [a]) (d @ [x]) rc ns" using s by (simp add: write_phases)
  from stage_resolve [OF assms this] assms have "resolve ns dir = Inr d" by (auto simp: place_def)
  then show "case r of
      Inr u \<Rightarrow> on_disk ns0 (d @ [a]) (d @ [x]) rc ns' (map_option (synced dir ns ns') dk)
    | Inl e \<Rightarrow> in_write ns0 (d @ [a]) (d @ [x]) rc ns' (map_option (synced dir ns ns') dk)"
    using s r by (auto simp: write_phases synced_def)
qed (simp add: write_phases)

lemma disk_remove:
  assumes "place ns0 dir d a x" "F = in_write \<or> F = on_disk"
  shows "triple (at_phase F ns0 d a x rc) (os_Remove (dir @ [a]))
    (\<lambda>_. at_phase F ns0 d a x rc) (\<lambda>_. at_phase F ns0 d a x rc)"
  unfolding os_Remove_def
proof (rule triple_effect [where Q = "\<lambda>_ ns dk. F ns0 (d @ [a]) (d @ [x]) rc ns dk"])
  fix ns dk r ns'
  assume s: "F ns0 (d @ [a]) (d @ [x]) rc ns dk" and r: "remove (dir @ [a]) ns = (r, ns')"
  obtain P where P: "dk = Some P" "\<forall>e \<in> set P. pends ns0 (d @ [a]) (d @ [x]) rc e"
    and st: "stage ns0 (d @ [a]) (d @ [x]) rc ns" using s assms(2) by (auto simp: write_phases)
  have "locate ns (dir @ [a]) = Inr (d @ [a])" using stage_locate [OF assms(1) st] .
  with r have ns': "ns' = ns \<or> ns' = AList.delete (d @ [a]) ns" by (auto simp: remove_def split: option.splits if_splits)
  have ne: "d @ [a] \<noteq> d @ [x]" using assms(1) by (simp add: place_def)
  have only: "node_at ns p \<noteq> node_at ns' p \<Longrightarrow> p = d @ [a]" for p using ns' by (auto split: if_splits)
  have temp: "node_at ns (d @ [a]) = None \<or> (\<exists>b. node_at ns (d @ [a]) = Some (File b))" using st by (simp add: stage_def)
  have j1: "\<forall>e \<in> set (journal ns ns' P). pends ns0 (d @ [a]) (d @ [x]) rc e" by (rule journal_pends(1) [OF only temp P(2)])
  have j2: "Entry (d @ [x]) n b \<in> set P" if "Entry (d @ [x]) n b \<in> set (journal ns ns' P)" for n b
    by (rule journal_pends(2) [OF only temp P(2) ne that])
  have st': "stage ns0 (d @ [a]) (d @ [x]) rc ns'" "node_at ns' (d @ [x]) = node_at ns (d @ [x])"
    using ns' st ne by (auto simp: stage_def)
  from assms(2) have "F ns0 (d @ [a]) (d @ [x]) rc ns' (Some (journal ns ns' P))"
  proof
    assume "F = in_write"
    with st' j1 show ?thesis by (simp add: in_write_def)
  next
    assume "F = on_disk"
    with s st' j1 j2 P(1) show ?thesis by (auto simp: write_phases)
  qed
  then show "case r of
      Inr u \<Rightarrow> F ns0 (d @ [a]) (d @ [x]) rc ns' (map_option (journal ns ns') dk)
    | Inl e \<Rightarrow> F ns0 (d @ [a]) (d @ [x]) rc ns' (map_option (journal ns ns') dk)"
    using P(1) by (cases r) auto
qed simp

text \<open>The whole of a record write.\<close>

lemma disk_close: "triple (at_phase F ns0 d a x rc) (os_Close p) (\<lambda>_. at_phase F ns0 d a x rc) (\<lambda>_. at_phase F ns0 d a x rc)"
  unfolding os_Close_def by (rule triple_still)

lemma disk_closing:
  "triple (at_phase F ns0 d a x rc) (deferring (fail err) (os_Close p)) Q (\<lambda>_. at_phase F ns0 d a x rc)"
  by (rule triple_deferring [where F = "\<lambda>_. at_phase F ns0 d a x rc" and R = "\<lambda>_ _. False"])
    (rule triple_fail, simp add: triple_def, rule disk_close)

lemma phase_order:
  "before_rename ns0 q t rc ns dk \<Longrightarrow> in_write ns0 q t rc ns dk" "flushed ns0 q t rc ns dk \<Longrightarrow> in_write ns0 q t rc ns dk"
  "renamed ns0 q t rc ns dk \<Longrightarrow> in_write ns0 q t rc ns dk" "on_disk ns0 q t rc ns dk \<Longrightarrow> in_write ns0 q t rc ns dk"
  by (simp_all add: write_phases)

lemma disk_tail:
  assumes "place ns0 dir d a x"
  shows "triple (at_phase before_rename ns0 d a x rc) (deferring
         (handle (os_Write (dir @ [a], d @ [a]) rc) (\<lambda>err. deferring (fail err) (os_Close c))
           (\<lambda>_. handle (os_Sync (dir @ [a])) (\<lambda>err. deferring (fail err) (os_Close c))
             (\<lambda>_. andthen (os_Close c)
               (\<lambda>_. andthen (os_Rename (dir @ [a]) (dir @ [x]))
                 (\<lambda>_. andthen (os_Open dir)
                   (\<lambda>_. deferring (os_Sync dir) (os_Close dir)))))))
         (os_Remove (dir @ [a]))) (\<lambda>_. at_phase on_disk ns0 d a x rc) (\<lambda>_. at_phase in_write ns0 d a x rc)"
proof -
  let ?E = "\<lambda>_. at_phase in_write ns0 d a x rc"
  have closing: "triple (at_phase before_rename ns0 d a x rc) (deferring (fail err) (os_Close c)) (\<lambda>_. at_phase on_disk ns0 d a x rc) ?E" for err
    by (rule triple_weaken [OF disk_closing [where F = before_rename]]) (blast intro: phase_order)+
  have sync: "triple (at_phase renamed ns0 d a x rc) (deferring (os_Sync dir) (os_Close dir)) (\<lambda>_. at_phase on_disk ns0 d a x rc) ?E"
    by (rule triple_deferring [OF disk_sync_dir [OF assms]]; rule disk_close)
  have opened: "triple (at_phase renamed ns0 d a x rc) (os_Open dir) (\<lambda>_. at_phase renamed ns0 d a x rc) ?E"
    unfolding os_Open_def by (rule triple_weaken [OF triple_still [where A = "renamed ns0 (d @ [a]) (d @ [x]) rc"]]) (blast intro: phase_order)+
  have closed: "triple (at_phase flushed ns0 d a x rc) (os_Close c) (\<lambda>_. at_phase flushed ns0 d a x rc) ?E"
    by (rule triple_weaken [OF disk_close [where F = flushed]]) (blast intro: phase_order)+
  show ?thesis
    by (rule triple_deferring [OF triple_handle [OF disk_write [OF assms] closing triple_handle [OF disk_sync_file [OF assms] closing
          triple_andthen [OF closed triple_andthen [OF disk_rename [OF assms] triple_andthen [OF opened sync]]]]]
          disk_remove [OF assms, where F = on_disk and rc = rc] disk_remove [OF assms, where F = in_write and rc = rc]]) simp_all
qed

definition on_disk_at :: "nodes \<Rightarrow> path \<Rightarrow> string \<Rightarrow> string \<Rightarrow> FS \<Rightarrow> bool" where
  "on_disk_at ns0 dir x record s \<longleftrightarrow> (\<exists>d a. place ns0 dir d a x \<and> at_phase on_disk ns0 d a x record s)"

definition in_write_at :: "nodes \<Rightarrow> path \<Rightarrow> string \<Rightarrow> string \<Rightarrow> FS \<Rightarrow> bool" where
  "in_write_at ns0 dir x record s \<longleftrightarrow> fs_nodes s = ns0 \<and> fs_disk s = Some [] \<or>
     (\<exists>d a. place ns0 dir d a x \<and> at_phase in_write ns0 d a x record s)"

lemma disk_record:
  assumes "\<And>d n. resolve ns0 dir = Inr d \<Longrightarrow> node_at ns0 (d @ [x]) = Some n \<Longrightarrow> \<exists>b. n = File b"
    and "\<not> has_prefix x temp_pattern"
  shows "triple (\<lambda>s. fs_nodes s = ns0 \<and> fs_disk s = Some []) (writeCustodyRecord env (dir @ [x]) record)
    (\<lambda>_. on_disk_at ns0 dir x record) (\<lambda>_. in_write_at ns0 dir x record)"
  unfolding writeCustodyRecord_def butlast_snoc
proof (rule triple_andthen)
  show "triple (\<lambda>s. fs_nodes s = ns0 \<and> fs_disk s = Some []) (os_CreateTemp (pick env) dir temp_pattern)
    (\<lambda>made s. \<exists>d a. place ns0 dir d a x \<and> made = (dir @ [a], d @ [a]) \<and> at_phase before_rename ns0 d a x record s)
    (\<lambda>_. in_write_at ns0 dir x record)"
    by (rule triple_weaken [OF disk_create [OF assms]]) (auto simp: in_write_at_def)
next
  fix f :: "path \<times> path"
  show "triple (\<lambda>s. \<exists>d a. place ns0 dir d a x \<and> f = (dir @ [a], d @ [a]) \<and> at_phase before_rename ns0 d a x record s)
     (deferring
         (handle (os_Write f record) (\<lambda>err. deferring (fail err) (os_Close (fst f)))
           (\<lambda>_. handle (os_Sync (fst f)) (\<lambda>err. deferring (fail err) (os_Close (fst f)))
             (\<lambda>_. andthen (os_Close (fst f))
               (\<lambda>_. andthen (os_Rename (fst f) (dir @ [x]))
                 (\<lambda>_. andthen (os_Open dir)
                   (\<lambda>_. deferring (os_Sync dir) (os_Close dir)))))))
         (os_Remove (fst f)))
     (\<lambda>_. on_disk_at ns0 dir x record) (\<lambda>_. in_write_at ns0 dir x record)"
  proof (rule triple_each, elim exE conjE)
    fix s0 d a
    assume pl: "place ns0 dir d a x" and f: "f = (dir @ [a], d @ [a])" and s0: "at_phase before_rename ns0 d a x record s0"
    show "triple (\<lambda>s. s = s0)
     (deferring
         (handle (os_Write f record) (\<lambda>err. deferring (fail err) (os_Close (fst f)))
           (\<lambda>_. handle (os_Sync (fst f)) (\<lambda>err. deferring (fail err) (os_Close (fst f)))
             (\<lambda>_. andthen (os_Close (fst f))
               (\<lambda>_. andthen (os_Rename (fst f) (dir @ [x]))
                 (\<lambda>_. andthen (os_Open dir)
                   (\<lambda>_. deferring (os_Sync dir) (os_Close dir)))))))
         (os_Remove (fst f)))
     (\<lambda>_. on_disk_at ns0 dir x record) (\<lambda>_. in_write_at ns0 dir x record)"
      unfolding f fst_conv
      by (rule triple_weaken [OF disk_tail [OF pl]]) (use pl s0 in \<open>auto simp: on_disk_at_def in_write_at_def\<close>)
  qed
qed

lemma commit_on_disk:
  assumes "in_custody env root owner bucket c ns0"
  shows "triple (\<lambda>s. fs_nodes s = ns0 \<and> fs_disk s = Some []) (commitMinIOProvisioning env \<lparr>mr_custodyRoot = root, mr_newStore = b\<rparr>)
    (\<lambda>m. on_disk_at ns0 root custody_json (marshal env (c\<lparr>mc_Phase := ''committed''\<rparr>)))
    (\<lambda>_. in_write_at ns0 root custody_json (marshal env (c\<lparr>mc_Phase := ''committed''\<rparr>)))"
proof -
  obtain r where r: "read_file ns0 (root @ [custody_json]) = Inr r" "unmarshal env r = Inr c"
    using assms(1) by (auto simp: in_custody_def)
  let ?rc = "marshal env (c\<lparr>mc_Phase := ''committed''\<rparr>)"
  have w: "triple (\<lambda>s. fs_nodes s = ns0 \<and> fs_disk s = Some []) (andthen (writeCustodyRecord env (root @ [custody_json]) ?rc) (\<lambda>_. ret m))
      (\<lambda>_. on_disk_at ns0 root custody_json ?rc) (\<lambda>_. in_write_at ns0 root custody_json ?rc)" for m :: MinioRuntime
    by (rule triple_andthen [OF disk_record], erule (1) custody_plain [OF assms], rule custody_name, rule triple_ret)
  have read: "triple (\<lambda>s. fs_nodes s = ns0 \<and> fs_disk s = Some []) (os_ReadFile (root @ [custody_json]))
      (\<lambda>d s. (fs_nodes s = ns0 \<and> fs_disk s = Some []) \<and> d = r) (\<lambda>_. in_write_at ns0 root custody_json ?rc)"
    unfolding os_ReadFile_def
    by (rule triple_weaken [OF triple_observed [where A = "\<lambda>ns dk. ns = ns0 \<and> dk = Some []"]]) (use r(1) in \<open>auto simp: in_write_at_def\<close>)
  show ?thesis
    unfolding commitMinIOProvisioning_def Let_def MinioRuntime.select_convs
    by (rule triple_andthen [OF read], rule triple_pure) (simp add: r(2) w)
qed

lemma same_attempted:
  assumes "in_custody env root owner bucket c ns0" "\<And>p. node_at ns p = node_at ns0 p"
  shows "attempted ns0 root custody_json record ns"
proof -
  have "\<exists>n. lstat ns0 (root @ [custody_json]) = Inr n" using assms(1) by (auto simp: in_custody_def plain_paths_def)
  then obtain d where d: "resolve ns0 root = Inr d" "node_at ns0 d = Some Dir"
    by (auto simp: lstat_def locate_def split: sum.splits option.splits node.splits)
  have "{a. node_at ns0 (d @ [a]) \<noteq> None} \<subseteq> last ` fst ` set ns0"
    by (force simp: node_at_def dest: map_of_SomeD)
  then have "finite ({a. node_at ns0 (d @ [a]) \<noteq> None} \<union> {custody_json})" by (intro finite_UnI) (rule finite_subset, assumption, simp_all)
  then obtain a where "a \<notin> {a. node_at ns0 (d @ [a]) \<noteq> None} \<union> {custody_json}"
    using ex_new_if_finite [OF infinite_UNIV_listI] by blast
  then have "place ns0 root d a custody_json" "node_at ns0 (d @ [a]) = None"
    using d custody_plain [OF assms(1) d(1)] by (auto simp: place_def)
  moreover from this have "stage ns0 (d @ [a]) (d @ [custody_json]) record ns" using assms(2) by (simp add: stage_def)
  ultimately show ?thesis unfolding attempted_def by blast
qed

text \<open>What may be found after a commit: seen at its end, or after a loss of power.\<close>

lemma commit_outcomes:
  assumes "in_custody env root owner bucket c (fs_nodes s)"
    and "commitMinIOProvisioning env \<lparr>mr_custodyRoot = root, mr_newStore = b\<rparr> s = (r, s')"
    and "ns = fs_nodes s' \<or> fs_disk s = Some [] \<and> survives s' ns"
  defines "rc \<equiv> marshal env (c\<lparr>mc_Phase := ''committed''\<rparr>)"
  shows "attempted (fs_nodes s) root custody_json rc ns"
    and "r = Inr m \<Longrightarrow> written (fs_nodes s) root custody_json rc ns \<and> \<not> mr_newStore m"
proof -
  let ?ns = "fs_nodes s"
  note seen = hoareD [OF commit_spec [OF assms(1)] refl assms(2), folded rc_def]
  have ne: "place ?ns root d a x \<Longrightarrow> d @ [a] \<noteq> d @ [x]" for d a x by (simp add: place_def)
  have lost: "case r of Inr m \<Rightarrow> on_disk_at ?ns root custody_json rc s' | Inl e \<Rightarrow> in_write_at ?ns root custody_json rc s'"
    if "fs_disk s = Some []"
    using tripleD [OF commit_on_disk [OF assms(1)] _ assms(2), folded rc_def] that by simp
  have writing: "attempted ?ns root custody_json rc ns" if "in_write_at ?ns root custody_json rc s'" "survives s' ns"
    using that(1) unfolding in_write_at_def
  proof (elim disjE exE conjE)
    assume "fs_nodes s' = ?ns" "fs_disk s' = Some []"
    with that(2) show ?thesis by (intro same_attempted [OF assms(1)]) (simp add: survives_def perhaps_def)
  next
    fix d a
    assume "place ?ns root d a custody_json" "at_phase in_write ?ns d a custody_json rc s'"
    with survives_stage [OF ne this(2) that(2)] show ?thesis unfolding attempted_def by blast
  qed
  have whole: "written ?ns root custody_json rc ns" if od: "on_disk_at ?ns root custody_json rc s'" and sv: "survives s' ns"
  proof -
    obtain d a where at: "place ?ns root d a custody_json" "at_phase on_disk ?ns d a custody_json rc s'"
      using od unfolding on_disk_at_def by blast
    with survives_stage [OF ne phase_order(4) sv] survives_on_disk [OF ne at(2) sv] show ?thesis
      unfolding written_def by blast
  qed
  show "attempted ?ns root custody_json rc ns"
  proof (cases r)
    case (Inl e)
    with assms(3) seen lost writing show ?thesis by auto
  next
    case (Inr m)
    with assms(3) seen lost whole have "written ?ns root custody_json rc ns" by auto
    then show ?thesis by (auto simp: written_def attempted_def)
  qed
  show "written ?ns root custody_json rc ns \<and> \<not> mr_newStore m" if "r = Inr m"
    using assms(3) seen lost whole that by auto
qed

text \<open>C15: committing is one durable transition: stopped at any call, and also if power is then lost
  from a file system that was on the disk when it began, the custody is whole, as pending or as
  committed; when it reports success it is committed, and stays so through a loss of power; and no
  other file is changed.\<close>

theorem commit_atomic:
  assumes "in_custody env root owner bucket c (fs_nodes s)"
    and "unmarshal env (marshal env (c\<lparr>mc_Phase := ''committed''\<rparr>)) = Inr (c\<lparr>mc_Phase := ''committed''\<rparr>)"
    and "commitMinIOProvisioning env \<lparr>mr_custodyRoot = root, mr_newStore = b\<rparr> s = (r, s')"
  shows "\<forall>ns. ns = fs_nodes s' \<or> fs_disk s = Some [] \<and> survives s' ns \<longrightarrow>
    (in_custody env root owner bucket c ns \<or> in_custody env root owner bucket (c\<lparr>mc_Phase := ''committed''\<rparr>) ns) \<and>
    (\<forall>m. r = Inr m \<longrightarrow> in_custody env root owner bucket (c\<lparr>mc_Phase := ''committed''\<rparr>) ns \<and> \<not> mr_newStore m) \<and>
    (\<forall>p d n. resolve (fs_nodes s) root = Inr d \<and> p \<noteq> d @ [custody_json] \<and> node_at (fs_nodes s) p = Some n \<longrightarrow>
       node_at ns p = Some n)"
proof (intro allI impI)
  let ?ns = "fs_nodes s" and ?cc = "c\<lparr>mc_Phase := ''committed''\<rparr>"
  let ?rc = "marshal env ?cc"
  fix ns
  assume "ns = fs_nodes s' \<or> fs_disk s = Some [] \<and> survives s' ns"
  note out = commit_outcomes [OF assms(1,3) this]
  note kept = stage_keeps_custody [OF assms(1) _ _ assms(2)]
  have either: "in_custody env root owner bucket c ns \<or> in_custody env root owner bucket ?cc ns"
    using out(1) unfolding attempted_def
  proof (elim disjE exE conjE)
    fix d a
    assume "place ?ns root d a custody_json" "stage ?ns (d @ [a]) (d @ [custody_json]) ?rc ns"
    from kept [OF this] show ?thesis by (simp split: if_splits)
  qed (use assms(1) in simp)
  have frame: "node_at ns p = Some n" if "resolve ?ns root = Inr d" "p \<noteq> d @ [custody_json]" "node_at ?ns p = Some n" for p d n
    using out(1) that stage_frame [where p = p and n = n] by (auto simp: attempted_def place_def)
  have "in_custody env root owner bucket ?cc ns \<and> \<not> mr_newStore m" if m: "r = Inr m" for m
  proof -
    obtain d a where pl: "place ?ns root d a custody_json" "stage ?ns (d @ [a]) (d @ [custody_json]) ?rc ns"
      and t: "node_at ns (d @ [custody_json]) = Some (File ?rc)" and m: "\<not> mr_newStore m"
      using out(2) [OF m] by (auto simp: written_def)
    have "in_custody env root owner bucket ?cc ns"
    proof (cases "node_at ns (d @ [custody_json]) = node_at ?ns (d @ [custody_json])")
      case True
      have "resolve ?ns root = Inr d" "node_at ?ns d = Some Dir" using pl(1) by (auto simp: place_def)
      from read_child [OF this] True t have "read_file ?ns (root @ [custody_json]) = Inr ?rc" by simp
      with assms(1,2) have "c = ?cc" by (auto simp: in_custody_def)
      with kept [OF pl] True show ?thesis by simp
    next
      case False
      with kept [OF pl] show ?thesis by simp
    qed
    with m show ?thesis by simp
  qed
  with either frame show "(in_custody env root owner bucket c ns \<or> in_custody env root owner bucket ?cc ns) \<and>
    (\<forall>m. r = Inr m \<longrightarrow> in_custody env root owner bucket ?cc ns \<and> \<not> mr_newStore m) \<and>
    (\<forall>p d n. resolve ?ns root = Inr d \<and> p \<noteq> d @ [custody_json] \<and> node_at ?ns p = Some n \<longrightarrow> node_at ns p = Some n)" by blast
qed

lemma commit_atomic_witness:
  "\<exists>r s'. commitMinIOProvisioning sample_json \<lparr>mr_custodyRoot = [''h'', ''s''], mr_newStore = True\<rparr>
      \<lparr>fs_nodes = custody_fs, fs_faults = [None, None, None, None, None, Some (Msg ''disk full'')], fs_disk = Some []\<rparr> = (r, s') \<and>
    (\<forall>ns. survives s' ns \<longrightarrow> in_custody sample_json [''h'', ''s''] ''me'' ''b'' sample_custody ns \<or>
       in_custody sample_json [''h'', ''s''] ''me'' ''b'' (sample_custody\<lparr>mc_Phase := ''committed''\<rparr>) ns)"
proof -
  let ?s = "\<lparr>fs_nodes = custody_fs, fs_faults = [None, None, None, None, None, Some (Msg ''disk full'')], fs_disk = Some []\<rparr>"
  have c: "in_custody sample_json [''h'', ''s''] ''me'' ''b'' sample_custody (fs_nodes ?s)"
    using sample_in_custody by simp
  have j: "unmarshal sample_json (marshal sample_json (sample_custody\<lparr>mc_Phase := ''committed''\<rparr>)) =
      Inr (sample_custody\<lparr>mc_Phase := ''committed''\<rparr>)" by (simp add: sample_json_def)
  obtain r s' where e: "commitMinIOProvisioning sample_json \<lparr>mr_custodyRoot = [''h'', ''s''], mr_newStore = True\<rparr> ?s = (r, s')"
    by fastforce
  from commit_atomic [OF c j e] e show ?thesis by auto
qed

end
