(* ===== verification/Agent.thy ===== *)
theory Agent
  imports Custody
begin

text \<open>
  The agent's service (src/main.go) and the state of its Runtime (src/runtime.go): the
  configuration the agent resolves, the connection it hands to consumers, and the images it
  runs. Protocol messages are opaque or records of the fields the agent reads; what it asks
  codefly's core of them (\<open>resources\<close>) is the record \<open>Core\<close>.
\<close>

section \<open>Messages and the core library\<close>

record Endpoint =
  ep_Module :: string
  ep_Service :: string
  ep_Name :: string
  ep_Api :: string

record NetworkInstance =
  ni_Hostname :: string
  ni_Port :: nat
  ni_Address :: string
  ni_Access :: string

record NetworkMapping =
  nm_Endpoint :: Endpoint
  nm_Instances :: "NetworkInstance list"

record DockerImage =
  im_Name :: string
  im_Tag :: string
  im_Digest :: string

text \<open>\<open>'c\<close> is the type of a configuration message.\<close>

record 'c Core =
  GetConfigurationValue :: "'c \<Rightarrow> string \<Rightarrow> string \<Rightarrow> goerr + string"
  FindEndpointsByAPI :: "string \<Rightarrow> Endpoint list \<Rightarrow> Endpoint list"
  FilterNetworkInstance :: "NetworkInstance list \<Rightarrow> string \<Rightarrow> NetworkInstance option"
  FindNetworkMapping :: "NetworkMapping list \<Rightarrow> Endpoint \<Rightarrow> goerr + NetworkMapping"
  FindNetworkInstance :: "NetworkMapping list \<Rightarrow> Endpoint \<Rightarrow> string \<Rightarrow> goerr + NetworkInstance"
  IsExternalEndpoint :: "Endpoint \<Rightarrow> bool"
  IsSHA256Digest :: "string \<Rightarrow> bool"
  ContainerName :: "string \<Rightarrow> string"
  LabelCodeflyOwner :: string
  LabelCodeflyName :: string
  GRPC :: string
  TCP :: string
  NativeAccess :: string
  ContainerAccess :: string
  Wrapf :: "goerr \<Rightarrow> string \<Rightarrow> goerr"
  NewError :: "string \<Rightarrow> goerr"

section \<open>Settings and the resolved configuration\<close>

record Settings =
  st_Backend :: string
  st_Bucket :: string
  st_Region :: string
  st_Prefix :: string

record resolved =
  cf_backend :: string
  cf_bucket :: string
  cf_region :: string
  cf_prefix :: string
  cf_endpoint :: string
  cf_accessKey :: string
  cf_secretKey :: string
  cf_gcsCredentialsFile :: string
  cf_azureAccount :: string
  cf_authToken :: string

definition withDefault :: "string \<Rightarrow> string \<Rightarrow> string" where
  "withDefault v dflt = (if v = [] then dflt else v)"

text \<open>The loop of \<open>LoadConfiguration\<close> visits distinct keys with distinct destinations, so its
  order is immaterial: each field keeps what it has unless its key is configured.\<close>

definition configured :: "'c Core \<Rightarrow> 'c option \<Rightarrow> string \<Rightarrow> string \<Rightarrow> string" where
  "configured core conf key dst = (case conf of
     None \<Rightarrow> dst
   | Some c \<Rightarrow> (case GetConfigurationValue core c ''object-storage'' key of
        Inr v \<Rightarrow> withDefault v dst
      | Inl err \<Rightarrow> dst))"

definition LoadConfiguration :: "'c Core \<Rightarrow> Settings \<Rightarrow> 'c option \<Rightarrow> resolved" where
  "LoadConfiguration core st conf = (let get = configured core conf in
     \<lparr>cf_backend = get ''SOS_BACKEND'' (st_Backend st),
      cf_bucket = get ''SOS_BUCKET'' (withDefault (st_Bucket st) ''documents''),
      cf_region = get ''SOS_REGION'' (withDefault (st_Region st) ''us-east-1''),
      cf_prefix = trim_space (get ''SOS_PREFIX'' (st_Prefix st)),
      cf_endpoint = trim_space (get ''SOS_ENDPOINT'' []),
      cf_accessKey = get ''SOS_ACCESS_KEY'' [],
      cf_secretKey = get ''SOS_SECRET_KEY'' [],
      cf_gcsCredentialsFile = trim_space (get ''SOS_GCS_CREDENTIALS_FILE'' []),
      cf_azureAccount = get ''SOS_AZURE_ACCOUNT'' [],
      cf_authToken = trim_space (get ''SOS_AUTH_TOKEN'' [])\<rparr>)"

lemma configured_nonempty: "dst \<noteq> [] \<Longrightarrow> configured core conf key dst \<noteq> []"
  by (auto simp: configured_def withDefault_def split: option.split sum.split)

lemma LoadConfiguration_names:
  "cf_bucket (LoadConfiguration core st conf) \<noteq> []" "cf_region (LoadConfiguration core st conf) \<noteq> []"
  by (auto simp: LoadConfiguration_def Let_def withDefault_def intro!: configured_nonempty)

section \<open>The service\<close>

record tenantStore =
  ts_mapping :: NetworkMapping
  ts_accessKey :: string
  ts_secret :: string

record Service =
  sv_Settings :: Settings
  sv_conf :: resolved
  sv_gatewayToken :: string
  sv_GrpcEndpoint :: Endpoint
  sv_TenantStoreEndpoint :: "Endpoint option"
  sv_tenantStore :: "tenantStore option"
  sv_Unique :: string
  sv_UniqueWithWorkspace :: string
  sv_Identity :: "string \<times> string \<times> string"
  sv_NamingScope :: string

abbreviation gatewayContainerPort :: nat where "gatewayContainerPort \<equiv> 9464"
abbreviation tenantStoreEndpointName :: string where "tenantStoreEndpointName \<equiv> ''minio''"

definition resolveServingGRPCEndpoint :: "'c Core \<Rightarrow> Endpoint list \<Rightarrow> goerr + Endpoint" where
  "resolveServingGRPCEndpoint core endpoints = (case FindEndpointsByAPI core (GRPC core) endpoints of
     [] \<Rightarrow> Inl (Msg ''no grpc endpoint found'')
   | e # _ \<Rightarrow> Inr e)"

definition resolveTenantStoreEndpoint :: "'c Core \<Rightarrow> Endpoint list \<Rightarrow> Endpoint option" where
  "resolveTenantStoreEndpoint core endpoints =
     find (\<lambda>e. ep_Name e = tenantStoreEndpointName) (FindEndpointsByAPI core (TCP core) endpoints)"

text \<open>\<open>Load\<close>'s \<open>ResolveEndpoints\<close> in Runtime and Builder; only the Runtime wraps the error.\<close>

definition resolve_endpoints ::
  "(goerr \<Rightarrow> goerr) \<Rightarrow> 'c Core \<Rightarrow> Endpoint list \<Rightarrow> Service \<Rightarrow> goerr option \<times> Service" where
  "resolve_endpoints wrap core endpoints s = (case resolveServingGRPCEndpoint core endpoints of
     Inl err \<Rightarrow> (Some (wrap err), s)
   | Inr e \<Rightarrow> (None, s\<lparr>sv_GrpcEndpoint := e, sv_TenantStoreEndpoint := resolveTenantStoreEndpoint core endpoints\<rparr>))"

section \<open>Images\<close>

record minioImageLock =
  il_Name :: string
  il_Digest :: string
  il_Release :: string

text \<open>\<open>decode\<close> is \<open>json.Unmarshal\<close> into the lock.\<close>

definition parseMinioImageLock ::
  "'c Core \<Rightarrow> (string \<Rightarrow> goerr + minioImageLock) \<Rightarrow> string \<Rightarrow> goerr + DockerImage" where
  "parseMinioImageLock core decode content = (case decode content of
     Inl err \<Rightarrow> Inl (errorf ''parse minio image lock'' err)
   | Inr lock \<Rightarrow>
      if il_Name lock = [] then Inl (Msg ''minio image name is required'')
      else if \<not> IsSHA256Digest core (il_Digest lock)
      then Inl (Msg (''minio image digest '' @ quoted (il_Digest lock) @ '' must be a sha256 digest''))
      else if \<not> has_prefix (il_Release lock) ''RELEASE.''
      then Inl (Msg (''minio image release '' @ quoted (il_Release lock) @ '' must name an upstream RELEASE tag''))
      else Inr \<lparr>im_Name = il_Name lock, im_Tag = il_Release lock, im_Digest = il_Digest lock\<rparr>)"

definition effectiveGatewayImage :: "(string \<Rightarrow> string) \<Rightarrow> DockerImage \<Rightarrow> DockerImage \<times> bool" where
  "effectiveGatewayImage osenv gatewayImage = (let override = osenv ''SOS_GATEWAY_IMAGE'' in
     if override \<noteq> [] then (\<lparr>im_Name = override, im_Tag = [], im_Digest = []\<rparr>, True) else (gatewayImage, False))"

section \<open>The connection handed to consumers\<close>

record ConfigurationValue =
  cv_Key :: string
  cv_Value :: string
  cv_Secret :: bool

text \<open>The message: \<open>'r\<close> is the runtime context core derives from an instance.\<close>

record 'r Connection =
  cn_Origin :: string
  cn_RuntimeContext :: 'r
  cn_Values :: "ConfigurationValue list"

definition createConnectionString :: "string \<Rightarrow> string" where
  "createConnectionString address = ''grpc://'' @ address"

definition plain_value :: "string \<Rightarrow> string \<Rightarrow> ConfigurationValue" where
  "plain_value k v = \<lparr>cv_Key = k, cv_Value = v, cv_Secret = False\<rparr>"

definition secret_value :: "string \<Rightarrow> string \<Rightarrow> ConfigurationValue" where
  "secret_value k v = \<lparr>cv_Key = k, cv_Value = v, cv_Secret = True\<rparr>"

definition CreateConnectionConfiguration ::
  "'c Core \<Rightarrow> (NetworkInstance \<Rightarrow> 'r) \<Rightarrow> 'c option \<Rightarrow> NetworkInstance \<Rightarrow> Service \<Rightarrow> (goerr + 'r Connection) \<times> Service" where
  "CreateConnectionConfiguration core context_of conf inst s0 =
     (let s = s0\<lparr>sv_conf := LoadConfiguration core (sv_Settings s0) conf\<rparr>;
          values = [plain_value ''connection'' (createConnectionString (ni_Address inst)),
                    plain_value ''endpoint'' (ni_Address inst)];
          values = (if sv_gatewayToken s \<noteq> [] then values @ [secret_value ''token'' (sv_gatewayToken s)] else values);
          answer = (\<lambda>vs. \<lparr>cn_Origin = sv_Unique s, cn_RuntimeContext = context_of inst, cn_Values = vs\<rparr>)
      in case sv_tenantStore s of
        None \<Rightarrow> (Inr (answer values), s)
      | Some ts \<Rightarrow>
         (case FilterNetworkInstance core (nm_Instances (ts_mapping ts)) (ni_Access inst) of
            None \<Rightarrow> (Inl (NewError core (''tenant store endpoint has no instance for access '' @ ni_Access inst)), s)
          | Some store \<Rightarrow> (Inr (answer (values @
              [plain_value ''minio_endpoint'' (''http://'' @ ni_Address store),
               plain_value ''minio_access_key'' (ts_accessKey ts),
               secret_value ''minio_secret_key'' (ts_secret ts)])), s)))"

section \<open>The Runtime's state\<close>

text \<open>An environment reference is the runner core handed out for it (\<open>containerEnvironment\<close>), by its
  number: two runners of one name are two, and each acts on the container it has acquired.\<close>

type_synonym runner = nat

record Runtime =
  rt_Service :: Service
  rt_NetworkMappings :: "NetworkMapping list"
  rt_minioEnv :: "runner option"
  rt_gatewayEnv :: "runner option"
  rt_minioHostPort :: nat
  rt_minioNetwork :: string
  rt_minioPassword :: string
  rt_minio :: MinioRuntime
  rt_minioContainerUser :: string
  rt_gcsCredentialsHostFile :: "path option"
  rt_composedEndpoints :: "string list"

abbreviation rt_conf :: "Runtime \<Rightarrow> resolved" where "rt_conf s \<equiv> sv_conf (rt_Service s)"

text \<open>The agent runs on a host: its files, and \<open>'d\<close>, everything else it drives there.\<close>

type_synonym 'd host = "FS \<times> 'd"

record 'd World =
  w_host :: "'d host"
  w_rt :: Runtime

definition on_fs :: "'a io \<Rightarrow> ('d host, 'a) act" where
  "on_fs m h = (let (r, fs) = m (fst h) in (r, fs, snd h))"

definition on_host :: "('d host, 'a) act \<Rightarrow> ('d World, 'a) act" where
  "on_host m w = (let (r, h) = m (w_host w) in (r, w\<lparr>w_host := h\<rparr>))"

definition get_rt :: "('d World, Runtime) act" where "get_rt w = (Inr (w_rt w), w)"

definition modify_rt :: "(Runtime \<Rightarrow> Runtime) \<Rightarrow> ('d World, unit) act" where
  "modify_rt f w = (Inr (), w\<lparr>w_rt := f (w_rt w)\<rparr>)"

definition lift_sum :: "goerr + 'a \<Rightarrow> ('s, 'a) act" where
  "lift_sum r s = (r, s)"

section \<open>Triples over the host and the Runtime\<close>

lemma triple_get_rt [steps]: "triple P get_rt (\<lambda>s w. P w \<and> s = w_rt w) E"
  by (simp add: triple_def get_rt_def)

lemma triple_modify_rt [steps]: "triple (\<lambda>w. P (w\<lparr>w_rt := f (w_rt w)\<rparr>)) (modify_rt f) (\<lambda>_. P) E"
  by (simp add: triple_def modify_rt_def)

text \<open>A call on the host leaves the Runtime alone.\<close>

lemma triple_host:
  "triple P m Q E \<Longrightarrow> triple (\<lambda>w. P (w_host w) \<and> w_rt w = s) (on_host m)
     (\<lambda>a w. Q a (w_host w) \<and> w_rt w = s) (\<lambda>e w. E e (w_host w) \<and> w_rt w = s)"
  unfolding triple_def on_host_def by (fastforce split: sum.splits prod.splits)

text \<open>A call on the files leaves everything else alone.\<close>

abbreviation h_nodes :: "'d host \<Rightarrow> nodes" where "h_nodes h \<equiv> fs_nodes (fst h)"

lemma triple_fs:
  assumes "hoare P m Q E"
  shows "triple (\<lambda>h. P (h_nodes h) \<and> snd h = d) (on_fs m)
     (\<lambda>a h. Q a (h_nodes h) \<and> snd h = d) (\<lambda>e h. E e (h_nodes h) \<and> snd h = d)"
proof (rule tripleI)
  fix s r s'
  assume p: "P (h_nodes s) \<and> snd s = d" and m: "on_fs m s = (r, s')"
  obtain r1 fs where f: "m (fst s) = (r1, fs)" by fastforce
  with m have "r = r1" "s' = (fs, snd s)" by (auto simp: on_fs_def)
  with hoareD [OF assms conjunct1 [OF p] f] p
  show "case r of Inr a \<Rightarrow> Q a (h_nodes s') \<and> snd s' = d | Inl e \<Rightarrow> E e (h_nodes s') \<and> snd s' = d"
    by (auto split: sum.splits)
qed

text \<open>With a known Runtime, reading and updating it.\<close>

lemma triple_with_rt:
  "triple (\<lambda>w. P w \<and> w_rt w = s) (f s) Q E \<Longrightarrow> triple (\<lambda>w. P w \<and> w_rt w = s) (andthen get_rt f) Q E"
  by (simp add: triple_def andthen_def handle_def get_rt_def)

lemma triple_set_rt:
  "triple (\<lambda>w. P (w_host w) \<and> w_rt w = s) (modify_rt f) (\<lambda>_ w. P (w_host w) \<and> w_rt w = f s) E"
  by (simp add: triple_def modify_rt_def)

section \<open>Frames\<close>

text \<open>What \<open>f\<close> reads of the state is not changed, whatever the outcome.\<close>

definition frame :: "('s \<Rightarrow> 'o) \<Rightarrow> ('s, 'a) act \<Rightarrow> bool" where
  "frame f m \<longleftrightarrow> (\<forall>s. f (snd (m s)) = f s)"

named_theorems frames \<open>rules for frames\<close>

lemma frameD: "frame f m \<Longrightarrow> m s = (r, s') \<Longrightarrow> f s' = f s"
  by (metis frame_def snd_conv)

lemma frameI: "(\<And>s r s'. m s = (r, s') \<Longrightarrow> f s' = f s) \<Longrightarrow> frame f m"
  unfolding frame_def by (metis prod.collapse)

lemma frame_ret [frames]: "frame f (ret a)"
  by (simp add: frame_def ret_def)

lemma frame_fail [frames]: "frame f (fail e)"
  by (simp add: frame_def fail_def)

lemma frame_handle [frames]: "frame f m \<Longrightarrow> (\<And>e. frame f (h e)) \<Longrightarrow> (\<And>a. frame f (g a)) \<Longrightarrow> frame f (handle m h g)"
  by (rule frameI, erule handle_cases) (metis frameD)+

lemma frame_andthen [frames]: "frame f m \<Longrightarrow> (\<And>a. frame f (g a)) \<Longrightarrow> frame f (andthen m g)"
  unfolding andthen_def by (intro frame_handle frame_fail)

lemma frame_deferring [frames]: "frame f m \<Longrightarrow> frame f c \<Longrightarrow> frame f (deferring m c)"
  by (simp add: frame_def deferring_def case_prod_beta Let_def)

lemma frame_if [frames]: "frame f m \<Longrightarrow> frame f n \<Longrightarrow> frame f (if b then m else n)"
  by simp

lemma frame_sum [frames]: "(\<And>e. frame f (m e)) \<Longrightarrow> (\<And>a. frame f (n a)) \<Longrightarrow> frame f (case r of Inl e \<Rightarrow> m e | Inr a \<Rightarrow> n a)"
  by (cases r) simp_all

lemma frame_option [frames]: "frame f m \<Longrightarrow> (\<And>a. frame f (n a)) \<Longrightarrow> frame f (case r of None \<Rightarrow> m | Some a \<Rightarrow> n a)"
  by (cases r) simp_all

lemma frame_prod [frames]: "(\<And>a b. frame f (m a b)) \<Longrightarrow> frame f (case r of (a, b) \<Rightarrow> m a b)"
  by (cases r) simp

lemma frame_let [frames]: "(\<And>a. frame f (m a)) \<Longrightarrow> frame f (let a = x in m a)"
  by simp

lemma frame_fs [frames]: "frame (\<lambda>h. g (snd h)) (on_fs m)"
  by (simp add: frame_def on_fs_def split: prod.split)

lemma frame_host [frames]: "frame g m \<Longrightarrow> frame (\<lambda>w. g (w_host w)) (on_host m)"
  unfolding frame_def on_host_def by (simp add: case_prod_beta Let_def del: split_paired_All)

lemma frame_host_rt [frames]: "frame (\<lambda>w. g (w_rt w)) (on_host m)"
  by (simp add: frame_def on_host_def split: prod.split)

lemma frame_get_rt [frames]: "frame f get_rt"
  by (simp add: frame_def get_rt_def)

lemma frame_modify_host [frames]: "frame (\<lambda>w. g (w_host w)) (modify_rt u)"
  by (simp add: frame_def modify_rt_def)

section \<open>Secrets stay secret\<close>

text \<open>What a reader without access to secret values sees of a connection.\<close>

definition public_view :: "'r Connection \<Rightarrow> (string \<times> string option) list" where
  "public_view c = map (\<lambda>v. (cv_Key v, if cv_Secret v then None else Some (cv_Value v))) (cn_Values c)"

definition same_but_secrets :: "Service \<Rightarrow> Service \<Rightarrow> bool" where
  "same_but_secrets s t \<longleftrightarrow> (\<exists>token secret.
     t = s\<lparr>sv_gatewayToken := token, sv_tenantStore := map_option (ts_secret_update (\<lambda>_. secret)) (sv_tenantStore s)\<rparr> \<and>
     (sv_gatewayToken s = []) = (token = []))"

text \<open>C23: the bearer token and the local store's secret key reach consumers only as values flagged
  secret: two services that differ in nothing but those two answer connections that read the same
  without the secret values, and refuse the same instances.\<close>

theorem connection_secrets:
  assumes "same_but_secrets s t"
  shows "map_sum id public_view (fst (CreateConnectionConfiguration core ctx conf inst s)) =
    map_sum id public_view (fst (CreateConnectionConfiguration core ctx conf inst t))"
proof -
  obtain token secret where t: "t = s\<lparr>sv_gatewayToken := token,
      sv_tenantStore := map_option (ts_secret_update (\<lambda>_. secret)) (sv_tenantStore s)\<rparr>"
    "(sv_gatewayToken s = []) = (token = [])" using assms by (auto simp: same_but_secrets_def)
  show ?thesis
    by (cases "sv_tenantStore s")
      (auto simp: t CreateConnectionConfiguration_def Let_def public_view_def plain_value_def secret_value_def
        split: option.split)
qed

section \<open>A sample service\<close>

text \<open>A configuration message is its list of keys and values; mappings are searched in order.\<close>

definition sample_core :: "(string \<times> string) list Core" where
  "sample_core = \<lparr>
     GetConfigurationValue = (\<lambda>c n k. case map_of c k of None \<Rightarrow> Inl (Msg ''no value'') | Some v \<Rightarrow> Inr v),
     FindEndpointsByAPI = (\<lambda>api. filter (\<lambda>e. ep_Api e = api)),
     FilterNetworkInstance = (\<lambda>is a. find (\<lambda>i. ni_Access i = a) is),
     FindNetworkMapping = (\<lambda>ms e. case find (\<lambda>m. nm_Endpoint m = e) ms of None \<Rightarrow> Inl (Msg ''no mapping'') | Some m \<Rightarrow> Inr m),
     FindNetworkInstance = (\<lambda>ms e a. case find (\<lambda>i. ni_Access i = a) (concat (map nm_Instances (filter (\<lambda>m. nm_Endpoint m = e) ms))) of
        None \<Rightarrow> Inl (Msg ''no instance'') | Some i \<Rightarrow> Inr i),
     IsExternalEndpoint = (\<lambda>e. False),
     IsSHA256Digest = (\<lambda>d. has_prefix d ''sha256:'' \<and> length d = 71),
     ContainerName = (\<lambda>n. ''codefly-'' @ n), LabelCodeflyOwner = ''owner'', LabelCodeflyName = ''name'', GRPC = ''grpc'', TCP = ''tcp'',
     NativeAccess = ''native'', ContainerAccess = ''container'',
     Wrapf = (\<lambda>e m. errorf m e), NewError = Msg\<rparr>"

definition sample_endpoint :: Endpoint where
  "sample_endpoint = \<lparr>ep_Module = ''m'', ep_Service = ''s'', ep_Name = ''grpc'', ep_Api = ''grpc''\<rparr>"

definition sample_instance :: NetworkInstance where
  "sample_instance = \<lparr>ni_Hostname = ''localhost'', ni_Port = 9464, ni_Address = ''localhost:9464'', ni_Access = ''native''\<rparr>"

definition sample_mapping :: NetworkMapping where
  "sample_mapping = \<lparr>nm_Endpoint = sample_endpoint, nm_Instances = [sample_instance]\<rparr>"

definition sample_service :: Service where
  "sample_service = \<lparr>
     sv_Settings = \<lparr>st_Backend = [], st_Bucket = [], st_Region = [], st_Prefix = ''app''\<rparr>,
     sv_conf = \<lparr>cf_backend = [], cf_bucket = [], cf_region = [], cf_prefix = [], cf_endpoint = [], cf_accessKey = [],
        cf_secretKey = [], cf_gcsCredentialsFile = [], cf_azureAccount = [], cf_authToken = []\<rparr>,
     sv_gatewayToken = ''t1'', sv_GrpcEndpoint = sample_endpoint, sv_TenantStoreEndpoint = None,
     sv_tenantStore = Some \<lparr>ts_mapping = sample_mapping, ts_accessKey = ''minioadmin'', ts_secret = ''k1''\<rparr>,
     sv_Unique = ''m/s'', sv_UniqueWithWorkspace = ''w-m-s'', sv_Identity = (''w'', ''m'', ''s''), sv_NamingScope = []\<rparr>"

definition sample_runtime :: Runtime where
  "sample_runtime = \<lparr>rt_Service = sample_service\<lparr>sv_tenantStore := None\<rparr>, rt_NetworkMappings = [sample_mapping],
     rt_minioEnv = None, rt_gatewayEnv = None, rt_minioHostPort = 0, rt_minioNetwork = [], rt_minioPassword = [],
     rt_minio = \<lparr>mr_custodyRoot = [], mr_newStore = False\<rparr>, rt_minioContainerUser = [],
     rt_gcsCredentialsHostFile = None, rt_composedEndpoints = []\<rparr>"

lemma connection_secrets_witness:
  "\<forall>conf. map_sum id public_view (fst (CreateConnectionConfiguration sample_core ni_Access conf sample_instance sample_service)) =
    map_sum id public_view (fst (CreateConnectionConfiguration sample_core ni_Access conf sample_instance
      (sample_service\<lparr>sv_gatewayToken := ''t2'', sv_tenantStore := Some \<lparr>ts_mapping = sample_mapping, ts_accessKey = ''minioadmin'', ts_secret = ''k2''\<rparr>\<rparr>)))"
proof -
  have "same_but_secrets sample_service (sample_service\<lparr>sv_gatewayToken := ''t2'',
      sv_tenantStore := Some \<lparr>ts_mapping = sample_mapping, ts_accessKey = ''minioadmin'', ts_secret = ''k2''\<rparr>\<rparr>)"
    unfolding same_but_secrets_def
    by (rule exI [of _ "''t2''"], rule exI [of _ "''k2''"]) (simp add: sample_service_def)
  then show ?thesis by (intro allI connection_secrets)
qed

end
