(* ===== verification/Network.thy ===== *)
theory Network
  imports Agent
begin

text \<open>
  The Docker network the gateway and MinIO share (src/minio_network.go). The Docker API is
  the record \<open>Networks\<close>; the locale \<open>docker_networks\<close> states what its calls promise,
  and a small engine is an instance. Every call of the engine may fail before it acts.
\<close>

section \<open>The Docker calls\<close>

record 'd Networks =
  nw_Open :: "('d host, unit) act"
  nw_Close :: "('d host, unit) act"
  nw_Inspect :: "string \<Rightarrow> ('d host, string list) act"
  nw_Create :: "string \<Rightarrow> string \<Rightarrow> (string \<times> string) list \<Rightarrow> ('d host, unit) act"
  nw_Connect :: "string \<Rightarrow> string \<Rightarrow> string list \<Rightarrow> ('d host, unit) act"
  nw_Remove :: "string \<Rightarrow> ('d host, unit) act"

abbreviation IsNotFound :: "goerr \<Rightarrow> bool" where "IsNotFound e \<equiv> has_tag e DockerNotFound"

abbreviation minioNetworkAlias :: string where "minioNetworkAlias \<equiv> ''minio''"

section \<open>The service's network\<close>

definition minioNetworkName :: "'c Core \<Rightarrow> Service \<Rightarrow> string" where
  "minioNetworkName core s = ContainerName core (sv_UniqueWithWorkspace s @ ''-network'')"

definition ensureNetwork :: "'c Core \<Rightarrow> 'd Networks \<Rightarrow> string \<Rightarrow> ('d host, unit) act" where
  "ensureNetwork core N name =
     handle (nw_Inspect N name)
       (\<lambda>err. if \<not> IsNotFound err then fail (errorf (''inspect network '' @ name) err)
         else handle (nw_Create N name ''bridge'' [(LabelCodeflyOwner core, ''true''), (LabelCodeflyName core, name)])
           (\<lambda>createErr. handle (nw_Inspect N name)
             (\<lambda>_. fail (errorf (''create network '' @ name) createErr))
             (\<lambda>_. ret ()))
           ret)
       (\<lambda>_. ret ())"

definition joinMinIONetwork :: "'c Core \<Rightarrow> 'd Networks \<Rightarrow> string \<Rightarrow> string list \<Rightarrow> ('d World, unit) act" where
  "joinMinIONetwork core N containerID aliases =
     andthen (on_host (nw_Open N)) (\<lambda>_.
     deferring
       (andthen get_rt (\<lambda>s. let name = minioNetworkName core (rt_Service s) in
        andthen (on_host (ensureNetwork core N name)) (\<lambda>_.
        andthen (modify_rt (rt_minioNetwork_update (\<lambda>_. name))) (\<lambda>_.
        handle (on_host (nw_Connect N name containerID aliases))
          (\<lambda>connectErr. let failed = fail (errorf (''attach container '' @ containerID @ '' to network '' @ name) connectErr) in
             handle (on_host (nw_Inspect N name)) (\<lambda>_. failed)
               (\<lambda>containers. if containerID \<in> set containers then ret () else failed))
          ret))))
       (on_host (nw_Close N)))"

definition removeMinIONetwork :: "'d Networks \<Rightarrow> ('d World, unit) act" where
  "removeMinIONetwork N =
     andthen get_rt (\<lambda>s. let name = rt_minioNetwork s; forget = modify_rt (rt_minioNetwork_update (\<lambda>_. [])) in
       if name = [] then ret ()
       else andthen (on_host (nw_Open N)) (\<lambda>_.
         deferring
           (handle (on_host (nw_Remove N name))
             (\<lambda>removeErr. if IsNotFound removeErr then forget
               else handle (on_host (nw_Inspect N name))
                 (\<lambda>err. if IsNotFound err then forget
                    else fail (errorf (''remove network '' @ name) (errors_join [removeErr, err])))
                 (\<lambda>containers. if containers \<noteq> [] then forget
                    else fail (errorf (''remove network '' @ name) (errors_join [removeErr]))))
             (\<lambda>_. forget))
           (on_host (nw_Close N))))"

section \<open>What Docker promises\<close>

text \<open>
  \<open>nets\<close> reads the containers attached to each network. No call takes a container off a network
  that has some, or touches files; the rest is what each answer says of the network it names.
\<close>

definition spares :: "('d \<Rightarrow> string \<Rightarrow> string set option) \<Rightarrow> 'd \<Rightarrow> 'd \<Rightarrow> bool" where
  "spares nets d d' \<longleftrightarrow> (\<forall>m C. nets d m = Some C \<and> C \<noteq> {} \<longrightarrow> (\<exists>C'. nets d' m = Some C' \<and> C \<subseteq> C'))"

definition attached :: "('d \<Rightarrow> string \<Rightarrow> string set option) \<Rightarrow> 'd \<Rightarrow> string \<Rightarrow> string \<Rightarrow> bool" where
  "attached nets d n c \<longleftrightarrow> (\<exists>C. nets d n = Some C \<and> c \<in> C)"

text \<open>A network that is absent or that others are on.\<close>

definition released :: "('d \<Rightarrow> string \<Rightarrow> string set option) \<Rightarrow> 'd \<Rightarrow> string \<Rightarrow> bool" where
  "released nets d n \<longleftrightarrow> (case nets d n of None \<Rightarrow> True | Some C \<Rightarrow> C \<noteq> {})"

locale docker_networks =
  fixes N :: "'d Networks" and nets :: "'d \<Rightarrow> string \<Rightarrow> string set option"
  assumes nw_open: "\<And>r. nw_Open N (fs, d) = (r, fs', d') \<Longrightarrow> fs' = fs \<and> nets d' = nets d"
    and nw_close: "\<And>r. nw_Close N (fs, d) = (r, fs', d') \<Longrightarrow> fs' = fs \<and> nets d' = nets d"
    and nw_inspect: "\<And>r. nw_Inspect N n (fs, d) = (r, fs', d') \<Longrightarrow> fs' = fs \<and> nets d' = nets d \<and>
      (case r of Inr cs \<Rightarrow> nets d n = Some (set cs) | Inl e \<Rightarrow> IsNotFound e \<longrightarrow> nets d n = None)"
    and nw_create: "\<And>r. nw_Create N n driver labels (fs, d) = (r, fs', d') \<Longrightarrow> fs' = fs \<and> spares nets d d'"
    and nw_connect: "\<And>r. nw_Connect N n c al (fs, d) = (r, fs', d') \<Longrightarrow> fs' = fs \<and> spares nets d d' \<and>
      (\<forall>u. r = Inr u \<longrightarrow> attached nets d' n c)"
    and nw_remove: "\<And>r. nw_Remove N n (fs, d) = (r, fs', d') \<Longrightarrow> fs' = fs \<and> spares nets d d' \<and>
      (case r of Inr u \<Rightarrow> nets d' n = None | Inl e \<Rightarrow> IsNotFound e \<longrightarrow> nets d' n = None)"

lemma spares_refl [simp, intro]: "nets d' = nets d \<Longrightarrow> spares nets d d'"
  by (auto simp: spares_def)

lemma spares_trans: "spares nets a b \<Longrightarrow> spares nets b c \<Longrightarrow> spares nets a c"
  unfolding spares_def by (metis bot.extremum_uniqueI order_trans)

section \<open>Joining and leaving\<close>

context docker_networks
begin

text \<open>From a host \<open>d0\<close>: nobody has been taken off a network since, and no file has changed.\<close>

definition since :: "'d host \<Rightarrow> 'd host \<Rightarrow> bool" where
  "since h0 h \<longleftrightarrow> fst h = fst h0 \<and> spares nets (snd h0) (snd h)"

lemma since_refl [simp]: "since h h"
  by (simp add: since_def spares_refl)

lemma host_quiet:
  assumes "\<And>r fs d fs' d'. m (fs, d) = (r, fs', d') \<Longrightarrow> fs' = fs \<and> nets d' = nets d"
  shows "triple (\<lambda>h. P (nets (snd h)) \<and> since h0 h) m (\<lambda>_ h. P (nets (snd h)) \<and> since h0 h) (\<lambda>_ h. P (nets (snd h)) \<and> since h0 h)"
proof (rule tripleI)
  fix s r s'
  assume a: "P (nets (snd s)) \<and> since h0 s" "m s = (r, s')"
  then have "fst s' = fst s \<and> nets (snd s') = nets (snd s)"
    using assms [of "fst s" "snd s" r "fst s'" "snd s'"] by simp
  with a(1) show "case r of Inr x \<Rightarrow> P (nets (snd s')) \<and> since h0 s' | Inl e \<Rightarrow> P (nets (snd s')) \<and> since h0 s'"
    by (auto simp: since_def spares_def split: sum.split)
qed

lemmas host_open = host_quiet [of "nw_Open N", OF nw_open]
  and host_close = host_quiet [of "nw_Close N", OF nw_close]

lemma host_inspect: "triple (since h0) (nw_Inspect N n)
    (\<lambda>cs h. since h0 h \<and> nets (snd h) n = Some (set cs)) (\<lambda>e h. since h0 h \<and> (IsNotFound e \<longrightarrow> nets (snd h) n = None))"
proof (rule tripleI)
  fix s r s'
  assume a: "since h0 s" "nw_Inspect N n s = (r, s')"
  then have "fst s' = fst s \<and> nets (snd s') = nets (snd s) \<and>
      (case r of Inr cs \<Rightarrow> nets (snd s) n = Some (set cs) | Inl e \<Rightarrow> IsNotFound e \<longrightarrow> nets (snd s) n = None)"
    using nw_inspect [of n "fst s" "snd s" r "fst s'" "snd s'"] by simp
  with a(1) show "case r of Inr cs \<Rightarrow> since h0 s' \<and> nets (snd s') n = Some (set cs)
      | Inl e \<Rightarrow> since h0 s' \<and> (IsNotFound e \<longrightarrow> nets (snd s') n = None)"
    by (auto simp: since_def spares_def split: sum.splits)
qed

lemma host_create: "triple (since h0) (nw_Create N n dr ls) (\<lambda>_. since h0) (\<lambda>_. since h0)"
proof (rule tripleI)
  fix s r s'
  assume a: "since h0 s" "nw_Create N n dr ls s = (r, s')"
  then have "fst s' = fst s \<and> spares nets (snd s) (snd s')"
    using nw_create [of n dr ls "fst s" "snd s" r "fst s'" "snd s'"] by simp
  with a(1) show "case r of Inr u \<Rightarrow> since h0 s' | Inl e \<Rightarrow> since h0 s'"
    by (auto simp: since_def split: sum.splits intro: spares_trans)
qed

lemma host_connect: "triple (since h0) (nw_Connect N n c al)
    (\<lambda>_ h. since h0 h \<and> attached nets (snd h) n c) (\<lambda>_. since h0)"
proof (rule tripleI)
  fix s r s'
  assume a: "since h0 s" "nw_Connect N n c al s = (r, s')"
  then have "fst s' = fst s \<and> spares nets (snd s) (snd s') \<and> (\<forall>u. r = Inr u \<longrightarrow> attached nets (snd s') n c)"
    using nw_connect [of n c al "fst s" "snd s" r "fst s'" "snd s'"] by simp
  with a(1) show "case r of Inr u \<Rightarrow> since h0 s' \<and> attached nets (snd s') n c | Inl e \<Rightarrow> since h0 s'"
    by (auto simp: since_def split: sum.splits intro: spares_trans)
qed

lemma host_remove: "triple (since h0) (nw_Remove N n)
    (\<lambda>_ h. since h0 h \<and> nets (snd h) n = None) (\<lambda>e h. since h0 h \<and> (IsNotFound e \<longrightarrow> nets (snd h) n = None))"
proof (rule tripleI)
  fix s r s'
  assume a: "since h0 s" "nw_Remove N n s = (r, s')"
  then have "fst s' = fst s \<and> spares nets (snd s) (snd s') \<and>
      (case r of Inr u \<Rightarrow> nets (snd s') n = None | Inl e \<Rightarrow> IsNotFound e \<longrightarrow> nets (snd s') n = None)"
    using nw_remove [of n "fst s" "snd s" r "fst s'" "snd s'"] by simp
  with a(1) show "case r of Inr u \<Rightarrow> since h0 s' \<and> nets (snd s') n = None
      | Inl e \<Rightarrow> since h0 s' \<and> (IsNotFound e \<longrightarrow> nets (snd s') n = None)"
    by (auto simp: since_def split: sum.splits intro: spares_trans)
qed

lemma ensure_since: "triple (since h0) (ensureNetwork core N n) (\<lambda>_. since h0) (\<lambda>_. since h0)"
  unfolding ensureNetwork_def
proof (rule triple_handle [OF host_inspect], goal_cases)
  case (1 e)
  have "triple (since h0) (handle (nw_Create N n ''bridge'' ls)
      (\<lambda>createErr. handle (nw_Inspect N n) (\<lambda>_. fail (f createErr)) (\<lambda>_. ret ())) ret) (\<lambda>_. since h0) (\<lambda>_. since h0)" for ls f
    by (rule triple_handle [OF host_create triple_handle [OF host_inspect]])
      (auto simp: triple_def fail_def ret_def)
  then show ?case by (auto simp: triple_def fail_def)
next
  case (2 a)
  show ?case by (auto simp: triple_def ret_def)
qed

text \<open>The same over the agent's state, whose Runtime is \<open>s\<close>.\<close>

abbreviation at_rt :: "'d World \<Rightarrow> Runtime \<Rightarrow> 'd World \<Rightarrow> bool" where
  "at_rt w0 s w \<equiv> since (w_host w0) (w_host w) \<and> w_rt w = s"

lemmas world_inspect = triple_host [OF host_inspect]
  and world_connect = triple_host [OF host_connect]
  and world_remove = triple_host [OF host_remove]
  and world_ensure = triple_host [OF ensure_since]

lemma world_open: "triple (at_rt w0 s) (on_host (nw_Open N)) (\<lambda>_. at_rt w0 s) (\<lambda>_. at_rt w0 s)"
  using triple_host [OF host_open [where P = "\<lambda>_. True"]] by simp

lemma world_close:
  "triple (\<lambda>w. since (w_host w0) (w_host w) \<and> B (nets (snd (w_host w))) (w_rt w)) (on_host (nw_Close N))
    (\<lambda>_ w. since (w_host w0) (w_host w) \<and> B (nets (snd (w_host w))) (w_rt w))
    (\<lambda>_ w. since (w_host w0) (w_host w) \<and> B (nets (snd (w_host w))) (w_rt w))"
proof (rule triple_each, elim conjE)
  fix w1 :: "'d World"
  assume "since (w_host w0) (w_host w1)" "B (nets (snd (w_host w1))) (w_rt w1)"
  then show "triple (\<lambda>w. w = w1) (on_host (nw_Close N))
    (\<lambda>_ w. since (w_host w0) (w_host w) \<and> B (nets (snd (w_host w))) (w_rt w))
    (\<lambda>_ w. since (w_host w0) (w_host w) \<and> B (nets (snd (w_host w))) (w_rt w))"
    by - (rule triple_weaken [OF triple_host [OF host_close [where P = "\<lambda>f. B f (w_rt w1)" and ?h0.0 = "w_host w0"], where s = "w_rt w1"]]; auto)
qed

abbreviation joined_rt :: "'c Core \<Rightarrow> Runtime \<Rightarrow> Runtime" where
  "joined_rt core s \<equiv> s\<lparr>rt_minioNetwork := minioNetworkName core (rt_Service s)\<rparr>"

lemma attach_spec:
  "triple (at_rt w0 s)
     (handle (on_host (nw_Connect N n c al))
        (\<lambda>e. handle (on_host (nw_Inspect N n)) (\<lambda>_. fail (f e)) (\<lambda>cs. if c \<in> set cs then ret () else fail (f e))) ret)
     (\<lambda>_ w. at_rt w0 s w \<and> attached nets (snd (w_host w)) n c) (\<lambda>_. at_rt w0 s)"
proof (rule triple_handle [OF world_connect triple_handle [OF world_inspect]], goal_cases)
  case (2 e cs)
  show ?case by (auto simp: triple_def ret_def fail_def attached_def)
qed (auto simp: triple_def ret_def fail_def)

lemma join_spec:
  fixes core :: "'c Core"
  assumes "name = minioNetworkName core (rt_Service (w_rt w0))"
  shows "triple (\<lambda>w. w = w0) (joinMinIONetwork core N c al)
    (\<lambda>_ w. at_rt w0 (joined_rt core (w_rt w0)) w \<and> attached nets (snd (w_host w)) name c)
    (\<lambda>_ w. since (w_host w0) (w_host w) \<and> (w_rt w = w_rt w0 \<or> w_rt w = joined_rt core (w_rt w0)))"
proof -
  let ?s = "w_rt w0" and ?E = "\<lambda>w. since (w_host w0) (w_host w) \<and> (w_rt w = w_rt w0 \<or> w_rt w = joined_rt core (w_rt w0))"
  have body: "triple (at_rt w0 ?s)
      (andthen get_rt (\<lambda>s. let name = minioNetworkName core (rt_Service s) in
        andthen (on_host (ensureNetwork core N name)) (\<lambda>_.
        andthen (modify_rt (rt_minioNetwork_update (\<lambda>_. name))) (\<lambda>_.
        handle (on_host (nw_Connect N name c al))
          (\<lambda>connectErr. let failed = fail (errorf (''attach container '' @ c @ '' to network '' @ name) connectErr) in
             handle (on_host (nw_Inspect N name)) (\<lambda>_. failed)
               (\<lambda>containers. if c \<in> set containers then ret () else failed))
          ret))))
      (\<lambda>_ w. at_rt w0 (joined_rt core ?s) w \<and> attached nets (snd (w_host w)) name c) (\<lambda>_. ?E)"
    unfolding Let_def
    apply (rule triple_with_rt)
    apply (rule triple_andthen [where R = "\<lambda>_. at_rt w0 ?s"])
     apply (rule triple_weaken [OF world_ensure [where s = ?s and ?h0.0 = "w_host w0"]]; auto)
    apply (rule triple_andthen [where R = "\<lambda>_. at_rt w0 (joined_rt core ?s)"])
     apply (rule triple_weaken [OF triple_set_rt [where s = ?s and P = "since (w_host w0)"]]; auto)
    apply (rule triple_weaken [OF attach_spec [where s = "joined_rt core ?s" and ?w0.0 = w0]]; auto simp: assms)
    done
  show ?thesis
    unfolding joinMinIONetwork_def
    apply (rule triple_andthen [where R = "\<lambda>_. at_rt w0 ?s"])
     apply (rule triple_weaken [OF world_open [where s = ?s]]; auto)
    apply (rule triple_deferring [OF body])
     apply (rule triple_weaken [OF world_close [where B = "\<lambda>f t. t = joined_rt core ?s \<and> (\<exists>C. f name = Some C \<and> c \<in> C)" and ?w0.0 = w0]];
        simp add: attached_def)
    apply (rule triple_weaken [OF world_close [where B = "\<lambda>f t. t = ?s \<or> t = joined_rt core ?s" and ?w0.0 = w0]]; simp)
    done
qed

text \<open>Leaving: the reference is dropped only when the network is gone or in someone else's use.\<close>

abbreviation left_rt :: "Runtime \<Rightarrow> Runtime" where "left_rt s \<equiv> s\<lparr>rt_minioNetwork := []\<rparr>"

lemma leave_spec:
  fixes w0 :: "'d World" and s :: Runtime
  assumes "n = rt_minioNetwork s"
  defines "Q \<equiv> \<lambda>w. at_rt w0 (left_rt s) w \<and> released nets (snd (w_host w)) n"
  shows "triple (at_rt w0 s)
     (handle (on_host (nw_Remove N n))
        (\<lambda>removeErr. if IsNotFound removeErr then modify_rt (rt_minioNetwork_update (\<lambda>_. []))
           else handle (on_host (nw_Inspect N n))
             (\<lambda>err. if IsNotFound err then modify_rt (rt_minioNetwork_update (\<lambda>_. [])) else fail (f removeErr err))
             (\<lambda>cs. if cs \<noteq> [] then modify_rt (rt_minioNetwork_update (\<lambda>_. [])) else fail (g removeErr)))
        (\<lambda>_. modify_rt (rt_minioNetwork_update (\<lambda>_. []))))
     (\<lambda>_. Q) (\<lambda>_. at_rt w0 s)"
proof (rule triple_handle [OF world_remove], goal_cases)
  case (1 e)
  have "triple (at_rt w0 s) (handle (on_host (nw_Inspect N n))
             (\<lambda>err. if IsNotFound err then modify_rt (rt_minioNetwork_update (\<lambda>_. [])) else fail (f e err))
             (\<lambda>cs. if cs \<noteq> [] then modify_rt (rt_minioNetwork_update (\<lambda>_. [])) else fail (g e)))
     (\<lambda>_. Q) (\<lambda>_. at_rt w0 s)"
    by (rule triple_handle [OF world_inspect])
      (auto simp: triple_def modify_rt_def fail_def Q_def released_def)
  then show ?case
    by (auto simp: triple_def modify_rt_def Q_def released_def)
next
  case (2 u)
  show ?case by (auto simp: triple_def modify_rt_def Q_def released_def)
qed

lemma remove_spec:
  fixes w0 :: "'d World"
  defines "n \<equiv> \<lambda>w. rt_minioNetwork (w_rt w)"
  shows "triple (\<lambda>w. w = w0) (removeMinIONetwork N)
    (\<lambda>_ w. at_rt w0 (left_rt (w_rt w0)) w \<and> (n w0 = [] \<or> released nets (snd (w_host w)) (n w0)))
    (\<lambda>_. at_rt w0 (w_rt w0))"
proof (cases "n w0 = []")
  case True
  then have "left_rt (w_rt w0) = w_rt w0" by (simp add: n_def)
  with True show ?thesis by (simp add: removeMinIONetwork_def n_def triple_def andthen_def handle_def get_rt_def ret_def Let_def)
next
  case False
  let ?s = "w_rt w0"
  have "triple (at_rt w0 ?s) (removeMinIONetwork N)
    (\<lambda>_ w. at_rt w0 (left_rt ?s) w \<and> released nets (snd (w_host w)) (n w0)) (\<lambda>_. at_rt w0 ?s)"
    unfolding removeMinIONetwork_def Let_def
    apply (rule triple_with_rt, subst if_not_P)
    using False apply (simp add: n_def)
    apply (rule triple_andthen [where R = "\<lambda>_. at_rt w0 ?s"])
     apply (rule triple_weaken [OF world_open [where s = ?s]]; simp)
    apply (rule triple_deferring [OF leave_spec [OF refl]])
     apply (rule triple_weaken [OF world_close [where B = "\<lambda>f t. t = left_rt ?s \<and> (case f (n w0) of None \<Rightarrow> True | Some C \<Rightarrow> C \<noteq> {})" and ?w0.0 = w0]];
        simp add: released_def n_def)
    apply (rule triple_weaken [OF world_close [where B = "\<lambda>f t. t = ?s" and ?w0.0 = w0]]; simp)
    done
  then show ?thesis by (rule triple_weaken) auto
qed

end

section \<open>A Docker engine\<close>

text \<open>
  An engine on the host: its networks with the containers on them, the containers it has, each an
  identifier and a name, the runners handed out over it, each its container's name and the container
  it acquired, the unnamed containers of a probe, and a schedule of refusals: a call whose entry is
  a message fails with it before it acts.
\<close>

record Daemon =
  dm_refusals :: "string option list"
  dm_networks :: "(string \<times> string list) list"
  dm_containers :: "(string \<times> string) list"
  dm_runners :: "(string \<times> string option) list"
  dm_probes :: "(string \<times> path) list"
  dm_locks :: "path list"

definition engine :: "(FS \<Rightarrow> Daemon \<Rightarrow> (goerr + 'a) \<times> FS \<times> Daemon) \<Rightarrow> (Daemon host, 'a) act" where
  "engine f h = (case dm_refusals (snd h) of
     Some m # rest \<Rightarrow> (Inl (Lib m [] []), fst h, (snd h)\<lparr>dm_refusals := rest\<rparr>)
   | schedule \<Rightarrow> f (fst h) ((snd h)\<lparr>dm_refusals := tl schedule\<rparr>))"

definition no_such :: goerr where "no_such = Lib ''no such network'' [DockerNotFound] []"

definition engine_networks :: "Daemon Networks" where
  "engine_networks = \<lparr>
     nw_Open = engine (\<lambda>fs d. (Inr (), fs, d)),
     nw_Close = engine (\<lambda>fs d. (Inr (), fs, d)),
     nw_Inspect = (\<lambda>n. engine (\<lambda>fs d. (case map_of (dm_networks d) n of None \<Rightarrow> Inl no_such | Some cs \<Rightarrow> Inr cs, fs, d))),
     nw_Create = (\<lambda>n driver labels. engine (\<lambda>fs d. case map_of (dm_networks d) n of
        None \<Rightarrow> (Inr (), fs, d\<lparr>dm_networks := AList.update n [] (dm_networks d)\<rparr>)
      | Some cs \<Rightarrow> (Inl (Lib ''network already exists'' [] []), fs, d))),
     nw_Connect = (\<lambda>n c al. engine (\<lambda>fs d. case map_of (dm_networks d) n of
        None \<Rightarrow> (Inl no_such, fs, d)
      | Some cs \<Rightarrow> if c \<in> set cs then (Inl (Lib ''endpoint already exists'' [] []), fs, d)
          else (Inr (), fs, d\<lparr>dm_networks := AList.update n (c # cs) (dm_networks d)\<rparr>))),
     nw_Remove = (\<lambda>n. engine (\<lambda>fs d. case map_of (dm_networks d) n of
        None \<Rightarrow> (Inl no_such, fs, d)
      | Some cs \<Rightarrow> if cs = [] then (Inr (), fs, d\<lparr>dm_networks := AList.delete n (dm_networks d)\<rparr>)
          else (Inl (Lib ''network has active endpoints'' [] []), fs, d)))\<rparr>"

definition engine_nets :: "Daemon \<Rightarrow> string \<Rightarrow> string set option" where
  "engine_nets d n = map_option set (map_of (dm_networks d) n)"

lemma engine_cases:
  assumes "engine f (fs, d) = (r, fs', d')"
  obtains m rest where "dm_refusals d = Some m # rest" "r = Inl (Lib m [] [])" "fs' = fs" "d' = d\<lparr>dm_refusals := rest\<rparr>"
  | "f fs (d\<lparr>dm_refusals := tl (dm_refusals d)\<rparr>) = (r, fs', d')"
proof (cases "\<exists>m rest. dm_refusals d = Some m # rest")
  case True
  then show thesis using that(1) assms by (auto simp: engine_def)
next
  case False
  then show thesis using that(2) assms by (auto simp: engine_def split: list.splits option.splits)
qed

lemma IsNotFound_simps [simp]: "\<not> IsNotFound (Lib m [] [])" "IsNotFound no_such"
  by (simp_all add: has_tag_def err_tags_def no_such_def)

lemma engine_spares:
  "(\<And>m cs. map_of (dm_networks d) m = Some cs \<Longrightarrow> cs \<noteq> [] \<Longrightarrow>
     \<exists>cs'. map_of (dm_networks d') m = Some cs' \<and> set cs \<subseteq> set cs') \<Longrightarrow> spares engine_nets d d'"
  unfolding spares_def engine_nets_def map_option_eq_Some
proof (intro allI impI, elim conjE exE)
  fix m C z
  assume a: "\<And>m cs. map_of (dm_networks d) m = Some cs \<Longrightarrow> cs \<noteq> [] \<Longrightarrow>
     \<exists>cs'. map_of (dm_networks d') m = Some cs' \<and> set cs \<subseteq> set cs'"
    and m: "map_of (dm_networks d) m = Some z" "set z = C" "C \<noteq> {}"
  from m have "z \<noteq> []" by auto
  from a [OF m(1) this] m(2) show "\<exists>C'. (\<exists>z. map_of (dm_networks d') m = Some z \<and> set z = C') \<and> C \<subseteq> C'" by blast
qed

interpretation engine: docker_networks engine_networks engine_nets
proof (unfold_locales, goal_cases)
  case (1 fs d r fs' d')
  then show ?case by (auto simp: engine_networks_def engine_nets_def fun_eq_iff elim: engine_cases)
next
  case (2 fs d r fs' d')
  then show ?case by (auto simp: engine_networks_def engine_nets_def fun_eq_iff elim: engine_cases)
next
  case (3 n fs d r fs' d')
  then show ?case by (auto simp: engine_networks_def engine_nets_def fun_eq_iff elim!: engine_cases split: option.splits)
next
  case (4 n driver labels fs d r fs' d')
  then show ?case by (auto simp: engine_networks_def update_conv' elim!: engine_cases intro!: engine_spares split: option.splits)
next
  case (5 n c al fs d r fs' d')
  then show ?case by (auto simp: engine_networks_def engine_nets_def spares_def attached_def update_conv' elim!: engine_cases split: option.splits if_splits)
next
  case (6 n fs d r fs' d')
  then show ?case by (auto simp: engine_networks_def engine_nets_def spares_def delete_conv' elim!: engine_cases split: option.splits if_splits)
qed

section \<open>Properties\<close>

text \<open>A container the agent was told it attached is on the service's network, and the Runtime
  remembers that network for its teardown; joining takes nobody else off any network, whatever
  fails and whichever other run created the network first.\<close>

theorem join_attaches:
  assumes "docker_networks N nets" "joinMinIONetwork core N c al w = (r, w')"
  shows "spares nets (snd (w_host w)) (snd (w_host w')) \<and> fst (w_host w') = fst (w_host w) \<and>
    (case r of
       Inr u \<Rightarrow> rt_minioNetwork (w_rt w') = minioNetworkName core (rt_Service (w_rt w)) \<and>
         attached nets (snd (w_host w')) (rt_minioNetwork (w_rt w')) c
     | Inl e \<Rightarrow> rt_minioNetwork (w_rt w') \<in> {rt_minioNetwork (w_rt w), minioNetworkName core (rt_Service (w_rt w))})"
  using tripleD [OF docker_networks.join_spec [OF assms(1) refl] refl assms(2)]
  by (auto simp: docker_networks.since_def [OF assms(1)] split: sum.splits)

text \<open>C24: removing the service's network never takes a container off it: the reference is dropped only
  when the network is gone or still used by someone else, and kept for another attempt on
  every error; no other network loses a container.\<close>

theorem remove_spares_successor:
  assumes "docker_networks N nets" "removeMinIONetwork N w = (r, w')"
  shows "spares nets (snd (w_host w)) (snd (w_host w')) \<and>
    (case r of
       Inl e \<Rightarrow> w_rt w' = w_rt w
     | Inr u \<Rightarrow> rt_minioNetwork (w_rt w') = [] \<and>
         (rt_minioNetwork (w_rt w) = [] \<or> released nets (snd (w_host w')) (rt_minioNetwork (w_rt w))))"
  using tripleD [OF docker_networks.remove_spec [OF assms(1)] refl assms(2)]
  by (auto simp: docker_networks.since_def [OF assms(1)] split: sum.splits)

definition sample_world :: "string option list \<Rightarrow> (string \<times> string list) list \<Rightarrow> string \<Rightarrow> Daemon World" where
  "sample_world refusals ns n = \<lparr>w_host = (sample_fs [],
       \<lparr>dm_refusals = refusals, dm_networks = ns, dm_containers = [], dm_runners = [], dm_probes = [], dm_locks = []\<rparr>),
     w_rt = sample_runtime\<lparr>rt_minioNetwork := n\<rparr>\<rparr>"

lemmas engine_eval = engine_networks_def engine_def sample_world_def sample_runtime_def on_host_def
  get_rt_def modify_rt_def handle_def andthen_def ret_def fail_def deferring_def Let_def

lemma join_attaches_witness:
  "\<exists>w'. joinMinIONetwork sample_core engine_networks ''gw'' [] (sample_world [] [] []) = (Inr (), w') \<and>
     attached engine_nets (snd (w_host w')) ''codefly-w-m-s-network'' ''gw''"
proof -
  have n: "minioNetworkName sample_core (rt_Service sample_runtime) = ''codefly-w-m-s-network''"
    by (simp add: minioNetworkName_def sample_core_def sample_runtime_def sample_service_def)
  obtain w' where j: "joinMinIONetwork sample_core engine_networks ''gw'' [] (sample_world [] [] []) = (Inr (), w')"
    by (simp add: joinMinIONetwork_def ensureNetwork_def engine_eval cong: io_cong)
  from join_attaches [OF engine.docker_networks_axioms j] j n show ?thesis by (auto simp: sample_world_def)
qed

lemma remove_spares_successor_witness:
  "\<exists>w'. removeMinIONetwork engine_networks (sample_world [] [(''net'', [''other''])] ''net'') = (Inr (), w') \<and>
     rt_minioNetwork (w_rt w') = [] \<and> attached engine_nets (snd (w_host w')) ''net'' ''other''"
proof -
  obtain w' where j: "removeMinIONetwork engine_networks (sample_world [] [(''net'', [''other''])] ''net'') = (Inr (), w')"
    by (simp add: removeMinIONetwork_def engine_eval cong: io_cong)
  from remove_spares_successor [OF engine.docker_networks_axioms j]
  have "spares engine_nets (snd (w_host (sample_world [] [(''net'', [''other''])] ''net''))) (snd (w_host w'))"
    "rt_minioNetwork (w_rt w') = []" by simp_all
  with j show ?thesis
    by (fastforce simp: spares_def attached_def engine_nets_def sample_world_def)
qed

end
