(* ===== verification/Trees.thy ===== *)
theory Trees
  imports Files
begin

text \<open>
  Directories made and removed whole: \<open>os.MkdirAll\<close>, \<open>os.MkdirTemp\<close> and
  \<open>os.RemoveAll\<close>, and what a visit to a scratch directory leaves of the tree.
\<close>

section \<open>Calls\<close>

fun make_dirs :: "path \<Rightarrow> path \<Rightarrow> nodes \<Rightarrow> (goerr + unit) \<times> nodes" where
  "make_dirs acc [] ns = (Inr (), ns)"
| "make_dirs acc (x # xs) ns = (case resolve ns (acc @ [x]) of
     Inl e \<Rightarrow> (Inl e, ns)
   | Inr q \<Rightarrow> (case node_at ns q of
       Some Dir \<Rightarrow> make_dirs (acc @ [x]) xs ns
     | Some _ \<Rightarrow> (Inl not_a_directory, ns)
     | None \<Rightarrow> (case make_dir (acc @ [x]) ns of
         (Inr u, ns') \<Rightarrow> make_dirs (acc @ [x]) xs ns'
       | (Inl e, ns') \<Rightarrow> (Inl e, ns'))))"

definition make_temp :: "(nodes \<Rightarrow> string) \<Rightarrow> path \<Rightarrow> string \<Rightarrow> nodes \<Rightarrow> (goerr + path) \<times> nodes" where
  "make_temp pick dir pattern ns = (let p = dir @ [pattern @ pick ns] in
     case make_dir p ns of (Inr u, ns') \<Rightarrow> (Inr p, ns') | (Inl e, ns') \<Rightarrow> (Inl e, ns'))"

definition below :: "path \<Rightarrow> path \<Rightarrow> bool" where
  "below d p \<longleftrightarrow> take (length d) p = d"

text \<open>A missing name is no error; a link is removed, not followed.\<close>

definition remove_all :: "path \<Rightarrow> nodes \<Rightarrow> (goerr + unit) \<times> nodes" where
  "remove_all p ns = (case locate ns p of
     Inl e \<Rightarrow> (if errors_is e ErrNotExist then Inr () else Inl e, ns)
   | Inr q \<Rightarrow> (Inr (), filter (\<lambda>(k, n). \<not> below q k) ns))"

definition os_MkdirAll :: "path \<Rightarrow> unit io" where
  "os_MkdirAll p = named ''mkdir'' p (syscall (make_dirs [] p))"

definition os_MkdirTemp :: "(nodes \<Rightarrow> string) \<Rightarrow> path \<Rightarrow> string \<Rightarrow> path io" where
  "os_MkdirTemp pick dir pattern = named ''mkdirtemp'' dir (syscall (make_temp pick dir pattern))"

definition os_RemoveAll :: "path \<Rightarrow> unit io" where
  "os_RemoveAll p = named ''unlinkat'' p (syscall (remove_all p))"

section \<open>Well-formed trees\<close>

lemma below_append [simp]: "below d (d @ p)"
  by (simp add: below_def)

lemma below_Nil [simp]: "below [] p"
  by (simp add: below_def)

lemma below_iff: "below d p \<longleftrightarrow> (\<exists>s. p = d @ s)"
  unfolding below_def by (metis append_eq_conv_conj append_take_drop_id)

lemma wf_update:
  assumes "fs_wf ns" "node_at ns d = Some Dir"
  shows "fs_wf (AList.update (d @ [x]) Dir ns)"
  unfolding fs_wf_def
proof (intro ballI impI)
  fix p
  let ?ns = "AList.update (d @ [x]) Dir ns"
  assume "p \<in> set (map fst ?ns)" and p: "p \<noteq> []"
  then have "p = d @ [x] \<or> p \<in> set (map fst ns)" by (auto simp: update_keys split: if_splits)
  then have "node_at ns (butlast p) = Some Dir" using assms p by (auto simp: fs_wf_def)
  then show "node_at ?ns (butlast p) = Some Dir" by simp
qed

lemma make_dir_cases:
  assumes "make_dir p ns = (r, ns')"
  obtains e where "r = Inl e" "ns' = ns"
  | d where "r = Inr ()" "resolve ns (butlast p) = Inr d" "node_at ns d = Some Dir"
      "node_at ns (d @ [last p]) = None" "ns' = AList.update (d @ [last p]) Dir ns"
  using assms by (fastforce simp: make_dir_def elim: locate_InrE split: sum.splits if_splits)

lemma make_dir_grows:
  assumes "make_dir p ns = (r, ns')"
  shows "grows ns ns'" "fs_wf ns \<Longrightarrow> fs_wf ns'"
  using assms by (cases rule: make_dir_cases; auto simp: grows_update wf_update)+

lemma make_dirs_grows:
  "make_dirs acc xs ns = (r, ns') \<Longrightarrow> grows ns ns' \<and> (fs_wf ns \<longrightarrow> fs_wf ns')"
proof (induction acc xs ns arbitrary: r ns' rule: make_dirs.induct)
  case (2 acc x xs ns)
  show ?case
  proof (cases "resolve ns (acc @ [x])")
    case (Inr q)
    show ?thesis
    proof (cases "node_at ns q")
      case None
      obtain r1 ns1 where m: "make_dir (acc @ [x]) ns = (r1, ns1)" by fastforce
      note g = make_dir_grows [OF m]
      show ?thesis
      proof (cases r1)
        case (Inl e)
        then show ?thesis using 2(3) m Inr None g by simp
      next
        case (Inr u)
        then have "make_dirs (acc @ [x]) xs ns1 = (r, ns')" using 2(3) m \<open>resolve ns (acc @ [x]) = Inr q\<close> None by simp
        from 2(1) [OF \<open>resolve ns (acc @ [x]) = Inr q\<close> None m [symmetric] Inr this] g grows_trans show ?thesis by blast
      qed
    next
      case (Some n)
      then show ?thesis using 2(2) [OF Inr Some] 2(3) Inr by (cases n) auto
    qed
  qed (use 2(3) in simp)
qed simp

section \<open>A scratch directory\<close>

text \<open>
  The tree \<open>ns0\<close> with a directory \<open>q\<close> of our own in it, which \<open>p\<close> names, and
  whatever has come to be below it.
\<close>

definition visited :: "nodes \<Rightarrow> path \<Rightarrow> path \<Rightarrow> nodes \<Rightarrow> bool" where
  "visited ns0 p q ns \<longleftrightarrow> (\<exists>dir d x. p = dir @ [x] \<and> q = d @ [x] \<and> resolve ns0 dir = Inr d \<and> node_at ns0 d = Some Dir) \<and>
     node_at ns q = Some Dir \<and> fs_wf ns0 \<and> fs_wf ns \<and> node_at ns0 q = None \<and>
     (\<forall>k. \<not> below q k \<longrightarrow> node_at ns k = node_at ns0 k)"

definition same_nodes :: "nodes \<Rightarrow> nodes \<Rightarrow> bool" where
  "same_nodes ns ns' \<longleftrightarrow> (\<forall>k. node_at ns' k = node_at ns k) \<and> fs_wf ns'"

lemma wf_none_below: "fs_wf ns \<Longrightarrow> node_at ns q = None \<Longrightarrow> below q k \<Longrightarrow> node_at ns k = None"
  using wf_nothing_below [of ns q] unfolding below_iff by (metis append_Nil2 option.distinct(1))

lemma visited_grows: "visited ns0 p q ns \<Longrightarrow> grows ns0 ns"
  unfolding visited_def grows_def by (metis option.distinct(1) wf_none_below)

lemma visited_resolve:
  assumes "visited ns0 p q ns"
  shows "resolve ns p = Inr q" "locate ns p = Inr q" "q \<noteq> []"
proof -
  obtain dir d x where p: "p = dir @ [x]" "q = d @ [x]" "resolve ns0 dir = Inr d" "node_at ns0 d = Some Dir"
    and q: "node_at ns q = Some Dir" using assms by (auto simp: visited_def)
  note g = visited_grows [OF assms]
  have d: "resolve ns dir = Inr d" "node_at ns d = Some Dir"
    using walk_grows [OF g p(3)] growsD [OF g p(4)] p(4) by auto
  from resolve_child [OF this, of x] locate_child [OF this] p q
  show "resolve ns p = Inr q" "locate ns p = Inr q" "q \<noteq> []" by auto
qed

lemma make_temp_cases:
  assumes "make_temp pick dir pattern ns = (r, ns')" "fs_wf ns"
  obtains e where "r = Inl e" "ns' = ns"
  | p q where "r = Inr p" "p = dir @ [pattern @ pick ns]" "visited ns p q ns'"
proof -
  let ?p = "dir @ [pattern @ pick ns]"
  obtain r1 ns1 where m: "make_dir ?p ns = (r1, ns1)" by fastforce
  show thesis using m
  proof (cases rule: make_dir_cases)
    case (1 e)
    then show thesis using that(1) [of e] assms(1) m by (auto simp: make_temp_def)
  next
    case (2 d)
    let ?q = "d @ [pattern @ pick ns]"
    have "node_at ns ?q = None" "ns1 = AList.update ?q Dir ns" "resolve ns dir = Inr d" using 2 by simp_all
    then have "visited ns ?p ?q ns1"
      using assms(2) 2(3) wf_update [OF assms(2) 2(3)] by (auto simp: visited_def below_def)
    then show thesis using that(2) [of ?p ?q] assms(1) m 2(1) by (simp add: make_temp_def)
  qed
qed

lemma node_at_filter:
  "q \<noteq> [] \<Longrightarrow> node_at (filter (\<lambda>(k, n). \<not> below q k) ns) p = (if below q p then None else node_at ns p)"
proof (induction ns)
  case (Cons a ns)
  then show ?case by (cases a) (auto simp: node_at_def below_def)
qed (auto simp: node_at_def below_def)

lemma remove_all_visited:
  assumes "visited ns0 p q ns" "remove_all p ns = (r, ns')"
  shows "same_nodes ns0 ns'"
proof -
  have v: "q \<noteq> []" "locate ns p = Inr q" "node_at ns0 q = None" "fs_wf ns0" "fs_wf ns"
    "\<And>k. \<not> below q k \<Longrightarrow> node_at ns k = node_at ns0 k"
    using assms(1) visited_resolve [OF assms(1)] by (auto simp: visited_def)
  let ?f = "filter (\<lambda>(k, n). \<not> below q k) ns"
  have e: "ns' = ?f" using assms(2) v(2) by (auto simp: remove_all_def)
  have "node_at ?f k = node_at ns0 k" for k
    using node_at_filter [OF v(1)] v(6) wf_none_below [OF v(4,3)] by simp
  moreover have "fs_wf ?f"
    unfolding fs_wf_def
  proof (intro ballI impI)
    fix k assume k: "k \<in> set (map fst ?f)" "k \<noteq> []"
    then have nb: "k \<in> set (map fst ns)" "\<not> below q k" by auto
    have "\<not> below q (butlast k)"
    proof
      assume "below q (butlast k)"
      then obtain s where "butlast k = q @ s" by (auto simp: below_iff)
      with k(2) have "k = q @ s @ [last k]" by (metis append_assoc append_butlast_last_id)
      with nb(2) show False by (auto simp: below_iff)
    qed
    moreover have "node_at ns (butlast k) = Some Dir" using v(5) nb(1) k(2) unfolding fs_wf_def by blast
    ultimately show "node_at ?f (butlast k) = Some Dir" by (simp add: node_at_filter [OF v(1)])
  qed
  ultimately show ?thesis using e by (simp add: same_nodes_def)
qed

lemma hoare_MkdirTemp:
  assumes "fs_wf ns0"
  shows "hoare (\<lambda>ns. ns = ns0) (os_MkdirTemp pick dir pattern)
    (\<lambda>p ns. \<exists>q. visited ns0 p q ns) (\<lambda>_ ns. ns = ns0)"
  unfolding os_MkdirTemp_def
  by (rule hoare_named_syscall) (auto elim!: make_temp_cases [OF _ assms])

lemma same_nodes_growing: "same_nodes ns0 ns \<Longrightarrow> grows ns0 ns \<and> fs_wf ns"
  by (auto simp: same_nodes_def grows_def)

lemma visited_wf: "visited ns0 p q ns \<Longrightarrow> fs_wf ns"
  by (simp add: visited_def)

lemma visited_growing: "visited ns0 p q ns \<Longrightarrow> grows ns0 ns \<and> fs_wf ns"
  using visited_grows visited_wf by blast

lemma hoare_RemoveAll:
  "hoare (\<lambda>ns. \<exists>q. visited ns0 p q ns) (os_RemoveAll p) (\<lambda>_. same_nodes ns0) (\<lambda>_ ns. grows ns0 ns \<and> fs_wf ns)"
  unfolding os_RemoveAll_def
proof (rule hoare_named_syscall)
  fix ns r ns'
  assume "\<exists>q. visited ns0 p q ns" "remove_all p ns = (r, ns')"
  then have "same_nodes ns0 ns'" using remove_all_visited by blast
  then show "case r of Inr a \<Rightarrow> same_nodes ns0 ns' | Inl e \<Rightarrow> grows ns0 ns' \<and> fs_wf ns'"
    using same_nodes_growing by (cases r) auto
qed (use visited_growing in blast)

lemma hoare_MkdirAll:
  "hoare (\<lambda>ns. grows ns0 ns \<and> fs_wf ns) (os_MkdirAll p) (\<lambda>_ ns. grows ns0 ns \<and> fs_wf ns) (\<lambda>_ ns. grows ns0 ns \<and> fs_wf ns)"
  unfolding os_MkdirAll_def
  by (rule hoare_named_syscall) (use make_dirs_grows grows_trans in \<open>fastforce split: sum.split\<close>)+

end
