(* ===== verification/Probe.thy ===== *)
theory Probe
  imports Network Trees
begin

text \<open>
  Which container user writes as the agent's own (src/minio_user_probe.go): each candidate
  writes one file into a fresh scratch directory, and the host looks at its owner. Docker's
  container calls are the record \<open>ProbeDocker\<close>, and what the locale \<open>probe_docker\<close>
  states of them gives what the interface of the probe (\<open>probe_runner\<close>) promises.
\<close>

section \<open>Words\<close>

text \<open>\<open>strings.Fields\<close>: \<open>w\<close> is the word read so far, reversed.\<close>

function fields_from :: "string \<Rightarrow> string \<Rightarrow> string list" where
  "fields_from w s = (case s of
     [] \<Rightarrow> (if w = [] then [] else [rev w])
   | c # cs \<Rightarrow> (case find (\<lambda>q. q \<noteq> [] \<and> has_prefix s q) space_seqs of
       Some q \<Rightarrow> (if w = [] then [] else [rev w]) @ fields_from [] (drop (length q) s)
     | None \<Rightarrow> fields_from (c # w) cs))"
  by pat_completeness auto
termination
  by (relation "measure (\<lambda>(w, s). length s)") (auto simp: find_Some_iff has_prefix_iff)

declare fields_from.simps [simp del]

definition Fields :: "string \<Rightarrow> string list" where "Fields s = fields_from [] s"

section \<open>The probe\<close>

record minioProbeRun =
  run_Wrote :: bool
  run_Mapping :: string
  run_Stderr :: string

type_synonym 'd minioProbeRunner = "string \<Rightarrow> path \<Rightarrow> ('d host, minioProbeRun) act"

abbreviation minioProbeFile :: string where "minioProbeFile \<equiv> ''owner''"

text \<open>A deferred call whose error is reported when there is none yet.\<close>

definition releasing :: "('s, 'a) act \<Rightarrow> ('s, 'b) act \<Rightarrow> (goerr \<Rightarrow> goerr) \<Rightarrow> ('s, 'a) act" where
  "releasing m c f s = (let (r, s1) = m s; (r2, s2) = c s1 in
     (case (r, r2) of (Inr a, Inl e) \<Rightarrow> Inl (f e) | _ \<Rightarrow> r, s2))"

text \<open>\<open>sys\<close> reads the numeric owner out of a file's status, when the platform's carries one.\<close>

definition hostFileOwner :: "('d host \<Rightarrow> path \<Rightarrow> (int \<times> int) option) \<Rightarrow> path \<Rightarrow> ('d host, int \<times> int) act" where
  "hostFileOwner sys p = andthen (on_fs (os_Lstat p)) (\<lambda>info h.
     (case sys h p of
        None \<Rightarrow> Inl (Msg (''no numeric owner for '' @ path_string p))
      | Some owner \<Rightarrow> Inr owner, h))"

definition probe_in ::
  "'d minioProbeRunner \<Rightarrow> (path \<Rightarrow> ('d host, int \<times> int) act) \<Rightarrow> string \<Rightarrow> int \<Rightarrow> path \<Rightarrow> ('d host, string \<times> string) act" where
  "probe_in probe ownerOf candidate euid scratch =
     handle (probe candidate scratch)
       (\<lambda>err. fail (errorf (''probe container user '' @ candidate) err))
       (\<lambda>run. let mapping = join_with '' '' (Fields (run_Mapping run));
            mapping = (if mapping = [] then ''unavailable'' else mapping) in
          if \<not> run_Wrote run
          then (let detail = trim_space (run_Stderr run) in
             ret (''could not write to an agent-owned directory'' @
               (if detail \<noteq> [] then '' ('' @ detail @ '')'' else []), mapping))
          else handle (ownerOf (scratch @ [minioProbeFile]))
            (\<lambda>err. fail (errorf ''inspect container user probe file'' err))
            (\<lambda>(uid, gid). if uid \<noteq> euid
               then ret (''wrote a file the host sees as '' @ dec_int uid @ '':'' @ dec_int gid, mapping)
               else ret ([], mapping)))"

definition probeMinIOUser ::
  "'d minioProbeRunner \<Rightarrow> (path \<Rightarrow> ('d host, int \<times> int) act) \<Rightarrow> (nodes \<Rightarrow> string) \<Rightarrow> path \<Rightarrow> string \<Rightarrow> int \<Rightarrow>
   ('d host, string \<times> string) act" where
  "probeMinIOUser probe ownerOf rnd parent candidate euid =
     handle (on_fs (os_MkdirTemp rnd parent ''.user-probe-''))
       (\<lambda>err. fail (errorf ''create container user probe directory'' err))
       (\<lambda>scratch. releasing (probe_in probe ownerOf candidate euid scratch)
         (on_fs (os_RemoveAll scratch))
         (errorf (''remove container user probe directory '' @ path_string scratch)))"

fun try_candidates ::
  "'d minioProbeRunner \<Rightarrow> (path \<Rightarrow> ('d host, int \<times> int) act) \<Rightarrow> (nodes \<Rightarrow> string) \<Rightarrow> path \<Rightarrow> int \<Rightarrow>
   string list \<Rightarrow> string list \<Rightarrow> ('d host, string \<times> string) act" where
  "try_candidates probe ownerOf rnd parent euid [] observed =
     fail (Msg (''local MinIO custody needs a container user whose files the host sees as uid '' @ dec_int euid
       @ '', and this Docker daemon offers none: '' @ join_with ''; '' observed
       @ ''; use a daemon that maps a container user to this user (rootful without userns-remap, or rootless run by this user), ''
       @ ''or configure an external storage backend; retained data was not changed''))"
| "try_candidates probe ownerOf rnd parent euid (c # cs) observed =
     andthen (probeMinIOUser probe ownerOf rnd parent c euid) (\<lambda>(result, mapping).
       if result = [] then ret (c, mapping)
       else try_candidates probe ownerOf rnd parent euid cs
         (observed @ [''--user '' @ c @ '' '' @ result @ '' (container ID map: '' @ mapping @ '')'']))"

definition user_candidates :: "int \<Rightarrow> int \<Rightarrow> string list" where
  "user_candidates euid egid = [dec_int euid @ '':'' @ dec_int egid, ''0:0'']"

definition chooseMinIOContainerUser ::
  "'d minioProbeRunner \<Rightarrow> (path \<Rightarrow> ('d host, int \<times> int) act) \<Rightarrow> (nodes \<Rightarrow> string) \<Rightarrow> path \<Rightarrow> int \<Rightarrow> int \<Rightarrow>
   ('d host, string \<times> string) act" where
  "chooseMinIOContainerUser probe ownerOf rnd parent euid egid =
     try_candidates probe ownerOf rnd parent euid (user_candidates euid egid) []"

section \<open>The probe's container\<close>

text \<open>A context: whether it ends with its caller, and its timeout in seconds.\<close>

record Ctx =
  cx_Caller :: bool
  cx_Timeout :: "int option"

definition WithTimeout :: "Ctx \<Rightarrow> int \<Rightarrow> Ctx" where
  "WithTimeout c t = c\<lparr>cx_Timeout := Some (case cx_Timeout c of None \<Rightarrow> t | Some u \<Rightarrow> min t u)\<rparr>"

definition WithoutCancel :: "Ctx \<Rightarrow> Ctx" where
  "WithoutCancel c = \<lparr>cx_Caller = False, cx_Timeout = None\<rparr>"

record ProbeContainer =
  pc_Image :: string
  pc_User :: string
  pc_Entrypoint :: "string list"
  pc_Source :: path
  pc_Target :: string
  pc_NetworkMode :: string

record WaitResponse =
  wr_StatusCode :: int
  wr_Error :: "string option"

text \<open>\<open>pd_Wait\<close> registers the wait, and \<open>pd_Exit\<close> is what the select receives: the
  response, or the error of the other channel. \<open>'l\<close> is a log stream.\<close>

record ('d, 'l) ProbeDocker =
  pd_Create :: "Ctx \<Rightarrow> ProbeContainer \<Rightarrow> ('d host, string) act"
  pd_Wait :: "Ctx \<Rightarrow> string \<Rightarrow> 'd host \<Rightarrow> 'd host"
  pd_Start :: "Ctx \<Rightarrow> string \<Rightarrow> ('d host, unit) act"
  pd_Exit :: "string \<Rightarrow> ('d host, WaitResponse) act"
  pd_Logs :: "Ctx \<Rightarrow> string \<Rightarrow> ('d host, 'l) act"
  pd_StdCopy :: "'l \<Rightarrow> ('d host, string \<times> string) act"
  pd_CloseLogs :: "'l \<Rightarrow> ('d host, unit) act"
  pd_Remove :: "Ctx \<Rightarrow> string \<Rightarrow> ('d host, unit) act"

definition minioProbeScript :: string where
  "minioProbeScript = ''cat /proc/self/uid_map /proc/self/gid_map 2>/dev/null; : > /probe/'' @ minioProbeFile"

abbreviation minioProbeTimeout :: int where "minioProbeTimeout \<equiv> 60"

definition probe_container :: "string \<Rightarrow> string \<Rightarrow> path \<Rightarrow> ProbeContainer" where
  "probe_container img user dir = \<lparr>pc_Image = img, pc_User = user,
     pc_Entrypoint = [''/bin/sh'', ''-c'', minioProbeScript], pc_Source = dir, pc_Target = ''/probe'', pc_NetworkMode = ''none''\<rparr>"

definition dockerProbeRunner_run :: "('d, 'l) ProbeDocker \<Rightarrow> string \<Rightarrow> Ctx \<Rightarrow> 'd minioProbeRunner" where
  "dockerProbeRunner_run D img ctx0 user dir =
     (let ctx = WithTimeout ctx0 minioProbeTimeout in
      andthen (pd_Create D ctx (probe_container img user dir)) (\<lambda>i. releasing
        (\<lambda>h. andthen (pd_Start D ctx i) (\<lambda>_.
         andthen (pd_Exit D i) (\<lambda>exit. case wr_Error exit of
           Some m \<Rightarrow> fail (Msg m)
         | None \<Rightarrow> andthen (pd_Logs D ctx i) (\<lambda>logs. deferring
             (andthen (pd_StdCopy D logs) (\<lambda>(stdout, stderr).
               ret \<lparr>run_Wrote = (wr_StatusCode exit = 0), run_Mapping = stdout, run_Stderr = stderr\<rparr>))
             (pd_CloseLogs D logs)))) (pd_Wait D ctx i h))
        (pd_Remove D (WithTimeout (WithoutCancel ctx) 10) i)
        (errorf (''remove probe container '' @ i))))"

section \<open>What a probe promises\<close>

text \<open>
  A run touches nothing outside the directory it is given, one that reports a result leaves
  the engine as it was in what \<open>obs\<close> reads of it, and \<open>kept\<close> is never its concern.
\<close>

locale probe_runner =
  fixes probe :: "'d minioProbeRunner" and obs :: "'d \<Rightarrow> 'o" and kept :: "'d \<Rightarrow> 'k"
  assumes run_visits: "probe user dir h = (r, h') \<Longrightarrow> visited ns0 dir q (h_nodes h) \<Longrightarrow> visited ns0 dir q (h_nodes h')"
    and run_obs: "probe user dir h = (Inr res, h') \<Longrightarrow> visited ns0 dir q (h_nodes h) \<Longrightarrow> obs (snd h') = obs (snd h)"
    and run_kept: "frame (\<lambda>h. kept (snd h)) (probe user dir)"

text \<open>The evidence for a user: its file, in a directory made for it, belongs to \<open>euid\<close> as the host sees it.\<close>

definition measured ::
  "'d minioProbeRunner \<Rightarrow> ('d host \<Rightarrow> path \<Rightarrow> (int \<times> int) option) \<Rightarrow> (nodes \<Rightarrow> string) \<Rightarrow> path \<Rightarrow> string \<Rightarrow> int \<Rightarrow> bool" where
  "measured probe sys rnd parent user euid \<longleftrightarrow> (\<exists>h scratch h0 run h1 gid h2.
     on_fs (os_MkdirTemp rnd parent ''.user-probe-'') h = (Inr scratch, h0) \<and> probe user scratch h0 = (Inr run, h1) \<and>
     run_Wrote run \<and> hostFileOwner sys (scratch @ [minioProbeFile]) h1 = (Inr (euid, gid), h2))"

lemma triple_releasing:
  "triple P m R F \<Longrightarrow> (\<And>a. triple (R a) c (\<lambda>_. Q a) (\<lambda>e. E (f e))) \<Longrightarrow> (\<And>e. triple (F e) c (\<lambda>_. E e) (\<lambda>_. E e)) \<Longrightarrow>
   triple P (releasing m c f) Q E"
  unfolding triple_def releasing_def Let_def by (fastforce split: sum.splits prod.splits)

lemma triple_after: "triple P m Q E \<Longrightarrow> (\<And>h. P h \<Longrightarrow> P (g h)) \<Longrightarrow> triple P (\<lambda>h. m (g h)) Q E"
  by (simp add: triple_def)

lemma frame_releasing: "frame f m \<Longrightarrow> frame f c \<Longrightarrow> frame f (releasing m c g)"
  by (simp add: frame_def releasing_def case_prod_beta Let_def)

lemma frame_after: "frame f m \<Longrightarrow> (\<And>h. f (g h) = f h) \<Longrightarrow> frame f (\<lambda>h. m (g h))"
  by (simp add: frame_def)

lemma frame_owner: "frame f (\<lambda>h. (x h, h))"
  by (simp add: frame_def)

lemma same_nodes_trans: "same_nodes a b \<Longrightarrow> same_nodes b c \<Longrightarrow> same_nodes a c"
  by (simp add: same_nodes_def)

lemma same_nodes_grows: "same_nodes a b \<Longrightarrow> grows b c \<Longrightarrow> grows a c"
  by (simp add: same_nodes_def grows_def)

lemma hostFileOwner_quiet:
  assumes "hostFileOwner sys p h = (r, h')"
  shows "h_nodes h' = h_nodes h \<and> snd h' = snd h"
proof -
  obtain n fs where "os_Lstat p (fst h) = (n, fs)" by fastforce
  with os_Lstat_nodes [OF this] assms show ?thesis
    by (cases n) (auto simp: hostFileOwner_def andthen_def handle_def on_fs_def fail_def)
qed

context probe_runner
begin

abbreviation visiting :: "nodes \<Rightarrow> path \<Rightarrow> 'd host \<Rightarrow> bool" where
  "visiting ns0 p h \<equiv> \<exists>q. visited ns0 p q (h_nodes h)"

lemma probe_in_spec:
  "triple (\<lambda>h. visiting ns0 p h \<and> obs (snd h) = o0 \<and> (\<exists>h0. on_fs (os_MkdirTemp rnd parent ''.user-probe-'') h0 = (Inr p, h)))
     (probe_in probe (hostFileOwner sys) c euid p)
     (\<lambda>res h. visiting ns0 p h \<and> obs (snd h) = o0 \<and> (fst res = [] \<longrightarrow> measured probe sys rnd parent c euid))
     (\<lambda>_. visiting ns0 p)"
proof (rule tripleI)
  fix h r h'
  assume pre: "visiting ns0 p h \<and> obs (snd h) = o0 \<and> (\<exists>h0. on_fs (os_MkdirTemp rnd parent ''.user-probe-'') h0 = (Inr p, h))"
    and run: "probe_in probe (hostFileOwner sys) c euid p h = (r, h')"
  obtain r1 h1 where p: "probe c p h = (r1, h1)" by (rule prod.exhaust)
  have v: "visiting ns0 p h1" using pre run_visits [OF p] by blast
  show "case r of Inr res \<Rightarrow> visiting ns0 p h' \<and> obs (snd h') = o0 \<and> (fst res = [] \<longrightarrow> measured probe sys rnd parent c euid)
    | Inl e \<Rightarrow> visiting ns0 p h'"
  proof (cases r1)
    case (Inl e)
    with run p v show ?thesis by (auto simp: probe_in_def handle_def fail_def)
  next
    case (Inr w)
    have o: "obs (snd h1) = o0" using run_obs p Inr pre by blast
    obtain r2 h2 where f: "hostFileOwner sys (p @ [minioProbeFile]) h1 = (r2, h2)" by (rule prod.exhaust)
    note q = hostFileOwner_quiet [OF f]
    have m: "measured probe sys rnd parent c euid" if "run_Wrote w" "r2 = Inr (euid, gid)" for gid
      using pre p Inr that f unfolding measured_def by blast
    show ?thesis
    proof (cases "run_Wrote w")
      case False
      with run p Inr v o show ?thesis by (auto simp: probe_in_def handle_def ret_def Let_def)
    next
      case True
      with run p Inr f v o q m [OF True] show ?thesis
        by (auto simp: probe_in_def handle_def ret_def fail_def Let_def split: sum.splits if_splits)
    qed
  qed
qed

lemma probe_spec:
  assumes "fs_wf ns0"
  shows "triple (\<lambda>h. h_nodes h = ns0 \<and> obs (snd h) = o0) (probeMinIOUser probe (hostFileOwner sys) rnd parent c euid)
    (\<lambda>res h. same_nodes ns0 (h_nodes h) \<and> obs (snd h) = o0 \<and> (fst res = [] \<longrightarrow> measured probe sys rnd parent c euid))
    (\<lambda>_ h. grows ns0 (h_nodes h) \<and> fs_wf (h_nodes h))"
proof -
  let ?made = "\<lambda>p h. visiting ns0 p h \<and> obs (snd h) = o0 \<and> (\<exists>h0. on_fs (os_MkdirTemp rnd parent ''.user-probe-'') h0 = (Inr p, h))"
  have mk: "triple (\<lambda>h. h_nodes h = ns0 \<and> obs (snd h) = o0) (on_fs (os_MkdirTemp rnd parent ''.user-probe-''))
      ?made (\<lambda>_ h. grows ns0 (h_nodes h) \<and> fs_wf (h_nodes h))"
  proof (rule tripleI)
    fix h r h'
    assume h: "h_nodes h = ns0 \<and> obs (snd h) = o0" "on_fs (os_MkdirTemp rnd parent ''.user-probe-'') h = (r, h')"
    from tripleD [OF triple_fs [OF hoare_MkdirTemp [OF assms], of "snd h"] _ h(2)] h
    have "case r of Inr p \<Rightarrow> visiting ns0 p h' \<and> obs (snd h') = o0 | Inl e \<Rightarrow> h_nodes h' = ns0"
      by (auto split: sum.splits)
    with h(2) assms show "case r of Inr p \<Rightarrow> ?made p h' | Inl e \<Rightarrow> grows ns0 (h_nodes h') \<and> fs_wf (h_nodes h')"
    proof (cases r)
      case (Inr p)
      with \<open>case r of Inr p \<Rightarrow> _ p | Inl e \<Rightarrow> _\<close> h(2) show ?thesis by (simp del: split_paired_Ex) blast
    qed simp
  qed
  have rm: "triple (\<lambda>h. visiting ns0 p h \<and> B (snd h)) (on_fs (os_RemoveAll p))
      (\<lambda>_ h. same_nodes ns0 (h_nodes h) \<and> B (snd h)) (\<lambda>_ h. grows ns0 (h_nodes h) \<and> fs_wf (h_nodes h))" for p B
  proof (rule triple_each)
    fix h assume "visiting ns0 p h \<and> B (snd h)"
    then show "triple (\<lambda>s. s = h) (on_fs (os_RemoveAll p)) (\<lambda>_ h. same_nodes ns0 (h_nodes h) \<and> B (snd h))
        (\<lambda>_ h. grows ns0 (h_nodes h) \<and> fs_wf (h_nodes h))"
      by - (rule triple_weaken [OF triple_fs [OF hoare_RemoveAll, where d = "snd h"]]; auto)
  qed
  show ?thesis
    unfolding probeMinIOUser_def
    apply (rule triple_handle [OF mk triple_fail])
    apply (rule triple_releasing [OF probe_in_spec])
     apply (rule triple_weaken [OF rm [where B = "\<lambda>d. obs d = o0 \<and> (fst a = [] \<longrightarrow> measured probe sys rnd parent c euid)" for a]]; simp)
    apply (rule triple_weaken [OF rm [where B = "\<lambda>_. True"]]; simp add: same_nodes_growing)
    done
qed

text \<open>Candidates follow each other on the tree the one before put back.\<close>

lemma try_spec:
  "fs_wf ns0 \<Longrightarrow> triple (\<lambda>h. same_nodes ns0 (h_nodes h) \<and> obs (snd h) = o0)
    (try_candidates probe (hostFileOwner sys) rnd parent euid cs observed)
    (\<lambda>res h. same_nodes ns0 (h_nodes h) \<and> obs (snd h) = o0 \<and> fst res \<in> set cs \<and> measured probe sys rnd parent (fst res) euid)
    (\<lambda>_ h. grows ns0 (h_nodes h) \<and> fs_wf (h_nodes h))"
proof (induction cs arbitrary: observed)
  case Nil
  show ?case by (auto simp: triple_def fail_def dest: same_nodes_growing)
next
  case (Cons c cs)
  have one: "triple (\<lambda>h. same_nodes ns0 (h_nodes h) \<and> obs (snd h) = o0) (probeMinIOUser probe (hostFileOwner sys) rnd parent c euid)
      (\<lambda>res h. (same_nodes ns0 (h_nodes h) \<and> obs (snd h) = o0) \<and> (fst res = [] \<longrightarrow> measured probe sys rnd parent c euid))
      (\<lambda>_ h. grows ns0 (h_nodes h) \<and> fs_wf (h_nodes h))"
  proof (rule triple_each)
    fix h0 assume h0: "same_nodes ns0 (h_nodes h0) \<and> obs (snd h0) = o0"
    then have "fs_wf (h_nodes h0)" by (simp add: same_nodes_def)
    show "triple (\<lambda>h. h = h0) (probeMinIOUser probe (hostFileOwner sys) rnd parent c euid)
      (\<lambda>res h. (same_nodes ns0 (h_nodes h) \<and> obs (snd h) = o0) \<and> (fst res = [] \<longrightarrow> measured probe sys rnd parent c euid))
      (\<lambda>_ h. grows ns0 (h_nodes h) \<and> fs_wf (h_nodes h))"
      by (rule triple_weaken [OF probe_spec [OF \<open>fs_wf (h_nodes h0)\<close>, of o0 sys rnd parent c euid]])
        (use h0 same_nodes_trans same_nodes_grows in blast)+
  qed
  show ?case
    unfolding try_candidates.simps
  proof (rule triple_andthen [OF one], rule triple_pure)
    fix res :: "string \<times> string"
    assume m: "fst res = [] \<longrightarrow> measured probe sys rnd parent c euid"
    obtain result mapping where res: "res = (result, mapping)" by fastforce
    show "triple (\<lambda>h. same_nodes ns0 (h_nodes h) \<and> obs (snd h) = o0)
      (case res of (result, mapping) \<Rightarrow> if result = [] then ret (c, mapping)
         else try_candidates probe (hostFileOwner sys) rnd parent euid cs
           (observed @ [''--user '' @ c @ '' '' @ result @ '' (container ID map: '' @ mapping @ '')'']))
      (\<lambda>res h. same_nodes ns0 (h_nodes h) \<and> obs (snd h) = o0 \<and> fst res \<in> set (c # cs) \<and> measured probe sys rnd parent (fst res) euid)
      (\<lambda>_ h. grows ns0 (h_nodes h) \<and> fs_wf (h_nodes h))"
    proof (cases "result = []")
      case True
      with m res show ?thesis by (simp add: triple_def ret_def)
    next
      case False
      with res show ?thesis by (auto intro: triple_weaken [OF Cons.IH [OF Cons.prems]])
    qed
  qed
qed

lemma frame_try: "frame (\<lambda>h. kept (snd h)) (try_candidates probe (hostFileOwner sys) rnd parent euid cs observed)"
  by (induction cs arbitrary: observed)
    (auto simp: probeMinIOUser_def probe_in_def hostFileOwner_def intro!: frames frame_releasing run_kept frame_owner)

lemma frame_choose: "frame (\<lambda>h. kept (snd h)) (chooseMinIOContainerUser probe (hostFileOwner sys) rnd parent euid egid)"
  unfolding chooseMinIOContainerUser_def by (rule frame_try)

lemmas choose_spec = try_spec [of _ _ sys rnd parent euid "user_candidates euid egid" "[]" for sys rnd parent euid egid,
    folded chooseMinIOContainerUser_def]

end

section \<open>The Docker probe keeps the promise\<close>

definition writes_in :: "path option \<Rightarrow> nodes \<Rightarrow> nodes \<Rightarrow> bool" where
  "writes_in m ns ns' \<longleftrightarrow> (case m of
     None \<Rightarrow> ns' = ns
   | Some q \<Rightarrow> (fs_wf ns \<longrightarrow> fs_wf ns') \<and> (node_at ns q = Some Dir \<longrightarrow> node_at ns' q = Some Dir) \<and>
       (\<forall>k. \<not> below q k \<longrightarrow> node_at ns' k = node_at ns k))"

text \<open>
  \<open>probes\<close> reads the containers the probe made and \<open>mounted\<close> where each one's directory
  resolved. A container writes below its mount only; a create that fails leaves none.
\<close>

locale probe_docker =
  fixes D :: "('d, 'l) ProbeDocker" and probes :: "'d \<Rightarrow> string set" and mounted :: "'d \<Rightarrow> string \<Rightarrow> path option"
    and kept :: "'d \<Rightarrow> 'k"
  assumes pd_create: "\<And>r. pd_Create D c pc h = (r, h') \<Longrightarrow> fst h' = fst h \<and> (case r of
        Inl e \<Rightarrow> probes (snd h') = probes (snd h)
      | Inr i \<Rightarrow> i \<notin> probes (snd h) \<and> probes (snd h') = insert i (probes (snd h)) \<and>
          (\<forall>q. resolve (h_nodes h) (pc_Source pc) = Inr q \<longrightarrow> mounted (snd h') i = Some q))"
    and pd_wait: "pd_Wait D c i h = h' \<Longrightarrow> fst h' = fst h \<and> probes (snd h') = probes (snd h) \<and> mounted (snd h') = mounted (snd h)"
    and pd_start: "\<And>r. pd_Start D c i h = (r, h') \<Longrightarrow> probes (snd h') = probes (snd h) \<and> mounted (snd h') = mounted (snd h) \<and>
      writes_in (mounted (snd h) i) (h_nodes h) (h_nodes h')"
    and pd_exit: "\<And>r. pd_Exit D i h = (r, h') \<Longrightarrow> probes (snd h') = probes (snd h) \<and> mounted (snd h') = mounted (snd h) \<and>
      writes_in (mounted (snd h) i) (h_nodes h) (h_nodes h')"
    and pd_logs: "\<And>r. pd_Logs D c i h = (r, h') \<Longrightarrow> fst h' = fst h \<and> probes (snd h') = probes (snd h)"
    and pd_copy: "\<And>r. pd_StdCopy D l h = (r, h') \<Longrightarrow> fst h' = fst h \<and> probes (snd h') = probes (snd h)"
    and pd_closelogs: "\<And>r. pd_CloseLogs D l h = (r, h') \<Longrightarrow> fst h' = fst h \<and> probes (snd h') = probes (snd h)"
    and pd_remove: "\<And>r. pd_Remove D c i h = (r, h') \<Longrightarrow> fst h' = fst h \<and>
      (\<forall>u. r = Inr u \<longrightarrow> probes (snd h') = probes (snd h) - {i})"
    and pd_kept: "frame (\<lambda>h. kept (snd h)) (pd_Create D c pc)" "kept (snd (pd_Wait D c i h)) = kept (snd h)"
      "frame (\<lambda>h. kept (snd h)) (pd_Start D c i)" "frame (\<lambda>h. kept (snd h)) (pd_Exit D i)"
      "frame (\<lambda>h. kept (snd h)) (pd_Logs D c i)" "frame (\<lambda>h. kept (snd h)) (pd_StdCopy D l)"
      "frame (\<lambda>h. kept (snd h)) (pd_CloseLogs D l)" "frame (\<lambda>h. kept (snd h)) (pd_Remove D c i)"

lemma writes_visited:
  assumes "visited ns0 p q ns" "writes_in (Some q) ns ns'"
  shows "visited ns0 p q ns'"
  using assms by (auto simp: visited_def writes_in_def)

context probe_docker
begin

text \<open>The container \<open>i\<close> of a run in the directory \<open>p\<close>.\<close>

definition running :: "nodes \<Rightarrow> path \<Rightarrow> path \<Rightarrow> string set \<Rightarrow> string \<Rightarrow> 'd host \<Rightarrow> bool" where
  "running ns0 p q old i h \<longleftrightarrow> visited ns0 p q (h_nodes h) \<and> mounted (snd h) i = Some q \<and>
     i \<notin> old \<and> probes (snd h) = insert i old"

definition stopped :: "nodes \<Rightarrow> path \<Rightarrow> path \<Rightarrow> string set \<Rightarrow> string \<Rightarrow> 'd host \<Rightarrow> bool" where
  "stopped ns0 p q old i h \<longleftrightarrow> visited ns0 p q (h_nodes h) \<and> i \<notin> old \<and> probes (snd h) = insert i old"

lemma running_create:
  assumes "pc_Source pc = p"
  shows "triple (\<lambda>h. visited ns0 p q (h_nodes h) \<and> probes (snd h) = old) (pd_Create D c pc)
    (\<lambda>i. running ns0 p q old i) (\<lambda>_ h. visited ns0 p q (h_nodes h))"
proof (rule tripleI)
  fix h r h'
  assume a: "visited ns0 p q (h_nodes h) \<and> probes (snd h) = old" "pd_Create D c pc h = (r, h')"
  have "resolve (h_nodes h) p = Inr q" using visited_resolve a(1) by blast
  with pd_create [OF a(2)] a(1) assms
  show "case r of Inr i \<Rightarrow> running ns0 p q old i h' | Inl e \<Rightarrow> visited ns0 p q (h_nodes h')"
    by (auto simp: running_def split: sum.splits)
qed

lemma running_start:
  "triple (running ns0 p q old i) (pd_Start D c i) (\<lambda>_. running ns0 p q old i) (\<lambda>_. stopped ns0 p q old i)"
  by (rule tripleI) (auto dest!: pd_start simp: running_def stopped_def intro: writes_visited split: sum.split)

lemma running_exit:
  "triple (running ns0 p q old i) (pd_Exit D i) (\<lambda>_. stopped ns0 p q old i) (\<lambda>_. stopped ns0 p q old i)"
  by (rule tripleI) (auto dest!: pd_exit simp: running_def stopped_def intro: writes_visited split: sum.split)

lemma stopped_quiet:
  "triple (stopped ns0 p q old i) (pd_Logs D c i) (\<lambda>_. stopped ns0 p q old i) (\<lambda>_. stopped ns0 p q old i)"
  "triple (stopped ns0 p q old i) (pd_StdCopy D l) (\<lambda>_. stopped ns0 p q old i) (\<lambda>_. stopped ns0 p q old i)"
  "triple (stopped ns0 p q old i) (pd_CloseLogs D l) (\<lambda>_. stopped ns0 p q old i) (\<lambda>_. stopped ns0 p q old i)"
  by (rule tripleI, auto dest!: pd_logs pd_copy pd_closelogs simp: stopped_def split: sum.split)+

lemma stopped_remove:
  "triple (stopped ns0 p q old i) (pd_Remove D c i) (\<lambda>_ h. visited ns0 p q (h_nodes h) \<and> probes (snd h) = old)
    (\<lambda>_ h. visited ns0 p q (h_nodes h))"
  by (rule tripleI) (auto dest!: pd_remove simp: stopped_def split: sum.split)

lemma run_spec:
  "triple (\<lambda>h. visited ns0 p q (h_nodes h) \<and> probes (snd h) = old) (dockerProbeRunner_run D img ctx user p)
    (\<lambda>_ h. visited ns0 p q (h_nodes h) \<and> probes (snd h) = old) (\<lambda>_ h. visited ns0 p q (h_nodes h))"
proof -
  have collect: "triple (stopped ns0 p q old i) (andthen (pd_Logs D c i) (\<lambda>logs. deferring
       (andthen (pd_StdCopy D logs) (\<lambda>(stdout, stderr).
         ret \<lparr>run_Wrote = w, run_Mapping = stdout, run_Stderr = stderr\<rparr>)) (pd_CloseLogs D logs)))
     (\<lambda>_. stopped ns0 p q old i) (\<lambda>_. stopped ns0 p q old i)" for c i w
    by (rule triple_andthen [OF stopped_quiet(1)],
        rule triple_deferring [where R = "\<lambda>_. stopped ns0 p q old i" and F = "\<lambda>_. stopped ns0 p q old i"],
        rule triple_andthen [OF stopped_quiet(2)])
      (simp_all add: stopped_quiet(3) triple_ret [where Q = "\<lambda>_. stopped ns0 p q old i"] split: prod.split)
  have wait: "running ns0 p q old i h \<Longrightarrow> running ns0 p q old i (pd_Wait D c i h)" for c i h
    using pd_wait [of c i h "pd_Wait D c i h"] by (simp add: running_def)
  have work: "triple (running ns0 p q old i) (\<lambda>h. andthen (pd_Start D c i) (\<lambda>_.
         andthen (pd_Exit D i) (\<lambda>exit. case wr_Error exit of
           Some m \<Rightarrow> fail (Msg m)
         | None \<Rightarrow> andthen (pd_Logs D c i) (\<lambda>logs. deferring
             (andthen (pd_StdCopy D logs) (\<lambda>(stdout, stderr).
               ret \<lparr>run_Wrote = (wr_StatusCode exit = 0), run_Mapping = stdout, run_Stderr = stderr\<rparr>))
             (pd_CloseLogs D logs)))) (pd_Wait D c i h))
     (\<lambda>_. stopped ns0 p q old i) (\<lambda>_. stopped ns0 p q old i)" for c i
  proof -
    have "triple (running ns0 p q old i) (andthen (pd_Start D c i) (\<lambda>_.
         andthen (pd_Exit D i) (\<lambda>exit. case wr_Error exit of
           Some m \<Rightarrow> fail (Msg m)
         | None \<Rightarrow> andthen (pd_Logs D c i) (\<lambda>logs. deferring
             (andthen (pd_StdCopy D logs) (\<lambda>(stdout, stderr).
               ret \<lparr>run_Wrote = (wr_StatusCode exit = 0), run_Mapping = stdout, run_Stderr = stderr\<rparr>))
             (pd_CloseLogs D logs)))))
     (\<lambda>_. stopped ns0 p q old i) (\<lambda>_. stopped ns0 p q old i)"
    proof (rule triple_andthen [OF running_start], rule triple_andthen [OF running_exit])
      fix exit
      show "triple (stopped ns0 p q old i) (case wr_Error exit of
           Some m \<Rightarrow> fail (Msg m)
         | None \<Rightarrow> andthen (pd_Logs D c i) (\<lambda>logs. deferring
             (andthen (pd_StdCopy D logs) (\<lambda>(stdout, stderr).
               ret \<lparr>run_Wrote = (wr_StatusCode exit = 0), run_Mapping = stdout, run_Stderr = stderr\<rparr>))
             (pd_CloseLogs D logs))) (\<lambda>_. stopped ns0 p q old i) (\<lambda>_. stopped ns0 p q old i)"
      proof (cases "wr_Error exit")
        case None
        show ?thesis unfolding None option.case by (rule collect)
      next
        case (Some m)
        show ?thesis unfolding Some option.case by (rule triple_fail [where E = "\<lambda>_. stopped ns0 p q old i"])
      qed
    qed
    from triple_after [OF this wait] show ?thesis .
  qed
  show ?thesis
    unfolding dockerProbeRunner_run_def Let_def
    apply (rule triple_andthen [OF running_create])
     apply (simp add: probe_container_def)
    apply (rule triple_releasing [OF work stopped_remove])
    apply (rule triple_weaken [OF stopped_remove]; simp)
    apply simp
    done
qed

end

sublocale probe_docker \<subseteq> runner: probe_runner "dockerProbeRunner_run D img ctx" probes kept for img ctx
proof (unfold_locales, goal_cases)
  case (1 user dir h r h' ns0 q)
  from tripleD [OF run_spec _ 1(1), of ns0 q "probes (snd h)"] 1(2) show ?case by (auto split: sum.splits)
next
  case (2 user dir h res h' ns0 q)
  from tripleD [OF run_spec _ 2(1), of ns0 q "probes (snd h)"] 2(2) show ?case by simp
next
  case (3 user dir)
  show ?case
    unfolding dockerProbeRunner_run_def by (intro frames frame_releasing frame_after [where g = "pd_Wait D c i" for c i] pd_kept)
qed

context probe_docker
begin

lemmas docker_runner = runner.probe_runner_axioms

end

section \<open>Properties\<close>

text \<open>C18: the container user MinIO runs as is measured, never guessed: it is one of the two candidates,
  and a file its container wrote into a fresh directory was seen on the host as the agent's own.
  Measuring leaves no trace: on success the tree is exactly what it was and no probe container
  is left, and on any failure everything that was there still is.\<close>

theorem choose_user_measured:
  assumes "probe_docker D probes mounted kept" "fs_wf (h_nodes h)"
    and "chooseMinIOContainerUser (dockerProbeRunner_run D img ctx) (hostFileOwner sys) rnd parent euid egid h = (r, h')"
  shows "case r of
      Inl e \<Rightarrow> grows (h_nodes h) (h_nodes h')
    | Inr (user, mapping) \<Rightarrow> user \<in> set (user_candidates euid egid) \<and>
        measured (dockerProbeRunner_run D img ctx) sys rnd parent user euid \<and>
        (\<forall>p. node_at (h_nodes h') p = node_at (h_nodes h) p) \<and> probes (snd h') = probes (snd h)"
proof -
  have "same_nodes (h_nodes h) (h_nodes h) \<and> probes (snd h) = probes (snd h)" using assms(2) by (simp add: same_nodes_def)
  from tripleD [OF probe_runner.choose_spec [OF probe_docker.docker_runner [OF assms(1)] assms(2)] this assms(3)]
  show ?thesis by (auto simp: same_nodes_def split: sum.splits)
qed

section \<open>The engine's probe\<close>

text \<open>A container writes its file into its mount when the directory is there; its exit is a success.\<close>

definition fresh_probe :: "(string \<times> path) list \<Rightarrow> string" where
  "fresh_probe ps = replicate (Suc (fold (\<lambda>(j, q). max (length j)) ps 0)) CHR ''p''"

definition probe_write :: "string \<Rightarrow> FS \<Rightarrow> Daemon \<Rightarrow> FS" where
  "probe_write i fs d = (case map_of (dm_probes d) i of
     Some q \<Rightarrow> (if node_at (fs_nodes fs) q = Some Dir \<and> node_at (fs_nodes fs) (q @ [minioProbeFile]) = None
       then fs\<lparr>fs_nodes := (q @ [minioProbeFile], File []) # fs_nodes fs\<rparr> else fs)
   | None \<Rightarrow> fs)"

definition engine_probe :: "(Daemon, unit) ProbeDocker" where
  "engine_probe = \<lparr>
     pd_Create = (\<lambda>c pc. engine (\<lambda>fs d. let i = fresh_probe (dm_probes d) in
       case resolve (fs_nodes fs) (pc_Source pc) of
         Inl e \<Rightarrow> (Inl (Lib ''invalid mount'' [] []), fs, d)
       | Inr q \<Rightarrow> (Inr i, fs, d\<lparr>dm_probes := (i, q) # dm_probes d\<rparr>))),
     pd_Wait = (\<lambda>c i h. h),
     pd_Start = (\<lambda>c i. engine (\<lambda>fs d. (Inr (), probe_write i fs d, d))),
     pd_Exit = (\<lambda>i. engine (\<lambda>fs d. (Inr \<lparr>wr_StatusCode = 0, wr_Error = None\<rparr>, fs, d))),
     pd_Logs = (\<lambda>c i. engine (\<lambda>fs d. (Inr (), fs, d))),
     pd_StdCopy = (\<lambda>l. engine (\<lambda>fs d. (Inr (''0 1000 1'', []), fs, d))),
     pd_CloseLogs = (\<lambda>l. engine (\<lambda>fs d. (Inr (), fs, d))),
     pd_Remove = (\<lambda>c i. engine (\<lambda>fs d. (Inr (), fs, d\<lparr>dm_probes := AList.delete i (dm_probes d)\<rparr>)))\<rparr>"

definition engine_probes :: "Daemon \<Rightarrow> string set" where
  "engine_probes d = fst ` set (dm_probes d)"

definition engine_mounted :: "Daemon \<Rightarrow> string \<Rightarrow> path option" where
  "engine_mounted d = map_of (dm_probes d)"

lemma fold_max_ge: "(j, q) \<in> set ps \<Longrightarrow> length j \<le> fold (\<lambda>(j, q). max (length j)) ps (n :: nat)"
proof (induction ps arbitrary: n)
  case (Cons p ps)
  have mono: "m \<le> fold (\<lambda>(j, q). max (length j)) ps m" for m
    by (induction ps arbitrary: m) (auto intro: le_trans [OF max.cobounded2] split: prod.split)
  from Cons mono show ?case by (cases p) (auto intro: le_trans [OF max.cobounded1])
qed simp

lemma fresh_probe_new: "(fresh_probe ps, q) \<notin> set ps"
proof
  assume "(fresh_probe ps, q) \<in> set ps"
  from fold_max_ge [OF this, of 0] show False by (simp add: fresh_probe_def)
qed

lemma fresh_probe_notin: "fresh_probe ps \<notin> fst ` set ps"
  using fresh_probe_new by (metis imageE prod.collapse)

lemma wf_file:
  assumes "fs_wf ns" "node_at ns q = Some Dir" "node_at ns (q @ [x]) = None"
  shows "fs_wf ((q @ [x], File b) # ns)"
  using assms by (auto simp: fs_wf_def node_at_def split: if_splits)

lemma node_at_Cons: "node_at ((a, n) # ns) p = (if p = [] then Some Dir else if p = a then Some n else node_at ns p)"
  by (simp add: node_at_def)

lemma probe_write_in: "writes_in (engine_mounted d i) (fs_nodes fs) (fs_nodes (probe_write i fs d))"
proof (cases "\<exists>q. map_of (dm_probes d) i = Some q \<and> node_at (fs_nodes fs) q = Some Dir \<and>
    node_at (fs_nodes fs) (q @ [minioProbeFile]) = None")
  case True
  then obtain q where q: "map_of (dm_probes d) i = Some q" "node_at (fs_nodes fs) q = Some Dir"
    "node_at (fs_nodes fs) (q @ [minioProbeFile]) = None" by blast
  from wf_file [OF _ q(2,3), of "[]"] q show ?thesis
    by (auto simp: writes_in_def engine_mounted_def probe_write_def node_at_Cons)
next
  case False
  then have "probe_write i fs d = fs" by (auto simp: probe_write_def split: option.split)
  then show ?thesis by (auto simp: writes_in_def split: option.split)
qed

interpretation engine: probe_docker engine_probe engine_probes engine_mounted "\<lambda>d. (dm_containers d, dm_runners d, dm_locks d)"
proof (unfold_locales, goal_cases)
  case (1 c pc h h' r)
  then show ?case
    by (cases h; cases h') (auto simp: engine_probe_def Let_def engine_probes_def engine_mounted_def fresh_probe_new fresh_probe_notin
        elim!: engine_cases split: sum.splits)
next
  case (2 c i h h')
  then show ?case by (simp add: engine_probe_def)
next
  case (3 c i h h' r)
  have "writes_in m ns ns" for m ns by (auto simp: writes_in_def split: option.split)
  with 3 show ?case
    by (cases h; cases h') (auto simp: engine_probe_def engine_probes_def engine_mounted_def
        probe_write_in [unfolded engine_mounted_def, of "d\<lparr>dm_refusals := x\<rparr>" for d x, simplified] elim!: engine_cases)
next
  case (4 i h h' r)
  have "writes_in m ns ns" for m ns by (auto simp: writes_in_def split: option.split)
  with 4 show ?case by (cases h; cases h') (auto simp: engine_probe_def engine_probes_def engine_mounted_def elim!: engine_cases)
next
  case (5 c i h h' r)
  then show ?case by (cases h; cases h') (auto simp: engine_probe_def engine_probes_def elim!: engine_cases)
next
  case (6 l h h' r)
  then show ?case by (cases h; cases h') (auto simp: engine_probe_def engine_probes_def elim!: engine_cases)
next
  case (7 l h h' r)
  then show ?case by (cases h; cases h') (auto simp: engine_probe_def engine_probes_def elim!: engine_cases)
next
  case (8 c i h h' r)
  then show ?case
    by (cases h; cases h') (auto simp: engine_probe_def engine_probes_def AList.delete_eq elim!: engine_cases)
qed (auto simp: engine_probe_def Let_def elim!: engine_cases intro!: frameI split: sum.splits)

section \<open>A run on the engine\<close>

definition idle :: Daemon where
  "idle = \<lparr>dm_refusals = [], dm_networks = [], dm_containers = [], dm_runners = [], dm_probes = [], dm_locks = []\<rparr>"

definition scratch_fs :: FS where
  "scratch_fs = \<lparr>fs_nodes = fs_nodes (sample_fs []) @ [([''h'', ''.user-probe-1''], Dir)], fs_faults = [], fs_disk = None\<rparr>"

definition owned_fs :: FS where
  "owned_fs = \<lparr>fs_nodes = ([''h'', ''.user-probe-1'', minioProbeFile], File []) # fs_nodes scratch_fs, fs_faults = [], fs_disk = None\<rparr>"

abbreviation any_owner :: "Daemon host \<Rightarrow> path \<Rightarrow> (int \<times> int) option" where
  "any_owner h p \<equiv> Some (1000, 1000)"

abbreviation no_deadline :: Ctx where "no_deadline \<equiv> \<lparr>cx_Caller = True, cx_Timeout = None\<rparr>"

lemma engine_quiet: "dm_refusals d = [] \<Longrightarrow> engine f (fs, d) = f fs d"
  by (cases d) (simp add: engine_def)

lemma sample_mkdirtemp:
  "on_fs (os_MkdirTemp (\<lambda>ns. ''1'') [''h''] ''.user-probe-'') (sample_fs [], idle) = (Inr [''h'', ''.user-probe-1''], scratch_fs, idle)"
  by (simp add: on_fs_def os_MkdirTemp_def make_temp_def scratch_fs_def sample_fs_def io_eval Let_def)

lemma sample_run:
  "dockerProbeRunner_run engine_probe ''minio'' no_deadline user [''h'', ''.user-probe-1''] (scratch_fs, idle) =
     (Inr \<lparr>run_Wrote = True, run_Mapping = ''0 1000 1'', run_Stderr = []\<rparr>, owned_fs, idle)"
  by (simp add: dockerProbeRunner_run_def Let_def engine_probe_def probe_container_def probe_write_def engine_quiet idle_def
      fresh_probe_def scratch_fs_def owned_fs_def sample_fs_def releasing_def handle_def andthen_def ret_def fail_def
      deferring_def node_at_def cong: io_cong)

lemma sample_owner:
  "hostFileOwner any_owner [''h'', ''.user-probe-1'', minioProbeFile] (owned_fs, idle) = (Inr (1000, 1000), owned_fs, idle)"
  by (simp add: hostFileOwner_def on_fs_def owned_fs_def scratch_fs_def sample_fs_def io_eval Let_def)

lemma sample_removeall:
  "on_fs (os_RemoveAll [''h'', ''.user-probe-1'']) (owned_fs, idle) = (Inr (), sample_fs [], idle)"
  by (simp add: on_fs_def os_RemoveAll_def remove_all_def below_def owned_fs_def scratch_fs_def sample_fs_def io_eval Let_def)

lemma sample_fields: "Fields ''0 1000 1'' = [''0'', ''1000'', ''1'']"
  by (simp add: Fields_def fields_from.simps space_seqs_def has_prefix_def)

lemma sample_choose:
  "chooseMinIOContainerUser (dockerProbeRunner_run engine_probe ''minio'' no_deadline) (hostFileOwner any_owner)
     (\<lambda>ns. ''1'') [''h''] 1000 1000 (sample_fs [], idle) = (Inr (''1000:1000'', ''0 1000 1''), sample_fs [], idle)"
proof -
  have user: "user_candidates 1000 1000 = [''1000:1000'', ''0:0'']" by (simp add: user_candidates_def dec_int_def dec_nat.simps char_of_def bit_iff_odd)
  have one: "probe_in (dockerProbeRunner_run engine_probe ''minio'' no_deadline) (hostFileOwner any_owner) c 1000
      [''h'', ''.user-probe-1''] (scratch_fs, idle) = (Inr ([], ''0 1000 1''), owned_fs, idle)" for c
    by (simp add: probe_in_def handle_def ret_def sample_run sample_owner sample_fields Let_def)
  show ?thesis
    by (simp add: chooseMinIOContainerUser_def user probeMinIOUser_def handle_def andthen_def ret_def releasing_def Let_def
        sample_mkdirtemp one sample_removeall)
qed

lemma choose_user_measured_witness:
  "measured (dockerProbeRunner_run engine_probe ''minio'' no_deadline) any_owner (\<lambda>ns. ''1'') [''h''] ''1000:1000'' 1000"
proof -
  have "fs_wf (h_nodes (sample_fs [], idle))" by (simp add: fs_wf_def sample_fs_def node_at_def)
  from choose_user_measured [OF engine.probe_docker_axioms this sample_choose] show ?thesis by simp
qed

end
