(* ===== verification/Preflight.thy ===== *)
theory Preflight
  imports Probe
begin

text \<open>
  Preparing the local MinIO's data before any container may be touched (\<open>prepareMinIOData\<close>
  in src/minio_custody.go): the custody directory, the container user, the lock that keeps
  concurrent runs apart, and the custody of what is there. The lock library, the Docker client
  and the digests are the record \<open>Preflight\<close>.
\<close>

section \<open>The environment of a preparation\<close>

record ('c, 'd, 'l) Preflight =
  pf_core :: "'c Core"
  pf_custody :: CustodyEnv
  pf_docker :: "('d, 'l) ProbeDocker"
  pf_ctx :: Ctx
  pf_NewClient :: "('d host, unit) act"
  pf_CloseClient :: "('d host, unit) act"
  pf_DaemonHost :: string
  pf_GetImageIfNotPresent :: "DockerImage \<Rightarrow> ('d host, unit) act"
  pf_ContainerInspect :: "string \<Rightarrow> ('d host, Container) act"
  pf_TryLock :: "path \<Rightarrow> 'd host \<Rightarrow> (bool \<times> goerr option \<times> bool) \<times> 'd host"
  pf_Unlock :: "path \<Rightarrow> ('d host, unit) act"
  pf_Home :: path
  pf_Abs :: "path \<Rightarrow> goerr + path"
  pf_Hex256 :: "string \<Rightarrow> string"
  pf_Identity :: "string list \<Rightarrow> string"
  pf_Clean :: "string \<Rightarrow> string"
  pf_Image :: DockerImage
  pf_FullName :: "DockerImage \<Rightarrow> string"
  pf_Euid :: int
  pf_Egid :: int
  pf_Sys :: "'d host \<Rightarrow> path \<Rightarrow> (int \<times> int) option"

definition minioCustodyDir :: "('c, 'd, 'l) Preflight \<Rightarrow> string \<Rightarrow> path" where
  "minioCustodyDir E owner = pf_Home E @ [''object-storage'', pf_Hex256 E owner]"

definition minioOwner :: "('c, 'd, 'l) Preflight \<Rightarrow> Service \<Rightarrow> string" where
  "minioOwner E s = (case sv_Identity s of (workspace, modul, name) \<Rightarrow>
     pf_Identity E [workspace, modul, name, sv_NamingScope s])"

text \<open>\<open>filepath.EvalSymlinks\<close>.\<close>

definition eval_symlinks :: "path \<Rightarrow> nodes \<Rightarrow> goerr + path" where
  "eval_symlinks p ns = (case resolve ns p of
     Inl e \<Rightarrow> Inl e
   | Inr q \<Rightarrow> (if node_at ns q = None then Inl (Sentinel ErrNotExist) else Inr q))"

definition os_EvalSymlinks :: "path \<Rightarrow> path io" where
  "os_EvalSymlinks p = named ''lstat'' p (observe (eval_symlinks p))"

definition lock_name :: "path \<Rightarrow> path" where
  "lock_name p = butlast p @ [last p @ ''.lock'']"

text \<open>The wait for the lock: its error counts only while the wait's own context is live.\<close>

definition take_lock :: "('c, 'd, 'l) Preflight \<Rightarrow> string \<Rightarrow> path \<Rightarrow> ('d host, unit) act" where
  "take_lock E owner p h = (let ((locked, err, expired), h') = pf_TryLock E p h in
     (if err \<noteq> None \<and> \<not> expired then Inl (the err)
      else if \<not> locked then Inl (Msg (''MinIO custody for '' @ owner @ '' is still held by another run after 30s''))
      else Inr (), h'))"

section \<open>Under the lock\<close>

abbreviation on_files :: "'a io \<Rightarrow> ('d World, 'a) act" where "on_files m \<equiv> on_host (on_fs m)"

definition legacy_error :: "path \<Rightarrow> string \<Rightarrow> goerr" where
  "legacy_error p stat = Msg (''ambiguous legacy custody at '' @ path_string p
     @ ''; explicit verified recovery is required (stat: '' @ stat @ '')'')"

definition check_existing ::
  "('c, 'd, 'l) Preflight \<Rightarrow> string \<Rightarrow> path \<Rightarrow> ('d World, bool) act" where
  "check_existing E displayName data =
     handle (on_host (pf_ContainerInspect E displayName))
       (\<lambda>err. if \<not> IsNotFound err then fail err else ret False)
       (\<lambda>existing. case validateMinIOMount (pf_Clean E) existing (path_string data) of
          Some err \<Rightarrow> fail err
        | None \<Rightarrow> ret True)"

definition hold_custody :: "('c, 'd, 'l) Preflight \<Rightarrow> path \<Rightarrow> string \<Rightarrow> string \<Rightarrow> string \<Rightarrow> ('d World, unit) act" where
  "hold_custody E root owner bucket displayName =
     handle (on_files (os_Lstat (minioCustodyDir E displayName)))
       (\<lambda>legacyErr. if \<not> errors_is legacyErr ErrNotExist
          then fail (legacy_error (minioCustodyDir E displayName) (Error legacyErr))
          else andthen (check_existing E displayName (root @ [''data''])) (\<lambda>present.
            andthen (on_files (ensureMinIOCustody (pf_custody E) root owner bucket present)) (\<lambda>_.
            andthen (on_files (os_ReadFile (root @ [custody_json]))) (\<lambda>record.
            case unmarshal (pf_custody E) record of
              Inl err \<Rightarrow> fail err
            | Inr custody \<Rightarrow> modify_rt (\<lambda>s. s\<lparr>rt_minio :=
                \<lparr>mr_custodyRoot = root, mr_newStore = (mc_Phase custody = ''pending'')\<rparr>\<rparr>)))))
       (\<lambda>info. fail (legacy_error (minioCustodyDir E displayName) ''<nil>''))"

section \<open>The preparation\<close>

text \<open>The result is the data directory and the lock, whose release is the caller's.\<close>

definition custody_error :: "goerr \<Rightarrow> goerr" where
  "custody_error err = Wrapped (''MinIO custody: '' @ Error err @ ''; preserve existing data and follow README recovery instructions'') [err]"

definition prepare_at :: "('c, 'd, 'l) Preflight \<Rightarrow> Runtime \<Rightarrow> path \<Rightarrow> ('d World, path \<times> path) act" where
  "prepare_at E s root0 =
     (let owner = minioOwner E (rt_Service s);
          displayName = ContainerName (pf_core E) (sv_UniqueWithWorkspace (rt_Service s) @ ''-minio'') in
      if \<not> has_prefix (pf_DaemonHost E) ''unix://'' \<and> \<not> has_prefix (pf_DaemonHost E) ''npipe://''
      then fail (Msg ''local MinIO custody requires a Docker daemon sharing the agent host filesystem'')
      else andthen (on_files (os_MkdirAll (butlast root0))) (\<lambda>_.
        andthen (on_files (os_EvalSymlinks (butlast root0))) (\<lambda>parent.
        let root = parent @ [last root0] in
        handle (on_host (pf_GetImageIfNotPresent E (pf_Image E))) (\<lambda>err. fail (errorf ''pull MinIO image'' err)) (\<lambda>_.
        andthen (on_host (chooseMinIOContainerUser
            (dockerProbeRunner_run (pf_docker E) (pf_FullName E (pf_Image E)) (pf_ctx E)) (hostFileOwner (pf_Sys E))
            (pick (pf_custody E)) parent (pf_Euid E) (pf_Egid E))) (\<lambda>(user, mapping).
        andthen (modify_rt (rt_minioContainerUser_update (\<lambda>_. user))) (\<lambda>_.
        let lock = lock_name (minioCustodyDir E displayName) in
        andthen (on_host (take_lock E owner lock)) (\<lambda>_.
        handle (hold_custody E root owner (cf_bucket (rt_conf s)) displayName)
          (\<lambda>err. deferring (fail (custody_error err)) (on_host (pf_Unlock E lock)))
          (\<lambda>_. ret (root @ [''data''], lock)))))))))"

definition prepareMinIOData :: "('c, 'd, 'l) Preflight \<Rightarrow> ('d World, path \<times> path) act" where
  "prepareMinIOData E = andthen get_rt (\<lambda>s.
     case pf_Abs E (minioCustodyDir E (minioOwner E (rt_Service s))) of
       Inl err \<Rightarrow> fail err
     | Inr root \<Rightarrow> andthen (on_host (pf_NewClient E)) (\<lambda>_.
         deferring (prepare_at E s root) (on_host (pf_CloseClient E))))"

section \<open>What the host promises\<close>

text \<open>
  \<open>held\<close> reads the locks this process holds. Taking a lock may make its file; the other calls
  touch no file, and none but the two of the lock changes what is held. An unlock that returns an
  error promises nothing about the lock.
\<close>

locale preflight =
  probe_docker "pf_docker E" probes mounted "\<lambda>d. (held d, kept d)"
  for E :: "('c, 'd, 'l) Preflight" and probes mounted and held :: "'d \<Rightarrow> path set" and kept :: "'d \<Rightarrow> 'k" +
  assumes pf_files: "frame fst (pf_NewClient E)" "frame fst (pf_CloseClient E)" "frame fst (pf_GetImageIfNotPresent E i)"
      "frame fst (pf_ContainerInspect E n)" "frame fst (pf_Unlock E p)"
    and pf_held: "frame (\<lambda>h. held (snd h)) (pf_NewClient E)" "frame (\<lambda>h. held (snd h)) (pf_CloseClient E)"
      "frame (\<lambda>h. held (snd h)) (pf_GetImageIfNotPresent E i)" "frame (\<lambda>h. held (snd h)) (pf_ContainerInspect E n)"
    and pf_kept: "frame (\<lambda>h. kept (snd h)) (pf_NewClient E)" "frame (\<lambda>h. kept (snd h)) (pf_CloseClient E)"
      "frame (\<lambda>h. kept (snd h)) (pf_GetImageIfNotPresent E i)" "frame (\<lambda>h. kept (snd h)) (pf_ContainerInspect E n)"
      "frame (\<lambda>h. kept (snd h)) (pf_Unlock E p)" "kept (snd (snd (pf_TryLock E p h))) = kept (snd h)"
    and pf_lock: "pf_TryLock E p h = ((locked, err, expired), h') \<Longrightarrow>
      grows (h_nodes h) (h_nodes h') \<and> (fs_wf (h_nodes h) \<longrightarrow> fs_wf (h_nodes h')) \<and>
      held (snd h') = (if locked then insert p (held (snd h)) else held (snd h)) \<and>
      (locked \<longrightarrow> p \<notin> held (snd h) \<and> err = None)"
    and pf_unlock: "pf_Unlock E p h = (Inr (), h') \<Longrightarrow> held (snd h') = held (snd h) - {p}"

context preflight
begin

text \<open>The host since \<open>ns0\<close>: nothing lost, the tree well formed, the locks \<open>L\<close> held.\<close>

definition kept_at :: "nodes \<Rightarrow> path set \<Rightarrow> 'd host \<Rightarrow> bool" where
  "kept_at ns0 L h \<longleftrightarrow> grows ns0 (h_nodes h) \<and> fs_wf (h_nodes h) \<and> held (snd h) = L"

lemma quiet:
  assumes "frame fst m" "frame (\<lambda>h. held (snd h)) m"
  shows "triple (kept_at ns0 L) m (\<lambda>_. kept_at ns0 L) (\<lambda>_. kept_at ns0 L)"
proof (rule tripleI)
  fix h r h'
  assume k: "kept_at ns0 L h" and m: "m h = (r, h')"
  have "kept_at ns0 L h'"
    using k frameD [OF assms(1) m] frameD [OF assms(2) m] by (simp add: kept_at_def)
  then show "case r of Inr a \<Rightarrow> kept_at ns0 L h' | Inl e \<Rightarrow> kept_at ns0 L h'" by (cases r) simp_all
qed

lemma kept_mkdir: "triple (kept_at ns0 L) (on_fs (os_MkdirAll p)) (\<lambda>_. kept_at ns0 L) (\<lambda>_. kept_at ns0 L)"
proof (rule triple_each)
  fix h assume "kept_at ns0 L h"
  then show "triple (\<lambda>s. s = h) (on_fs (os_MkdirAll p)) (\<lambda>_. kept_at ns0 L) (\<lambda>_. kept_at ns0 L)"
    by - (rule triple_weaken [OF triple_fs [OF hoare_MkdirAll [of ns0], where d = "snd h"]]; auto simp: kept_at_def)
qed

lemma kept_observe:
  "triple (kept_at ns0 L) (on_fs (named op p (observe f))) (\<lambda>a h. kept_at ns0 L h \<and> f (h_nodes h) = Inr a) (\<lambda>_. kept_at ns0 L)"
proof (rule triple_each)
  fix h assume "kept_at ns0 L h"
  then show "triple (\<lambda>s. s = h) (on_fs (named op p (observe f))) (\<lambda>a h. kept_at ns0 L h \<and> f (h_nodes h) = Inr a) (\<lambda>_. kept_at ns0 L)"
    by - (rule triple_weaken [OF triple_fs [OF hoare_named_observe [of "\<lambda>ns. ns = h_nodes h"], where d = "snd h"]]; auto simp: kept_at_def)
qed

lemma kept_quiet:
  "triple (kept_at ns0 L) (on_fs (named op p (observe f))) (\<lambda>_. kept_at ns0 L) (\<lambda>_. kept_at ns0 L)"
  by (rule triple_weaken [OF kept_observe [of ns0 L]]) simp_all

lemma kept_choose:
  "triple (kept_at ns0 L) (chooseMinIOContainerUser (dockerProbeRunner_run (pf_docker E) img ctx) (hostFileOwner sys) rnd parent euid egid)
    (\<lambda>res h. kept_at ns0 L h \<and> measured (dockerProbeRunner_run (pf_docker E) img ctx) sys rnd parent (fst res) euid)
    (\<lambda>_. kept_at ns0 L)"
proof (rule tripleI)
  fix h r h'
  assume k: "kept_at ns0 L h"
    and c: "chooseMinIOContainerUser (dockerProbeRunner_run (pf_docker E) img ctx) (hostFileOwner sys) rnd parent euid egid h = (r, h')"
  have wf: "fs_wf (h_nodes h)" "grows ns0 (h_nodes h)" using k by (simp_all add: kept_at_def)
  then have "same_nodes (h_nodes h) (h_nodes h) \<and> probes (snd h) = probes (snd h)" by (simp add: same_nodes_def)
  note out = tripleD [OF runner.choose_spec [OF wf(1)] this c]
  have "held (snd h') = L" using frameD [OF runner.frame_choose c] k by (simp add: kept_at_def)
  with out wf(2)
  show "case r of Inr res \<Rightarrow> kept_at ns0 L h' \<and> measured (dockerProbeRunner_run (pf_docker E) img ctx) sys rnd parent (fst res) euid
    | Inl e \<Rightarrow> kept_at ns0 L h'"
    by (cases r) (auto simp: kept_at_def dest: same_nodes_growing intro: grows_trans)
qed

lemma kept_lock:
  "triple (kept_at ns0 L) (take_lock E owner p) (\<lambda>_ h. kept_at ns0 (insert p L) h \<and> p \<notin> L) (\<lambda>_. kept_at ns0 L)"
proof (rule tripleI)
  fix h r h'
  assume k: "kept_at ns0 L h" and t: "take_lock E owner p h = (r, h')"
  obtain locked err expired h1 where l: "pf_TryLock E p h = ((locked, err, expired), h1)" by (metis prod.exhaust)
  from pf_lock [OF l] k t l
  show "case r of Inr u \<Rightarrow> kept_at ns0 (insert p L) h' \<and> p \<notin> L | Inl e \<Rightarrow> kept_at ns0 L h'"
    by (auto simp: take_lock_def kept_at_def intro: grows_trans split: if_splits)
qed

text \<open>Once custody is being written, the tree only grows.\<close>

definition loose_at :: "nodes \<Rightarrow> path set \<Rightarrow> 'd host \<Rightarrow> bool" where
  "loose_at ns0 L h \<longleftrightarrow> grows ns0 (h_nodes h) \<and> held (snd h) = L"

lemma kept_loose: "kept_at ns0 L h \<Longrightarrow> loose_at ns0 L h"
  by (simp add: kept_at_def loose_at_def)

lemma loose_ensure:
  assumes "root \<noteq> []"
  shows "triple (kept_at ns0 L) (on_fs (ensureMinIOCustody env root owner bucket present))
    (\<lambda>_ h. loose_at ns0 L h \<and> (\<exists>c. in_custody env root owner bucket c (h_nodes h))) (\<lambda>_. loose_at ns0 L)"
proof (rule triple_each)
  fix h assume k: "kept_at ns0 L h"
  then have "fs_wf (h_nodes h)" by (simp add: kept_at_def)
  from triple_fs [OF ensure_spec [OF this assms, of env owner bucket present], where d = "snd h"] k
  show "triple (\<lambda>s. s = h) (on_fs (ensureMinIOCustody env root owner bucket present))
    (\<lambda>_ h. loose_at ns0 L h \<and> (\<exists>c. in_custody env root owner bucket c (h_nodes h))) (\<lambda>_. loose_at ns0 L)"
    by (auto elim!: triple_weaken simp: kept_at_def loose_at_def intro: grows_trans)
qed

lemma loose_read:
  "triple (\<lambda>h. loose_at ns0 L h \<and> P (h_nodes h)) (on_fs (os_ReadFile p))
    (\<lambda>d h. loose_at ns0 L h \<and> P (h_nodes h) \<and> read_file (h_nodes h) p = Inr d) (\<lambda>_. loose_at ns0 L)"
proof (rule triple_each)
  fix h assume "loose_at ns0 L h \<and> P (h_nodes h)"
  then show "triple (\<lambda>s. s = h) (on_fs (os_ReadFile p))
    (\<lambda>d h. loose_at ns0 L h \<and> P (h_nodes h) \<and> read_file (h_nodes h) p = Inr d) (\<lambda>_. loose_at ns0 L)"
    by - (rule triple_weaken [OF triple_fs [OF hoare_ReadFile [of "\<lambda>ns. ns = h_nodes h"], where d = "snd h"]]; auto simp: loose_at_def)
qed

lemma kept_existing:
  "triple (\<lambda>w. kept_at ns0 L (w_host w) \<and> w_rt w = s) (check_existing E n data)
    (\<lambda>_ w. kept_at ns0 L (w_host w) \<and> w_rt w = s) (\<lambda>_ w. kept_at ns0 L (w_host w) \<and> w_rt w = s)"
  unfolding check_existing_def
  by (rule triple_handle [OF triple_host [OF quiet [OF pf_files(4) pf_held(4)]]])
    (auto simp: triple_def fail_def ret_def split: option.split)

lemma hold_spec:
  assumes "root \<noteq> []"
  shows "triple (\<lambda>w. kept_at ns0 L (w_host w) \<and> w_rt w = s) (hold_custody E root owner bucket n)
    (\<lambda>_ w. loose_at ns0 L (w_host w) \<and> (\<exists>c. in_custody (pf_custody E) root owner bucket c (h_nodes (w_host w)) \<and>
       w_rt w = s\<lparr>rt_minio := \<lparr>mr_custodyRoot = root, mr_newStore = (mc_Phase c = ''pending'')\<rparr>\<rparr>))
    (\<lambda>_ w. loose_at ns0 L (w_host w))"
proof -
  let ?env = "pf_custody E"
  let ?C = "\<lambda>ns. \<exists>c. in_custody ?env root owner bucket c ns"
  let ?K = "\<lambda>w. kept_at ns0 L (w_host w) \<and> w_rt w = s"
  let ?E = "\<lambda>w :: 'd World. loose_at ns0 L (w_host w)"
  have store: "triple (\<lambda>w. (loose_at ns0 L (w_host w) \<and> ?C (h_nodes (w_host w)) \<and>
        read_file (h_nodes (w_host w)) (root @ [custody_json]) = Inr rc) \<and> w_rt w = s)
      (case unmarshal ?env rc of Inl err \<Rightarrow> fail err | Inr custody \<Rightarrow> modify_rt (\<lambda>s. s\<lparr>rt_minio :=
         \<lparr>mr_custodyRoot = root, mr_newStore = (mc_Phase custody = ''pending'')\<rparr>\<rparr>))
      (\<lambda>_ w. loose_at ns0 L (w_host w) \<and> (\<exists>c. in_custody ?env root owner bucket c (h_nodes (w_host w)) \<and>
        w_rt w = s\<lparr>rt_minio := \<lparr>mr_custodyRoot = root, mr_newStore = (mc_Phase c = ''pending'')\<rparr>\<rparr>))
      (\<lambda>_. ?E)" for rc
    by (rule tripleI) (auto simp: in_custody_def fail_def modify_rt_def split: sum.splits)
  have hold: "triple ?K (andthen (check_existing E n (root @ [''data''])) (\<lambda>present.
            andthen (on_files (ensureMinIOCustody ?env root owner bucket present)) (\<lambda>_.
            andthen (on_files (os_ReadFile (root @ [custody_json]))) (\<lambda>record.
            case unmarshal ?env record of Inl err \<Rightarrow> fail err | Inr custody \<Rightarrow> modify_rt (\<lambda>s. s\<lparr>rt_minio :=
                \<lparr>mr_custodyRoot = root, mr_newStore = (mc_Phase custody = ''pending'')\<rparr>\<rparr>)))))
    (\<lambda>_ w. loose_at ns0 L (w_host w) \<and> (\<exists>c. in_custody ?env root owner bucket c (h_nodes (w_host w)) \<and>
       w_rt w = s\<lparr>rt_minio := \<lparr>mr_custodyRoot = root, mr_newStore = (mc_Phase c = ''pending'')\<rparr>\<rparr>)) (\<lambda>_. ?E)"
    apply (rule triple_andthen [OF triple_weaken [OF kept_existing [of ns0 L s]]])
        apply simp
       apply assumption
      apply (simp add: kept_loose)
     apply (rule triple_andthen [OF triple_weaken [OF triple_host [OF loose_ensure [OF assms, of ns0 L], where s = s]]])
         apply simp
        apply assumption
       apply simp
      apply (rule triple_andthen [OF triple_weaken [OF triple_host [OF loose_read [where P = ?C and ?ns0.0 = ns0 and L = L], where s = s]]])
         apply simp
        apply assumption
       apply simp
      apply (rule triple_weaken [OF store]; simp)
    done
  show ?thesis
    unfolding hold_custody_def os_Lstat_def
    by (rule triple_handle [OF triple_host [OF kept_observe [of ns0 L], where s = s]])
      (auto simp: triple_def fail_def kept_loose intro!: hold [unfolded triple_def, rule_format])
qed

abbreviation probe_of :: "'d minioProbeRunner" where
  "probe_of \<equiv> dockerProbeRunner_run (pf_docker E) (pf_FullName E (pf_Image E)) (pf_ctx E)"

text \<open>What a preparation that returns has established for the Runtime \<open>s\<close>.\<close>

definition readied :: "nodes \<Rightarrow> path set \<Rightarrow> Runtime \<Rightarrow> path \<times> path \<Rightarrow> 'd World \<Rightarrow> bool" where
  "readied ns0 L s dl w \<longleftrightarrow> (\<exists>root c user. fst dl = root @ [''data''] \<and> root \<noteq> [] \<and> snd dl \<notin> L \<and>
     loose_at ns0 (insert (snd dl) L) (w_host w) \<and>
     in_custody (pf_custody E) root (minioOwner E (rt_Service s)) (cf_bucket (rt_conf s)) c (h_nodes (w_host w)) \<and>
     measured probe_of (pf_Sys E) (pick (pf_custody E)) (butlast root) user (pf_Euid E) \<and>
     w_rt w = s\<lparr>rt_minioContainerUser := user, rt_minio := \<lparr>mr_custodyRoot = root, mr_newStore = (mc_Phase c = ''pending'')\<rparr>\<rparr>)"

text \<open>The lock let go: what was held before is, or the unlock failed that would have released it.\<close>

definition freed :: "nodes \<Rightarrow> path set \<Rightarrow> 'd host \<Rightarrow> bool" where
  "freed ns0 L h \<longleftrightarrow> loose_at ns0 L h \<or>
     (\<exists>p h1 e. grows ns0 (h_nodes h) \<and> p \<notin> L \<and> held (snd h1) = insert p L \<and> pf_Unlock E p h1 = (Inl e, h))"

definition closed :: "nodes \<Rightarrow> path set \<Rightarrow> 'd host \<Rightarrow> bool" where
  "closed ns0 L h \<longleftrightarrow> loose_at ns0 L h \<or>
     (\<exists>p h1 e h2 q. grows ns0 (h_nodes h) \<and> p \<notin> L \<and> held (snd h1) = insert p L \<and>
        pf_Unlock E p h1 = (Inl e, h2) \<and> pf_CloseClient E h2 = (q, h))"

lemma kept_freed: "kept_at ns0 L h \<Longrightarrow> freed ns0 L h"
  by (simp add: kept_loose freed_def)

lemma kept_closed: "kept_at ns0 L h \<Longrightarrow> closed ns0 L h"
  by (simp add: kept_loose closed_def)

lemma closed_spec:
  "triple (\<lambda>w. freed ns0 L (w_host w)) (on_host (pf_CloseClient E)) (\<lambda>_ w. closed ns0 L (w_host w)) (\<lambda>_ w. closed ns0 L (w_host w))"
proof (rule tripleI)
  fix w :: "'d World" and r w'
  assume f: "freed ns0 L (w_host w)" and m: "on_host (pf_CloseClient E) w = (r, w')"
  obtain q h where q: "pf_CloseClient E (w_host w) = (q, h)" by (rule prod.exhaust)
  with m have h: "w_host w' = h" by (auto simp: on_host_def)
  have k: "fst h = fst (w_host w)" "held (snd h) = held (snd (w_host w))"
    using frameD [OF pf_files(2) q] frameD [OF pf_held(2) q] by simp_all
  have "closed ns0 L h" using f q k unfolding freed_def closed_def loose_at_def by metis
  with h show "case r of Inr a \<Rightarrow> closed ns0 L (w_host w') | Inl e \<Rightarrow> closed ns0 L (w_host w')" by (cases r) simp_all
qed

lemma release_spec:
  fixes Q :: "'x \<Rightarrow> 'd World \<Rightarrow> bool"
  shows "p \<notin> L \<Longrightarrow> triple (\<lambda>w. loose_at ns0 (insert p L) (w_host w)) (deferring (fail e) (on_host (pf_Unlock E p)))
    Q (\<lambda>_ w. freed ns0 L (w_host w))"
proof (rule tripleI)
  fix w :: "'d World" and r :: "goerr + 'x" and w' :: "'d World"
  assume p: "p \<notin> L" "loose_at ns0 (insert p L) (w_host w)" "deferring (fail e) (on_host (pf_Unlock E p)) w = (r, w')"
  obtain q h where u: "pf_Unlock E p (w_host w) = (q, h)" by (rule prod.exhaust)
  from p(3) u have r: "r = Inl e" "w_host w' = h" by (auto simp: deferring_def on_host_def fail_def)
  have g: "grows ns0 (h_nodes h)" "held (snd (w_host w)) = insert p L"
    using p(2) frameD [OF pf_files(5) u] by (simp_all add: loose_at_def)
  have "freed ns0 L h"
  proof (cases q)
    case (Inl e2)
    with u g p(1) show ?thesis unfolding freed_def by blast
  next
    case (Inr v)
    with u have "pf_Unlock E p (w_host w) = (Inr (), h)" by simp
    from pf_unlock [OF this] g p(1) show ?thesis by (simp add: freed_def loose_at_def)
  qed
  with r show "case r of Inr a \<Rightarrow> Q a w' | Inl e \<Rightarrow> freed ns0 L (w_host w')" by simp
qed

lemma locked_spec:
  assumes "root \<noteq> []" "lock \<notin> L"
    and "measured probe_of (pf_Sys E) (pick (pf_custody E)) (butlast root) user (pf_Euid E)"
  shows "triple (\<lambda>w. kept_at ns0 (insert lock L) (w_host w) \<and> w_rt w = s\<lparr>rt_minioContainerUser := user\<rparr>)
    (handle (hold_custody E root (minioOwner E (rt_Service s)) (cf_bucket (rt_conf s)) n)
       (\<lambda>err. deferring (fail (custody_error err)) (on_host (pf_Unlock E lock)))
       (\<lambda>_. ret (root @ [''data''], lock)))
    (readied ns0 L s) (\<lambda>_ w. freed ns0 L (w_host w))"
proof (rule triple_handle [OF hold_spec [OF assms(1)] release_spec [OF assms(2)]])
  show "triple (\<lambda>w. loose_at ns0 (insert lock L) (w_host w) \<and> (\<exists>c. in_custody (pf_custody E) root (minioOwner E (rt_Service s))
         (cf_bucket (rt_conf s)) c (h_nodes (w_host w)) \<and> w_rt w = s\<lparr>rt_minioContainerUser := user,
         rt_minio := \<lparr>mr_custodyRoot = root, mr_newStore = (mc_Phase c = ''pending'')\<rparr>\<rparr>))
    (ret (root @ [''data''], lock)) (readied ns0 L s) (\<lambda>_ w. freed ns0 L (w_host w))"
    unfolding triple_def ret_def readied_def using assms by auto
qed

lemma prepare_at_spec:
  "triple (\<lambda>w. kept_at ns0 L (w_host w) \<and> w_rt w = s) (prepare_at E s root0)
    (readied ns0 L s) (\<lambda>_ w. freed ns0 L (w_host w))"
proof -
  let ?E = "\<lambda>w :: 'd World. freed ns0 L (w_host w)"
  let ?K = "\<lambda>w. kept_at ns0 L (w_host w) \<and> w_rt w = s"
  have host: "triple (kept_at ns0 L) m Q (\<lambda>_. kept_at ns0 L) \<Longrightarrow> (\<And>a. triple (\<lambda>w. Q a (w_host w) \<and> w_rt w = s) (f a) R (\<lambda>_. ?E)) \<Longrightarrow>
      triple ?K (andthen (on_host m) f) R (\<lambda>_. ?E)" for m Q f R
    by (rule triple_andthen [where R = "\<lambda>a w. Q a (w_host w) \<and> w_rt w = s"])
      (auto elim!: triple_weaken [OF triple_host [where s = s]] dest: kept_freed)
  have lockd: "triple (\<lambda>w. kept_at ns0 L (w_host w) \<and> w_rt w = s\<lparr>rt_minioContainerUser := user\<rparr>)
      (andthen (on_host (take_lock E owner lock)) (\<lambda>_. handle (hold_custody E root (minioOwner E (rt_Service s)) (cf_bucket (rt_conf s)) n)
         (\<lambda>err. deferring (fail (custody_error err)) (on_host (pf_Unlock E lock))) (\<lambda>_. ret (root @ [''data''], lock))))
      (readied ns0 L s) (\<lambda>_. ?E)"
    if "root \<noteq> []" "measured probe_of (pf_Sys E) (pick (pf_custody E)) (butlast root) user (pf_Euid E)" for owner lock root n user
  proof (rule triple_andthen [where R = "\<lambda>_ w. (kept_at ns0 (insert lock L) (w_host w) \<and> lock \<notin> L) \<and>
        w_rt w = s\<lparr>rt_minioContainerUser := user\<rparr>"])
    show "triple (\<lambda>w. (kept_at ns0 (insert lock L) (w_host w) \<and> lock \<notin> L) \<and> w_rt w = s\<lparr>rt_minioContainerUser := user\<rparr>)
      (handle (hold_custody E root (minioOwner E (rt_Service s)) (cf_bucket (rt_conf s)) n)
         (\<lambda>err. deferring (fail (custody_error err)) (on_host (pf_Unlock E lock))) (\<lambda>_. ret (root @ [''data''], lock)))
      (readied ns0 L s) (\<lambda>_. ?E)"
      by (rule triple_weaken [OF triple_pure [where B = "lock \<notin> L", OF locked_spec [OF that(1) _ that(2)]]]) auto
    show "triple (\<lambda>w. kept_at ns0 L (w_host w) \<and> w_rt w = s\<lparr>rt_minioContainerUser := user\<rparr>) (on_host (take_lock E owner lock))
      (\<lambda>_ w. (kept_at ns0 (insert lock L) (w_host w) \<and> lock \<notin> L) \<and> w_rt w = s\<lparr>rt_minioContainerUser := user\<rparr>) (\<lambda>_. ?E)"
      by (rule triple_weaken [OF triple_host [OF kept_lock, where s = "s\<lparr>rt_minioContainerUser := user\<rparr>"]]) (auto dest: kept_freed)
  qed
  have chosen: "triple (\<lambda>w. (kept_at ns0 L (w_host w) \<and>
        measured probe_of (pf_Sys E) (pick (pf_custody E)) parent (fst res) (pf_Euid E)) \<and> w_rt w = s)
      (case res of (user, mapping) \<Rightarrow> andthen (modify_rt (rt_minioContainerUser_update (\<lambda>_. user))) (\<lambda>_.
         andthen (on_host (take_lock E owner lock)) (\<lambda>_.
         handle (hold_custody E (parent @ [x]) (minioOwner E (rt_Service s)) (cf_bucket (rt_conf s)) n)
           (\<lambda>err. deferring (fail (custody_error err)) (on_host (pf_Unlock E lock)))
           (\<lambda>_. ret ((parent @ [x]) @ [''data''], lock)))))
      (readied ns0 L s) (\<lambda>_. ?E)" for parent res owner lock x n
  proof -
    obtain user mapping where res: "res = (user, mapping)" by fastforce
    have "triple (\<lambda>w. (kept_at ns0 L (w_host w) \<and> w_rt w = s) \<and> measured probe_of (pf_Sys E) (pick (pf_custody E)) parent user (pf_Euid E))
      (andthen (modify_rt (rt_minioContainerUser_update (\<lambda>_. user))) (\<lambda>_.
         andthen (on_host (take_lock E owner lock)) (\<lambda>_.
         handle (hold_custody E (parent @ [x]) (minioOwner E (rt_Service s)) (cf_bucket (rt_conf s)) n)
           (\<lambda>err. deferring (fail (custody_error err)) (on_host (pf_Unlock E lock)))
           (\<lambda>_. ret ((parent @ [x]) @ [''data''], lock)))))
      (readied ns0 L s) (\<lambda>_. ?E)"
      by (rule triple_pure, rule triple_andthen [OF triple_set_rt], rule lockd) simp_all
    then show ?thesis unfolding res prod.case by (rule triple_weaken) auto
  qed
  show ?thesis
    unfolding prepare_at_def Let_def os_EvalSymlinks_def
    apply (rule triple_if)
     apply (rule triple_weaken [OF triple_fail [where E = "\<lambda>_. ?E"]]; simp add: kept_freed)
    apply (rule host [OF kept_mkdir])
    apply (rule host [OF kept_quiet])
    apply (rule triple_handle [OF triple_host [OF quiet [OF pf_files(3) pf_held(3), of ns0 L], where s = s]])
     apply (rule triple_weaken [OF triple_fail [where E = "\<lambda>_. ?E"]]; simp add: kept_freed)
    apply (rule host [OF kept_choose])
    apply (rule chosen)
    done
qed

lemma unchanged:
  assumes "frame fst m" "frame (\<lambda>h. held (snd h)) m" "\<And>w w'. fst (w_host w') = fst (w_host w) \<Longrightarrow>
      held (snd (w_host w')) = held (snd (w_host w)) \<Longrightarrow> w_rt w' = w_rt w \<Longrightarrow> P w \<Longrightarrow> P w'"
  shows "triple P (on_host m) (\<lambda>_. P) (\<lambda>_. P)"
proof (rule tripleI)
  fix w r w'
  assume p: "P w" and m: "on_host m w = (r, w')"
  obtain q h where q: "m (w_host w) = (q, h)" by (rule prod.exhaust)
  with m have "w_host w' = h" "w_rt w' = w_rt w" by (auto simp: on_host_def)
  with assms(3) [OF _ _ _ p] frameD [OF assms(1) q] frameD [OF assms(2) q] have "P w'" by simp
  then show "case r of Inr a \<Rightarrow> P w' | Inl e \<Rightarrow> P w'" by (cases r) simp_all
qed

lemma prepare_spec:
  "triple (\<lambda>w. kept_at ns0 L (w_host w) \<and> w_rt w = s) (prepareMinIOData E)
    (readied ns0 L s) (\<lambda>_ w. closed ns0 L (w_host w))"
proof -
  have close: "triple (readied ns0 L s dl) (on_host (pf_CloseClient E)) (\<lambda>_. readied ns0 L s dl) (\<lambda>_. readied ns0 L s dl)"
    for dl
    by (rule unchanged [OF pf_files(2) pf_held(2)]; simp add: readied_def loose_at_def)
  have new: "triple (\<lambda>w. kept_at ns0 L (w_host w) \<and> w_rt w = s) (on_host (pf_NewClient E))
      (\<lambda>_ w. kept_at ns0 L (w_host w) \<and> w_rt w = s) (\<lambda>_ w. closed ns0 L (w_host w))"
    by (rule triple_weaken [OF triple_host [OF quiet [OF pf_files(1) pf_held(1), of ns0 L], where s = s]])
      (simp_all add: kept_closed)
  have body: "triple (\<lambda>w. kept_at ns0 L (w_host w) \<and> w_rt w = s)
     (andthen (on_host (pf_NewClient E)) (\<lambda>_. deferring (prepare_at E s root) (on_host (pf_CloseClient E))))
    (readied ns0 L s) (\<lambda>_ w. closed ns0 L (w_host w))" for root
    by (rule triple_andthen [OF new], rule triple_deferring [OF prepare_at_spec close closed_spec])
  show ?thesis
    unfolding prepareMinIOData_def
  proof (rule triple_with_rt)
    show "triple (\<lambda>w. kept_at ns0 L (w_host w) \<and> w_rt w = s)
      (case pf_Abs E (minioCustodyDir E (minioOwner E (rt_Service s))) of Inl err \<Rightarrow> fail err
       | Inr root \<Rightarrow> andthen (on_host (pf_NewClient E)) (\<lambda>_. deferring (prepare_at E s root) (on_host (pf_CloseClient E))))
      (readied ns0 L s) (\<lambda>_ w. closed ns0 L (w_host w))"
    proof (cases "pf_Abs E (minioCustodyDir E (minioOwner E (rt_Service s)))")
      case (Inl err)
      show ?thesis unfolding Inl sum.case
        by (rule triple_weaken [OF triple_fail [where E = "\<lambda>_ w. closed ns0 L (w_host w)"]]) (simp_all add: kept_closed)
    next
      case (Inr root)
      show ?thesis unfolding Inr sum.case by (rule body)
    qed
  qed
qed

end

section \<open>Properties\<close>

text \<open>C17: preparing the MinIO data either returns with everything a start needs or leaves no claim behind.
  On success the custody of this service and bucket is whole on disk, the container user was
  measured on the directory's own parent, the Runtime knows whether the store is new, and the
  lock is held; on any failure the locks held are those from before, unless the unlock itself failed,
  and then it was called with the lock held and nothing but the closing of the Docker client came
  after it. In both cases everything that was on disk is still there, unchanged.\<close>

theorem prepare_holds_or_releases:
  assumes "preflight E probes mounted held kept" "fs_wf (h_nodes (w_host w))" "prepareMinIOData E w = (r, w')"
  shows "grows (h_nodes (w_host w)) (h_nodes (w_host w')) \<and>
    (case r of
       Inl e \<Rightarrow> held (snd (w_host w')) = held (snd (w_host w)) \<or>
         (\<exists>lock h1 err h2 q. lock \<notin> held (snd (w_host w)) \<and> held (snd h1) = insert lock (held (snd (w_host w))) \<and>
            pf_Unlock E lock h1 = (Inl err, h2) \<and> pf_CloseClient E h2 = (q, w_host w'))
     | Inr (data, lock) \<Rightarrow> lock \<notin> held (snd (w_host w)) \<and>
         held (snd (w_host w')) = insert lock (held (snd (w_host w))) \<and>
         (\<exists>root c. data = root @ [''data''] \<and> rt_minio (w_rt w') = \<lparr>mr_custodyRoot = root, mr_newStore = (mc_Phase c = ''pending'')\<rparr> \<and>
            in_custody (pf_custody E) root (minioOwner E (rt_Service (w_rt w))) (cf_bucket (rt_conf (w_rt w))) c (h_nodes (w_host w')) \<and>
            measured (dockerProbeRunner_run (pf_docker E) (pf_FullName E (pf_Image E)) (pf_ctx E)) (pf_Sys E)
              (pick (pf_custody E)) (butlast root) (rt_minioContainerUser (w_rt w')) (pf_Euid E)))"
proof -
  note defs = preflight.kept_at_def [OF assms(1)] preflight.loose_at_def [OF assms(1)] preflight.readied_def [OF assms(1)]
    preflight.closed_def [OF assms(1)]
  have pre: "preflight.kept_at held (h_nodes (w_host w)) (held (snd (w_host w))) (w_host w) \<and> w_rt w = w_rt w"
    using assms(2) by (simp add: defs)
  note out = tripleD [OF preflight.prepare_spec [OF assms(1)] pre assms(3)]
  show ?thesis
  proof (cases r)
    case (Inl e)
    with out show ?thesis by (simp add: defs) blast
  next
    case (Inr dl)
    obtain data lock where dl: "dl = (data, lock)" by fastforce
    from out Inr dl obtain root c user where p: "data = root @ [''data'']" "lock \<notin> held (snd (w_host w))"
      "grows (h_nodes (w_host w)) (h_nodes (w_host w'))" "held (snd (w_host w')) = insert lock (held (snd (w_host w)))"
      "in_custody (pf_custody E) root (minioOwner E (rt_Service (w_rt w))) (cf_bucket (rt_conf (w_rt w))) c (h_nodes (w_host w'))"
      "measured (dockerProbeRunner_run (pf_docker E) (pf_FullName E (pf_Image E)) (pf_ctx E)) (pf_Sys E)
         (pick (pf_custody E)) (butlast root) user (pf_Euid E)"
      "w_rt w' = (w_rt w)\<lparr>rt_minioContainerUser := user, rt_minio := \<lparr>mr_custodyRoot = root, mr_newStore = (mc_Phase c = ''pending'')\<rparr>\<rparr>"
      by (auto simp: defs)
    then have "rt_minio (w_rt w') = \<lparr>mr_custodyRoot = root, mr_newStore = (mc_Phase c = ''pending'')\<rparr>"
      "rt_minioContainerUser (w_rt w') = user" by simp_all
    with p Inr dl show ?thesis by auto
  qed
qed

section \<open>A preparation on the engine\<close>

definition engine_preflight :: "((string \<times> string) list, Daemon, unit) Preflight" where
  "engine_preflight = \<lparr>
     pf_core = sample_core, pf_custody = sample_json, pf_docker = engine_probe, pf_ctx = no_deadline,
     pf_NewClient = engine (\<lambda>fs d. (Inr (), fs, d)), pf_CloseClient = engine (\<lambda>fs d. (Inr (), fs, d)),
     pf_DaemonHost = ''unix:///var/run/docker.sock'',
     pf_GetImageIfNotPresent = (\<lambda>i. engine (\<lambda>fs d. (Inr (), fs, d))),
     pf_ContainerInspect = (\<lambda>n. engine (\<lambda>fs d. (case find (\<lambda>(i, m). m = n) (dm_containers d) of
       None \<Rightarrow> Inl no_such | Some (i, m) \<Rightarrow> Inr \<lparr>ct_ID = i, ct_Mounts = []\<rparr>, fs, d))),
     pf_TryLock = (\<lambda>p h. if p \<in> set (dm_locks (snd h)) then ((False, None, True), h)
        else ((True, None, False), fst h, (snd h)\<lparr>dm_locks := p # dm_locks (snd h)\<rparr>)),
     pf_Unlock = (\<lambda>p h. (Inr (), fst h, (snd h)\<lparr>dm_locks := removeAll p (dm_locks (snd h))\<rparr>)),
     pf_Home = [''h''], pf_Abs = (\<lambda>p. Inr [''h'', ''s'']), pf_Hex256 = (\<lambda>s. ''5e''), pf_Identity = (\<lambda>l. ''me''),
     pf_Clean = (\<lambda>s. s), pf_Image = \<lparr>im_Name = ''minio'', im_Tag = [], im_Digest = []\<rparr>, pf_FullName = im_Name,
     pf_Euid = 1000, pf_Egid = 1000, pf_Sys = any_owner\<rparr>"

lemma engine_observes:
  "(\<And>fs d x. g (fs, d\<lparr>dm_refusals := x\<rparr>) = g (fs, d)) \<Longrightarrow> frame g (engine (\<lambda>fs d. (f fs d, fs, d)))"
  by (auto simp: frame_def engine_def split: list.split option.split)

definition engine_live :: "Daemon \<Rightarrow> string set" where
  "engine_live d = fst ` set (dm_containers d)"

text \<open>The runners there are, each with the container it acquired.\<close>

definition engine_runners :: "Daemon \<Rightarrow> nat \<Rightarrow> string option option" where
  "engine_runners d r = (if r < length (dm_runners d) then Some (snd (dm_runners d ! r)) else None)"

interpretation engine: preflight engine_preflight engine_probes engine_mounted "\<lambda>d. set (dm_locks d)"
  "\<lambda>d. (engine_live d, engine_runners d)"
proof -
  have "probe_docker engine_probe engine_probes engine_mounted (\<lambda>d. (set (dm_locks d), engine_live d, engine_runners d))"
    using engine.probe_docker_axioms unfolding probe_docker_def by (auto simp: frame_def engine_live_def engine_runners_def fun_eq_iff)
  then show "preflight engine_preflight engine_probes engine_mounted (\<lambda>d. set (dm_locks d)) (\<lambda>d. (engine_live d, engine_runners d))"
    unfolding preflight_def preflight_axioms_def engine_preflight_def
    by (auto intro!: engine_observes simp: frame_def [of _ "\<lambda>h. (Inr (), _ h)"] engine_live_def engine_runners_def fun_eq_iff
        split: if_split_asm)
qed

text \<open>The custody of the sample, prepared for a Runtime that uses its bucket.\<close>

definition custody_runtime :: Runtime where
  "custody_runtime = sample_runtime\<lparr>rt_Service := sample_service\<lparr>sv_conf := (sv_conf sample_service)\<lparr>cf_bucket := ''b''\<rparr>\<rparr>\<rparr>"

definition fresh_world :: "Daemon World" where
  "fresh_world = \<lparr>w_host = (sample_fs [], idle), w_rt = custody_runtime\<rparr>"

lemma sample_hold:
  "hold_custody engine_preflight [''h'', ''s''] ''me'' ''b'' n \<lparr>w_host = (sample_fs [], idle\<lparr>dm_locks := ls\<rparr>), w_rt = s\<rparr> =
     (Inr (), \<lparr>w_host = (\<lparr>fs_nodes = custody_fs, fs_faults = [], fs_disk = None\<rparr>, idle\<lparr>dm_locks := ls\<rparr>),
        w_rt = s\<lparr>rt_minio := \<lparr>mr_custodyRoot = [''h'', ''s''], mr_newStore = True\<rparr>\<rparr>\<rparr>)"
proof -
  let ?d = "idle\<lparr>dm_locks := ls\<rparr>"
  obtain e where lg: "os_Lstat (minioCustodyDir engine_preflight n) (sample_fs []) = (Inl e, sample_fs [])" "errors_is e ErrNotExist"
    by (simp add: minioCustodyDir_def engine_preflight_def sample_fs_def io_eval errors_is_def Let_def)
  have ex: "check_existing engine_preflight n data \<lparr>w_host = (sample_fs [], ?d), w_rt = s\<rparr> =
      (Inr False, \<lparr>w_host = (sample_fs [], ?d), w_rt = s\<rparr>)" for data
    by (simp add: check_existing_def engine_preflight_def engine_quiet idle_def on_host_def handle_def ret_def)
  have rd: "os_ReadFile [''h'', ''s'', custody_json] \<lparr>fs_nodes = custody_fs, fs_faults = [], fs_disk = None\<rparr> = (Inr ''P'', \<lparr>fs_nodes = custody_fs, fs_faults = [], fs_disk = None\<rparr>)"
    by (simp add: custody_fs_def io_eval Let_def)
  have js: "pf_custody engine_preflight = sample_json" "unmarshal sample_json ''P'' = Inr sample_custody"
    by (simp_all add: engine_preflight_def sample_json_def)
  show ?thesis
    by (simp add: hold_custody_def handle_def andthen_def on_host_def on_fs_def lg ex js sample_ensure rd modify_rt_def sample_custody_def)
qed

lemma sample_prepare:
  "\<exists>lock w'. prepareMinIOData engine_preflight fresh_world = (Inr ([''h'', ''s'', ''data''], lock), w') \<and>
     w_rt w' = custody_runtime\<lparr>rt_minioContainerUser := ''1000:1000'', rt_minio := \<lparr>mr_custodyRoot = [''h'', ''s''], mr_newStore = True\<rparr>\<rparr>"
proof -
  have own: "minioOwner engine_preflight (rt_Service custody_runtime) = ''me''" "cf_bucket (rt_conf custody_runtime) = ''b''"
    by (simp_all add: minioOwner_def engine_preflight_def custody_runtime_def sample_service_def split: prod.split)
  have mk: "on_fs (os_MkdirAll [''h'']) (sample_fs [], idle) = (Inr (), sample_fs [], idle)"
    by (simp add: on_fs_def os_MkdirAll_def sample_fs_def io_eval Let_def)
  have ev: "on_fs (os_EvalSymlinks [''h'']) (sample_fs [], idle) = (Inr [''h''], sample_fs [], idle)"
    by (simp add: on_fs_def os_EvalSymlinks_def eval_symlinks_def sample_fs_def io_eval Let_def)
  have probe: "chooseMinIOContainerUser (dockerProbeRunner_run (pf_docker engine_preflight)
      (pf_FullName engine_preflight (pf_Image engine_preflight)) (pf_ctx engine_preflight)) (hostFileOwner (pf_Sys engine_preflight))
      (pick (pf_custody engine_preflight)) [''h''] (pf_Euid engine_preflight) (pf_Egid engine_preflight) (sample_fs [], idle) =
      (Inr (''1000:1000'', ''0 1000 1''), sample_fs [], idle)"
    using sample_choose by (simp add: engine_preflight_def sample_json_def)
  have lk: "take_lock engine_preflight ow l (sample_fs [], idle) = (Inr (), sample_fs [], idle\<lparr>dm_locks := [l]\<rparr>)" for ow l
    by (simp add: take_lock_def engine_preflight_def idle_def)
  have cl: "pf_NewClient engine_preflight (fs, d) = (Inr (), fs, d)" "pf_CloseClient engine_preflight (fs, d) = (Inr (), fs, d)"
     "pf_GetImageIfNotPresent engine_preflight i (fs, d) = (Inr (), fs, d)" if "dm_refusals d = []" for fs d i
    using that by (simp_all add: engine_preflight_def engine_quiet)
  have e: "pf_DaemonHost engine_preflight = ''unix:///var/run/docker.sock''" "pf_Abs engine_preflight p = Inr [''h'', ''s'']" for p
    by (simp_all add: engine_preflight_def)
  have dr: "dm_refusals idle = []" "dm_refusals (idle\<lparr>dm_locks := ls\<rparr>) = []" for ls by (simp_all add: idle_def)
  show ?thesis
    by (simp add: prepareMinIOData_def prepare_at_def fresh_world_def get_rt_def andthen_def handle_def deferring_def on_host_def
        Let_def has_prefix_def e own mk ev probe lk cl dr modify_rt_def sample_hold ret_def)
qed

lemma prepare_holds_or_releases_witness:
  "\<exists>lock w'. prepareMinIOData engine_preflight fresh_world = (Inr ([''h'', ''s'', ''data''], lock), w') \<and>
     (\<exists>c. in_custody sample_json [''h'', ''s''] ''me'' ''b'' c (h_nodes (w_host w'))) \<and> set (dm_locks (snd (w_host w'))) = {lock}"
proof -
  obtain lock w' where p: "prepareMinIOData engine_preflight fresh_world = (Inr ([''h'', ''s'', ''data''], lock), w')"
    using sample_prepare by blast
  have wf: "fs_wf (h_nodes (w_host fresh_world))" by (simp add: fresh_world_def fs_wf_def sample_fs_def node_at_def)
  have own: "minioOwner engine_preflight (rt_Service (w_rt fresh_world)) = ''me''" "cf_bucket (rt_conf (w_rt fresh_world)) = ''b''"
    "pf_custody engine_preflight = sample_json" "dm_locks (snd (w_host fresh_world)) = []"
    by (simp_all add: minioOwner_def engine_preflight_def fresh_world_def custody_runtime_def sample_service_def idle_def split: prod.split)
  from prepare_holds_or_releases [OF engine.preflight_axioms wf p] own
  have "set (dm_locks (snd (w_host w'))) = {lock}" "\<exists>c. in_custody sample_json [''h'', ''s''] ''me'' ''b'' c (h_nodes (w_host w'))"
    by auto
  with p show ?thesis by blast
qed

end
