(* ===== verification/Runtime.thy ===== *)
theory Runtime
  imports Preflight
begin

text \<open>
  The agent's Runtime (src/runtime.go): what Init starts, in order and with its rollback, what
  teardown releases, the environment of the gateway's container, and the wait for its
  readiness. Core's container runner, the MinIO administration client and the token generator
  are the record \<open>Machine\<close>; time passes by \<open>mx_Sleep\<close>.
\<close>

section \<open>The machine\<close>

record ContainerSpec =
  cs_Image :: DockerImage
  cs_HostPort :: nat
  cs_ContainerPort :: nat
  cs_Public :: bool
  cs_Env :: "(string \<times> string) list"
  cs_User :: string
  cs_Mounts :: "(path \<times> string) list"
  cs_Command :: "string list"

record ('c, 'd, 'l) Machine =
  mx_pf :: "('c, 'd, 'l) Preflight"
  mx_networks :: "'d Networks"
  mx_New :: "DockerImage \<Rightarrow> string \<Rightarrow> ('d host, runner) act"
  mx_Identity :: "runner \<Rightarrow> string \<times> string \<times> string \<Rightarrow> ('d host, unit) act"
  mx_Init :: "runner \<Rightarrow> ContainerSpec \<Rightarrow> ('d host, unit) act"
  mx_ContainerID :: "runner \<Rightarrow> ('d host, string) act"
  mx_Shutdown :: "runner \<Rightarrow> ('d host, unit) act"
  mx_MinioNew :: "string \<Rightarrow> string \<Rightarrow> string \<Rightarrow> goerr option"
  mx_BucketExists :: "string \<Rightarrow> string \<Rightarrow> string \<Rightarrow> string \<Rightarrow> ('d host, bool) act"
  mx_MakeBucket :: "string \<Rightarrow> string \<Rightarrow> string \<Rightarrow> string \<Rightarrow> ('d host, unit) act"
  mx_Sleep :: "'d host \<Rightarrow> 'd host"
  mx_Generate :: "('d host, string) act"
  mx_FreePort :: "('d host, nat) act"
  mx_Getenv :: "string \<Rightarrow> string"
  mx_GatewayImage :: DockerImage
  mx_JsonValid :: "string \<Rightarrow> bool"
  mx_Digest6 :: "string \<Rightarrow> string"
  mx_Path :: "string \<Rightarrow> path"
  mx_Location :: path

abbreviation mx_core :: "('c, 'd, 'l) Machine \<Rightarrow> 'c Core" where "mx_core M \<equiv> pf_core (mx_pf M)"

abbreviation minioContainerPort :: nat where "minioContainerPort \<equiv> 9000"
abbreviation gcsCredentialsContainerPath :: string where
  "gcsCredentialsContainerPath \<equiv> ''/codefly/credentials/gcs-service-account.json''"
abbreviation gatewayContainerUser :: string where "gatewayContainerUser \<equiv> ''65532:65532''"
abbreviation localMinioUser :: string where "localMinioUser \<equiv> ''minioadmin''"

definition minio_name :: "Service \<Rightarrow> string" where "minio_name s = sv_UniqueWithWorkspace s @ ''-minio''"

definition gateway_name :: "Service \<Rightarrow> string" where "gateway_name s = sv_UniqueWithWorkspace s @ ''-gateway''"

text \<open>\<open>s.Wool.Wrapf\<close> on the error of a step.\<close>

definition wrapped :: "('c, 'd, 'l) Machine \<Rightarrow> string \<Rightarrow> ('s, 'a) act \<Rightarrow> ('s, 'a) act" where
  "wrapped M msg m = handle m (\<lambda>err. fail (Wrapf (mx_core M) err msg)) ret"

definition runsLocalMinIO :: "resolved \<Rightarrow> bool" where
  "runsLocalMinIO conf \<longleftrightarrow> cf_backend conf = [] \<or> cf_backend conf = ''minio''"

abbreviation upd_service :: "(Service \<Rightarrow> Service) \<Rightarrow> Runtime \<Rightarrow> Runtime" where
  "upd_service f s \<equiv> s\<lparr>rt_Service := f (rt_Service s)\<rparr>"

abbreviation upd_conf :: "(resolved \<Rightarrow> resolved) \<Rightarrow> Runtime \<Rightarrow> Runtime" where
  "upd_conf f \<equiv> upd_service (\<lambda>v. v\<lparr>sv_conf := f (sv_conf v)\<rparr>)"

section \<open>The bucket\<close>

fun bucket_loop :: "('c, 'd, 'l) Machine \<Rightarrow> Runtime \<Rightarrow> nat \<Rightarrow> goerr \<Rightarrow> ('d host, unit) act" where
  "bucket_loop M s 0 lastErr =
     fail (Wrapf (mx_core M) lastErr (''minio bucket '' @ quoted (cf_bucket (rt_conf s)) @ '' not ready''))"
| "bucket_loop M s (Suc n) lastErr =
     (let endpoint = ''localhost:'' @ dec_nat (rt_minioHostPort s); key = cf_accessKey (rt_conf s);
          secret = cf_secretKey (rt_conf s); bucket = cf_bucket (rt_conf s);
          again = (\<lambda>err h. bucket_loop M s n err (mx_Sleep M h)) in
      case mx_MinioNew M endpoint key secret of
        Some err \<Rightarrow> again err
      | None \<Rightarrow> handle (mx_BucketExists M endpoint key secret bucket) again
          (\<lambda>found. if found then ret ()
             else if \<not> mr_newStore (rt_minio s)
             then fail (Wrapped (sentinel_msg ErrMinIOCustody @ '': previously provisioned bucket '' @ quoted bucket
                    @ '' is missing; refusing to create an empty replacement'') [Sentinel ErrMinIOCustody])
             else handle (mx_MakeBucket M endpoint key secret bucket) again ret))"

text \<open>The error before the first round is never reported: there are 30 rounds.\<close>

definition ensureBucket :: "('c, 'd, 'l) Machine \<Rightarrow> ('d World, unit) act" where
  "ensureBucket M = andthen get_rt (\<lambda>s. on_host (bucket_loop M s 30 (Msg [])))"

section \<open>Credentials\<close>

definition stat_file :: "path \<Rightarrow> nodes \<Rightarrow> goerr + node" where
  "stat_file p ns = (case resolve ns p of
     Inl e \<Rightarrow> Inl e
   | Inr q \<Rightarrow> (case node_at ns q of None \<Rightarrow> Inl (Sentinel ErrNotExist) | Some n \<Rightarrow> Inr n))"

definition os_Stat :: "path \<Rightarrow> node io" where "os_Stat p = named ''stat'' p (observe (stat_file p))"

definition write_path :: "path \<Rightarrow> string \<Rightarrow> nodes \<Rightarrow> (goerr + unit) \<times> nodes" where
  "write_path p d ns = (case resolve ns p of
     Inl e \<Rightarrow> (Inl e, ns)
   | Inr q \<Rightarrow> (if node_at ns q = Some Dir then (Inl is_a_directory, ns)
               else (Inr (), AList.update q (File d) ns)))"

definition os_WriteFile :: "path \<Rightarrow> string \<Rightarrow> unit io" where
  "os_WriteFile p d = named ''open'' p (syscall (write_path p d))"

definition os_Chmod :: "path \<Rightarrow> unit io" where
  "os_Chmod p = named ''chmod'' p (observe (\<lambda>ns. map_sum id (\<lambda>n. ()) (stat_file p ns)))"

definition projectedCredentialsDir :: "('c, 'd, 'l) Machine \<Rightarrow> Service \<Rightarrow> path" where
  "projectedCredentialsDir M s = pf_Home (mx_pf M) @ [''runtime-credentials'', sv_UniqueWithWorkspace s]"

definition credential_source :: "('c, 'd, 'l) Machine \<Rightarrow> string \<Rightarrow> path" where
  "credential_source M file = (if has_prefix file ''/'' then mx_Path M file else mx_Location M @ mx_Path M file)"

definition projectGCSCredentials :: "('c, 'd, 'l) Machine \<Rightarrow> ('d World, unit) act" where
  "projectGCSCredentials M = andthen get_rt (\<lambda>s.
     let conf = rt_conf s; source = credential_source M (cf_gcsCredentialsFile conf);
         about = ''SOS_GCS_CREDENTIALS_FILE '' @ quoted (path_string source);
         dir = projectedCredentialsDir M (rt_Service s) in
     if cf_backend conf \<noteq> ''gcs'' then ret ()
     else if cf_gcsCredentialsFile conf = []
     then fail (NewError (mx_core M) (''backend gcs has no usable credentials for a local run: set SOS_GCS_CREDENTIALS_FILE ''
       @ ''in the object-storage configuration to a service-account JSON key on this machine. Application Default Credentials ''
       @ ''and Workload Identity are deployment-only modes '' @ [CHR 0xE2, CHR 0x80, CHR 0x94]
       @ '' the gateway container inherits no host identity''))
     else andthen (wrapped M (''cannot use '' @ about) (on_files (os_Stat source))) (\<lambda>info.
       if \<forall>d. info \<noteq> File d then fail (NewError (mx_core M) (about @ '' is not a regular file''))
       else andthen (wrapped M (''cannot read '' @ about) (on_files (os_ReadFile source))) (\<lambda>key.
         if \<not> mx_JsonValid M key then fail (NewError (mx_core M) (about @ '' is not valid JSON: the gateway cannot open a GCS client from it and would exit at startup''))
         else andthen (wrapped M ''cannot reset credential projection'' (on_files (os_RemoveAll dir))) (\<lambda>_.
           andthen (wrapped M ''cannot create credential projection'' (on_files (os_MkdirAll dir))) (\<lambda>_.
           let projected = dir @ [mx_Digest6 M key @ ''-gcs-service-account.json''] in
           andthen (wrapped M ''cannot project gcs credentials'' (on_files (os_WriteFile projected key))) (\<lambda>_.
           andthen (wrapped M ''cannot restrict projected gcs credentials'' (on_files (os_Chmod projected))) (\<lambda>_.
           modify_rt (rt_gcsCredentialsHostFile_update (\<lambda>_. Some projected)))))))))"

definition discardProjectedCredentials :: "('c, 'd, 'l) Machine \<Rightarrow> ('d World, unit) act" where
  "discardProjectedCredentials M = andthen get_rt (\<lambda>s. case rt_gcsCredentialsHostFile s of
     None \<Rightarrow> ret ()
   | Some f \<Rightarrow> handle (on_files (os_RemoveAll (projectedCredentialsDir M (rt_Service s))))
       (\<lambda>_. modify_rt (rt_gcsCredentialsHostFile_update (\<lambda>_. None)))
       (\<lambda>_. modify_rt (rt_gcsCredentialsHostFile_update (\<lambda>_. None))))"

section \<open>Teardown\<close>

definition shutdown_env ::
  "('c, 'd, 'l) Machine \<Rightarrow> (Runtime \<Rightarrow> runner option) \<Rightarrow> (Runtime \<Rightarrow> Runtime) \<Rightarrow> string \<Rightarrow> ('d World, goerr list) act" where
  "shutdown_env M env clear msg = andthen get_rt (\<lambda>s. case env s of
     None \<Rightarrow> ret []
   | Some runner \<Rightarrow> handle (on_host (mx_Shutdown M runner))
       (\<lambda>err. ret [Wrapf (mx_core M) err msg])
       (\<lambda>_. andthen (modify_rt clear) (\<lambda>_. ret [])))"

definition teardown :: "('c, 'd, 'l) Machine \<Rightarrow> ('d World, unit) act" where
  "teardown M =
     andthen (shutdown_env M rt_gatewayEnv (rt_gatewayEnv_update (\<lambda>_. None)) ''cannot shut down gateway'') (\<lambda>e1.
     andthen (shutdown_env M rt_minioEnv (rt_minioEnv_update (\<lambda>_. None)) ''cannot shut down minio'') (\<lambda>e2.
     andthen (handle (removeMinIONetwork (mx_networks M))
         (\<lambda>err. ret [Wrapf (mx_core M) err ''cannot remove the service network'']) (\<lambda>_. ret [])) (\<lambda>e3.
     andthen (discardProjectedCredentials M) (\<lambda>_.
       if e1 @ e2 @ e3 = [] then ret () else fail (errors_join (e1 @ e2 @ e3))))))"

text \<open>\<open>rollbackInit\<close>: the error of the start is what is reported, the teardown's is logged.\<close>

definition rolling_back :: "('c, 'd, 'l) Machine \<Rightarrow> goerr \<Rightarrow> ('d World, 'a) act" where
  "rolling_back M err = deferring (fail err) (teardown M)"

definition Destroy :: "('c, 'd, 'l) Machine \<Rightarrow> ('d World, unit) act" where
  "Destroy M = teardown M"

section \<open>The gateway's container\<close>

definition gateway_envs :: "Runtime \<Rightarrow> (string \<times> string) list" where
  "gateway_envs s = (let conf = rt_conf s in
     [(''SOS_LISTEN'', '':'' @ dec_nat gatewayContainerPort), (''SOS_BACKEND'', cf_backend conf), (''SOS_BUCKET'', cf_bucket conf),
      (''SOS_REGION'', cf_region conf), (''SOS_AUTH_TOKEN'', sv_gatewayToken (rt_Service s))]
     @ (if cf_endpoint conf \<noteq> [] then [(''SOS_ENDPOINT'', cf_endpoint conf)] else [])
     @ (if cf_prefix conf \<noteq> [] then [(''SOS_PREFIX'', cf_prefix conf)] else [])
     @ (if cf_accessKey conf \<noteq> [] then [(''SOS_ACCESS_KEY'', cf_accessKey conf), (''SOS_SECRET_KEY'', cf_secretKey conf)] else [])
     @ (if rt_gcsCredentialsHostFile s \<noteq> None then [(''SOS_GCS_CREDENTIALS_FILE'', gcsCredentialsContainerPath)] else [])
     @ (if cf_azureAccount conf \<noteq> [] then [(''SOS_AZURE_ACCOUNT'', cf_azureAccount conf)] else [])
     @ (if rt_composedEndpoints s \<noteq> [] then [(''SOS_COMPOSED_ENDPOINTS'', join_with '','' (rt_composedEndpoints s))] else []))"

definition gateway_spec :: "('c, 'd, 'l) Machine \<Rightarrow> nat \<Rightarrow> Runtime \<Rightarrow> ContainerSpec" where
  "gateway_spec M hostPort s = \<lparr>cs_Image = fst (effectiveGatewayImage (mx_Getenv M) (mx_GatewayImage M)),
     cs_HostPort = hostPort, cs_ContainerPort = gatewayContainerPort, cs_Public = True, cs_Env = gateway_envs s,
     cs_User = gatewayContainerUser,
     cs_Mounts = (case rt_gcsCredentialsHostFile s of None \<Rightarrow> [] | Some f \<Rightarrow> [(f, gcsCredentialsContainerPath)]),
     cs_Command = []\<rparr>"

definition startGateway :: "('c, 'd, 'l) Machine \<Rightarrow> nat \<Rightarrow> ('d World, unit) act" where
  "startGateway M hostPort = andthen get_rt (\<lambda>s.
     let name = gateway_name (rt_Service s); spec = gateway_spec M hostPort s in
     andthen (wrapped M ''cannot create gateway environment'' (on_host (mx_New M (cs_Image spec) name))) (\<lambda>runner.
     andthen (modify_rt (rt_gatewayEnv_update (\<lambda>_. Some runner))) (\<lambda>_.
     andthen (wrapped M ''cannot bind gateway parent service'' (on_host (mx_Identity M runner (sv_Identity (rt_Service s))))) (\<lambda>_.
     andthen (wrapped M ''cannot start gateway'' (on_host (mx_Init M runner spec))) (\<lambda>_.
     if rt_minioNetwork s = [] then ret ()
     else andthen (wrapped M ''cannot identify gateway container'' (on_host (mx_ContainerID M runner))) (\<lambda>gatewayID.
       wrapped M ''cannot attach gateway to the service network'' (joinMinIONetwork (mx_core M) (mx_networks M) gatewayID [])))))))"

section \<open>The local MinIO\<close>

definition minioPort :: "('c, 'd, 'l) Machine \<Rightarrow> Runtime \<Rightarrow> ('d World, nat) act" where
  "minioPort M s = (case sv_TenantStoreEndpoint (rt_Service s) of
     None \<Rightarrow> on_host (mx_FreePort M)
   | Some e \<Rightarrow> (case FindNetworkInstance (mx_core M) (rt_NetworkMappings s) e (NativeAccess (mx_core M)) of
        Inl err \<Rightarrow> fail err
      | Inr inst \<Rightarrow> ret (ni_Port inst mod 65536)))"

definition minio_spec :: "('c, 'd, 'l) Machine \<Rightarrow> path \<Rightarrow> Runtime \<Rightarrow> ContainerSpec" where
  "minio_spec M data s = \<lparr>cs_Image = pf_Image (mx_pf M), cs_HostPort = rt_minioHostPort s, cs_ContainerPort = minioContainerPort,
     cs_Public = (sv_TenantStoreEndpoint (rt_Service s) \<noteq> None),
     cs_Env = [(''MINIO_ROOT_USER'', localMinioUser), (''MINIO_ROOT_PASSWORD'', rt_minioPassword s)],
     cs_User = rt_minioContainerUser s, cs_Mounts = [(data, ''/data'')], cs_Command = [''server'', ''/data'']\<rparr>"

definition commit_provisioning :: "('c, 'd, 'l) Machine \<Rightarrow> ('d World, unit) act" where
  "commit_provisioning M = andthen get_rt (\<lambda>s.
     andthen (on_files (commitMinIOProvisioning (pf_custody (mx_pf M)) (rt_minio s))) (\<lambda>m.
       modify_rt (rt_minio_update (\<lambda>_. m))))"

definition offer_tenant_store :: "('c, 'd, 'l) Machine \<Rightarrow> ('d World, unit) act" where
  "offer_tenant_store M = andthen get_rt (\<lambda>s. case sv_TenantStoreEndpoint (rt_Service s) of
     None \<Rightarrow> ret ()
   | Some e \<Rightarrow> (case FindNetworkMapping (mx_core M) (rt_NetworkMappings s) e of
        Inl mapErr \<Rightarrow> fail (Wrapf (mx_core M) mapErr ''cannot find the tenant store mapping'')
      | Inr mapping \<Rightarrow> modify_rt (upd_service (\<lambda>v. v\<lparr>sv_tenantStore :=
          Some \<lparr>ts_mapping = mapping, ts_accessKey = localMinioUser, ts_secret = rt_minioPassword s\<rparr>\<rparr>))))"

definition use_local_store :: "Runtime \<Rightarrow> Runtime" where
  "use_local_store s = upd_conf (\<lambda>c. c\<lparr>cf_endpoint := ''http://'' @ minioNetworkAlias @ '':'' @ dec_nat minioContainerPort,
     cf_backend := ''minio'', cf_accessKey := localMinioUser, cf_secretKey := rt_minioPassword s\<rparr>) s"

definition run_minio :: "('c, 'd, 'l) Machine \<Rightarrow> path \<Rightarrow> ('d World, unit) act" where
  "run_minio M data = andthen get_rt (\<lambda>s0.
     andthen (wrapped M ''cannot allocate minio port'' (minioPort M s0)) (\<lambda>port.
     andthen (modify_rt (rt_minioHostPort_update (\<lambda>_. port))) (\<lambda>_.
     andthen (wrapped M ''cannot generate minio credentials'' (on_host (mx_Generate M))) (\<lambda>password.
     andthen (modify_rt (rt_minioPassword_update (\<lambda>_. password))) (\<lambda>_.
     andthen get_rt (\<lambda>s. let name = minio_name (rt_Service s); spec = minio_spec M data s in
     andthen (wrapped M ''cannot create minio environment'' (on_host (mx_New M (cs_Image spec) name))) (\<lambda>runner.
     andthen (modify_rt (rt_minioEnv_update (\<lambda>_. Some runner))) (\<lambda>_.
     andthen (wrapped M ''cannot bind minio parent service'' (on_host (mx_Identity M runner (sv_Identity (rt_Service s))))) (\<lambda>_.
     andthen (wrapped M ''cannot start minio'' (on_host (mx_Init M runner spec))) (\<lambda>_.
     andthen (wrapped M ''cannot identify minio container'' (on_host (mx_ContainerID M runner))) (\<lambda>minioID.
     andthen (wrapped M ''cannot attach minio to the service network''
         (joinMinIONetwork (mx_core M) (mx_networks M) minioID [minioNetworkAlias])) (\<lambda>_.
     andthen (modify_rt use_local_store) (\<lambda>_.
     andthen (ensureBucket M) (\<lambda>_.
     andthen (commit_provisioning M) (\<lambda>_. offer_tenant_store M)))))))))))))))"

definition startLocalMinIOWithRelease :: "('c, 'd, 'l) Machine \<Rightarrow> ('d World, path) act" where
  "startLocalMinIOWithRelease M =
     handle (prepareMinIOData (mx_pf M))
       (\<lambda>err. fail (Wrapped (sentinel_msg ErrMinIOCustody @ '': '' @ Error err) [Sentinel ErrMinIOCustody, err]))
       (\<lambda>(data, lock). handle (run_minio M data)
         (\<lambda>err. deferring (fail err) (on_host (pf_Unlock (mx_pf M) lock)))
         (\<lambda>_. ret lock))"

section \<open>Load and Init\<close>

definition Runtime_Load :: "'c Core \<Rightarrow> Endpoint list \<Rightarrow> Runtime \<Rightarrow> goerr option \<times> Runtime" where
  "Runtime_Load core endpoints s =
     (case resolve_endpoints (\<lambda>err. Wrapf core err ''cannot find grpc endpoint'') core endpoints (rt_Service s) of
        (r, v) \<Rightarrow> (r, s\<lparr>rt_Service := v\<rparr>))"

definition JoinHostPort :: "string \<Rightarrow> nat \<Rightarrow> string" where
  "JoinHostPort host port = (if CHR '':'' \<in> set host then ''['' @ host @ '']:'' @ dec_nat port else host @ '':'' @ dec_nat port)"

fun composedEndpoints :: "'c Core \<Rightarrow> NetworkMapping list \<Rightarrow> string list" where
  "composedEndpoints core [] = []"
| "composedEndpoints core (m # ms) = (case FilterNetworkInstance core (nm_Instances m) (ContainerAccess core) of
     None \<Rightarrow> composedEndpoints core ms
   | Some i \<Rightarrow> (if ni_Hostname i \<noteq> [] \<and> ni_Port i \<noteq> 0
       then JoinHostPort (ni_Hostname i) (ni_Port i) # composedEndpoints core ms else composedEndpoints core ms))"

definition resolveGatewayToken :: "('c, 'd, 'l) Machine \<Rightarrow> resolved \<Rightarrow> ('d World, string) act" where
  "resolveGatewayToken M conf = (if cf_authToken conf \<noteq> [] then ret (cf_authToken conf) else on_host (mx_Generate M))"

record 'c InitRequest =
  rq_Mappings :: "NetworkMapping list"
  rq_Dependencies :: "NetworkMapping list"
  rq_Configuration :: "'c option"
  rq_Access :: string

text \<open>The connections, one per instance of the serving endpoint; an error here returns as it is.\<close>

fun connections :: "('c, 'd, 'l) Machine \<Rightarrow> (NetworkInstance \<Rightarrow> 'r) \<Rightarrow> 'c option \<Rightarrow> NetworkInstance list \<Rightarrow> ('d World, 'r Connection list) act" where
  "connections M ctx conf [] = ret []"
| "connections M ctx conf (i # is) = andthen get_rt (\<lambda>s.
     case CreateConnectionConfiguration (mx_core M) ctx conf i (rt_Service s) of
       (r, v) \<Rightarrow> andthen (modify_rt (upd_service (\<lambda>_. v))) (\<lambda>_. case r of
         Inl err \<Rightarrow> fail err
       | Inr c \<Rightarrow> andthen (connections M ctx conf is) (\<lambda>cs. ret (c # cs))))"

definition serve_gateway ::
  "('c, 'd, 'l) Machine \<Rightarrow> (NetworkInstance \<Rightarrow> 'r) \<Rightarrow> 'c option \<Rightarrow> NetworkMapping \<Rightarrow> nat \<Rightarrow> ('d World, 'r Connection list) act" where
  "serve_gateway M ctx conf net port = andthen get_rt (\<lambda>s.
     handle (resolveGatewayToken M (rt_conf s))
       (\<lambda>err. andthen (modify_rt (upd_service (sv_gatewayToken_update (\<lambda>_. [])))) (\<lambda>_. rolling_back M err)) (\<lambda>token.
     andthen (modify_rt (upd_service (sv_gatewayToken_update (\<lambda>_. token)))) (\<lambda>_.
     handle (startGateway M port) (rolling_back M) (\<lambda>_.
     connections M ctx conf (nm_Instances net)))))"

definition start_services ::
  "('c, 'd, 'l) Machine \<Rightarrow> (NetworkInstance \<Rightarrow> 'r) \<Rightarrow> 'c option \<Rightarrow> NetworkMapping \<Rightarrow> nat \<Rightarrow> ('d World, 'r Connection list) act" where
  "start_services M ctx conf net port = andthen get_rt (\<lambda>s.
     if sv_TenantStoreEndpoint (rt_Service s) \<noteq> None \<and> \<not> runsLocalMinIO (rt_conf s)
     then fail (NewError (mx_core M) (''endpoint '' @ quoted tenantStoreEndpointName @ '' serves the local MinIO, and backend ''
       @ quoted (cf_backend (rt_conf s)) @ '' runs none''))
     else if runsLocalMinIO (rt_conf s)
     then handle (startLocalMinIOWithRelease M)
       (\<lambda>startErr. if errors_is startErr ErrMinIOCustody then fail startErr else rolling_back M startErr)
       (\<lambda>lock. deferring (serve_gateway M ctx conf net port) (on_host (pf_Unlock (mx_pf M) lock)))
     else serve_gateway M ctx conf net port)"

definition Init :: "('c, 'd, 'l) Machine \<Rightarrow> (NetworkInstance \<Rightarrow> 'r) \<Rightarrow> 'c InitRequest \<Rightarrow> ('d World, 'r Connection list) act" where
  "Init M ctx rq =
     andthen (modify_rt (\<lambda>s. s\<lparr>rt_NetworkMappings := rq_Mappings rq,
        rt_composedEndpoints := composedEndpoints (mx_core M) (rq_Dependencies rq)\<rparr>)) (\<lambda>_.
     andthen get_rt (\<lambda>s.
     case FindNetworkMapping (mx_core M) (rt_NetworkMappings s) (sv_GrpcEndpoint (rt_Service s)) of
       Inl err \<Rightarrow> fail err
     | Inr net \<Rightarrow>
       (case FindNetworkInstance (mx_core M) (rt_NetworkMappings s) (sv_GrpcEndpoint (rt_Service s)) (rq_Access rq) of
          Inl err \<Rightarrow> fail err
        | Inr inst \<Rightarrow>
          andthen (modify_rt (upd_service (\<lambda>v. v\<lparr>sv_conf := LoadConfiguration (mx_core M) (sv_Settings v) (rq_Configuration rq)\<rparr>))) (\<lambda>_.
          andthen (projectGCSCredentials M) (\<lambda>_.
          start_services M ctx (rq_Configuration rq) net (ni_Port inst mod 65536))))))"

end
