(* ===== verification/Lifecycle.thy ===== *)
theory Lifecycle
  imports Runtime
begin

text \<open>
  What the agent owns (src/runtime.go): whatever fails and whenever, a container it started is
  one a runner it still holds has acquired, so that a later teardown can remove it, and a
  teardown removes nothing else.
\<close>

section \<open>What the machine promises\<close>

text \<open>The container a reference stands for: the one its runner has acquired, if it has.\<close>

definition acquired :: "(runner \<Rightarrow> string option option) \<Rightarrow> runner option \<Rightarrow> string set" where
  "acquired R ref = {i. \<exists>q. ref = Some q \<and> R q = Some (Some i)}"

lemma acquired_simps [simp]: "acquired R None = {}" "acquired (R(q \<mapsto> None)) (Some q) = {}"
  by (simp_all add: acquired_def)

lemma acquired_new: "R q = None \<Longrightarrow> acquired (R(q \<mapsto> None)) ref = acquired R ref"
  by (cases ref) (auto simp: acquired_def)

text \<open>
  \<open>live\<close> reads the identifiers of the containers there are, \<open>runners\<close> the runners that were handed
  out, each with the container it acquired. What core documents of them: a runner is handed out
  once and has acquired nothing; its start may replace the container that bears its name, and one
  it makes is acquired by it, even if the start then fails; a shutdown removes the container its
  runner acquired and no other, in particular not a successor of the same name.
\<close>

locale machine =
  preflight "mx_pf M" probes mounted held "\<lambda>d. (live d, runners d)"
  for M :: "('c, 'd, 'l) Machine" and probes mounted held
    and live :: "'d \<Rightarrow> string set" and runners :: "'d \<Rightarrow> runner \<Rightarrow> string option option" +
  assumes mx_keeps: "frame (\<lambda>h. (live (snd h), runners (snd h))) (mx_Identity M q svc)"
      "frame (\<lambda>h. (live (snd h), runners (snd h))) (mx_ContainerID M q)"
      "frame (\<lambda>h. (live (snd h), runners (snd h))) (mx_BucketExists M e a k b)"
      "frame (\<lambda>h. (live (snd h), runners (snd h))) (mx_MakeBucket M e a k b)"
      "frame (\<lambda>h. (live (snd h), runners (snd h))) (mx_Generate M)"
      "frame (\<lambda>h. (live (snd h), runners (snd h))) (mx_FreePort M)"
      "(live (snd (mx_Sleep M h)), runners (snd (mx_Sleep M h))) = (live (snd h), runners (snd h))"
    and mx_networks_keep: "frame (\<lambda>h. (live (snd h), runners (snd h))) (nw_Open (mx_networks M))"
      "frame (\<lambda>h. (live (snd h), runners (snd h))) (nw_Close (mx_networks M))"
      "frame (\<lambda>h. (live (snd h), runners (snd h))) (nw_Inspect (mx_networks M) n)"
      "frame (\<lambda>h. (live (snd h), runners (snd h))) (nw_Create (mx_networks M) n dr ls)"
      "frame (\<lambda>h. (live (snd h), runners (snd h))) (nw_Connect (mx_networks M) n c al)"
      "frame (\<lambda>h. (live (snd h), runners (snd h))) (nw_Remove (mx_networks M) n)"
    and mx_new: "\<And>r. mx_New M i n h = (r, h') \<Longrightarrow> live (snd h') = live (snd h) \<and> (case r of
        Inl e \<Rightarrow> runners (snd h') = runners (snd h)
      | Inr q \<Rightarrow> runners (snd h) q = None \<and> runners (snd h') = (runners (snd h))(q := Some None))"
    and mx_init: "\<And>r. mx_Init M q spec h = (r, h') \<Longrightarrow> runners (snd h) q = Some None \<Longrightarrow>
      \<exists>a. runners (snd h') = (runners (snd h))(q := Some a) \<and> live (snd h') \<subseteq> live (snd h) \<union> set_option a"
    and mx_shutdown: "\<And>r. mx_Shutdown M q h = (r, h') \<Longrightarrow> runners (snd h') = runners (snd h) \<and>
      live (snd h') \<subseteq> live (snd h) \<and> live (snd h) - acquired (runners (snd h)) (Some q) \<subseteq> live (snd h') \<and>
      (\<forall>u. r = Inr u \<longrightarrow> live (snd h') \<inter> acquired (runners (snd h)) (Some q) = {})"

section \<open>Ownership\<close>

text \<open>What ownership depends on: the containers, the runners and the two references.\<close>

type_synonym holding = "(string set \<times> (runner \<Rightarrow> string option option)) \<times> runner option \<times> runner option"

definition view :: "('d \<Rightarrow> string set) \<Rightarrow> ('d \<Rightarrow> runner \<Rightarrow> string option option) \<Rightarrow> 'd World \<Rightarrow> holding" where
  "view live runners w = ((live (snd (w_host w)), runners (snd (w_host w))), rt_minioEnv (w_rt w), rt_gatewayEnv (w_rt w))"

text \<open>Every container is one of \<open>L\<close> or one a reference stands for, and references are to runners there are.\<close>

definition own :: "string set \<Rightarrow> holding \<Rightarrow> bool" where
  "own L = (\<lambda>((lv, R), m, g). lv \<subseteq> L \<union> acquired R m \<union> acquired R g \<and>
     (\<forall>q. m = Some q \<longrightarrow> R q \<noteq> None) \<and> (\<forall>q. g = Some q \<longrightarrow> R q \<noteq> None))"

text \<open>The phases of Init: nothing is held, the gateway is not, anything may be.\<close>

definition own_none :: "string set \<Rightarrow> holding \<Rightarrow> bool" where
  "own_none L v \<longleftrightarrow> own L v \<and> snd v = (None, None)"

definition own_store :: "string set \<Rightarrow> holding \<Rightarrow> bool" where
  "own_store L v \<longleftrightarrow> own L v \<and> snd (snd v) = None"

lemma phases: "own_none L v \<Longrightarrow> own_store L v" "own_store L v \<Longrightarrow> own L v" "own_none L v \<Longrightarrow> own L v"
  by (auto simp: own_none_def own_store_def)

definition preserves :: "('s \<Rightarrow> bool) \<Rightarrow> ('s, 'a) act \<Rightarrow> bool" where
  "preserves I m \<longleftrightarrow> triple I m (\<lambda>_. I) (\<lambda>_. I)"

named_theorems preserving \<open>rules for invariants of actions\<close>

lemma preservesD: "preserves I m \<Longrightarrow> I s \<Longrightarrow> m s = (r, s') \<Longrightarrow> I s'"
  unfolding preserves_def by (drule (2) tripleD) (simp split: sum.splits)

lemma preserves_frame: "frame (view live runners) m \<Longrightarrow> preserves (\<lambda>w. P (view live runners w)) m"
  unfolding preserves_def
  by (rule tripleI) (auto dest!: frameD split: sum.split)

lemma preserves_ret [preserving]: "preserves I (ret a)"
  unfolding preserves_def by (rule triple_ret)

lemma preserves_fail [preserving]: "preserves I (fail e)"
  unfolding preserves_def by (rule triple_fail)

lemma preserves_handle [preserving]:
  "preserves I m \<Longrightarrow> (\<And>e. preserves I (h e)) \<Longrightarrow> (\<And>a. preserves I (f a)) \<Longrightarrow> preserves I (handle m h f)"
  unfolding preserves_def by (rule triple_handle)

lemma preserves_andthen [preserving]: "preserves I m \<Longrightarrow> (\<And>a. preserves I (f a)) \<Longrightarrow> preserves I (andthen m f)"
  unfolding preserves_def by (rule triple_andthen)

lemma preserves_deferring [preserving]: "preserves I m \<Longrightarrow> preserves I c \<Longrightarrow> preserves I (deferring m c)"
  unfolding preserves_def by (rule triple_deferring)

lemma preserves_if [preserving]: "preserves I m \<Longrightarrow> preserves I n \<Longrightarrow> preserves I (if b then m else n)"
  by simp

lemma preserves_sum [preserving]:
  "(\<And>e. preserves I (m e)) \<Longrightarrow> (\<And>a. preserves I (n a)) \<Longrightarrow> preserves I (case r of Inl e \<Rightarrow> m e | Inr a \<Rightarrow> n a)"
  by (cases r) simp_all

lemma preserves_option [preserving]:
  "preserves I m \<Longrightarrow> (\<And>a. preserves I (n a)) \<Longrightarrow> preserves I (case r of None \<Rightarrow> m | Some a \<Rightarrow> n a)"
  by (cases r) simp_all

lemma preserves_prod [preserving]: "(\<And>a b. preserves I (m a b)) \<Longrightarrow> preserves I (case r of (a, b) \<Rightarrow> m a b)"
  by (cases r) simp

lemma preserves_get [preserving]: "preserves I get_rt"
  by (simp add: preserves_def triple_def get_rt_def)

lemma preserves_modify:
  "(\<And>s. rt_minioEnv (f s) = rt_minioEnv s \<and> rt_gatewayEnv (f s) = rt_gatewayEnv s) \<Longrightarrow>
   preserves (\<lambda>w. P (view live runners w)) (modify_rt f)"
  by (rule preserves_frame) (simp add: frame_def view_def modify_rt_def)

lemma preserves_host:
  "frame (\<lambda>h. (live (snd h), runners (snd h))) m \<Longrightarrow> preserves (\<lambda>w. P (view live runners w)) (on_host m)"
  by (rule preserves_frame, unfold frame_def view_def on_host_def)
    (simp add: case_prod_beta Let_def del: split_paired_All)

lemma preserves_files [preserving]: "preserves (\<lambda>w. P (view live runners w)) (on_files m)"
  by (rule preserves_host) (rule frame_fs [where g = "\<lambda>d. (live d, runners d)" for live runners])

lemma frame_wrapped [frames]: "frame f m \<Longrightarrow> frame f (wrapped M msg m)"
  unfolding wrapped_def by (intro frames)

lemma preserves_wrapped [preserving]: "preserves I m \<Longrightarrow> preserves I (wrapped M msg m)"
  unfolding wrapped_def by (intro preserving)

lemma triple_wrapped: "triple P m Q (\<lambda>_. E) \<Longrightarrow> triple P (wrapped M msg m) Q (\<lambda>_. E)"
  unfolding wrapped_def by (rule triple_handle) (auto simp: triple_def fail_def ret_def)

text \<open>A step of a phase, and the reading of the Runtime, before what ends it.\<close>

lemma triple_before:
  "preserves I m \<Longrightarrow> (\<And>w. I w \<Longrightarrow> E w) \<Longrightarrow> (\<And>a. triple I (f a) Q (\<lambda>_. E)) \<Longrightarrow> triple I (andthen m f) Q (\<lambda>_. E)"
  unfolding preserves_def by (rule triple_andthen [where R = "\<lambda>_. I"]) (auto elim: triple_weaken)

lemma triple_read: "(\<And>s. triple P (f s) Q E) \<Longrightarrow> triple P (andthen get_rt f) Q E"
  by (simp add: triple_def andthen_def handle_def get_rt_def)

section \<open>Every operation keeps ownership\<close>

context machine
begin

abbreviation V :: "'d World \<Rightarrow> holding" where "V \<equiv> view live runners"

abbreviation keeps :: "(holding \<Rightarrow> bool) \<Rightarrow> ('d World, 'a) act \<Rightarrow> bool" where
  "keeps P m \<equiv> preserves (\<lambda>w. P (V w)) m"

lemma keeps_join: "keeps P (joinMinIONetwork core (mx_networks M) c al)"
  unfolding joinMinIONetwork_def ensureNetwork_def Let_def
  by (intro preserving preserves_modify preserves_host frames mx_networks_keep) simp_all

lemma keeps_leave: "keeps P (removeMinIONetwork (mx_networks M))"
  unfolding removeMinIONetwork_def Let_def
  by (intro preserving preserves_modify preserves_host frames mx_networks_keep) simp_all

lemma keeps_prepare: "keeps P (prepareMinIOData (mx_pf M))"
proof -
  have lock: "frame (\<lambda>h. (live (snd h), runners (snd h))) (take_lock (mx_pf M) ow l)" for ow l
    using pf_kept(6) by (simp add: frame_def take_lock_def case_prod_beta Let_def)
  have probe: "frame (\<lambda>h. (live (snd h), runners (snd h))) (chooseMinIOContainerUser probe_of (hostFileOwner sys) rnd parent euid egid)"
    for sys rnd parent euid egid
    using runner.frame_choose by (auto simp: frame_def)
  show ?thesis
    unfolding prepareMinIOData_def prepare_at_def hold_custody_def check_existing_def Let_def
    by (intro preserving preserves_modify preserves_host frames pf_kept lock probe) simp_all
qed

text \<open>A runner is new, is referred to before it is started, and acquires what it starts.\<close>

lemma new_runner:
  "triple (\<lambda>w. P (V w) \<and> own L (V w)) (on_host (mx_New M i n))
     (\<lambda>q w. \<exists>lv R m g. P ((lv, R), m, g) \<and> own L ((lv, R), m, g) \<and> R q = None \<and> V w = ((lv, R(q := Some None)), m, g))
     (\<lambda>_ w. P (V w) \<and> own L (V w))"
proof (rule tripleI)
  fix w r w'
  assume w: "P (V w) \<and> own L (V w)" and m: "on_host (mx_New M i n) w = (r, w')"
  obtain q h where n: "mx_New M i n (w_host w) = (q, h)" by (rule prod.exhaust)
  with m have "r = q" "w_host w' = h" "w_rt w' = w_rt w" by (auto simp: on_host_def)
  with mx_new [OF n] w
  show "case r of Inr q \<Rightarrow> \<exists>lv R m g. P ((lv, R), m, g) \<and> own L ((lv, R), m, g) \<and> R q = None \<and> V w' = ((lv, R(q := Some None)), m, g)
    | Inl e \<Rightarrow> P (V w') \<and> own L (V w')"
    unfolding view_def by (cases r) auto
qed

lemma started:
  assumes set: "\<And>q. triple (\<lambda>w. \<exists>lv R m g. P ((lv, R), m, g) \<and> own L ((lv, R), m, g) \<and> R q = None \<and> V w = ((lv, R(q := Some None)), m, g))
      (modify_rt (f q)) (\<lambda>_ w. B q (V w)) (\<lambda>_ w. E (V w))"
    and fits: "\<And>v. P v \<and> own L v \<Longrightarrow> E v" "\<And>q v. B q v \<Longrightarrow> E v" "\<And>q v. B q v \<Longrightarrow> snd (fst v) q = Some None"
    and acquires: "\<And>q lv lv' R m g a. B q ((lv, R), m, g) \<Longrightarrow> lv' \<subseteq> lv \<union> set_option a \<Longrightarrow> E ((lv', R(q := Some a)), m, g)"
    and k: "\<And>q. keeps E (k q)"
  shows "triple (\<lambda>w. P (V w) \<and> own L (V w))
    (andthen (wrapped M m0 (on_host (mx_New M i n))) (\<lambda>q. andthen (modify_rt (f q)) (\<lambda>_.
       andthen (wrapped M m1 (on_host (mx_Identity M q svc))) (\<lambda>_. andthen (wrapped M m2 (on_host (mx_Init M q spec))) (\<lambda>_. k q)))))
    (\<lambda>_ w. E (V w)) (\<lambda>_ w. E (V w))"
proof -
  have init: "triple (\<lambda>w. B q (V w)) (on_host (mx_Init M q spec)) (\<lambda>_ w. E (V w)) (\<lambda>_ w. E (V w))" for q
  proof (rule tripleI)
    fix w r w'
    assume b: "B q (V w)" and m: "on_host (mx_Init M q spec) w = (r, w')"
    obtain x h where n: "mx_Init M q spec (w_host w) = (x, h)" by (rule prod.exhaust)
    with m have w': "w_host w' = h" "w_rt w' = w_rt w" by (auto simp: on_host_def)
    have "runners (snd (w_host w)) q = Some None" using fits(3) [OF b] by (simp add: view_def)
    from mx_init [OF n this] obtain a where "runners (snd h) = (runners (snd (w_host w)))(q := Some a)"
      "live (snd h) \<subseteq> live (snd (w_host w)) \<union> set_option a" by blast
    with acquires [OF b [unfolded view_def], of "live (snd h)" a] w' have "E (V w')" by (simp add: view_def)
    then show "case r of Inr u \<Rightarrow> E (V w') | Inl e \<Rightarrow> E (V w')" by (cases r) simp_all
  qed
  have ident: "triple (\<lambda>w. B q (V w)) (on_host (mx_Identity M q svc)) (\<lambda>_ w. B q (V w)) (\<lambda>_ w. E (V w))" for q
    by (rule triple_weaken [OF preserves_host [OF mx_keeps(1), where P = "B q", unfolded preserves_def]]) (auto dest: fits(2))
  have new: "triple (\<lambda>w. P (V w) \<and> own L (V w)) (on_host (mx_New M i n))
     (\<lambda>q w. \<exists>lv R m g. P ((lv, R), m, g) \<and> own L ((lv, R), m, g) \<and> R q = None \<and> V w = ((lv, R(q := Some None)), m, g))
     (\<lambda>_ w. E (V w))"
    by (rule triple_weaken [OF new_runner [of P L]]) (auto intro: fits(1))
  show ?thesis
    by (rule triple_andthen [OF triple_wrapped [OF new]], rule triple_andthen [OF set],
        rule triple_andthen [OF triple_wrapped [OF ident]], rule triple_andthen [OF triple_wrapped [OF init]])
      (use k in \<open>simp add: preserves_def\<close>)
qed

lemma start_minio:
  assumes "\<And>q. keeps (own_store L) (k q)"
  shows "triple (\<lambda>w. own_none L (V w))
    (andthen (wrapped M m0 (on_host (mx_New M i n))) (\<lambda>q. andthen (modify_rt (rt_minioEnv_update (\<lambda>_. Some q))) (\<lambda>_.
       andthen (wrapped M m1 (on_host (mx_Identity M q svc))) (\<lambda>_. andthen (wrapped M m2 (on_host (mx_Init M q spec))) (\<lambda>_. k q)))))
    (\<lambda>_ w. own_store L (V w)) (\<lambda>_ w. own_store L (V w))"
proof (rule triple_weaken [OF started [where P = "own_none L" and L = L and E = "own_store L" and
      B = "\<lambda>q v. own_store L v \<and> fst (snd v) = Some q \<and> snd (fst v) q = Some None" and f = "\<lambda>q. rt_minioEnv_update (\<lambda>_. Some q)"]])
  show "triple (\<lambda>w. \<exists>lv R m g. own_none L ((lv, R), m, g) \<and> own L ((lv, R), m, g) \<and> R q = None \<and> V w = ((lv, R(q := Some None)), m, g))
      (modify_rt (rt_minioEnv_update (\<lambda>_. Some q)))
      (\<lambda>_ w. own_store L (V w) \<and> fst (snd (V w)) = Some q \<and> snd (fst (V w)) q = Some None) (\<lambda>_ w. own_store L (V w))" for q
    by (auto simp: triple_def modify_rt_def view_def own_none_def own_store_def own_def acquired_new)
qed (use assms in \<open>auto simp: phases own_none_def own_store_def own_def acquired_def split: if_splits\<close>)

lemma start_gateway:
  assumes "\<And>q. keeps (own L) (k q)"
  shows "triple (\<lambda>w. own_store L (V w))
    (andthen (wrapped M m0 (on_host (mx_New M i n))) (\<lambda>q. andthen (modify_rt (rt_gatewayEnv_update (\<lambda>_. Some q))) (\<lambda>_.
       andthen (wrapped M m1 (on_host (mx_Identity M q svc))) (\<lambda>_. andthen (wrapped M m2 (on_host (mx_Init M q spec))) (\<lambda>_. k q)))))
    (\<lambda>_ w. own L (V w)) (\<lambda>_ w. own L (V w))"
proof (rule triple_weaken [OF started [where P = "own_store L" and L = L and E = "own L" and
      B = "\<lambda>q v. own L v \<and> snd (snd v) = Some q \<and> fst (snd v) \<noteq> Some q \<and> snd (fst v) q = Some None" and
      f = "\<lambda>q. rt_gatewayEnv_update (\<lambda>_. Some q)"]])
  show "triple (\<lambda>w. \<exists>lv R m g. own_store L ((lv, R), m, g) \<and> own L ((lv, R), m, g) \<and> R q = None \<and> V w = ((lv, R(q := Some None)), m, g))
      (modify_rt (rt_gatewayEnv_update (\<lambda>_. Some q)))
      (\<lambda>_ w. own L (V w) \<and> snd (snd (V w)) = Some q \<and> fst (snd (V w)) \<noteq> Some q \<and> snd (fst (V w)) q = Some None) (\<lambda>_ w. own L (V w))" for q
    by (auto simp: triple_def modify_rt_def view_def own_store_def own_def acquired_new)
qed (use assms in \<open>auto simp: phases own_store_def own_def acquired_def split: if_splits\<close>)

lemma keeps_bucket: "keeps P (ensureBucket M)"
proof -
  have "frame (\<lambda>h. (live (snd h), runners (snd h))) (bucket_loop M s n e)" for s n e
  proof (induction n arbitrary: e)
    case (Suc n)
    have "frame (\<lambda>h. (live (snd h), runners (snd h))) (\<lambda>h. bucket_loop M s n e (mx_Sleep M h))" for e
      by (rule frame_after [OF Suc.IH mx_keeps(7)])
    then show ?case by (auto simp: Let_def intro!: frames mx_keeps split: option.split)
  qed (simp add: frame_fail)
  then show ?thesis unfolding ensureBucket_def by (intro preserving preserves_host)
qed

lemma keeps_project: "keeps P (projectGCSCredentials M)"
  unfolding projectGCSCredentials_def Let_def by (intro preserving preserves_modify) simp_all

lemma keeps_discard: "keeps P (discardProjectedCredentials M)"
  unfolding discardProjectedCredentials_def by (intro preserving preserves_modify) simp_all

lemma keeps_port: "keeps P (minioPort M s)"
  unfolding minioPort_def by (intro preserving preserves_host mx_keeps)

lemma keeps_finish: "keeps P (commit_provisioning M)" "keeps P (offer_tenant_store M)" "keeps P (modify_rt use_local_store)"
  unfolding commit_provisioning_def offer_tenant_store_def use_local_store_def
  by (intro preserving preserves_modify; simp)+

lemma run_minio_spec:
  "triple (\<lambda>w. own_none L (V w)) (run_minio M data) (\<lambda>_ w. own_store L (V w)) (\<lambda>_ w. own_store L (V w))"
  unfolding run_minio_def Let_def
  by (rule triple_read start_minio | rule triple_before, (intro preserving preserves_modify preserves_host mx_keeps keeps_port; simp), erule phases(1)
    | intro preserving keeps_join keeps_bucket keeps_finish preserves_host mx_keeps)+

lemma keeps_unlock: "keeps P (on_host (pf_Unlock (mx_pf M) l))"
  by (rule preserves_host) (rule pf_kept)

lemma local_spec:
  "triple (\<lambda>w. own_none L (V w)) (startLocalMinIOWithRelease M) (\<lambda>_ w. own_store L (V w)) (\<lambda>_ w. own_store L (V w))"
proof -
  have run: "triple (\<lambda>w. own_none L (V w)) (case dl of (data, lock) \<Rightarrow> handle (run_minio M data)
       (\<lambda>err. deferring (fail err) (on_host (pf_Unlock (mx_pf M) lock))) (\<lambda>_. ret lock))
    (\<lambda>_ w. own_store L (V w)) (\<lambda>_ w. own_store L (V w))" for dl
    unfolding case_prod_beta
    by (rule triple_handle [OF run_minio_spec]; fold preserves_def; intro preserving keeps_unlock)
  show ?thesis
    unfolding startLocalMinIOWithRelease_def
    by (rule triple_handle [OF keeps_prepare [unfolded preserves_def] _ run])
      (simp add: triple_def fail_def phases)
qed

lemma startGateway_spec:
  "triple (\<lambda>w. own_store L (V w)) (startGateway M port) (\<lambda>_ w. own L (V w)) (\<lambda>_ w. own L (V w))"
  unfolding startGateway_def Let_def
  by (rule triple_read, rule start_gateway) (intro preserving keeps_join preserves_host mx_keeps)

text \<open>A shutdown removes what its reference stands for and nothing else.\<close>

lemma shutdown_result:
  assumes "shutdown_env M env clear msg w = (q, w1)"
  defines "R \<equiv> runners (snd (w_host w))"
  shows "\<exists>es. q = Inr es \<and> runners (snd (w_host w1)) = R \<and> live (snd (w_host w1)) \<subseteq> live (snd (w_host w)) \<and>
    live (snd (w_host w)) - acquired R (env (w_rt w)) \<subseteq> live (snd (w_host w1)) \<and>
    (if es = [] then live (snd (w_host w1)) \<inter> acquired R (env (w_rt w)) = {} \<and>
        w_rt w1 = (if env (w_rt w) = None then w_rt w else clear (w_rt w))
     else w_rt w1 = w_rt w)"
proof (cases "env (w_rt w)")
  case None
  with assms(1) show ?thesis
    by (auto simp: shutdown_env_def andthen_def handle_def get_rt_def ret_def acquired_def R_def)
next
  case (Some c)
  obtain x h where sh: "mx_Shutdown M c (w_host w) = (x, h)" by (rule prod.exhaust)
  note law = mx_shutdown [OF sh, folded R_def]
  show ?thesis
  proof (cases x)
    case (Inl e)
    with assms(1) Some sh have "q = Inr [Wrapf (mx_core M) e msg]" "w_host w1 = h" "w_rt w1 = w_rt w"
      by (auto simp: shutdown_env_def andthen_def handle_def get_rt_def ret_def on_host_def)
    with law Some show ?thesis by simp
  next
    case (Inr u)
    with assms(1) Some sh have "q = Inr []" "w_host w1 = h" "w_rt w1 = clear (w_rt w)"
      by (auto simp: shutdown_env_def andthen_def handle_def get_rt_def ret_def on_host_def modify_rt_def)
    with law Some Inr show ?thesis by simp
  qed
qed

lemma teardown_steps:
  assumes "teardown M w = (r, w')"
  obtains es1 w1 es2 w2 where
    "shutdown_env M rt_gatewayEnv (rt_gatewayEnv_update (\<lambda>_. None)) ''cannot shut down gateway'' w = (Inr es1, w1)"
    "shutdown_env M rt_minioEnv (rt_minioEnv_update (\<lambda>_. None)) ''cannot shut down minio'' w1 = (Inr es2, w2)"
    "V w' = V w2" "\<And>v. r = Inr v \<Longrightarrow> es1 = [] \<and> es2 = []"
proof -
  let ?s1 = "shutdown_env M rt_gatewayEnv (rt_gatewayEnv_update (\<lambda>_. None)) ''cannot shut down gateway''"
  let ?s2 = "shutdown_env M rt_minioEnv (rt_minioEnv_update (\<lambda>_. None)) ''cannot shut down minio''"
  let ?s3 = "handle (removeMinIONetwork (mx_networks M))
         (\<lambda>err. ret [Wrapf (mx_core M) err ''cannot remove the service network'']) (\<lambda>_. ret [])"
  obtain q1 w1 where 1: "?s1 w = (q1, w1)" by (rule prod.exhaust)
  obtain es1 where es1: "q1 = Inr es1" using shutdown_result [OF 1] by blast
  obtain q2 w2 where 2: "?s2 w1 = (q2, w2)" by (rule prod.exhaust)
  obtain es2 where es2: "q2 = Inr es2" using shutdown_result [OF 2] by blast
  obtain q3 w3 where 3: "?s3 w2 = (q3, w3)" by (rule prod.exhaust)
  obtain q4 w4 where 4: "discardProjectedCredentials M w3 = (q4, w4)" by (rule prod.exhaust)
  have "preserves (\<lambda>w. V w = V w2) ?s3" by (intro preserving keeps_leave [where P = "\<lambda>v. v = V w2"])
  from preservesD [OF this _ 3] have v3: "V w3 = V w2" by simp
  from preservesD [OF keeps_discard [where P = "\<lambda>v. v = V w3"] _ 4] have v4: "V w4 = V w3" by simp
  obtain es3 where q3: "q3 = Inr es3" using 3 by (auto simp: handle_def ret_def split: prod.splits sum.splits)
  obtain u where q4: "q4 = Inr u"
    using 4 by (auto simp: discardProjectedCredentials_def andthen_def handle_def get_rt_def modify_rt_def ret_def
        split: option.splits sum.splits prod.splits)
  from assms have "w' = w4 \<and> (\<forall>v. r = Inr v \<longrightarrow> es1 = [] \<and> es2 = [])"
    unfolding teardown_def andthen_def handle_def 1 es1 prod.case sum.case 2 es2 3 [unfolded handle_def] q3 4 q4
    by (auto simp: ret_def fail_def split: if_splits)
  with that [of es1 w1 es2 w2] 1 es1 2 es2 v3 v4 show thesis by simp
qed

text \<open>What the Runtime holds.\<close>

abbreviation lives :: "'d World \<Rightarrow> string set" where "lives w \<equiv> live (snd (w_host w))"

lemma teardown_result:
  assumes "teardown M w = (r, w')" "own L (V w)"
  defines "held_now \<equiv> acquired (runners (snd (w_host w))) (rt_minioEnv (w_rt w)) \<union> acquired (runners (snd (w_host w))) (rt_gatewayEnv (w_rt w))"
  shows "own L (V w')" "lives w - held_now \<subseteq> lives w'"
    "r = Inr v \<Longrightarrow> lives w' \<inter> held_now = {} \<and> rt_minioEnv (w_rt w') = None \<and> rt_gatewayEnv (w_rt w') = None"
proof -
  obtain es1 w1 es2 w2 where st: "shutdown_env M rt_gatewayEnv (rt_gatewayEnv_update (\<lambda>_. None)) ''cannot shut down gateway'' w = (Inr es1, w1)"
    "shutdown_env M rt_minioEnv (rt_minioEnv_update (\<lambda>_. None)) ''cannot shut down minio'' w1 = (Inr es2, w2)"
    "V w' = V w2" "\<And>v. r = Inr v \<Longrightarrow> es1 = [] \<and> es2 = []"
    by (rule teardown_steps [OF assms(1)]) blast
  note out = shutdown_result [OF st(1)] shutdown_result [OF st(2)]
  show "own L (V w')" using out assms(2) st(3) by (auto simp: view_def own_def acquired_def split: if_splits; blast)
  show "lives w - held_now \<subseteq> lives w'" using out st(3) by (auto simp: view_def held_now_def split: if_splits)
  show "lives w' \<inter> held_now = {} \<and> rt_minioEnv (w_rt w') = None \<and> rt_gatewayEnv (w_rt w') = None" if "r = Inr v"
    using out st(3) st(4) [OF that] by (auto simp: view_def held_now_def split: if_splits)
qed

lemma keeps_teardown: "keeps (own L) (teardown M)"
  unfolding preserves_def using teardown_result(1) by (auto intro!: tripleI split: sum.split)

lemma keeps_rollback: "keeps (own L) (rolling_back M e)"
  unfolding rolling_back_def by (intro preserving keeps_teardown)

lemma keeps_connections: "keeps P (connections M ctx conf is)"
proof (induction "is")
  case (Cons i "is")
  show ?case unfolding connections.simps by (intro preserving preserves_modify Cons.IH) simp_all
qed (simp add: preserves_ret)

lemma keeps_token: "keeps P (modify_rt (upd_service (sv_gatewayToken_update f)))"
  by (rule preserves_modify) simp

lemma keeps_resolve: "keeps P (resolveGatewayToken M conf)"
  unfolding resolveGatewayToken_def by (intro preserving preserves_host mx_keeps)

lemma serve_spec:
  "triple (\<lambda>w. own_store L (V w)) (serve_gateway M ctx conf net port) (\<lambda>_ w. own L (V w)) (\<lambda>_ w. own L (V w))"
  unfolding serve_gateway_def
proof (rule triple_read, rule triple_handle [OF keeps_resolve [unfolded preserves_def]], goal_cases)
  case (1 s e)
  show ?case
    by (rule triple_weaken [where P = "\<lambda>w. own L (V w)", OF preserves_andthen [OF keeps_token keeps_rollback, unfolded preserves_def]])
      (simp_all add: phases)
next
  case (2 s token)
  have run: "triple (\<lambda>w. own_store L (V w)) (handle (startGateway M port) (rolling_back M) (\<lambda>_. connections M ctx conf (nm_Instances net)))
      (\<lambda>_ w. own L (V w)) (\<lambda>_ w. own L (V w))"
    by (rule triple_handle [OF startGateway_spec]; fold preserves_def; intro keeps_rollback keeps_connections)
  show ?case by (rule triple_before [where I = "\<lambda>w. own_store L (V w)" and E = "\<lambda>w. own L (V w)"])
    (rule keeps_token [where P = "own_store L"], erule phases(2), rule run)
qed

lemma services_spec:
  "triple (\<lambda>w. own_none L (V w)) (start_services M ctx conf net port) (\<lambda>_ w. own L (V w)) (\<lambda>_ w. own L (V w))"
proof -
  have bail: "triple (\<lambda>w. own_store L (V w)) (if b then fail e else rolling_back M e) (\<lambda>_ w. own L (V w)) (\<lambda>_ w. own L (V w))" for b e
    by (rule triple_weaken [where P = "\<lambda>w. own L (V w)", OF preserves_if [OF preserves_fail keeps_rollback, unfolded preserves_def]])
      (simp_all add: phases)
  have serve: "triple (\<lambda>w. own_store L (V w)) (deferring (serve_gateway M ctx conf net port) (on_host (pf_Unlock (mx_pf M) lock)))
      (\<lambda>_ w. own L (V w)) (\<lambda>_ w. own L (V w))" for lock
    by (rule triple_deferring [OF serve_spec]; fold preserves_def; rule keeps_unlock)
  have direct: "triple (\<lambda>w. own_none L (V w)) (serve_gateway M ctx conf net port) (\<lambda>_ w. own L (V w)) (\<lambda>_ w. own L (V w))"
    by (rule triple_weaken [OF serve_spec]) (simp_all add: phases)
  show ?thesis
    unfolding start_services_def
    by (rule triple_read, rule triple_if, (simp add: triple_def fail_def phases), rule triple_if,
        rule triple_handle [OF local_spec bail serve], rule direct)
qed

lemma Init_spec: "triple (\<lambda>w. own_none L (V w)) (Init M ctx rq) (\<lambda>_ w. own L (V w)) (\<lambda>_ w. own L (V w))"
proof -
  have quit: "triple (\<lambda>w. own_none L (V w)) (fail e) (\<lambda>_ w. own L (V w)) (\<lambda>_ w. own L (V w))" for e
    by (simp add: triple_def fail_def phases)
  show ?thesis
    unfolding Init_def
    by (rule triple_before, (rule preserves_modify; simp), erule phases(3), rule triple_read)
      (auto intro!: quit triple_before [OF keeps_project phases(3)] triple_before [OF preserves_modify phases(3)] services_spec split: sum.split)
qed

end

section \<open>Properties\<close>

text \<open>What the host asks of the agent: Destroy at any time and as often as it likes, and Init on a Runtime
  that holds no container, a new one or one whose last teardown was complete.\<close>

inductive lifecycle :: "('c, 'd, 'l) Machine \<Rightarrow> (NetworkInstance \<Rightarrow> 'r) \<Rightarrow> 'd World \<Rightarrow> 'd World \<Rightarrow> bool" for M ctx where
  lifecycle_start: "lifecycle M ctx w w"
| lifecycle_Init: "lifecycle M ctx w w1 \<Longrightarrow> rt_minioEnv (w_rt w1) = None \<Longrightarrow> rt_gatewayEnv (w_rt w1) = None \<Longrightarrow>
    Init M ctx rq w1 = (r, w2) \<Longrightarrow> lifecycle M ctx w w2"
| lifecycle_Destroy: "lifecycle M ctx w w1 \<Longrightarrow> Destroy M w1 = (r, w2) \<Longrightarrow> lifecycle M ctx w w2"

inductive_cases lifecycleE: "lifecycle M ctx w w'"

text \<open>The containers there are, and those the Runtime's references stand for.\<close>

abbreviation containers :: "('d \<Rightarrow> string set) \<Rightarrow> 'd World \<Rightarrow> string set" where
  "containers live w \<equiv> live (snd (w_host w))"

definition holdings :: "('d \<Rightarrow> runner \<Rightarrow> string option option) \<Rightarrow> 'd World \<Rightarrow> string set" where
  "holdings runners w = acquired (runners (snd (w_host w))) (rt_minioEnv (w_rt w)) \<union>
     acquired (runners (snd (w_host w))) (rt_gatewayEnv (w_rt w))"

lemma own_holdings: "own L (view live runners w) \<Longrightarrow> containers live w \<subseteq> L \<union> holdings runners w"
  by (auto simp: own_def view_def holdings_def)

lemma own_from_none:
  "rt_minioEnv (w_rt w) = None \<Longrightarrow> rt_gatewayEnv (w_rt w) = None \<Longrightarrow> own (containers live w) (view live runners w)"
  by (simp add: own_def view_def)

lemma lifecycle_own:
  assumes "machine M probes mounted held live runners"
  shows "lifecycle M ctx w w' \<Longrightarrow> own L (view live runners w) \<Longrightarrow> own L (view live runners w')"
proof (induction rule: lifecycle.induct)
  case (lifecycle_Init w w1 rq r w2)
  then have "own_none L (view live runners w1)" by (simp add: own_none_def view_def)
  from tripleD [OF machine.Init_spec [OF assms] this lifecycle_Init.hyps(4)] show ?case by (cases r) simp_all
next
  case (lifecycle_Destroy w w1 r w2)
  then show ?case
    using preservesD [OF machine.keeps_teardown [OF assms] _ lifecycle_Destroy.hyps(2) [unfolded Destroy_def]] by blast
qed simp


text \<open>Describing a connection touches neither the host nor the references.\<close>

lemma frame_connections: "frame (\<lambda>w. (w_host w, rt_gatewayEnv (w_rt w), rt_minioEnv (w_rt w))) (connections M ctx conf is)"
  by (induction "is") (auto intro!: frames simp: frame_def [of _ "modify_rt f" for f] modify_rt_def)

definition with_token :: "string \<Rightarrow> 'd World \<Rightarrow> 'd World" where
  "with_token t w = w\<lparr>w_rt := upd_service (sv_gatewayToken_update (\<lambda>_. t)) (w_rt w)\<rparr>"

text \<open>The steps of a failure: where the start broke off, or that only a connection could not be described.\<close>

definition start_broke_off :: "('c, 'd, 'l) Machine \<Rightarrow> nat \<Rightarrow> 'd World \<Rightarrow> goerr \<Rightarrow> 'd World \<Rightarrow> bool" where
  "start_broke_off M port w e w1 \<longleftrightarrow> (case resolveGatewayToken M (rt_conf (w_rt w)) w of
     (Inl err, wt) \<Rightarrow> err = e \<and> w1 = with_token [] wt
   | (Inr token, wt) \<Rightarrow> startGateway M port (with_token token wt) = (Inl e, w1))"

lemma rolling_back_state: "rolling_back M err w = (Inl e, w') \<Longrightarrow> err = e \<and> (\<exists>q. teardown M w = (q, w'))"
  by (cases "teardown M w") (auto simp: rolling_back_def deferring_def fail_def)

lemma serve_failure:
  fixes ctx :: "NetworkInstance \<Rightarrow> 'd"
  assumes "serve_gateway M ctx conf net port w = (Inl e, w')"
  shows "(\<exists>w1 r. start_broke_off M port w e w1 \<and> teardown M w1 = (r, w')) \<or>
    (\<exists>token wt w1. resolveGatewayToken M (rt_conf (w_rt w)) w = (Inr token, wt) \<and>
       startGateway M port (with_token token wt) = (Inr (), w1) \<and> connections M ctx conf (nm_Instances net) w1 = (Inl e, w'))"
proof -
  obtain t wt where t: "resolveGatewayToken M (rt_conf (w_rt w)) w = (t, wt)" by (rule prod.exhaust)
  show ?thesis
  proof (cases t)
    case (Inl err)
    with assms t have "rolling_back M err (with_token [] wt) = (Inl e :: goerr + 'd Connection list, w')"
      by (simp add: serve_gateway_def andthen_def handle_def get_rt_def modify_rt_def with_token_def)
    from rolling_back_state [OF this] t Inl show ?thesis by (auto simp: start_broke_off_def)
  next
    case (Inr token)
    obtain g wg where g: "startGateway M port (with_token token wt) = (g, wg)" by (rule prod.exhaust)
    show ?thesis
    proof (cases g)
      case (Inl err)
      with assms t Inr g have "rolling_back M err wg = (Inl e :: goerr + 'd Connection list, w')"
        by (simp add: serve_gateway_def andthen_def handle_def get_rt_def modify_rt_def with_token_def)
      from rolling_back_state [OF this] t g Inl Inr show ?thesis by (auto simp: start_broke_off_def)
    next
      case (Inr v)
      with assms t \<open>t = Inr token\<close> g have "connections M ctx conf (nm_Instances net) wg = (Inl e, w')"
        by (simp add: serve_gateway_def andthen_def handle_def get_rt_def modify_rt_def with_token_def)
      with t g Inr \<open>t = Inr token\<close> show ?thesis by auto
    qed
  qed
qed


section \<open>The agent on the engine\<close>

text \<open>The engine's runners: a start replaces the container of its name by a new one.\<close>

definition start_container :: "runner \<Rightarrow> Daemon \<Rightarrow> (goerr + unit) \<times> Daemon" where
  "start_container q d = (if q < length (dm_runners d)
     then (let (n, a) = dm_runners d ! q; i = n @ ''#'' @ replicate q (CHR ''i'') in
       (Inr (), d\<lparr>dm_containers := (i, n) # filter (\<lambda>(j, m). m \<noteq> n) (dm_containers d), dm_runners := (dm_runners d)[q := (n, Some i)]\<rparr>))
     else (Inl (Msg ''no runner''), d))"

definition stop_container :: "runner \<Rightarrow> Daemon \<Rightarrow> Daemon" where
  "stop_container q d = (case engine_runners d q of
     Some (Some i) \<Rightarrow> d\<lparr>dm_containers := filter (\<lambda>(j, m). j \<noteq> i) (dm_containers d)\<rparr>
   | _ \<Rightarrow> d)"

definition engine_machine :: "((string \<times> string) list, Daemon, unit) Machine" where
  "engine_machine = \<lparr>
     mx_pf = engine_preflight, mx_networks = engine_networks,
     mx_New = (\<lambda>i n. engine (\<lambda>fs d. (Inr (length (dm_runners d)), fs, d\<lparr>dm_runners := dm_runners d @ [(n, None)]\<rparr>))),
     mx_Identity = (\<lambda>q svc. engine (\<lambda>fs d. (Inr (), fs, d))),
     mx_Init = (\<lambda>q spec. engine (\<lambda>fs d. (fst (start_container q d), fs, snd (start_container q d)))),
     mx_ContainerID = (\<lambda>q. engine (\<lambda>fs d. (case engine_runners d q of
        Some (Some i) \<Rightarrow> Inr i | _ \<Rightarrow> Inl (Msg ''no container''), fs, d))),
     mx_Shutdown = (\<lambda>q. engine (\<lambda>fs d. (Inr (), fs, stop_container q d))),
     mx_MinioNew = (\<lambda>e a k. None), mx_BucketExists = (\<lambda>e a k b. engine (\<lambda>fs d. (Inr True, fs, d))),
     mx_MakeBucket = (\<lambda>e a k b. engine (\<lambda>fs d. (Inr (), fs, d))), mx_Sleep = (\<lambda>h. h),
     mx_Generate = engine (\<lambda>fs d. (Inr ''secret'', fs, d)), mx_FreePort = engine (\<lambda>fs d. (Inr 40000, fs, d)),
     mx_Getenv = (\<lambda>k. []), mx_GatewayImage = \<lparr>im_Name = ''gateway'', im_Tag = [], im_Digest = []\<rparr>,
     mx_JsonValid = (\<lambda>s. True), mx_Digest6 = (\<lambda>s. ''d''), mx_Path = (\<lambda>s. [s]), mx_Location = [''h'']\<rparr>"

lemma engine_alters:
  "(\<And>fs d. g (snd (snd (f fs d))) = g d) \<Longrightarrow> (\<And>d x. g (d\<lparr>dm_refusals := x\<rparr>) = g d) \<Longrightarrow> frame (\<lambda>h. g (snd h)) (engine f)"
  by (auto simp: frame_def engine_def split: list.split option.split)

lemma engine_view [simp]:
  "engine_live (d\<lparr>dm_refusals := x\<rparr>) = engine_live d" "engine_runners (d\<lparr>dm_refusals := x\<rparr>) = engine_runners d"
  "engine_live (d\<lparr>dm_networks := n\<rparr>) = engine_live d" "engine_runners (d\<lparr>dm_networks := n\<rparr>) = engine_runners d"
  by (simp_all add: engine_live_def engine_runners_def fun_eq_iff)

lemma engine_starts:
  assumes "engine_runners d q = Some None"
  shows "\<exists>a. engine_runners (snd (start_container q d)) = (engine_runners d)(q := Some a) \<and>
    engine_live (snd (start_container q d)) \<subseteq> engine_live d \<union> set_option a"
proof -
  have q: "q < length (dm_runners d)" using assms by (simp add: engine_runners_def split: if_splits)
  obtain n a where n: "dm_runners d ! q = (n, a)" by fastforce
  let ?i = "n @ ''#'' @ replicate q (CHR ''i'')"
  have "engine_runners (snd (start_container q d)) = (engine_runners d)(q := Some (Some ?i))"
    using q n by (simp add: start_container_def engine_runners_def fun_eq_iff Let_def)
  moreover have "engine_live (snd (start_container q d)) \<subseteq> engine_live d \<union> {?i}"
    using q n by (auto simp: start_container_def engine_live_def Let_def)
  ultimately show ?thesis by (intro exI [of _ "Some ?i"]) simp
qed

lemma engine_stops:
  "engine_runners (stop_container q d) = engine_runners d" "engine_live (stop_container q d) \<subseteq> engine_live d"
  "engine_live d - acquired (engine_runners d) (Some q) \<subseteq> engine_live (stop_container q d)"
  "engine_live (stop_container q d) \<inter> acquired (engine_runners d) (Some q) = {}"
  by (force simp: stop_container_def engine_runners_def engine_live_def acquired_def split: option.splits)+

lemma engine_hands: "engine_runners (d\<lparr>dm_runners := dm_runners d @ [(n, None)]\<rparr>) = (engine_runners d)(length (dm_runners d) := Some None)"
  "engine_runners (d\<lparr>dm_refusals := x, dm_runners := dm_runners d @ [(n, None)]\<rparr>) = (engine_runners d)(length (dm_runners d) := Some None)"
  "engine_live (d\<lparr>dm_runners := rs\<rparr>) = engine_live d" "engine_runners d (length (dm_runners d)) = None"
  by (auto simp: engine_runners_def engine_live_def fun_eq_iff nth_append)

interpretation engine: machine engine_machine engine_probes engine_mounted "\<lambda>d. set (dm_locks d)" engine_live engine_runners
proof -
  have p: "preflight (mx_pf engine_machine) engine_probes engine_mounted (\<lambda>d. set (dm_locks d)) (\<lambda>d. (engine_live d, engine_runners d))"
    using engine.preflight_axioms by (simp add: engine_machine_def)
  have f: "frame (\<lambda>h. (engine_live (snd h), engine_runners (snd h))) (engine f)" if "\<And>fs d. (engine_live (snd (snd (f fs d))), engine_runners (snd (snd (f fs d)))) = (engine_live d, engine_runners d)" for f :: "FS \<Rightarrow> Daemon \<Rightarrow> (goerr + 'x) \<times> FS \<times> Daemon"
    by (rule engine_alters [where g = "\<lambda>d. (engine_live d, engine_runners d)"]) (simp_all add: that)
  have "machine_axioms engine_machine engine_live engine_runners"
  proof (unfold_locales, goal_cases)
    case (14 i n h h' r)
    then show ?case by (cases h; cases h') (auto simp: engine_machine_def engine_hands elim!: engine_cases)
  next
    case (15 q spec h h' r)
    obtain d fs where h: "h = (fs, d)" by (cases h)
    show ?case
    proof (cases "\<exists>x. snd h' = d\<lparr>dm_refusals := x\<rparr>")
      case True
      then show ?thesis using 15(2) h by (auto intro!: exI [of _ None] simp: fun_eq_iff)
    next
      case False
      with 15(1) h obtain x where "snd h' = snd (start_container q (d\<lparr>dm_refusals := x\<rparr>))"
        by (cases h') (auto simp: engine_machine_def elim!: engine_cases)
      with engine_starts [of "d\<lparr>dm_refusals := x\<rparr>" q] 15(2) h show ?thesis by simp
    qed
  next
    case (16 q h h' r)
    have s: "engine_runners (stop_container q (d\<lparr>dm_refusals := x\<rparr>)) = engine_runners d"
      "engine_live (stop_container q (d\<lparr>dm_refusals := x\<rparr>)) \<subseteq> engine_live d"
      "engine_live d - acquired (engine_runners d) (Some q) \<subseteq> engine_live (stop_container q (d\<lparr>dm_refusals := x\<rparr>))"
      "engine_live (stop_container q (d\<lparr>dm_refusals := x\<rparr>)) \<inter> acquired (engine_runners d) (Some q) = {}" for d x
      using engine_stops [where q = q and d = "d\<lparr>dm_refusals := x\<rparr>"] by simp_all
    obtain d fs where h: "h = (fs, d)" by (cases h)
    with 16 have "(\<exists>e x. r = Inl e \<and> snd h' = d\<lparr>dm_refusals := x\<rparr>) \<or> (\<exists>x. snd h' = stop_container q (d\<lparr>dm_refusals := x\<rparr>))"
      by (cases h') (auto simp: engine_machine_def elim!: engine_cases)
    with h s show ?case by (elim disjE exE conjE) simp_all
  qed (auto simp: engine_machine_def engine_networks_def intro!: f split: option.splits if_splits)
  with p show "machine engine_machine engine_probes engine_mounted (\<lambda>d. set (dm_locks d)) engine_live engine_runners"
    by (rule machine.intro)
qed

text \<open>A Runtime on a backend of its own beside a container of another's: Init starts the gateway, Destroy removes it.\<close>

definition lone_world :: "Daemon World" where
  "lone_world = \<lparr>w_host = (sample_fs [], idle\<lparr>dm_containers := [(''o1'', ''other'')]\<rparr>),
     w_rt = custody_runtime\<lparr>rt_Service := sample_service\<lparr>sv_Settings := \<lparr>st_Backend = ''s3'', st_Bucket = [], st_Region = [], st_Prefix = []\<rparr>,
       sv_tenantStore := None\<rparr>\<rparr>\<rparr>"

definition lone_request :: "(string \<times> string) list InitRequest" where
  "lone_request = \<lparr>rq_Mappings = [sample_mapping], rq_Dependencies = [], rq_Configuration = None, rq_Access = ''native''\<rparr>"

lemmas agent_eval = start_container_def stop_container_def engine_runners_def engine_machine_def
  sample_mapping_def wrapped_def gateway_spec_def effectiveGatewayImage_def gateway_name_def engine_quiet idle_def
  custody_runtime_def sample_runtime_def sample_service_def on_host_def get_rt_def modify_rt_def handle_def andthen_def
  ret_def fail_def Let_def sample_core_def engine_preflight_def

lemma lone_Init:
  "\<exists>cs w1. Init engine_machine ni_Access lone_request lone_world = (Inr cs, w1) \<and>
     dm_containers (snd (w_host w1)) = [(''w-m-s-gateway#'', ''w-m-s-gateway''), (''o1'', ''other'')] \<and>
     dm_runners (snd (w_host w1)) = [(''w-m-s-gateway'', Some ''w-m-s-gateway#'')] \<and> dm_refusals (snd (w_host w1)) = [] \<and>
     rt_minioEnv (w_rt w1) = None \<and> rt_gatewayEnv (w_rt w1) = Some 0 \<and> rt_minioNetwork (w_rt w1) = [] \<and>
     rt_gcsCredentialsHostFile (w_rt w1) = None"
  by (simp add: Init_def start_services_def serve_gateway_def startGateway_def resolveGatewayToken_def runsLocalMinIO_def
      CreateConnectionConfiguration_def lone_world_def lone_request_def projectGCSCredentials_def
      LoadConfiguration_def configured_def withDefault_def sample_endpoint_def sample_instance_def agent_eval cong: io_cong)


text \<open>The engine refuses the gateway's start, MinIO already runs: both are gone afterwards.\<close>

definition refused_world :: "Daemon World" where
  "refused_world = \<lparr>w_host = (sample_fs [], idle\<lparr>dm_refusals := [None, None, Some ''boom''],
       dm_containers := [(''m1'', ''w-m-s-minio''), (''o1'', ''other'')], dm_runners := [(''w-m-s-minio'', Some ''m1'')]\<rparr>),
     w_rt = custody_runtime\<lparr>rt_minioEnv := Some 0, rt_Service := sample_service\<lparr>sv_conf := (sv_conf sample_service)\<lparr>cf_authToken := ''t''\<rparr>\<rparr>\<rparr>\<rparr>"

lemma refused_start:
  "\<exists>e w'. serve_gateway engine_machine ni_Access None sample_mapping 9464 refused_world = (Inl e, w') \<and>
     dm_containers (snd (w_host w')) = [(''o1'', ''other'')]"
  by (simp add: serve_gateway_def startGateway_def resolveGatewayToken_def refused_world_def rolling_back_def teardown_def
      shutdown_env_def removeMinIONetwork_def discardProjectedCredentials_def deferring_def engine_def agent_eval cong: io_cong)


section \<open>A missing bucket\<close>

text \<open>The bucket of a store that was provisioned before is gone: the refusal is one of custody.\<close>

lemma bucket_missing:
  assumes "mx_MinioNew M (''localhost:'' @ dec_nat (rt_minioHostPort s)) (cf_accessKey (rt_conf s)) (cf_secretKey (rt_conf s)) = None"
    and "mx_BucketExists M (''localhost:'' @ dec_nat (rt_minioHostPort s)) (cf_accessKey (rt_conf s)) (cf_secretKey (rt_conf s))
      (cf_bucket (rt_conf s)) h = (Inr False, h')"
    and "\<not> mr_newStore (rt_minio s)"
  shows "\<exists>err. bucket_loop M s (Suc n) lastErr h = (Inl err, h') \<and> errors_is err ErrMinIOCustody"
  using assms by (simp add: Let_def handle_def fail_def)

text \<open>Custody is checked again after MinIO has been started; that refusal ends Init with whatever
  \<open>run_minio\<close> had started, only the lock released, where every other failure is rolled back.\<close>

theorem late_custody_refusal:
  assumes "prepareMinIOData (mx_pf M) w = (Inr (data, lock), w1)" "run_minio M data w1 = (Inl err, w2)"
    and "errors_is err ErrMinIOCustody" "runsLocalMinIO (rt_conf (w_rt w))"
    and "on_host (pf_Unlock (mx_pf M) lock) w2 = (r, w3)"
  shows "start_services M ctx conf net port w = (Inl err, w3)"
  using assms
  by (simp add: start_services_def startLocalMinIOWithRelease_def andthen_def handle_def get_rt_def fail_def deferring_def)

end
