(* ===== verification/Credentials.thy ===== *)
theory Credentials
  imports Lifecycle
begin

text \<open>
  The operator's service-account key on its way to the gateway's container: what
  \<open>projectGCSCredentials\<close> copies (src/runtime.go), and what \<open>discardProjectedCredentials\<close>
  leaves of the copy.
\<close>

section \<open>Calls that succeed\<close>

lemma andthen_Inr:
  assumes "andthen m f s = (Inr b, s')"
  obtains a s1 where "m s = (Inr a, s1)" "f a s1 = (Inr b, s')"
  using assms by (auto simp: andthen_def handle_def fail_def split: prod.splits sum.splits)

lemma wrapped_Inr: "wrapped M msg m s = (Inr a, s') \<Longrightarrow> m s = (Inr a, s')"
  by (auto simp: wrapped_def handle_def fail_def ret_def split: prod.splits sum.splits)

lemma on_files_result:
  "on_files m w = (r, w') \<Longrightarrow> m (fst (w_host w)) = (r, fst (w_host w')) \<and> w_rt w' = w_rt w"
  by (auto simp: on_host_def on_fs_def split: prod.splits)

section \<open>A file written where a path leads\<close>

lemma walk_no_link:
  "walk k ns acc xs = Inr q \<Longrightarrow> \<forall>t. node_at ns acc \<noteq> Some (Symlink t) \<Longrightarrow> node_at ns q \<noteq> Some (Symlink t)"
proof (induction k ns acc xs rule: walk.induct)
  case (2 k ns acc x xs)
  have root: "\<forall>t. node_at ns [] \<noteq> Some (Symlink t)" by (simp add: node_at_def)
  show ?case
  proof (cases "node_at ns (acc @ [x])")
    case (Some n)
    with 2 root show ?thesis by (cases n) (auto split: nat.splits if_splits)
  qed (use 2 in \<open>auto split: if_splits\<close>)
qed simp

lemma walk_update:
  "walk k ns acc xs = Inr q \<Longrightarrow> q \<noteq> [] \<Longrightarrow> node_at ns q \<noteq> Some Dir \<Longrightarrow> \<forall>t. node_at ns q \<noteq> Some (Symlink t) \<Longrightarrow>
   walk k (AList.update q (File d) ns) acc xs = Inr q"
proof (induction k ns acc xs rule: walk.induct)
  case (2 k ns acc x xs)
  show ?case
  proof (cases "node_at ns (acc @ [x])")
    case None
    with 2(3,4) show ?thesis by (auto split: if_splits)
  next
    case (Some n)
    show ?thesis
    proof (cases "acc @ [x] = q")
      case True
      with Some 2(3-) show ?thesis by (cases n) (auto split: if_splits)
    next
      case False
      with Some 2 show ?thesis by (cases n) (auto split: nat.splits if_splits)
    qed
  qed
qed simp

lemma write_path_read:
  assumes "write_path p d ns = (Inr (), ns')"
  shows "read_file ns' p = Inr d"
proof -
  obtain q where q: "resolve ns p = Inr q" "node_at ns q \<noteq> Some Dir" "ns' = AList.update q (File d) ns"
    using assms by (auto simp: write_path_def split: sum.splits if_splits)
  have "q \<noteq> []" using q(2) by (auto simp: node_at_def)
  have "\<forall>t. node_at ns q \<noteq> Some (Symlink t)" using walk_no_link [OF q(1)] by (simp add: node_at_def)
  with walk_update [OF q(1) \<open>q \<noteq> []\<close> q(2)] q(3) have "resolve ns' p = Inr q" by blast
  with q(3) \<open>q \<noteq> []\<close> show ?thesis by (simp add: read_file_def node_at_update)
qed

section \<open>A directory removed whole\<close>

lemma filter_grows: "q \<noteq> [] \<Longrightarrow> grows (filter (\<lambda>(k, n). \<not> below q k) ns) ns"
  by (auto simp: grows_def node_at_filter split: if_splits)

text \<open>A path that leads somewhere leads through directories.\<close>

lemma walk_through:
  "walk k ns acc (xs @ ys) = Inr r \<Longrightarrow> ys \<noteq> [] \<Longrightarrow> node_at ns acc = Some Dir \<Longrightarrow> node_at ns r \<noteq> None \<Longrightarrow>
   \<exists>d k'. walk k ns acc xs = Inr d \<and> node_at ns d = Some Dir \<and> walk k' ns d ys = Inr r"
proof (induction k ns acc xs rule: walk.induct)
  case (2 k ns acc x xs)
  have root: "node_at ns [] = Some Dir" by (simp add: node_at_def)
  show ?case
  proof (cases "node_at ns (acc @ [x])")
    case (Some n)
    with 2 root show ?thesis by (cases n) (auto split: nat.splits if_splits)
  qed (use 2 in \<open>auto split: if_splits\<close>)
qed auto

lemma remove_all_unreadable:
  assumes "remove_all p ns = (Inr (), ns')" "p \<noteq> []"
  shows "read_file ns' (p @ [x]) \<noteq> Inr d"
proof
  assume "read_file ns' (p @ [x]) = Inr d"
  then obtain r where "resolve ns' (p @ [x]) = Inr r" and leaf: "node_at ns' r = Some (File d)"
    by (auto simp: read_file_def split: sum.splits option.splits node.splits)
  moreover have "p @ [x] = butlast p @ [last p, x]" using assms(2) by (metis append_assoc append_butlast_last_id append_Cons append_Nil)
  ultimately have r: "resolve ns' (butlast p @ [last p, x]) = Inr r" by simp
  obtain d1 k' where d1: "resolve ns' (butlast p) = Inr d1" "node_at ns' d1 = Some Dir" "walk k' ns' d1 [last p, x] = Inr r"
    using walk_through [OF r] leaf by (auto simp: node_at_def)
  have child: "node_at ns' (d1 @ [last p]) \<noteq> None" using d1(3) by (auto split: option.splits)
  have here: "locate ns' p = Inr (d1 @ [last p])" using d1 by (simp add: locate_def)
  show False
  proof (cases "locate ns p")
    case (Inl e)
    with assms(1) have "ns' = ns" by (auto simp: remove_all_def)
    with Inl here show False by simp
  next
    case (Inr q)
    with assms(1) have f: "ns' = filter (\<lambda>(k, n). \<not> below q k) ns" by (auto simp: remove_all_def)
    note g = filter_grows [OF locate_nonempty [OF Inr], of ns, folded f]
    have "resolve ns (butlast p) = Inr d1" "node_at ns d1 = Some Dir"
      using walk_grows [OF g d1(1)] growsD [OF g d1(2)] d1(2) by auto
    with Inr have "q = d1 @ [last p]" by (simp add: locate_def)
    then have "node_at ns' (d1 @ [last p]) = None"
      unfolding f using node_at_filter [of q ns q] by (simp add: below_def)
    with child show False by simp
  qed
qed

section \<open>Properties\<close>

lemma os_RemoveAll_done:
  assumes "os_RemoveAll p s = (Inr (), s')" "p \<noteq> []"
  shows "read_file (fs_nodes s') (p @ [x]) \<noteq> Inr d"
  using named_syscall [OF assms(1) [unfolded os_RemoveAll_def]] remove_all_unreadable [OF _ assms(2)] by auto

lemma os_WriteFile_done: "os_WriteFile p d s = (Inr (), s') \<Longrightarrow> read_file (fs_nodes s') p = Inr d"
  unfolding os_WriteFile_def by (drule named_syscall) (auto dest: write_path_read)

lemma os_Chmod_nodes: "os_Chmod p s = (r, s') \<Longrightarrow> fs_nodes s' = fs_nodes s"
  unfolding os_Chmod_def by (drule named_observe) simp

lemma os_Stat_nodes: "os_Stat p s = (r, s') \<Longrightarrow> fs_nodes s' = fs_nodes s"
  unfolding os_Stat_def by (drule named_observe) simp

text \<open>The steps of a projection that returns.\<close>

lemma project_steps:
  assumes "projectGCSCredentials M w = (Inr (), w')" "cf_backend (rt_conf (w_rt w)) = ''gcs''"
  obtains key where "read_file (h_nodes (w_host w)) (credential_source M (cf_gcsCredentialsFile (rt_conf (w_rt w)))) = Inr key"
    "mx_JsonValid M key" "w_rt w' = (w_rt w)\<lparr>rt_gcsCredentialsHostFile :=
       Some (projectedCredentialsDir M (rt_Service (w_rt w)) @ [mx_Digest6 M key @ ''-gcs-service-account.json''])\<rparr>"
    "read_file (h_nodes (w_host w')) (projectedCredentialsDir M (rt_Service (w_rt w)) @ [mx_Digest6 M key @ ''-gcs-service-account.json'']) = Inr key"
proof -
  let ?src = "credential_source M (cf_gcsCredentialsFile (rt_conf (w_rt w)))"
  let ?dir = "projectedCredentialsDir M (rt_Service (w_rt w))"
  let ?f = "\<lambda>key. ?dir @ [mx_Digest6 M key @ ''-gcs-service-account.json'']"
  obtain info w1 where w1: "on_files (os_Stat ?src) w = (Inr info, w1)" and
    r1: "\<exists>w2 key. on_files (os_ReadFile ?src) w1 = (Inr key, w2) \<and> mx_JsonValid M key \<and>
      (\<exists>w3 w4 w5 w6. on_files (os_RemoveAll ?dir) w2 = (Inr (), w3) \<and> on_files (os_MkdirAll ?dir) w3 = (Inr (), w4) \<and>
        on_files (os_WriteFile (?f key) key) w4 = (Inr (), w5) \<and> on_files (os_Chmod (?f key)) w5 = (Inr (), w6) \<and>
        modify_rt (rt_gcsCredentialsHostFile_update (\<lambda>_. Some (?f key))) w6 = (Inr (), w'))"
    using assms unfolding projectGCSCredentials_def Let_def
    by (fastforce elim!: andthen_Inr dest!: wrapped_Inr simp: get_rt_def fail_def split: if_splits)
  then obtain key w2 w3 w4 w5 w6 where k: "on_files (os_ReadFile ?src) w1 = (Inr key, w2)" "mx_JsonValid M key"
    "on_files (os_RemoveAll ?dir) w2 = (Inr (), w3)" "on_files (os_MkdirAll ?dir) w3 = (Inr (), w4)"
    "on_files (os_WriteFile (?f key) key) w4 = (Inr (), w5)" "on_files (os_Chmod (?f key)) w5 = (Inr (), w6)"
    "modify_rt (rt_gcsCredentialsHostFile_update (\<lambda>_. Some (?f key))) w6 = (Inr (), w')"
    by blast
  note f = w1 [THEN on_files_result] k(1,3-6) [THEN on_files_result]
  have src: "read_file (h_nodes (w_host w)) ?src = Inr key"
    using f(1,2) by (auto dest!: os_Stat_nodes os_ReadFile_nodes)
  have "read_file (h_nodes (w_host w6)) (?f key) = Inr key"
    using f(5,6) by (auto dest!: os_WriteFile_done os_Chmod_nodes)
  moreover have "w_rt w6 = w_rt w" using f by simp
  ultimately show thesis using that [OF src k(2)] k(7) by (auto simp: modify_rt_def)
qed

text \<open>C21: The key a local gateway mounts is the operator's: after a projection the projected file, in the
  private directory of this service, reads as the configured file did, which is valid JSON, and it
  is the mount of the gateway's container. However the Runtime and the host change in between, as long
  as it still notes a projection and is of the same service, a discard that the file system does not fail
  forgets it, and no file of that directory can be read any more.\<close>

theorem projection_comes_and_goes:
  assumes "projectGCSCredentials M w = (Inr (), w1)" "cf_backend (rt_conf (w_rt w)) = ''gcs''"
  defines "dir \<equiv> projectedCredentialsDir M (rt_Service (w_rt w))"
  shows "\<exists>f key. read_file (h_nodes (w_host w)) (credential_source M (cf_gcsCredentialsFile (rt_conf (w_rt w)))) = Inr key \<and>
    mx_JsonValid M key \<and> butlast f = dir \<and> read_file (h_nodes (w_host w1)) f = Inr key \<and>
    cs_Mounts (gateway_spec M port (w_rt w1)) = [(f, gcsCredentialsContainerPath)] \<and>
    (\<forall>w2 r w3 fs x c. rt_gcsCredentialsHostFile (w_rt w2) \<noteq> None \<and>
       sv_UniqueWithWorkspace (rt_Service (w_rt w2)) = sv_UniqueWithWorkspace (rt_Service (w_rt w)) \<and> os_RemoveAll dir (fst (w_host w2)) = (Inr (), fs) \<and>
       discardProjectedCredentials M w2 = (r, w3) \<longrightarrow>
       rt_gcsCredentialsHostFile (w_rt w3) = None \<and> read_file (h_nodes (w_host w3)) (dir @ [x]) \<noteq> Inr c)"
proof -
  obtain key where k: "read_file (h_nodes (w_host w)) (credential_source M (cf_gcsCredentialsFile (rt_conf (w_rt w)))) = Inr key"
    "mx_JsonValid M key" "w_rt w1 = (w_rt w)\<lparr>rt_gcsCredentialsHostFile := Some (dir @ [mx_Digest6 M key @ ''-gcs-service-account.json''])\<rparr>"
    "read_file (h_nodes (w_host w1)) (dir @ [mx_Digest6 M key @ ''-gcs-service-account.json'']) = Inr key"
    unfolding dir_def by (rule project_steps [OF assms(1,2)])
  have "dir \<noteq> []" by (simp add: dir_def projectedCredentialsDir_def)
  have gone: "rt_gcsCredentialsHostFile (w_rt w3) = None \<and> read_file (h_nodes (w_host w3)) (dir @ [x]) \<noteq> Inr c"
    if "rt_gcsCredentialsHostFile (w_rt w2) \<noteq> None"
      "sv_UniqueWithWorkspace (rt_Service (w_rt w2)) = sv_UniqueWithWorkspace (rt_Service (w_rt w))" "os_RemoveAll dir (fst (w_host w2)) = (Inr (), fs)" "discardProjectedCredentials M w2 = (r, w3)"
    for w2 r w3 fs x c
  proof -
    have "projectedCredentialsDir M (rt_Service (w_rt w2)) = dir" using that(2) by (simp add: dir_def projectedCredentialsDir_def)
    with that(1,3,4) have "fst (w_host w3) = fs" "rt_gcsCredentialsHostFile (w_rt w3) = None"
      by (auto simp: discardProjectedCredentials_def andthen_def handle_def get_rt_def modify_rt_def on_host_def on_fs_def)
    with os_RemoveAll_done [OF that(3) \<open>dir \<noteq> []\<close>] show ?thesis by simp
  qed
  show ?thesis
    by (rule exI [of _ "dir @ [mx_Digest6 M key @ ''-gcs-service-account.json'']"], rule exI [of _ key])
      (intro conjI allI impI; (elim conjE)?; (simp add: k gateway_spec_def; fail)?; metis gone)
qed

text \<open>A projection that fails takes no note of a copy it has already written: a later discard finds nothing
  to remove, and leaves the directory as the failure did.\<close>

theorem failed_projection_kept:
  assumes "projectGCSCredentials M w = (Inl e, w')" "rt_gcsCredentialsHostFile (w_rt w) = None"
  shows "discardProjectedCredentials M w' = (Inr (), w')"
proof -
  have stay: "triple (\<lambda>v. w_rt v = s) (wrapped M msg (on_files m)) (\<lambda>_ v. w_rt v = s) (\<lambda>_ v. w_rt v = s)" for s msg and m :: "'x io"
    by (rule tripleI) (auto simp: wrapped_def handle_def fail_def ret_def dest!: on_files_result split: prod.splits sum.splits)
  have last: "triple (\<lambda>v. w_rt v = s) (modify_rt f) (\<lambda>_ _. True) E" for s f E
    by (simp add: triple_def modify_rt_def)
  have quit: "triple (\<lambda>v. w_rt v = s) (fail err) (\<lambda>_ _. True) (\<lambda>_ v. w_rt v = s)" "triple (\<lambda>v. w_rt v = s) (ret u) (\<lambda>_ _. True) E" for s err u E
    by (simp_all add: triple_def fail_def ret_def)
  have "triple (\<lambda>v. w_rt v = w_rt w) (projectGCSCredentials M) (\<lambda>_ _. True) (\<lambda>_ v. w_rt v = w_rt w)"
    unfolding projectGCSCredentials_def Let_def
    by (rule triple_andthen [OF triple_get_rt], rule triple_weaken [where P = "\<lambda>v. w_rt v = w_rt w"])
      (auto intro!: triple_if triple_andthen [OF stay] last quit)
  from tripleD [OF this _ assms(1)] assms(2) show ?thesis
    by (simp add: discardProjectedCredentials_def andthen_def handle_def get_rt_def ret_def)
qed

section \<open>A sample key\<close>

definition key_world :: "goerr option list \<Rightarrow> Daemon World" where
  "key_world faults = \<lparr>w_host = (sample_fs faults, idle), w_rt = sample_runtime\<lparr>rt_Service := sample_service\<lparr>
     sv_conf := (sv_conf sample_service)\<lparr>cf_backend := ''gcs'', cf_gcsCredentialsFile := ''f''\<rparr>\<rparr>\<rparr>\<rparr>"

definition keyed_fs :: nodes where
  "keyed_fs = [([''h''], Dir), ([''h'', ''f''], File ''x''), ([''h'', ''runtime-credentials''], Dir),
     ([''h'', ''runtime-credentials'', ''w-m-s''], Dir),
     ([''h'', ''runtime-credentials'', ''w-m-s'', ''d-gcs-service-account.json''], File ''x'')]"

lemmas key_eval = projectGCSCredentials_def key_world_def sample_fs_def engine_machine_def engine_preflight_def sample_runtime_def
  sample_service_def credential_source_def projectedCredentialsDir_def wrapped_def on_host_def on_fs_def get_rt_def modify_rt_def
  os_Stat_def os_RemoveAll_def os_MkdirAll_def os_WriteFile_def os_Chmod_def stat_file_def remove_all_def write_path_def has_prefix_def

lemma key_projected: "\<exists>w1. projectGCSCredentials engine_machine (key_world []) = (Inr (), w1) \<and> h_nodes (w_host w1) = keyed_fs"
  by (simp add: key_eval io_eval below_def keyed_fs_def Let_def cong: io_cong)

lemma projection_comes_and_goes_witness:
  "\<exists>w1 f. projectGCSCredentials engine_machine (key_world []) = (Inr (), w1) \<and>
     read_file (h_nodes (w_host w1)) f = Inr ''x'' \<and>
     cs_Mounts (gateway_spec engine_machine 9464 (w_rt w1)) = [(f, gcsCredentialsContainerPath)]"
proof -
  obtain w1 where p: "projectGCSCredentials engine_machine (key_world []) = (Inr (), w1)" using key_projected by blast
  have g: "cf_backend (rt_conf (w_rt (key_world []))) = ''gcs''" by (simp add: key_world_def)
  have r: "read_file (h_nodes (w_host (key_world [])))
      (credential_source engine_machine (cf_gcsCredentialsFile (rt_conf (w_rt (key_world []))))) = Inr ''x''"
    by (simp add: key_eval read_file_def node_at_def)
  show ?thesis using projection_comes_and_goes [OF p g, of 9464] p unfolding r by auto
qed

text \<open>The call to Chmod fails: the copy of the key is on the disk, and stays there.\<close>

lemma failed_projection_kept_witness:
  "\<exists>e w'. projectGCSCredentials engine_machine (key_world [None, None, None, None, None, Some (Msg ''io'')]) = (Inl e, w') \<and>
     h_nodes (w_host w') = keyed_fs \<and> discardProjectedCredentials engine_machine w' = (Inr (), w')"
proof -
  let ?w = "key_world [None, None, None, None, None, Some (Msg ''io'')]"
  obtain e w' where p: "projectGCSCredentials engine_machine ?w = (Inl e, w')" "h_nodes (w_host w') = keyed_fs"
    by (simp add: key_eval io_eval below_def keyed_fs_def Let_def cong: io_cong)
  have "rt_gcsCredentialsHostFile (w_rt ?w) = None" by (simp add: key_world_def sample_runtime_def)
  from failed_projection_kept [OF p(1) this] p show ?thesis by blast
qed

end
