(* ===== verification/Readiness.thy ===== *)
theory Readiness
  imports Runtime Durations
begin

text \<open>
  The agent's wait for its gateway (\<open>WaitForReady\<close> in src/runtime.go): a poll of the Ready RPC,
  paced by a ticker and bounded by one budget. The poll is a loop that need not end of itself:
  it is a partial function, and that it returns is proved from what a ticker promises.
\<close>

section \<open>The gateway as the agent sees it\<close>

record ReadyResponse =
  rs_Ready :: bool
  rs_Code :: string
  rs_Detail :: string

text \<open>\<open>rp_Select\<close> is the select on the budget and the ticker: whether a tick was received.\<close>

record 'g ReadyProbe =
  rp_NewClient :: "string \<Rightarrow> string \<Rightarrow> goerr option"
  rp_Now :: "'g \<Rightarrow> int"
  rp_NewTicker :: "'g \<Rightarrow> 'g"
  rp_Ready :: "int \<Rightarrow> 'g \<Rightarrow> (goerr + ReadyResponse) \<times> 'g"
  rp_Select :: "int \<Rightarrow> 'g \<Rightarrow> bool \<times> 'g"

abbreviation readinessBudget :: int where "readinessBudget \<equiv> 60 * second"
abbreviation readinessProbeTimeout :: int where "readinessProbeTimeout \<equiv> 5 * second"

datatype PollEnd = Rejected goerr | IsReady | GaveUp string

text \<open>One round's answer: the end of the poll, or the error to report if it is the last.\<close>

definition judge :: "goerr + ReadyResponse \<Rightarrow> PollEnd" where
  "judge answer = (case answer of
     Inl callErr \<Rightarrow> (if has_tag callErr GrpcUnauthenticated then Rejected callErr else GaveUp (Error callErr))
   | Inr res \<Rightarrow> (if rs_Ready res then IsReady else GaveUp (rs_Code res @ '': '' @ rs_Detail res)))"

partial_function (option) poll :: "'g ReadyProbe \<Rightarrow> int \<Rightarrow> string \<Rightarrow> 'g \<Rightarrow> (PollEnd \<times> 'g) option" where
  "poll P deadline lastErr g =
     (if deadline - rp_Now P g < readinessProbeTimeout then Some (GaveUp lastErr, g)
      else let (answer, g1) = rp_Ready P (min deadline (rp_Now P g + readinessProbeTimeout)) g in
        (case judge answer of
           GaveUp err \<Rightarrow> (let (tick, g2) = rp_Select P deadline g1 in
             if tick then poll P deadline err g2 else Some (GaveUp err, g2))
         | out \<Rightarrow> Some (out, g1)))"

text \<open>\<open>Duration.Round\<close> to a millisecond, of a duration that is not negative.\<close>

definition round_ms :: "int \<Rightarrow> int" where
  "round_ms d = (d + 500000) div 1000000 * 1000000"

definition WaitForReady ::
  "'c Core \<Rightarrow> 'g ReadyProbe \<Rightarrow> int option \<Rightarrow> Runtime \<Rightarrow> 'g \<Rightarrow> ((goerr + unit) \<times> 'g) option" where
  "WaitForReady core P ctxDeadline s g =
     (case FindNetworkInstance core (rt_NetworkMappings s) (sv_GrpcEndpoint (rt_Service s)) (NativeAccess core) of
        Inl err \<Rightarrow> Some (Inl (Wrapf core err ''cannot find network instance''), g)
      | Inr inst \<Rightarrow> (let address = ni_Address inst in
          case rp_NewClient P address (sv_gatewayToken (rt_Service s)) of
            Some err \<Rightarrow> Some (Inl (Wrapf core err (''cannot create gateway client for '' @ address)), g)
          | None \<Rightarrow> (let start = rp_Now P g;
                 deadline = (case ctxDeadline of None \<Rightarrow> start + readinessBudget | Some d \<Rightarrow> min d (start + readinessBudget)) in
              case poll P deadline ''no attempt completed'' (rp_NewTicker P g) of
                None \<Rightarrow> None
              | Some (IsReady, g') \<Rightarrow> Some (Inr (), g')
              | Some (Rejected e, g') \<Rightarrow> Some (Inl (Wrapf core e ''object-storage gateway rejected the agent's credential''), g')
              | Some (GaveUp lastErr, g') \<Rightarrow> Some (Inl (NewError core (''object-storage gateway at '' @ address @ '' not ready after ''
                   @ Duration_String (round_ms (rp_Now P g' - start)) @ '': '' @ lastErr)), g'))))"

section \<open>It returns\<close>

text \<open>
  A ticker of one second: its n-th tick is not received before n seconds have passed since it
  was made, and the clock never runs back.
\<close>

locale ticker =
  fixes P :: "'g ReadyProbe" and ticks :: "'g \<Rightarrow> nat" and origin :: "'g \<Rightarrow> int" and calls :: "'g \<Rightarrow> nat"
  assumes made: "ticks (rp_NewTicker P g) = 0" "origin (rp_NewTicker P g) = rp_Now P (rp_NewTicker P g)"
      "rp_Now P g \<le> rp_Now P (rp_NewTicker P g)" "calls (rp_NewTicker P g) = calls g"
    and ready: "rp_Ready P t g = (r, g') \<Longrightarrow> ticks g' = ticks g \<and> origin g' = origin g \<and> rp_Now P g \<le> rp_Now P g' \<and>
      calls g' = Suc (calls g)"
    and select: "rp_Select P d g = (tick, g') \<Longrightarrow> origin g' = origin g \<and> rp_Now P g \<le> rp_Now P g' \<and> calls g' = calls g \<and>
      (tick \<longrightarrow> ticks g' = Suc (ticks g) \<and> origin g' + int (ticks g') * second \<le> rp_Now P g')"

context ticker
begin

definition on_time :: "'g \<Rightarrow> bool" where
  "on_time g \<longleftrightarrow> origin g + int (ticks g) * second \<le> rp_Now P g"

text \<open>The poll ends: a round starts only with five seconds left, so at most 56 of them fit.\<close>

lemma poll_returns:
  "on_time g \<Longrightarrow> deadline \<le> origin g + readinessBudget \<Longrightarrow>
   \<exists>out g'. poll P deadline lastErr g = Some (out, g') \<and> calls g' \<le> calls g + (56 - ticks g) \<and>
     (case out of
        IsReady \<Rightarrow> \<exists>g1 t res. rp_Ready P t g1 = (Inr res, g') \<and> rs_Ready res \<and> rp_Now P g1 + readinessProbeTimeout \<le> deadline
      | Rejected e \<Rightarrow> has_tag e GrpcUnauthenticated
      | GaveUp _ \<Rightarrow> True)"
proof (induction "60 - ticks g" arbitrary: g lastErr rule: less_induct)
  case less
  show ?case
  proof (cases "deadline - rp_Now P g < readinessProbeTimeout")
    case True
    then show ?thesis by (simp add: poll.simps [of P deadline lastErr g])
  next
    case False
    then have room: "int (ticks g) * second + readinessProbeTimeout \<le> readinessBudget"
      using less.prems by (simp add: on_time_def)
    then have small: "ticks g \<le> 55" by simp
    let ?t = "min deadline (rp_Now P g + readinessProbeTimeout)"
    obtain answer g1 where r: "rp_Ready P ?t g = (answer, g1)" by fastforce
    note rd = ready [OF r]
    show ?thesis
    proof (cases "judge answer")
      case (GaveUp err)
      obtain tick g2 where s: "rp_Select P deadline g1 = (tick, g2)" by fastforce
      note sl = select [OF s]
      show ?thesis
      proof (cases tick)
        case True
        have "on_time g2" "deadline \<le> origin g2 + readinessBudget" "60 - ticks g2 < 60 - ticks g"
          using sl rd True less.prems small by (auto simp: on_time_def)
        from less.hyps [OF this(3,1,2), of err] show ?thesis
          using sl rd True small GaveUp r s False by (auto simp: poll.simps [of P deadline lastErr g])
      next
        case False
        with GaveUp r s sl rd \<open>\<not> deadline - rp_Now P g < readinessProbeTimeout\<close> small show ?thesis
          by (auto simp: poll.simps [of P deadline lastErr g])
      qed
    next
      case IsReady
      then obtain res where "answer = Inr res" "rs_Ready res" by (auto simp: judge_def split: sum.splits if_splits)
      moreover have "rp_Now P g + readinessProbeTimeout \<le> deadline" using False by simp
      ultimately have "\<exists>g0 t res. rp_Ready P t g0 = (Inr res, g1) \<and> rs_Ready res \<and> rp_Now P g0 + readinessProbeTimeout \<le> deadline"
        using r by blast
      with IsReady r rd False small show ?thesis by (simp add: poll.simps [of P deadline lastErr g])
    next
      case (Rejected e)
      then have "has_tag e GrpcUnauthenticated" by (auto simp: judge_def split: sum.splits if_splits)
      with Rejected r rd False small show ?thesis by (auto simp: poll.simps [of P deadline lastErr g])
    qed
  qed
qed

end

section \<open>The clock of the standard library\<close>

text \<open>
  \<open>time.Ticker\<close> with a one-second period, beside a gateway whose n-th answer is \<open>answers n\<close>,
  each a millisecond late. A receive waits for the next tick, or the budget if that is sooner.
\<close>

record Clock =
  ck_now :: int
  ck_origin :: int
  ck_ticks :: nat
  ck_calls :: nat

definition go_clock :: "(nat \<Rightarrow> goerr + ReadyResponse) \<Rightarrow> Clock ReadyProbe" where
  "go_clock answers =
     \<lparr>rp_NewClient = (\<lambda>_ _. None),
      rp_Now = ck_now,
      rp_NewTicker = (\<lambda>g. g\<lparr>ck_origin := ck_now g, ck_ticks := 0\<rparr>),
      rp_Ready = (\<lambda>t g. (answers (ck_calls g), g\<lparr>ck_now := ck_now g + 1000000, ck_calls := Suc (ck_calls g)\<rparr>)),
      rp_Select = (\<lambda>deadline g. let next_tick = max (ck_now g) (ck_origin g + int (Suc (ck_ticks g)) * second) in
        if next_tick \<le> deadline then (True, g\<lparr>ck_now := next_tick, ck_ticks := Suc (ck_ticks g)\<rparr>)
        else (False, g\<lparr>ck_now := max (ck_now g) deadline\<rparr>))\<rparr>"

interpretation second_hand: ticker "go_clock answers" ck_ticks ck_origin ck_calls for answers
proof unfold_locales
  show "rp_Select (go_clock answers) d g = (tick, g') \<Longrightarrow> ck_origin g' = ck_origin g \<and>
      rp_Now (go_clock answers) g \<le> rp_Now (go_clock answers) g' \<and> ck_calls g' = ck_calls g \<and>
      (tick \<longrightarrow> ck_ticks g' = Suc (ck_ticks g) \<and> ck_origin g' + int (ck_ticks g') * second \<le> rp_Now (go_clock answers) g')"
    for d g tick g'
    by (auto simp: go_clock_def Let_def split: if_splits)
qed (auto simp: go_clock_def)

text \<open>C19: With a ticker that keeps its period, \<open>WaitForReady\<close> returns, whatever the gateway
  answers and whatever the caller's deadline, after at most 56 calls of Ready; and it reports success
  only for a call that answered ready, started with its five seconds inside the sixty-second budget.\<close>

theorem wait_returns:
  assumes "ticker P ticks origin calls"
  shows "\<exists>r g'. WaitForReady core P ctxDeadline s g = Some (r, g') \<and> calls g' \<le> calls g + 56 \<and>
    (r = Inr () \<longrightarrow> (\<exists>g1 t res. rp_Ready P t g1 = (Inr res, g') \<and> rs_Ready res \<and>
       rp_Now P g1 + readinessProbeTimeout \<le> rp_Now P g + readinessBudget))"
proof (cases "FindNetworkInstance core (rt_NetworkMappings s) (sv_GrpcEndpoint (rt_Service s)) (NativeAccess core)")
  case (Inl err)
  then show ?thesis by (simp add: WaitForReady_def)
next
  case (Inr inst)
  note made = ticker.made [OF assms, of g]
  let ?g0 = "rp_NewTicker P g"
  let ?d = "case ctxDeadline of None \<Rightarrow> rp_Now P g + readinessBudget | Some d \<Rightarrow> min d (rp_Now P g + readinessBudget)"
  have d: "?d \<le> rp_Now P g + readinessBudget" by (simp split: option.split)
  have "ticker.on_time P ticks origin ?g0" "?d \<le> origin ?g0 + readinessBudget"
    using made d by (auto simp: ticker.on_time_def [OF assms])
  from ticker.poll_returns [OF assms this, of "''no attempt completed''"] obtain out g' where
    p: "poll P ?d ''no attempt completed'' ?g0 = Some (out, g')" and "calls g' \<le> calls ?g0 + (56 - ticks ?g0)" and
    end_of: "case out of
        IsReady \<Rightarrow> \<exists>g1 t res. rp_Ready P t g1 = (Inr res, g') \<and> rs_Ready res \<and> rp_Now P g1 + readinessProbeTimeout \<le> ?d
      | Rejected e \<Rightarrow> has_tag e GrpcUnauthenticated
      | GaveUp _ \<Rightarrow> True"
    by blast
  with made have c: "calls g' \<le> calls g + 56" by simp
  show ?thesis
  proof (cases "rp_NewClient P (ni_Address inst) (sv_gatewayToken (rt_Service s))")
    case None
    show ?thesis
    proof (cases out)
      case IsReady
      with end_of d have "\<exists>g1 t res. rp_Ready P t g1 = (Inr res, g') \<and> rs_Ready res \<and>
          rp_Now P g1 + readinessProbeTimeout \<le> rp_Now P g + readinessBudget"
        by (simp only: PollEnd.case) (meson order_trans)
      with Inr None p c IsReady show ?thesis by (simp add: WaitForReady_def Let_def)
    qed (use Inr None p c in \<open>simp_all add: WaitForReady_def Let_def\<close>)
  qed (use Inr in \<open>simp add: WaitForReady_def Let_def\<close>)
qed

text \<open>The witness: a gateway that answers unready twice, and ready from then on.\<close>

definition sample_answers :: "nat \<Rightarrow> goerr + ReadyResponse" where
  "sample_answers n = (if n < 2 then Inr \<lparr>rs_Ready = False, rs_Code = ''UNAVAILABLE'', rs_Detail = ''starting''\<rparr>
     else Inr \<lparr>rs_Ready = True, rs_Code = [], rs_Detail = []\<rparr>)"

abbreviation sample_start :: Clock where "sample_start \<equiv> \<lparr>ck_now = 0, ck_origin = 0, ck_ticks = 0, ck_calls = 0\<rparr>"

theorem wait_returns_witness:
  "\<exists>r g'. WaitForReady sample_core (go_clock sample_answers) None sample_runtime sample_start = Some (r, g') \<and>
     ck_calls g' \<le> 56"
  using wait_returns [OF second_hand.ticker_axioms, of sample_core sample_answers None sample_runtime sample_start] by auto

end
