(* ===== verification/Builder.thy ===== *)
theory Builder
  imports Agent Prefix
begin

text \<open>
  The agent's Builder (src/builder.go) and the environment of the pod template it renders
  (src/templates/deployment/kustomize/base/deployment.yaml.tmpl). What core's service layer does
  with a deployment (rendering to disk, scanning images) is outside the repository; the Builder
  decides what it is asked to do, which is modelled here.
\<close>

section \<open>The Builder\<close>

text \<open>\<open>bd_GrpcEndpoint\<close> is the embedded service's serving endpoint, nil until it is loaded or created.\<close>

record Builder =
  bd_Service :: Service
  bd_GrpcEndpoint :: "Endpoint option"
  bd_Endpoints :: "Endpoint option list"
  bd_DockerImage :: "DockerImage option"

definition BuildCapabilities :: bool where
  "BuildCapabilities = True"

definition Builder_Load :: "'c Core \<Rightarrow> Endpoint list \<Rightarrow> Builder \<Rightarrow> goerr option \<times> Builder" where
  "Builder_Load core endpoints b = (case resolve_endpoints id core endpoints (bd_Service b) of
     (Some err, v) \<Rightarrow> (Some err, b\<lparr>bd_Service := v\<rparr>)
   | (None, v) \<Rightarrow> (None, b\<lparr>bd_Service := v, bd_GrpcEndpoint := Some (sv_GrpcEndpoint v)\<rparr>))"

section \<open>Deploy\<close>

record deploymentTemplateParameters =
  dp_Backend :: string
  dp_Bucket :: string
  dp_Region :: string
  dp_Prefix :: string
  dp_Endpoint :: string
  dp_ServicePort :: nat
  dp_AzureAccount :: string

text \<open>\<open>kd_ServiceAccount\<close> is the pod overlay's account; its empty name defaults to the service's.\<close>

record KustomizeDeployment =
  kd_Parameters :: deploymentTemplateParameters
  kd_ServiceAccount :: "string option"

record 'c DeploymentRequest =
  dr_Configuration :: "'c option"
  dr_NetworkMappings :: "NetworkMapping list"

definition supportedDeployBackends :: "string list" where
  "supportedDeployBackends = [''s3'', ''gcs'', ''azure'', ''minio'']"

text \<open>A mapping of the serving endpoint, as the loop of \<open>servicePort\<close> tells it.\<close>

definition serves :: "'c Core \<Rightarrow> Endpoint \<Rightarrow> NetworkMapping \<Rightarrow> bool" where
  "serves core own m \<longleftrightarrow> (let e = nm_Endpoint m in
     ep_Api e = GRPC core \<and> ep_Module e = ep_Module own \<and> ep_Service e = ep_Service own \<and> ep_Name e = ep_Name own)"

fun service_port_loop :: "'c Core \<Rightarrow> Endpoint \<Rightarrow> NetworkMapping list \<Rightarrow> NetworkMapping list \<Rightarrow> goerr + nat" where
  "service_port_loop core own mappings [] = Inr gatewayContainerPort"
| "service_port_loop core own mappings (m # ms) =
     (if \<not> serves core own m then service_port_loop core own mappings ms
      else if IsExternalEndpoint core (nm_Endpoint m) then service_port_loop core own mappings ms
      else (case FindNetworkInstance core mappings (nm_Endpoint m) (ContainerAccess core) of
          Inl err \<Rightarrow> Inl err
        | Inr inst \<Rightarrow> Inr (ni_Port inst)))"

definition servicePort :: "'c Core \<Rightarrow> Endpoint option \<Rightarrow> NetworkMapping list \<Rightarrow> goerr + nat" where
  "servicePort core own mappings = (case own of
     None \<Rightarrow> Inr gatewayContainerPort
   | Some e \<Rightarrow> service_port_loop core e mappings mappings)"

definition workloadPodOverlay :: "string option" where
  "workloadPodOverlay = Some []"

definition gcs_file_refused :: "string \<Rightarrow> goerr" where
  "gcs_file_refused file = Msg (''SOS_GCS_CREDENTIALS_FILE cannot be delivered by this deployment: nothing here mounts '' @ file
     @ '' into the pod, so the gateway would name a path that does not exist; on GKE, unset it and bind the workload's Kubernetes ''
     @ ''ServiceAccount to a GCP service account (Workload Identity); elsewhere, mount the key from an overlay of your own and patch ''
     @ ''SOS_GCS_CREDENTIALS_FILE onto the container there (see README '' @ quoted ''Running as a codefly service'' @ '')'')"

text \<open>The checks of \<open>Deploy\<close> after the service port, in their order: the first that refuses.\<close>

definition deploy_refusal :: "resolved \<Rightarrow> deploymentTemplateParameters \<Rightarrow> goerr option" where
  "deploy_refusal conf p =
     (if dp_Backend p \<notin> set supportedDeployBackends
      then Some (Msg (''unsupported deploy backend '' @ quoted (dp_Backend p) @ '' (want one of s3, gcs, azure, minio)''))
      else if dp_Backend p = ''azure'' \<and> dp_AzureAccount p = []
      then Some (Msg ''backend azure requires SOS_AZURE_ACCOUNT (the storage account name)'')
      else (case NormalizePrefix (dp_Prefix p) of
          Err err \<Rightarrow> Some err
        | _ \<Rightarrow>
          if dp_Backend p = ''gcs'' \<and> cf_gcsCredentialsFile conf \<noteq> [] then Some (gcs_file_refused (cf_gcsCredentialsFile conf))
          else if cf_authToken conf \<noteq> []
          then Some (Msg (''SOS_AUTH_TOKEN cannot be delivered by this deployment: the emitted Secret carries no configuration ''
            @ ''values and consumers would receive no credential; caller identity in the deployed profile is enforced by the ''
            @ ''cluster (see README '' @ quoted ''Authentication'' @ '')''))
          else None))"

definition template_parameters :: "resolved \<Rightarrow> nat \<Rightarrow> deploymentTemplateParameters" where
  "template_parameters conf port = \<lparr>
     dp_Backend = (if cf_backend conf = [] then ''s3'' else cf_backend conf),
     dp_Bucket = cf_bucket conf, dp_Region = cf_region conf, dp_Prefix = cf_prefix conf,
     dp_Endpoint = cf_endpoint conf, dp_ServicePort = port, dp_AzureAccount = cf_azureAccount conf\<rparr>"

definition Deploy ::
  "'c Core \<Rightarrow> DockerImage \<Rightarrow> 'c DeploymentRequest \<Rightarrow> Builder \<Rightarrow> (goerr + KustomizeDeployment) \<times> Builder" where
  "Deploy core gatewayImage rq b0 = (let b = b0\<lparr>bd_DockerImage := Some gatewayImage\<rparr> in
     if sv_TenantStoreEndpoint (bd_Service b) \<noteq> None
     then (Inl (Msg (''endpoint '' @ quoted tenantStoreEndpointName @ '' serves the MinIO a local run starts; a deployment ''
       @ ''runs none, so a service declaring it cannot be deployed'')), b)
     else (let conf = LoadConfiguration core (sv_Settings (bd_Service b)) (dr_Configuration rq);
               b = b\<lparr>bd_Service := (bd_Service b)\<lparr>sv_conf := conf\<rparr>\<rparr> in
       case servicePort core (bd_GrpcEndpoint b) (dr_NetworkMappings rq) of
         Inl err \<Rightarrow> (Inl err, b)
       | Inr port \<Rightarrow> (let p = template_parameters conf port in
           case deploy_refusal conf p of
             Some err \<Rightarrow> (Inl err, b)
           | None \<Rightarrow> (Inr \<lparr>kd_Parameters = p, kd_ServiceAccount = workloadPodOverlay\<rparr>, b))))"

text \<open>
  The environment of the container \<open>object-storage\<close> in the pod template: literals, each
  interpolated as it is between double quotes, and, unless the output is restricted, every key of the
  Secret named after the service (\<open>envFrom\<close>). Kubernetes reads the literals back
  (\<open>scalar\<close>, a function outside the repository), lets them win over the Secret's keys, and
  takes the Secret from the cluster (\<open>secrets\<close>).
\<close>

record PodEnv =
  pod_Env :: "(string \<times> string) list"
  pod_EnvFrom :: "string option"

definition literal :: "string \<Rightarrow> string" where "literal v = CHR 0x22 # v @ [CHR 0x22]"

definition manifest_vars :: "string \<Rightarrow> deploymentTemplateParameters \<Rightarrow> (string \<times> string) list" where
  "manifest_vars name p =
     [(''CODEFLY__SERVICE'', name), (''SOS_LISTEN'', '':9464''), (''SOS_BACKEND'', dp_Backend p), (''SOS_BUCKET'', dp_Bucket p),
      (''SOS_REGION'', dp_Region p)]
     @ (if dp_Prefix p \<noteq> [] then [(''SOS_PREFIX'', dp_Prefix p)] else [])
     @ (if dp_Endpoint p \<noteq> [] then [(''SOS_ENDPOINT'', dp_Endpoint p)] else [])
     @ [(''SOS_ALLOW_ANONYMOUS'', ''true'')]
     @ (if dp_Backend p = ''azure'' \<and> dp_AzureAccount p \<noteq> [] then [(''SOS_AZURE_ACCOUNT'', dp_AzureAccount p)] else [])"

definition manifest_env :: "bool \<Rightarrow> string \<Rightarrow> deploymentTemplateParameters \<Rightarrow> PodEnv" where
  "manifest_env restricted name p = \<lparr>pod_Env = map (\<lambda>(k, v). (k, literal v)) (manifest_vars name p),
     pod_EnvFrom = (if restricted then None else Some (name @ ''-secret''))\<rparr>"

definition secret_getenv :: "(string \<Rightarrow> (string \<times> string) list) \<Rightarrow> PodEnv \<Rightarrow> string \<Rightarrow> string" where
  "secret_getenv secrets pe k = (case pod_EnvFrom pe of
     None \<Rightarrow> []
   | Some s \<Rightarrow> (case map_of (secrets s) k of None \<Rightarrow> [] | Some v \<Rightarrow> v))"

definition pod_getenv :: "(string \<Rightarrow> string) \<Rightarrow> (string \<Rightarrow> (string \<times> string) list) \<Rightarrow> PodEnv \<Rightarrow> string \<Rightarrow> string" where
  "pod_getenv scalar secrets pe k = (case map_of (pod_Env pe) k of
     None \<Rightarrow> secret_getenv secrets pe k
   | Some v \<Rightarrow> scalar v)"

section \<open>Creating the endpoint\<close>

record ('g, 'c) BuilderOps =
  bo_Templates :: "goerr option"
  bo_LoadGrpcAPI :: "goerr + 'g"
  bo_BaseEndpoint :: "string \<Rightarrow> Endpoint"
  bo_VisibilityPrivate :: string
  bo_NewAPI :: "Endpoint \<Rightarrow> string \<Rightarrow> 'g \<Rightarrow> Endpoint option \<times> goerr option"
  bo_CreateErrorf :: "goerr \<Rightarrow> string \<Rightarrow> goerr"
  bo_core :: "'c Core"

text \<open>\<open>bo_NewAPI\<close> is given the endpoint, its visibility and the API.\<close>

definition CreateEndpoints :: "('g, 'c) BuilderOps \<Rightarrow> Builder \<Rightarrow> goerr option \<times> Builder" where
  "CreateEndpoints ops b = (case bo_LoadGrpcAPI ops of
     Inl err \<Rightarrow> (Some (Wrapf (bo_core ops) err ''cannot load grpc api''), b)
   | Inr grpc \<Rightarrow>
      (case bo_NewAPI ops (bo_BaseEndpoint ops (GRPC (bo_core ops))) (bo_VisibilityPrivate ops) grpc of (e, r) \<Rightarrow>
       (let b = b\<lparr>bd_GrpcEndpoint := e\<rparr> in
        case r of
          Some err \<Rightarrow> (Some (Wrapf (bo_core ops) err ''cannot create grpc endpoint''), b)
        | None \<Rightarrow> (None, b\<lparr>bd_Endpoints := [e]\<rparr>))))"

definition Create :: "('g, 'c) BuilderOps \<Rightarrow> Builder \<Rightarrow> goerr option \<times> Builder" where
  "Create ops b = (case bo_Templates ops of
     Some err \<Rightarrow> (Some err, b)
   | None \<Rightarrow> (case CreateEndpoints ops b of
        (Some err, b') \<Rightarrow> (Some (bo_CreateErrorf ops err ''cannot create endpoints''), b')
      | (None, b') \<Rightarrow> (None, b')))"

section \<open>Image evidence\<close>

text \<open>internal/imageevidence: the images the service ships, handed to core's derivation.\<close>

record PublishedImage =
  pi_Reference :: string
  pi_Service :: string
  pi_Role :: string
  pi_Platforms :: "string list"

definition Platforms :: "string list" where "Platforms = [''linux/amd64'', ''linux/arm64'']"

abbreviation Role :: string where "Role \<equiv> ''runtime''"

definition Subjects :: "(PublishedImage \<Rightarrow> bool \<Rightarrow> goerr + 'j list) \<Rightarrow> string \<Rightarrow> string \<Rightarrow> bool \<Rightarrow> goerr + 'j list" where
  "Subjects image_subjects service reference local_image =
     image_subjects \<lparr>pi_Reference = reference, pi_Service = service, pi_Role = Role,
       pi_Platforms = (if local_image then [] else Platforms)\<rparr> local_image"

record ('j, 'o) EvidenceOps =
  ev_FullName :: "DockerImage \<Rightarrow> string"
  ev_ImageSubjects :: "PublishedImage \<Rightarrow> bool \<Rightarrow> goerr + 'j list"
  ev_SBOMContainer :: "string \<Rightarrow> 'o"
  ev_SBOMImages :: "'j list \<Rightarrow> 'o"
  ev_SBOMImageError :: "goerr \<Rightarrow> 'o"
  ev_AuditContainer :: "string \<Rightarrow> 'o"

definition imageSubjects :: "('j, 'o) EvidenceOps \<Rightarrow> (string \<Rightarrow> string) \<Rightarrow> DockerImage \<Rightarrow> Builder \<Rightarrow> goerr + 'j list" where
  "imageSubjects ops osenv gatewayImage b = (case effectiveGatewayImage osenv gatewayImage of
     (img, overridden) \<Rightarrow> Subjects (ev_ImageSubjects ops) (sv_Unique (bd_Service b)) (ev_FullName ops img) overridden)"

definition SBOM :: "('j, 'o) EvidenceOps \<Rightarrow> (string \<Rightarrow> string) \<Rightarrow> DockerImage \<Rightarrow> bool \<Rightarrow> 'j list \<Rightarrow> Builder \<Rightarrow> 'o" where
  "SBOM ops osenv gatewayImage image_scope given b =
     (if \<not> image_scope then ev_SBOMContainer ops (ev_FullName ops gatewayImage)
      else if given \<noteq> [] then ev_SBOMImages ops given
      else (case imageSubjects ops osenv gatewayImage b of
          Inl err \<Rightarrow> ev_SBOMImageError ops err
        | Inr subjects \<Rightarrow> ev_SBOMImages ops subjects))"

definition Audit :: "('j, 'o) EvidenceOps \<Rightarrow> DockerImage \<Rightarrow> 'o" where
  "Audit ops gatewayImage = ev_AuditContainer ops (ev_FullName ops gatewayImage)"

text \<open>The release command cmd/image-sbom: its exit code, what it prints, and the documents core wrote.\<close>

record ImageDocument =
  id_Platform :: string
  id_Digest :: string
  id_Path :: string

record ('j, 's) EvidenceFiles =
  ef_ImageSubjects :: "PublishedImage \<Rightarrow> bool \<Rightarrow> goerr + 'j list"
  ef_Collect :: "string \<Rightarrow> 'j list \<Rightarrow> 's \<Rightarrow> (goerr + ImageDocument list) \<times> 's"
  ef_WriteIndex :: "string \<Rightarrow> ImageDocument list \<Rightarrow> 's \<Rightarrow> (goerr + unit) \<times> 's"

definition image_sbom ::
  "('j, 's) EvidenceFiles \<Rightarrow> string \<Rightarrow> string \<Rightarrow> bool \<Rightarrow> string \<Rightarrow> 's \<Rightarrow> (nat \<times> string list) \<times> 's" where
  "image_sbom ops img out local_image service s = (let failed = (\<lambda>err. (1, [''image-sbom: '' @ Error err])) in
     if img = [] then ((2, [''image-sbom: -image is required'']), s)
     else (case Subjects (ef_ImageSubjects ops) service img local_image of
        Inl err \<Rightarrow> (failed err, s)
      | Inr subjects \<Rightarrow> (case ef_Collect ops out subjects s of
          (Inl err, s1) \<Rightarrow> (failed err, s1)
        | (Inr docs, s1) \<Rightarrow> (case ef_WriteIndex ops out docs s1 of
            (Inl err, s2) \<Rightarrow> (failed err, s2)
          | (Inr _, s2) \<Rightarrow> ((0, map (\<lambda>d. id_Platform d @ '' '' @ id_Digest d @ '' '' @ id_Path d) docs), s2)))))"

end
