(* ===== verification/Configuration.thy ===== *)
theory Configuration
  imports Prefix Egress Durations
begin

text \<open>
  The server configuration (internal/config/config.go). \<open>getenv\<close> is the process
  environment (\<open>os.Getenv\<close>: an unset variable reads as the empty string),
  \<open>frac\<close> the float64 fraction of a duration, and \<open>check\<close> the listener policy of
  \<open>callertoken.CheckListener\<close>, which is outside the repository.
\<close>

record HealthConfig =
  hc_Interval :: int
  hc_Timeout :: int

record ServerConfig =
  sc_ListenAddr :: string
  sc_AuthToken :: string
  sc_Backend :: Config
  sc_Health :: HealthConfig
  sc_Composed :: Composed

record Env =
  getenv :: "string \<Rightarrow> string"
  frac :: "nat \<Rightarrow> nat \<Rightarrow> nat \<Rightarrow> nat"
  check_listener :: "string \<Rightarrow> bool \<Rightarrow> goerr option"
  egress_env :: EgressEnv

definition env :: "Env \<Rightarrow> string \<Rightarrow> string \<Rightarrow> string" where
  "env e key dflt = (let v = getenv e key in if v \<noteq> [] then v else dflt)"

definition envBool :: "Env \<Rightarrow> string \<Rightarrow> bool \<Rightarrow> bool" where
  "envBool e key dflt =
     (let v = getenv e key in if v = [] then dflt
      else case ParseBool v of None \<Rightarrow> dflt | Some b \<Rightarrow> b)"

definition envDuration :: "Env \<Rightarrow> string \<Rightarrow> int \<Rightarrow> int" where
  "envDuration e key dflt =
     (let v = getenv e key in if v = [] then dflt
      else case ParseDuration (frac e) v of None \<Rightarrow> dflt | Some d \<Rightarrow> d)"

definition checkBackendIsComplete :: "Config \<Rightarrow> goerr option" where
  "checkBackendIsComplete b =
     (if cfg_Kind b = ''minio'' then
        (if trim_space (cfg_Endpoint b) = []
         then Some (Msg (''SOS_BACKEND=minio requires SOS_ENDPOINT (the host:port of a MinIO server), and none is set. '' @
            ''minio is the default backend when SOS_BACKEND is unset, so a gateway deployed without a MinIO to talk to lands here: '' @
            ''select the store the environment actually provides instead, e.g. SOS_BACKEND=gcs with SOS_BUCKET (and optionally SOS_PREFIX)''))
         else None)
      else if cfg_Kind b = ''azure'' then
        (if trim_space (cfg_AzureAccount b) = [] \<and> trim_space (cfg_Endpoint b) = []
         then Some (Msg ''SOS_BACKEND=azure requires SOS_AZURE_ACCOUNT (the storage account name) or SOS_ENDPOINT, and neither is set'')
         else None)
      else None)"

definition strategy_of :: "string \<Rightarrow> ProbeStrategy" where
  "strategy_of s = (if s = [] then ProbeUnset else if s = ''list'' then ProbeList
     else if s = ''stat'' then ProbeStat else ProbeOther s)"

fun strategy_name :: "ProbeStrategy \<Rightarrow> string" where
  "strategy_name ProbeUnset = []"
| "strategy_name ProbeList = ''list''"
| "strategy_name ProbeStat = ''stat''"
| "strategy_name (ProbeOther s) = s"

text \<open>The composite literal at the head of \<open>FromEnv\<close>.\<close>

definition env_backend :: "Env \<Rightarrow> Config" where
  "env_backend e = zero_config\<lparr>
     cfg_Kind := env e ''SOS_BACKEND'' ''minio'',
     cfg_Bucket := getenv e ''SOS_BUCKET'',
     cfg_Prefix := getenv e ''SOS_PREFIX'',
     cfg_Region := env e ''SOS_REGION'' ''us-east-1'',
     cfg_Endpoint := getenv e ''SOS_ENDPOINT'',
     cfg_UsePathStyle := envBool e ''SOS_USE_PATH_STYLE'' False,
     cfg_AccessKey := getenv e ''SOS_ACCESS_KEY'',
     cfg_SecretKey := getenv e ''SOS_SECRET_KEY'',
     cfg_GCSCredentialsFile := getenv e ''SOS_GCS_CREDENTIALS_FILE'',
     cfg_AzureAccount := getenv e ''SOS_AZURE_ACCOUNT'',
     cfg_AzureKey := getenv e ''SOS_AZURE_KEY'',
     cfg_PresignMaxExpiry := envDuration e ''SOS_PRESIGN_MAX_EXPIRY'' 0,
     cfg_ProbeStrategy := strategy_of (env e ''SOS_PROBE_STRATEGY'' ''list''),
     cfg_ProbeKey := getenv e ''SOS_PROBE_KEY''\<rparr>"

definition env_config :: "Env \<Rightarrow> ServerConfig" where
  "env_config e = \<lparr>
     sc_ListenAddr = env e ''SOS_LISTEN'' '':9464'',
     sc_AuthToken = trim_space (getenv e ''SOS_AUTH_TOKEN''),
     sc_Backend = env_backend e,
     sc_Health = \<lparr>hc_Interval = envDuration e ''SOS_PROBE_INTERVAL'' (10 * second),
                  hc_Timeout = envDuration e ''SOS_PROBE_TIMEOUT'' (5 * second)\<rparr>,
     sc_Composed = {}\<rparr>"

definition probe_error :: "Config \<Rightarrow> goerr option" where
  "probe_error b = (case cfg_ProbeStrategy b of
      ProbeList \<Rightarrow> None
    | ProbeStat \<Rightarrow> (if cfg_ProbeKey b = []
        then Some (Msg ''SOS_PROBE_KEY is required when SOS_PROBE_STRATEGY=stat'') else None)
    | s \<Rightarrow> Some (Msg (''unknown SOS_PROBE_STRATEGY '' @ quoted (strategy_name s)
              @ '' (want '' @ quoted ''list'' @ '' or '' @ quoted ''stat'' @ '')'')))"

definition FromEnv :: "Env \<Rightarrow> (goerr, ServerConfig) result" where
  "FromEnv e =
     (let cfg = env_config e; b = sc_Backend cfg; h = sc_Health cfg in
      if cfg_Bucket b = [] then Err (Msg ''SOS_BUCKET is required'')
      else case ParseComposed (egress_env e) (getenv e ''SOS_COMPOSED_ENDPOINTS'') of
        Inl err \<Rightarrow> Err (Wrapped (''SOS_COMPOSED_ENDPOINTS: '' @ Error err) [err])
      | Inr composed \<Rightarrow>
       (case check_listener e (sc_AuthToken cfg) (envBool e ''SOS_ALLOW_ANONYMOUS'' False) of
          Some err \<Rightarrow> Err err
        | None \<Rightarrow>
         (case probe_error b of
            Some err \<Rightarrow> Err err
          | None \<Rightarrow>
             if hc_Interval h \<le> 0
             then Err (Msg (''SOS_PROBE_INTERVAL must be positive, got '' @ Duration_String (hc_Interval h)))
             else if hc_Timeout h \<le> 0
             then Err (Msg (''SOS_PROBE_TIMEOUT must be positive, got '' @ Duration_String (hc_Timeout h)))
             else (case checkBackendIsComplete b of
                 Some err \<Rightarrow> Err err
               | None \<Rightarrow>
                  (case NormalizePrefix (cfg_Prefix b) of
                     Err err \<Rightarrow> Err err
                   | Panic \<Rightarrow> Panic
                   | Ok p \<Rightarrow>
                      (let b = b\<lparr>cfg_Prefix := p\<rparr>;
                           b = (if cfg_Kind b = ''minio'' \<and> getenv e ''SOS_USE_PATH_STYLE'' = []
                                then b\<lparr>cfg_UsePathStyle := True\<rparr> else b)
                       in Ok (cfg\<lparr>sc_Composed := composed, sc_Backend := b\<rparr>)))))))"

section \<open>What an accepted configuration promises\<close>

lemma FromEnv_Ok:
  assumes "FromEnv e = Ok cfg"
  obtains p composed where
    "cfg_Bucket (env_backend e) \<noteq> []"
    "ParseComposed (egress_env e) (getenv e ''SOS_COMPOSED_ENDPOINTS'') = Inr composed"
    "check_listener e (sc_AuthToken (env_config e)) (envBool e ''SOS_ALLOW_ANONYMOUS'' False) = None"
    "probe_error (env_backend e) = None"
    "0 < hc_Interval (sc_Health (env_config e))" "0 < hc_Timeout (sc_Health (env_config e))"
    "checkBackendIsComplete (env_backend e) = None"
    "NormalizePrefix (cfg_Prefix (env_backend e)) = Ok p"
    "cfg = (env_config e)\<lparr>sc_Composed := composed, sc_Backend :=
       (if cfg_Kind (env_backend e) = ''minio'' \<and> getenv e ''SOS_USE_PATH_STYLE'' = []
        then (env_backend e)\<lparr>cfg_Prefix := p, cfg_UsePathStyle := True\<rparr>
        else (env_backend e)\<lparr>cfg_Prefix := p\<rparr>)\<rparr>"
proof -
  have b: "sc_Backend (env_config e) = env_backend e" by (simp add: env_config_def)
  show thesis
    using assms that
    by (auto simp: FromEnv_def Let_def b not_le split: if_splits sum.splits option.splits result.splits)
qed

lemma envDuration_range: "in_int64 dflt \<Longrightarrow> in_int64 (envDuration e key dflt)"
  by (auto simp: envDuration_def Let_def intro: ParseDuration_range split: option.splits)

text \<open>
  The specification: a store the gateway can open and probe, paced by positive durations, under
  a prefix that is empty or closed by a slash. It says nothing of how the code reaches it.
\<close>

definition runnable :: "ServerConfig \<Rightarrow> bool" where
  "runnable cfg \<longleftrightarrow>
     (let b = sc_Backend cfg; h = sc_Health cfg in
      cfg_Bucket b \<noteq> [] \<and> sc_ListenAddr cfg \<noteq> [] \<and> cfg_Region b \<noteq> []
      \<and> (cfg_ProbeStrategy b = ProbeList \<or> cfg_ProbeStrategy b = ProbeStat \<and> cfg_ProbeKey b \<noteq> [])
      \<and> 0 < hc_Interval h \<and> in_int64 (hc_Interval h) \<and> 0 < hc_Timeout h \<and> in_int64 (hc_Timeout h)
      \<and> (cfg_Kind b = ''minio'' \<longrightarrow> trim_space (cfg_Endpoint b) \<noteq> [])
      \<and> (cfg_Kind b = ''azure'' \<longrightarrow> trim_space (cfg_AzureAccount b) \<noteq> [] \<or> trim_space (cfg_Endpoint b) \<noteq> [])
      \<and> (cfg_Prefix b = [] \<or> last (cfg_Prefix b) = CHR ''/'') \<and> \<not> cfg_HTTPClient b)"

lemma env_nonempty: "dflt \<noteq> [] \<Longrightarrow> env e key dflt \<noteq> []"
  by (simp add: env_def Let_def)

lemma probe_error_None:
  "probe_error b = None \<longleftrightarrow>
     cfg_ProbeStrategy b = ProbeList \<or> cfg_ProbeStrategy b = ProbeStat \<and> cfg_ProbeKey b \<noteq> []"
  by (auto simp: probe_error_def split: ProbeStrategy.splits)

lemma checkBackend_None:
  assumes "checkBackendIsComplete b = None"
  shows "cfg_Kind b = ''minio'' \<Longrightarrow> trim_space (cfg_Endpoint b) \<noteq> []"
    "cfg_Kind b = ''azure'' \<Longrightarrow> trim_space (cfg_AzureAccount b) \<noteq> [] \<or> trim_space (cfg_Endpoint b) \<noteq> []"
  using assms by (auto simp: checkBackendIsComplete_def split: if_splits)

lemma NormalizePrefix_closed:
  "NormalizePrefix raw = Ok p \<Longrightarrow> p = [] \<or> last p = CHR ''/''"
  by (auto simp: NormalizePrefix_def Let_def split: if_splits)

text \<open>C36: every configuration the environment is resolved to is one the server can run with: a
  bucket, a known probe strategy with its key, positive 64-bit pacing durations (a non-positive
  interval would panic the ticker), the endpoint or account the backend needs and a closed
  prefix. The listener policy has accepted the token, and MinIO is addressed path-style unless
  the environment says otherwise.\<close>

theorem FromEnv_runnable:
  assumes "FromEnv e = Ok cfg"
  shows "runnable cfg \<and>
    check_listener e (sc_AuthToken cfg) (envBool e ''SOS_ALLOW_ANONYMOUS'' False) = None \<and>
    cfg_UsePathStyle (sc_Backend cfg) =
      (if getenv e ''SOS_USE_PATH_STYLE'' = [] then cfg_Kind (sc_Backend cfg) = ''minio''
       else envBool e ''SOS_USE_PATH_STYLE'' False)"
proof -
  obtain p composed where a:
    "cfg_Bucket (env_backend e) \<noteq> []"
    "check_listener e (sc_AuthToken (env_config e)) (envBool e ''SOS_ALLOW_ANONYMOUS'' False) = None"
    "probe_error (env_backend e) = None"
    "0 < hc_Interval (sc_Health (env_config e))" "0 < hc_Timeout (sc_Health (env_config e))"
    "checkBackendIsComplete (env_backend e) = None"
    "NormalizePrefix (cfg_Prefix (env_backend e)) = Ok p"
    "cfg = (env_config e)\<lparr>sc_Composed := composed, sc_Backend :=
       (if cfg_Kind (env_backend e) = ''minio'' \<and> getenv e ''SOS_USE_PATH_STYLE'' = []
        then (env_backend e)\<lparr>cfg_Prefix := p, cfg_UsePathStyle := True\<rparr>
        else (env_backend e)\<lparr>cfg_Prefix := p\<rparr>)\<rparr>"
    by (rule FromEnv_Ok [OF assms]) blast
  have pacing: "in_int64 (hc_Interval (sc_Health (env_config e)))"
    "in_int64 (hc_Timeout (sc_Health (env_config e)))"
    by (auto simp: env_config_def intro!: envDuration_range) (simp_all add: in_int64_def)
  have names: "sc_ListenAddr (env_config e) \<noteq> []" "cfg_Region (env_backend e) \<noteq> []"
    "\<not> cfg_HTTPClient (env_backend e)"
    by (simp_all add: env_config_def env_backend_def env_nonempty zero_config_def)
  have style: "cfg_UsePathStyle (env_backend e) = envBool e ''SOS_USE_PATH_STYLE'' False"
    "getenv e ''SOS_USE_PATH_STYLE'' = [] \<Longrightarrow> \<not> envBool e ''SOS_USE_PATH_STYLE'' False"
    by (simp_all add: env_backend_def envBool_def Let_def)
  show ?thesis
    using a(1-7) pacing names style checkBackend_None [OF a(6)] NormalizePrefix_closed [OF a(7)]
    by (simp add: a(8) runnable_def Let_def probe_error_None)
qed

definition sample_environment :: Env where
  "sample_environment = \<lparr>
     getenv = (\<lambda>k. if k = ''SOS_BUCKET'' then ''assets''
                    else if k = ''SOS_ENDPOINT'' then ''localhost:9000''
                    else if k = ''SOS_PREFIX'' then ''/app''
                    else if k = ''SOS_PROBE_INTERVAL'' then ''1m30s'' else []),
     frac = (\<lambda>f u s. f * u div s), check_listener = (\<lambda>token anonymous. None), egress_env = sample_env\<rparr>"

lemma sample_pacing: "ParseDuration fr ''1m30s'' = Some 90000000000"
  by (simp add: ParseDuration_def Let_def duration_items.simps duration_item_def is_digit_def
      digit_val_def leading_int_def leading_fraction_def unitMap_def)

lemma sample_FromEnv:
  "\<exists>cfg. FromEnv sample_environment = Ok cfg \<and> cfg_Prefix (sc_Backend cfg) = ''app/'' \<and>
     hc_Interval (sc_Health cfg) = 90000000000"
proof -
  have p: "NormalizePrefix ''/app'' = Ok ''app/''"
    by (simp add: NormalizePrefix_def trim_space_def strip_seqs.simps space_seqs_def has_prefix_def trim_char_def bad_segment_def)
  have t: "trim_space ''localhost:9000'' = ''localhost:9000''" "trim_space [] = []"
    by (simp_all add: trim_space_def strip_seqs.simps space_seqs_def has_prefix_def)
  show ?thesis
    by (simp add: FromEnv_def Let_def env_config_def env_backend_def env_def envBool_def envDuration_def
        sample_environment_def ParseComposed_def t p probe_error_def strategy_of_def
        checkBackendIsComplete_def zero_config_def sample_pacing)
qed

lemma FromEnv_runnable_witness:
  "\<exists>cfg. FromEnv sample_environment = Ok cfg \<and> runnable cfg \<and> cfg_UsePathStyle (sc_Backend cfg)"
proof -
  obtain cfg where c: "FromEnv sample_environment = Ok cfg" using sample_FromEnv by blast
  have "cfg_Kind (sc_Backend cfg) = ''minio''" "getenv sample_environment ''SOS_USE_PATH_STYLE'' = []"
    using c by (auto elim!: FromEnv_Ok simp: env_backend_def env_def Let_def sample_environment_def)
  with FromEnv_runnable [OF c] c show ?thesis by simp
qed

end
