(* ===== verification/Deployment.thy ===== *)
theory Deployment
  imports Builder Runtime Configuration
begin

text \<open>
  The agent and the gateway together: what the agent writes into the gateway's environment, as a
  local container (\<open>startGateway\<close>) or as a pod (\<open>Deploy\<close>), and what the gateway's
  \<open>FromEnv\<close> reads out of it.
\<close>

section \<open>The composed endpoints\<close>

text \<open>
  A dependency's host as codefly names it: a lower-case DNS name. What the gateway relies on of
  \<open>urlguard.NormalizeOrigin\<close>, which is outside the repository, is that it keeps such a name and port.
\<close>

definition host_chars :: string where "host_chars = ''abcdefghijklmnopqrstuvwxyz0123456789-.''"

definition letters :: string where "letters = ''abcdefghijklmnopqrstuvwxyz''"

definition host_name :: "string \<Rightarrow> bool" where
  "host_name h \<longleftrightarrow> h \<noteq> [] \<and> hd h \<in> set letters \<and> set h \<subseteq> set host_chars \<and> last h \<noteq> CHR ''.'' \<and> ParseAddr h = None"

definition keeps_names :: "EgressEnv \<Rightarrow> bool" where
  "keeps_names e \<longleftrightarrow> (\<forall>h port. host_name h \<and> 0 < port \<and> port < 65536 \<longrightarrow>
     NormalizeOrigin e (''http://'' @ h @ '':'' @ dec_nat port) =
       Inr \<lparr>or_Host = h, or_Port = int port, or_HostPort = h @ '':'' @ dec_nat port\<rparr>)"

definition dependencies_named :: "'c Core \<Rightarrow> NetworkMapping list \<Rightarrow> bool" where
  "dependencies_named core deps \<longleftrightarrow> (\<forall>m \<in> set deps. case FilterNetworkInstance core (nm_Instances m) (ContainerAccess core) of
     None \<Rightarrow> True
   | Some i \<Rightarrow> ni_Hostname i = [] \<or> host_name (ni_Hostname i) \<and> ni_Port i < 65536)"

lemma host_chars_plain: "CHR '','' \<notin> set host_chars" "CHR '':'' \<notin> set host_chars"
  by (simp_all add: host_chars_def)

lemma digit_ends: "c \<in> set (dec_nat n) \<Longrightarrow> c \<noteq> CHR '','' \<and> list_all (\<lambda>q. last q \<noteq> c) space_seqs"
proof -
  assume "c \<in> set (dec_nat n)"
  then have d: "NetIP.digit_val c \<noteq> None" by (rule dec_nat_digits)
  have "list_all (\<lambda>q. NetIP.digit_val (last q) = None) space_seqs" by code_simp
  moreover have "NetIP.digit_val (CHR '','') = None" by (simp add: NetIP.digit_val_def)
  ultimately show ?thesis using d by (auto simp: list_all_iff)
qed

lemma letters_no_space: "q \<in> set space_seqs \<Longrightarrow> c \<in> set letters \<Longrightarrow> hd q \<noteq> c"
proof -
  have "list_all (\<lambda>q. list_all (\<lambda>c. hd q \<noteq> c) letters) space_seqs" by code_simp
  then show "q \<in> set space_seqs \<Longrightarrow> c \<in> set letters \<Longrightarrow> hd q \<noteq> c" by (auto simp: list_all_iff)
qed

text \<open>An entry as \<open>composedEndpoints\<close> writes it is read back as itself.\<close>

lemma composed_entry:
  assumes "host_name h" and e: "e = JoinHostPort h p"
  shows "e = h @ '':'' @ dec_nat p" "trim_space e = e" "e \<noteq> []" "CHR '','' \<notin> set e" "CHR '':'' \<in> set e"
proof -
  show eq: "e = h @ '':'' @ dec_nat p"
    using assms host_chars_plain(2) by (auto simp: JoinHostPort_def host_name_def)
  then show "e \<noteq> []" "CHR '':'' \<in> set e" by auto
  show "CHR '','' \<notin> set e"
    using assms(1) host_chars_plain(1) digit_ends [of "CHR '',''" p] by (auto simp: eq host_name_def)
  have "dec_nat p \<noteq> []" by simp
  then have "last e \<in> set (dec_nat p)" by (simp add: eq)
  then have "list_all (\<lambda>q. last q \<noteq> last e) space_seqs" using digit_ends by blast
  moreover have "hd e \<in> set letters" using assms(1) by (simp add: eq host_name_def)
  ultimately show "trim_space e = e"
    using \<open>e \<noteq> []\<close> letters_no_space [of _ "hd e"] by (intro trim_space_ends) (auto simp: list_all_iff)
qed

text \<open>The entries the agent writes, each with the dependency it comes from.\<close>

lemma composedEndpoints_entries:
  "dependencies_named core deps \<Longrightarrow> e \<in> set (composedEndpoints core deps) \<Longrightarrow>
   \<exists>h p. e = JoinHostPort h p \<and> host_name h \<and> 0 < p \<and> p < 65536"
  by (induction core deps rule: composedEndpoints.induct)
    (auto simp: dependencies_named_def split: option.splits if_splits)

lemma composed_loop_accepts:
  assumes "keeps_names eg"
  shows "(\<forall>e \<in> set es. \<exists>h p. e = JoinHostPort h p \<and> host_name h \<and> 0 < p \<and> p < 65536) \<Longrightarrow>
    composed_loop eg es acc = Inr (acc \<union> set es)"
proof (induction es arbitrary: acc)
  case (Cons e es)
  then obtain h p where e: "e = JoinHostPort h p" "host_name h" "0 < p" "p < 65536" by auto
  note entry = composed_entry [OF e(2,1)]
  have "NormalizeOrigin eg (''http://'' @ e) = Inr \<lparr>or_Host = h, or_Port = int p, or_HostPort = e\<rparr>"
    using assms e(2-4) unfolding entry(1) keeps_names_def by blast
  moreover have "ParseAddr h = None" using e(2) by (simp add: host_name_def)
  ultimately show ?case using Cons entry by (simp add: Let_def)
qed simp

lemma ParseComposed_Nil: "ParseComposed eg [] = Inr {}"
proof -
  have "trim_space [] = []" by (simp add: trim_space_def strip_seqs_id has_prefix_iff)
  then show ?thesis by (simp add: ParseComposed_def)
qed

lemma composed_accepted:
  assumes "keeps_names eg" "dependencies_named core deps"
  shows "ParseComposed eg (join_with '','' (composedEndpoints core deps)) = Inr (set (composedEndpoints core deps))"
proof (cases "composedEndpoints core deps = []")
  case True
  then show ?thesis by (simp add: ParseComposed_Nil)
next
  case False
  note entries = composedEndpoints_entries [OF assms(2)]
  have "\<forall>e \<in> set (composedEndpoints core deps). CHR '','' \<notin> set e"
    using entries composed_entry(4) by blast
  then show ?thesis
    using False composed_loop_accepts [OF assms(1)] entries by (simp add: ParseComposed_def split_join)
qed

section \<open>The local gateway's environment\<close>

text \<open>A container's environment: a variable that is not set reads as the empty string.\<close>

definition container_getenv :: "(string \<times> string) list \<Rightarrow> string \<Rightarrow> string" where
  "container_getenv envs k = (case map_of envs k of None \<Rightarrow> [] | Some v \<Rightarrow> v)"

lemma container_getenv_simps:
  "container_getenv [] k = []"
  "container_getenv ((k', v) # envs) k = (if k = k' then v else container_getenv envs k)"
  "container_getenv ((if P then [(k', v)] else []) @ l) k = (if k = k' \<and> P then v else container_getenv l k)"
  "container_getenv ((if P then [(k', v), (k2, v2)] else []) @ l) k =
     (if k = k' \<and> P then v else if k = k2 \<and> P then v2 else container_getenv l k)"
  "container_getenv (if P then [(k', v)] else []) k = (if k = k' \<and> P then v else [])"
  by (simp_all add: container_getenv_def)

lemma ports: "dec_nat 9464 = ''9464''" "dec_nat 9000 = ''9000''"
proof -
  have "char_of (57 :: nat) = CHR ''9''" "char_of (52 :: nat) = CHR ''4''" "char_of (54 :: nat) = CHR ''6''" "char_of (48 :: nat) = CHR ''0''"
    by code_simp+
  then show "dec_nat 9464 = ''9464''" "dec_nat 9000 = ''9000''" by (simp_all add: dec_nat.simps)
qed

lemma gateway_getenv:
  fixes s defines "g \<equiv> container_getenv (gateway_envs s)"
  shows "g ''SOS_LISTEN'' = '':9464''" "g ''SOS_BACKEND'' = cf_backend (rt_conf s)" "g ''SOS_BUCKET'' = cf_bucket (rt_conf s)"
    "g ''SOS_REGION'' = cf_region (rt_conf s)" "g ''SOS_AUTH_TOKEN'' = sv_gatewayToken (rt_Service s)"
    "g ''SOS_ENDPOINT'' = cf_endpoint (rt_conf s)" "g ''SOS_PREFIX'' = cf_prefix (rt_conf s)"
    "g ''SOS_ACCESS_KEY'' = cf_accessKey (rt_conf s)"
    "g ''SOS_SECRET_KEY'' = (if cf_accessKey (rt_conf s) = [] then [] else cf_secretKey (rt_conf s))"
    "g ''SOS_GCS_CREDENTIALS_FILE'' = (if rt_gcsCredentialsHostFile s = None then [] else gcsCredentialsContainerPath)"
    "g ''SOS_AZURE_ACCOUNT'' = cf_azureAccount (rt_conf s)"
    "g ''SOS_COMPOSED_ENDPOINTS'' = join_with '','' (rt_composedEndpoints s)"
    "g ''SOS_USE_PATH_STYLE'' = []" "g ''SOS_AZURE_KEY'' = []" "g ''SOS_PRESIGN_MAX_EXPIRY'' = []" "g ''SOS_PROBE_STRATEGY'' = []"
    "g ''SOS_PROBE_KEY'' = []" "g ''SOS_PROBE_INTERVAL'' = []" "g ''SOS_PROBE_TIMEOUT'' = []" "g ''SOS_ALLOW_ANONYMOUS'' = []"
  by (simp_all add: g_def gateway_envs_def Let_def container_getenv_simps ports)

text \<open>The store the gateway is told to open, and the one Init arranged.\<close>

definition same_store :: "resolved \<Rightarrow> bool \<Rightarrow> string \<Rightarrow> Config \<Rightarrow> bool" where
  "same_store conf key_mounted p b \<longleftrightarrow>
     cfg_Kind b = cf_backend conf \<and> cfg_Bucket b = cf_bucket conf \<and> cfg_Region b = cf_region conf \<and> cfg_Prefix b = p \<and>
     cfg_Endpoint b = cf_endpoint conf \<and> cfg_AccessKey b = cf_accessKey conf \<and>
     (cf_accessKey conf \<noteq> [] \<longrightarrow> cfg_SecretKey b = cf_secretKey conf) \<and>
     cfg_GCSCredentialsFile b = (if key_mounted then gcsCredentialsContainerPath else []) \<and>
     cfg_AzureAccount b = cf_azureAccount conf \<and> cfg_UsePathStyle b = (cf_backend conf = ''minio'')"

lemma FromEnv_sos:
  assumes names: "getenv e ''SOS_BACKEND'' \<noteq> []" "getenv e ''SOS_BUCKET'' \<noteq> []" "getenv e ''SOS_REGION'' \<noteq> []"
    and unset: "getenv e ''SOS_USE_PATH_STYLE'' = []" "getenv e ''SOS_PROBE_STRATEGY'' = []" "getenv e ''SOS_PROBE_INTERVAL'' = []"
      "getenv e ''SOS_PROBE_TIMEOUT'' = []"
    and composed: "ParseComposed (egress_env e) (getenv e ''SOS_COMPOSED_ENDPOINTS'') = Inr composed"
    and listener: "check_listener e (trim_space (getenv e ''SOS_AUTH_TOKEN'')) (envBool e ''SOS_ALLOW_ANONYMOUS'' False) = None"
    and prefix: "NormalizePrefix (getenv e ''SOS_PREFIX'') = Ok p"
  shows "FromEnv e = (case checkBackendIsComplete (env_backend e) of
      Some err \<Rightarrow> Err err
    | None \<Rightarrow> Ok ((env_config e)\<lparr>sc_Composed := composed, sc_Backend := (env_backend e)\<lparr>cfg_Prefix := p,
        cfg_UsePathStyle := getenv e ''SOS_BACKEND'' = ''minio''\<rparr>\<rparr>))"
proof -
  have pe: "probe_error (env_backend e) = None"
    by (simp add: probe_error_def env_backend_def env_def unset strategy_of_def zero_config_def)
  have b: "cfg_Bucket (env_backend e) \<noteq> []" "cfg_Kind (env_backend e) = getenv e ''SOS_BACKEND''"
    "cfg_Prefix (env_backend e) = getenv e ''SOS_PREFIX''" "\<not> cfg_UsePathStyle (env_backend e)"
    using names unset by (simp_all add: env_backend_def env_def envBool_def zero_config_def)
  have c: "sc_Backend (env_config e) = env_backend e" "sc_AuthToken (env_config e) = trim_space (getenv e ''SOS_AUTH_TOKEN'')"
    "0 < hc_Interval (sc_Health (env_config e))" "0 < hc_Timeout (sc_Health (env_config e))"
    by (simp_all add: env_config_def envDuration_def unset)
  show ?thesis
    unfolding FromEnv_def Let_def
    using b c pe composed listener prefix unset by (simp add: not_le split: option.split)
qed

text \<open>What Init leaves of a resolved configuration before it starts the gateway.\<close>

definition arranged :: "Runtime \<Rightarrow> Runtime" where
  "arranged s = (if runsLocalMinIO (rt_conf s) then use_local_store s else s)"

definition accepts_tokens :: "Env \<Rightarrow> bool" where
  "accepts_tokens e \<longleftrightarrow> (\<forall>token anonymous. token \<noteq> [] \<or> anonymous \<longrightarrow> check_listener e token anonymous = None)"

lemma trim_local_store: "trim_space (''http://'' @ minioNetworkAlias @ '':'' @ dec_nat minioContainerPort) \<noteq> []"
proof -
  have "trim_space ''http://minio:9000'' = ''http://minio:9000''"
    by (rule trim_space_ends) (auto simp: space_seqs_def)
  then show ?thesis by (simp add: ports)
qed

lemma arranged_complete:
  assumes "sv_conf (rt_Service s) = LoadConfiguration core st c"
    and "cf_backend (rt_conf s) = ''azure'' \<Longrightarrow> trim_space (cf_azureAccount (rt_conf s)) \<noteq> [] \<or> cf_endpoint (rt_conf s) \<noteq> []"
  defines "conf \<equiv> rt_conf (arranged s)"
  shows "cf_backend conf \<noteq> []" "cf_bucket conf \<noteq> []" "cf_region conf \<noteq> []" "cf_prefix conf = cf_prefix (rt_conf s)"
    "cf_backend conf = ''minio'' \<Longrightarrow> trim_space (cf_endpoint conf) \<noteq> []"
    "cf_backend conf = ''azure'' \<Longrightarrow> trim_space (cf_azureAccount conf) \<noteq> [] \<or> trim_space (cf_endpoint conf) \<noteq> []"
proof -
  have "trim_space (cf_endpoint (rt_conf s)) = cf_endpoint (rt_conf s)"
    by (simp add: assms(1) LoadConfiguration_def Let_def)
  then show "cf_backend conf \<noteq> []" "cf_bucket conf \<noteq> []" "cf_region conf \<noteq> []" "cf_prefix conf = cf_prefix (rt_conf s)"
    "cf_backend conf = ''minio'' \<Longrightarrow> trim_space (cf_endpoint conf) \<noteq> []"
    "cf_backend conf = ''azure'' \<Longrightarrow> trim_space (cf_azureAccount conf) \<noteq> [] \<or> trim_space (cf_endpoint conf) \<noteq> []"
    using assms(1,2) LoadConfiguration_names [of core st c] trim_local_store
    by (auto simp: conf_def arranged_def use_local_store_def runsLocalMinIO_def)
qed

text \<open>C20: The gateway a local run starts resolves its environment to the store the agent arranged, a
  dependency's name as codefly delivers it to a composed endpoint, and the agent's own token to the
  credential it demands, given a prefix that normalizes and, for azure, an account or an endpoint.\<close>

theorem gateway_env_resolves:
  assumes "rt_conf s = LoadConfiguration core (sv_Settings (rt_Service s)) c"
    and "cf_backend (rt_conf s) = ''azure'' \<Longrightarrow> trim_space (cf_azureAccount (rt_conf s)) \<noteq> [] \<or> cf_endpoint (rt_conf s) \<noteq> []"
    and "NormalizePrefix (cf_prefix (rt_conf s)) = Ok p"
    and "rt_composedEndpoints s = composedEndpoints core deps" "dependencies_named core deps" "keeps_names (egress_env e)"
    and "trim_space (sv_gatewayToken (rt_Service s)) = sv_gatewayToken (rt_Service s)" "sv_gatewayToken (rt_Service s) \<noteq> []"
    and "accepts_tokens e"
  shows "\<exists>cfg. FromEnv (e\<lparr>getenv := container_getenv (cs_Env (gateway_spec M port (arranged s)))\<rparr>) = Ok cfg \<and>
    sc_AuthToken cfg = sv_gatewayToken (rt_Service s) \<and> sc_ListenAddr cfg = '':9464'' \<and>
    sc_Composed cfg = set (composedEndpoints core deps) \<and>
    same_store (rt_conf (arranged s)) (rt_gcsCredentialsHostFile s \<noteq> None) p (sc_Backend cfg)"
proof -
  let ?s = "arranged s"
  let ?e = "e\<lparr>getenv := container_getenv (gateway_envs ?s)\<rparr>"
  have kept: "sv_gatewayToken (rt_Service ?s) = sv_gatewayToken (rt_Service s)"
    "rt_gcsCredentialsHostFile ?s = rt_gcsCredentialsHostFile s" "rt_composedEndpoints ?s = rt_composedEndpoints s"
    by (simp_all add: arranged_def use_local_store_def)
  note g = gateway_getenv [of ?s] and conf = arranged_complete [OF assms(1,2)]
  have backend: "env_backend ?e = (env_backend ?e)\<lparr>cfg_Kind := cf_backend (rt_conf ?s), cfg_Endpoint := cf_endpoint (rt_conf ?s),
      cfg_AzureAccount := cf_azureAccount (rt_conf ?s)\<rparr>"
    using conf(1) by (simp add: env_backend_def env_def g)
  have complete: "checkBackendIsComplete (env_backend ?e) = None"
    using conf(5,6) by (subst backend) (auto simp: checkBackendIsComplete_def)
  have r: "FromEnv ?e = Ok ((env_config ?e)\<lparr>sc_Composed := set (composedEndpoints core deps), sc_Backend := (env_backend ?e)\<lparr>cfg_Prefix := p,
      cfg_UsePathStyle := cf_backend (rt_conf ?s) = ''minio''\<rparr>\<rparr>)"
    using FromEnv_sos [of ?e "set (composedEndpoints core deps)" p] conf(1-4) complete assms(3-9) composed_accepted [OF assms(6,5)]
    by (simp add: g kept envBool_def accepts_tokens_def)
  show ?thesis
    using conf(1-4) assms(7) unfolding gateway_spec_def
    by (auto simp: r same_store_def env_config_def env_backend_def env_def g kept zero_config_def)
qed

text \<open>The witness: a local run with no configuration but a prefix, and one dependency. The
  normalizer splits at the colon.\<close>

definition split_origin :: "string \<Rightarrow> goerr + Origin" where
  "split_origin u = (let rest = trim_prefix u ''http://''; host = takeWhile (\<lambda>c. c \<noteq> CHR '':'') rest in
     case atoi (drop (Suc (length host)) rest) of
       None \<Rightarrow> Inl (Msg ''no port'')
     | Some port \<Rightarrow> Inr \<lparr>or_Host = host, or_Port = port, or_HostPort = rest\<rparr>)"

definition sample_gateway :: Env where
  "sample_gateway = \<lparr>getenv = (\<lambda>k. []), frac = (\<lambda>f u s. f * u div s),
     check_listener = (\<lambda>token anonymous. if token \<noteq> [] \<or> anonymous then None else Some (Msg ''no token'')),
     egress_env = sample_env\<lparr>NormalizeOrigin := split_origin\<rparr>\<rparr>"

definition sample_dependency :: NetworkMapping where
  "sample_dependency = \<lparr>nm_Endpoint = sample_endpoint\<lparr>ep_Service := ''cache''\<rparr>,
     nm_Instances = [\<lparr>ni_Hostname = ''cache'', ni_Port = 6379, ni_Address = ''cache:6379'', ni_Access = ''container''\<rparr>]\<rparr>"

definition sample_run :: Runtime where
  "sample_run = sample_runtime\<lparr>rt_Service := sample_service\<lparr>sv_conf := LoadConfiguration sample_core (sv_Settings sample_service) None\<rparr>,
     rt_composedEndpoints := composedEndpoints sample_core [sample_dependency]\<rparr>"

lemma split_origin_keeps: "keeps_names (egress_env sample_gateway)"
proof -
  have "takeWhile (\<lambda>c. c \<noteq> CHR '':'') (h @ '':'' @ r) = h" if "host_name h" for h r
    using that host_chars_plain(2) by (subst takeWhile_append2) (auto simp: host_name_def)
  then show ?thesis
    by (auto simp: keeps_names_def sample_gateway_def split_origin_def Let_def trim_prefix_def has_prefix_def atoi_dec)
qed

lemma gateway_env_resolves_witness:
  "\<forall>M :: ((string \<times> string) list, 'd, 'l) Machine.
   \<exists>cfg. FromEnv (sample_gateway\<lparr>getenv := container_getenv (cs_Env (gateway_spec M 9464 (arranged sample_run)))\<rparr>) = Ok cfg \<and>
     sc_AuthToken cfg = ''t1'' \<and> same_store (rt_conf (arranged sample_run)) False ''app/'' (sc_Backend cfg)"
proof
  fix M :: "((string \<times> string) list, 'd, 'l) Machine"
  have conf: "rt_conf sample_run = LoadConfiguration sample_core (sv_Settings (rt_Service sample_run)) None"
    "sv_gatewayToken (rt_Service sample_run) = ''t1''" "rt_composedEndpoints sample_run = composedEndpoints sample_core [sample_dependency]"
    "rt_gcsCredentialsHostFile sample_run = None" "cf_backend (rt_conf sample_run) = []" "cf_prefix (rt_conf sample_run) = trim_space ''app''"
    by (simp_all add: sample_run_def sample_runtime_def sample_service_def LoadConfiguration_def Let_def configured_def withDefault_def)
  have t: "trim_space ''t1'' = ''t1''" "trim_space ''app'' = ''app''"
    by (rule trim_space_ends, simp, auto simp: space_seqs_def)+
  have p: "NormalizePrefix ''app'' = Ok ''app/''"
    by (simp add: NormalizePrefix_def t(2) trim_char_def bad_segment_def)
  have d: "dependencies_named sample_core [sample_dependency]"
    by (simp add: dependencies_named_def sample_core_def sample_dependency_def host_name_def letters_def host_chars_def parse_defs)
  have l: "accepts_tokens sample_gateway" by (simp add: accepts_tokens_def sample_gateway_def)
  have given: "cf_backend (rt_conf sample_run) = ''azure'' \<Longrightarrow>
      trim_space (cf_azureAccount (rt_conf sample_run)) \<noteq> [] \<or> cf_endpoint (rt_conf sample_run) \<noteq> []"
    "NormalizePrefix (cf_prefix (rt_conf sample_run)) = Ok ''app/''"
    "trim_space (sv_gatewayToken (rt_Service sample_run)) = sv_gatewayToken (rt_Service sample_run)"
    "sv_gatewayToken (rt_Service sample_run) \<noteq> []"
    by (simp_all only: conf(2,5,6) t p) simp_all
  from gateway_env_resolves [OF conf(1) given(1,2) conf(3) d split_origin_keeps given(3,4) l, of M 9464]
  show "\<exists>cfg. FromEnv (sample_gateway\<lparr>getenv := container_getenv (cs_Env (gateway_spec M 9464 (arranged sample_run)))\<rparr>) = Ok cfg \<and>
     sc_AuthToken cfg = ''t1'' \<and> same_store (rt_conf (arranged sample_run)) False ''app/'' (sc_Backend cfg)"
    unfolding conf(2,4) by auto
qed

section \<open>The pod's environment\<close>

definition yaml_plain :: "string \<Rightarrow> bool" where
  "yaml_plain v \<longleftrightarrow> (\<forall>c \<in> set v. (32 :: nat) \<le> of_char c \<and> of_char c < (127 :: nat) \<and> c \<noteq> CHR 0x22 \<and> c \<noteq> CHR 0x5C
     \<and> c \<noteq> CHR ''$'')"

text \<open>What is used of YAML and of Kubernetes: a double-quoted scalar of printable characters without
  quotes, backslashes and references to other variables reads as those characters.\<close>

definition reads_plain :: "(string \<Rightarrow> string) \<Rightarrow> bool" where
  "reads_plain scalar \<longleftrightarrow> (\<forall>v. yaml_plain v \<longrightarrow> scalar (literal v) = v)"

lemma literals_lookup: "map_of (map (\<lambda>(k, v). (k, literal v)) l) k = map_option literal (map_of l k)"
  by (induction l) auto

lemma pod_getenv_plain:
  assumes "reads_plain scalar" "\<forall>(k, v) \<in> set (manifest_vars name p). yaml_plain v"
  shows "pod_getenv scalar secrets (manifest_env restricted name p) k =
    (if k \<in> fst ` set (manifest_vars name p) then container_getenv (manifest_vars name p) k
     else secret_getenv secrets (manifest_env restricted name p) k)"
proof (cases "map_of (manifest_vars name p) k")
  case None
  then have "k \<notin> fst ` set (manifest_vars name p)" by (simp add: map_of_eq_None_iff)
  with None show ?thesis by (simp add: pod_getenv_def manifest_env_def literals_lookup)
next
  case (Some v)
  then have "(k, v) \<in> set (manifest_vars name p)" by (rule map_of_SomeD)
  with assms Some show ?thesis
    by (force simp: pod_getenv_def manifest_env_def literals_lookup container_getenv_def reads_plain_def)
qed

text \<open>The variables the gateway reads that are not credentials, and the three that are.\<close>

definition gateway_settings :: "string list" where
  "gateway_settings = [''SOS_LISTEN'', ''SOS_BACKEND'', ''SOS_BUCKET'', ''SOS_REGION'', ''SOS_PREFIX'', ''SOS_ENDPOINT'',
     ''SOS_ALLOW_ANONYMOUS'', ''SOS_AZURE_ACCOUNT'', ''SOS_AUTH_TOKEN'', ''SOS_GCS_CREDENTIALS_FILE'', ''SOS_COMPOSED_ENDPOINTS'',
     ''SOS_USE_PATH_STYLE'', ''SOS_PRESIGN_MAX_EXPIRY'', ''SOS_PROBE_STRATEGY'', ''SOS_PROBE_KEY'', ''SOS_PROBE_INTERVAL'',
     ''SOS_PROBE_TIMEOUT'']"

definition gateway_keys :: "string list" where
  "gateway_keys = [''SOS_ACCESS_KEY'', ''SOS_SECRET_KEY'', ''SOS_AZURE_KEY'']"

lemma keys_not_rendered: "k \<in> set gateway_keys \<Longrightarrow> k \<notin> fst ` set (manifest_vars name p)"
  by (auto simp: gateway_keys_def manifest_vars_def)

lemma manifest_getenv:
  fixes name p defines "g \<equiv> container_getenv (manifest_vars name p)"
  shows "g ''SOS_LISTEN'' = '':9464''" "g ''SOS_BACKEND'' = dp_Backend p" "g ''SOS_BUCKET'' = dp_Bucket p"
    "g ''SOS_REGION'' = dp_Region p" "g ''SOS_PREFIX'' = dp_Prefix p" "g ''SOS_ENDPOINT'' = dp_Endpoint p"
    "g ''SOS_ALLOW_ANONYMOUS'' = ''true''" "g ''SOS_AZURE_ACCOUNT'' = (if dp_Backend p = ''azure'' then dp_AzureAccount p else [])"
    "g ''SOS_AUTH_TOKEN'' = []" "g ''SOS_GCS_CREDENTIALS_FILE'' = []"
    "g ''SOS_COMPOSED_ENDPOINTS'' = []" "g ''SOS_USE_PATH_STYLE'' = []"
    "g ''SOS_PRESIGN_MAX_EXPIRY'' = []" "g ''SOS_PROBE_STRATEGY'' = []" "g ''SOS_PROBE_KEY'' = []"
    "g ''SOS_PROBE_INTERVAL'' = []" "g ''SOS_PROBE_TIMEOUT'' = []"
  by (simp_all add: g_def manifest_vars_def container_getenv_simps)

text \<open>What the gateway in the pod reads: the settings are the manifest's, the keys the Secret's.\<close>

lemma pod_settings:
  fixes name p secrets restricted scalar
  defines "pe \<equiv> manifest_env restricted name p"
  assumes "reads_plain scalar" "\<forall>(k, v) \<in> set (manifest_vars name p). yaml_plain v"
    and "\<forall>k \<in> set gateway_settings. k \<notin> fst ` set (secrets (name @ ''-secret''))"
  shows "k \<in> set gateway_settings \<Longrightarrow> pod_getenv scalar secrets pe k = container_getenv (manifest_vars name p) k"
    and "k \<in> set gateway_keys \<Longrightarrow> pod_getenv scalar secrets pe k = secret_getenv secrets pe k"
proof -
  note plain = pod_getenv_plain [OF assms(2,3), of secrets restricted, folded pe_def]
  show "pod_getenv scalar secrets pe k = container_getenv (manifest_vars name p) k" if "k \<in> set gateway_settings"
  proof (cases "k \<in> fst ` set (manifest_vars name p)")
    case False
    then have "container_getenv (manifest_vars name p) k = []"
      by (simp add: container_getenv_def map_of_eq_None_iff [THEN iffD2])
    moreover have "map_of (secrets (name @ ''-secret'')) k = None" using assms(4) that by (simp add: map_of_eq_None_iff)
    then have "secret_getenv secrets pe k = []" by (simp add: pe_def manifest_env_def secret_getenv_def)
    ultimately show ?thesis using plain False by simp
  qed (use plain in simp)
  show "pod_getenv scalar secrets pe k = secret_getenv secrets pe k" if "k \<in> set gateway_keys"
    using plain keys_not_rendered [OF that] by simp
qed

lemma Deploy_Inr:
  assumes "Deploy core img rq b = (Inr d, b')"
  obtains conf port p where "conf = LoadConfiguration core (sv_Settings (bd_Service b)) (dr_Configuration rq)"
    "kd_Parameters d = template_parameters conf port" "servicePort core (bd_GrpcEndpoint b) (dr_NetworkMappings rq) = Inr port"
    "NormalizePrefix (cf_prefix conf) = Ok p" "dp_Backend (kd_Parameters d) \<in> set supportedDeployBackends"
    "cf_authToken conf = []" "dp_Backend (kd_Parameters d) = ''gcs'' \<Longrightarrow> cf_gcsCredentialsFile conf = []"
    "dp_Backend (kd_Parameters d) = ''azure'' \<Longrightarrow> dp_AzureAccount (kd_Parameters d) \<noteq> []"
proof -
  have n: "\<not> (\<exists>raw. NormalizePrefix raw = Panic)" by (auto simp: NormalizePrefix_def Let_def split: if_splits)
  show thesis
    using assms that n unfolding Deploy_def Let_def
    by (auto simp: deploy_refusal_def template_parameters_def split: if_splits sum.splits option.splits result.splits)
qed

text \<open>The store a pod's gateway opens, with the keys of the Secret.\<close>

definition deployed_store :: "deploymentTemplateParameters \<Rightarrow> string \<Rightarrow> (string \<Rightarrow> string) \<Rightarrow> Config \<Rightarrow> bool" where
  "deployed_store p pfx key b \<longleftrightarrow> cfg_Kind b = dp_Backend p \<and> cfg_Bucket b = dp_Bucket p \<and> cfg_Region b = dp_Region p \<and>
     cfg_Prefix b = pfx \<and> cfg_Endpoint b = dp_Endpoint p \<and>
     cfg_AccessKey b = key ''SOS_ACCESS_KEY'' \<and> cfg_SecretKey b = key ''SOS_SECRET_KEY'' \<and> cfg_AzureKey b = key ''SOS_AZURE_KEY'' \<and>
     cfg_GCSCredentialsFile b = [] \<and> cfg_AzureAccount b = (if dp_Backend p = ''azure'' then dp_AzureAccount p else [])"

definition lacks_store :: "deploymentTemplateParameters \<Rightarrow> bool" where
  "lacks_store p \<longleftrightarrow> dp_Endpoint p = [] \<and> (dp_Backend p = ''minio'' \<or> dp_Backend p = ''azure'' \<and> trim_space (dp_AzureAccount p) = [])"

text \<open>C25: What the Builder agrees to deploy, the gateway it renders agrees to run: its pod resolves the
  parameters of the deployment, with the normalized prefix and no token, and its store keys are the
  ones the service's Secret holds, none if the output is restricted; unless the parameters name a
  minio without an endpoint or an azure account of white space, which the gateway refuses to start
  with. The configured values are printable, without quotes, backslashes and dollar signs, and the
  Secret holds none of the gateway's settings but its keys.\<close>

theorem Deploy_starts:
  fixes secrets :: "string \<Rightarrow> (string \<times> string) list" and name :: string and restricted :: bool and d :: KustomizeDeployment
    and e :: Env and scalar :: "string \<Rightarrow> string"
  assumes "Deploy core img rq b = (Inr d, b')"
    and "reads_plain scalar" "\<forall>(k, v) \<in> set (manifest_vars name (kd_Parameters d)). yaml_plain v"
    and "\<forall>k \<in> set gateway_settings. k \<notin> fst ` set (secrets (name @ ''-secret''))"
    and "accepts_tokens e"
  defines "pe \<equiv> manifest_env restricted name (kd_Parameters d)"
  defines "r \<equiv> FromEnv (e\<lparr>getenv := pod_getenv scalar secrets pe\<rparr>)"
  shows "if lacks_store (kd_Parameters d) then \<exists>err. r = Err err
    else \<exists>cfg pfx. r = Ok cfg \<and> NormalizePrefix (dp_Prefix (kd_Parameters d)) = Ok pfx \<and>
      sc_AuthToken cfg = [] \<and> sc_ListenAddr cfg = '':9464'' \<and> sc_Composed cfg = {} \<and>
      deployed_store (kd_Parameters d) pfx
        (\<lambda>k. if restricted then [] else container_getenv (secrets (name @ ''-secret'')) k) (sc_Backend cfg)"
proof -
  let ?p = "kd_Parameters d"
  let ?g = "pod_getenv scalar secrets pe"
  let ?e = "e\<lparr>getenv := ?g\<rparr>"
  let ?key = "\<lambda>k. if restricted then [] else container_getenv (secrets (name @ ''-secret'')) k"
  have key: "secret_getenv secrets pe k = ?key k" for k
    by (simp add: pe_def manifest_env_def secret_getenv_def container_getenv_def)
  note pod = pod_settings [where secrets = secrets and name = name and p = ?p and restricted = restricted, OF assms(2-4), folded pe_def]
  have g: "?g k = container_getenv (manifest_vars name ?p) k" if "k \<in> set gateway_settings" for k
    using pod(1) [OF that] by simp
  have gs: "?g ''SOS_LISTEN'' = '':9464''" "?g ''SOS_BACKEND'' = dp_Backend ?p" "?g ''SOS_BUCKET'' = dp_Bucket ?p"
    "?g ''SOS_REGION'' = dp_Region ?p" "?g ''SOS_PREFIX'' = dp_Prefix ?p" "?g ''SOS_ENDPOINT'' = dp_Endpoint ?p"
    "?g ''SOS_ALLOW_ANONYMOUS'' = ''true''" "?g ''SOS_AZURE_ACCOUNT'' = (if dp_Backend ?p = ''azure'' then dp_AzureAccount ?p else [])"
    "?g ''SOS_AUTH_TOKEN'' = []" "?g ''SOS_GCS_CREDENTIALS_FILE'' = []"
    "?g ''SOS_COMPOSED_ENDPOINTS'' = []" "?g ''SOS_USE_PATH_STYLE'' = []"
    "?g ''SOS_PRESIGN_MAX_EXPIRY'' = []" "?g ''SOS_PROBE_STRATEGY'' = []" "?g ''SOS_PROBE_KEY'' = []"
    "?g ''SOS_PROBE_INTERVAL'' = []" "?g ''SOS_PROBE_TIMEOUT'' = []"
    using manifest_getenv [of name ?p] by (simp_all only: g gateway_settings_def list.set insert_iff simp_thms)
  have gk: "?g ''SOS_ACCESS_KEY'' = ?key ''SOS_ACCESS_KEY''" "?g ''SOS_SECRET_KEY'' = ?key ''SOS_SECRET_KEY''"
    "?g ''SOS_AZURE_KEY'' = ?key ''SOS_AZURE_KEY''"
    using pod(2) by (simp_all add: gateway_keys_def key)
  obtain conf port pfx where d: "conf = LoadConfiguration core (sv_Settings (bd_Service b)) (dr_Configuration rq)"
    "?p = template_parameters conf port" "NormalizePrefix (cf_prefix conf) = Ok pfx" "dp_Backend ?p \<in> set supportedDeployBackends"
    by (rule Deploy_Inr [OF assms(1)])
  have names: "dp_Backend ?p \<noteq> []" "dp_Bucket ?p \<noteq> []" "dp_Region ?p \<noteq> []" "NormalizePrefix (dp_Prefix ?p) = Ok pfx"
    "trim_space (dp_Endpoint ?p) = dp_Endpoint ?p"
    using d LoadConfiguration_names [of core] by (auto simp: template_parameters_def LoadConfiguration_def Let_def)
  have complete: "checkBackendIsComplete (env_backend ?e) = None \<longleftrightarrow> \<not> lacks_store ?p"
    using names(1,5) by (auto simp: checkBackendIsComplete_def lacks_store_def env_backend_def env_def gs)
  have t: "trim_space [] = []" by (simp add: trim_space_def strip_seqs_id has_prefix_iff)
  have "r = (case checkBackendIsComplete (env_backend ?e) of
      Some err \<Rightarrow> Err err
    | None \<Rightarrow> Ok ((env_config ?e)\<lparr>sc_Composed := {}, sc_Backend := (env_backend ?e)\<lparr>cfg_Prefix := pfx,
        cfg_UsePathStyle := dp_Backend ?p = ''minio''\<rparr>\<rparr>))"
    unfolding r_def using FromEnv_sos [of ?e "{}" pfx] names(1-4) assms(5) t
    by (simp add: gs envBool_def ParseBool_def ParseComposed_Nil accepts_tokens_def cong: option.case_cong)
  with complete names t show ?thesis
    by (cases "checkBackendIsComplete (env_backend ?e)")
      (auto simp: deployed_store_def env_config_def env_backend_def env_def gs gk zero_config_def)
qed

text \<open>The witness: a deployment with no configuration but a prefix, to S3.\<close>

definition sample_parameters :: deploymentTemplateParameters where
  "sample_parameters = \<lparr>dp_Backend = ''s3'', dp_Bucket = ''documents'', dp_Region = ''us-east-1'', dp_Prefix = ''app'',
     dp_Endpoint = [], dp_ServicePort = 9464, dp_AzureAccount = []\<rparr>"

definition sample_builder :: Builder where
  "sample_builder = \<lparr>bd_Service = sample_service, bd_GrpcEndpoint = Some sample_endpoint, bd_Endpoints = [], bd_DockerImage = None\<rparr>"

definition inside_quotes :: "string \<Rightarrow> string" where "inside_quotes t = butlast (tl t)"

lemma sample_prefix: "trim_space ''app'' = ''app''" "NormalizePrefix ''app'' = Ok ''app/''" "trim_space [] = []"
proof -
  show t: "trim_space ''app'' = ''app''" by (rule trim_space_ends, simp, auto simp: space_seqs_def)
  then show "NormalizePrefix ''app'' = Ok ''app/''" by (simp add: NormalizePrefix_def trim_char_def bad_segment_def)
  show "trim_space [] = []" by (simp add: trim_space_def strip_seqs_id has_prefix_iff)
qed

lemma sample_Deploy:
  "\<exists>b'. Deploy sample_core img \<lparr>dr_Configuration = None, dr_NetworkMappings = []\<rparr> sample_builder =
     (Inr \<lparr>kd_Parameters = sample_parameters, kd_ServiceAccount = Some []\<rparr>, b')"
  by (simp add: Deploy_def Let_def sample_builder_def sample_service_def LoadConfiguration_def configured_def withDefault_def
      servicePort_def template_parameters_def deploy_refusal_def supportedDeployBackends_def workloadPodOverlay_def
      sample_parameters_def sample_prefix)

text \<open>The cluster holds the store's key pair in the Secret.\<close>

definition sample_secrets :: "string \<Rightarrow> (string \<times> string) list" where
  "sample_secrets n = [(''SOS_ACCESS_KEY'', ''AKIA''), (''SOS_SECRET_KEY'', ''s3cr3t'')]"

lemma Deploy_starts_witness:
  "\<exists>cfg. FromEnv (sample_gateway\<lparr>getenv := pod_getenv inside_quotes sample_secrets (manifest_env False ''store'' sample_parameters)\<rparr>) = Ok cfg \<and>
     cfg_Kind (sc_Backend cfg) = ''s3'' \<and> cfg_Prefix (sc_Backend cfg) = ''app/'' \<and> cfg_SecretKey (sc_Backend cfg) = ''s3cr3t''"
proof -
  obtain b' where d: "Deploy sample_core \<lparr>im_Name = ''gateway'', im_Tag = [], im_Digest = []\<rparr> \<lparr>dr_Configuration = None, dr_NetworkMappings = []\<rparr> sample_builder =
     (Inr \<lparr>kd_Parameters = sample_parameters, kd_ServiceAccount = Some []\<rparr>, b')"
    using sample_Deploy by blast
  have r: "reads_plain inside_quotes" by (simp add: reads_plain_def inside_quotes_def literal_def)
  have p: "\<forall>(k, v) \<in> set (manifest_vars ''store'' sample_parameters). yaml_plain v"
    by (simp add: manifest_vars_def sample_parameters_def yaml_plain_def)
  have k: "\<forall>k \<in> set gateway_settings. k \<notin> fst ` set (sample_secrets (''store'' @ ''-secret''))"
    by (simp add: gateway_settings_def sample_secrets_def)
  have l: "accepts_tokens sample_gateway" by (simp add: accepts_tokens_def sample_gateway_def)
  have "\<not> lacks_store sample_parameters" by (simp add: lacks_store_def sample_parameters_def)
  then show ?thesis
    using Deploy_starts [where secrets = sample_secrets and name = "''store''" and restricted = False, OF d r _ k l] p
    by (auto simp: deployed_store_def sample_prefix sample_parameters_def sample_secrets_def container_getenv_def)
qed

end
