(* ===== verification/Process.thy ===== *)
theory Process
  imports Server Configuration Events
begin

text \<open>
  The gateway process (src/cmd/service-object-storage/main.go): the order in which \<open>run\<close>
  resolves its configuration, opens the store, listens, wires the server and, once serving has
  ended, releases what it holds. Serving itself, by the gRPC server until a signal stops it, is
  the parameter \<open>pe_Serve\<close>, and the listener \<open>pe_Listen\<close>; the stop is \<open>gracefulStop\<close>.
\<close>

section \<open>The process\<close>

text \<open>
  The server options that guard it: an interceptor of \<open>callertoken\<close> chained before every unary
  call, and one before every streaming call, each with the token it demands.
\<close>

datatype ServerOption = ChainUnaryInterceptor string | ChainStreamInterceptor string

datatype CallKind = UnaryCall | StreamCall

fun demanded :: "CallKind \<Rightarrow> ServerOption list \<Rightarrow> string option" where
  "demanded kind [] = None"
| "demanded UnaryCall (ChainUnaryInterceptor t # opts) = Some t"
| "demanded StreamCall (ChainStreamInterceptor t # opts) = Some t"
| "demanded kind (opt # opts) = demanded kind opts"

text \<open>\<open>pr_Options\<close> are the options the server is made with; \<open>pr_Overall\<close> is the status of the
  overall health service.\<close>

record 'w Process =
  pr_Server :: "'w Server"
  pr_Hub :: Hub
  pr_Monitor :: Monitor
  pr_Interval :: int
  pr_Overall :: ServingStatus
  pr_Options :: "ServerOption list"

record 'w ProcessEnv =
  pe_Env :: Env
  pe_Registry :: "'w registry"
  pe_Listen :: "string \<Rightarrow> 'w \<Rightarrow> goerr option \<times> 'w"
  pe_Serve :: "'w Process \<Rightarrow> 'w \<Rightarrow> (goerr option \<times> Hub) \<times> 'w"
  pe_New :: "'w Backend \<Rightarrow> 'w Server"

text \<open>\<open>pe_New\<close> is \<open>server.New\<close>: the fields of a server that come from its surroundings.\<close>

definition serveHealth :: "HealthConfig \<Rightarrow> Monitor \<times> ServingStatus" where
  "serveHealth cfg = (NewMonitor (hc_Timeout cfg), SERVING)"

definition interceptors :: "string \<Rightarrow> ServerOption list" where
  "interceptors token = (if token \<noteq> [] then [ChainUnaryInterceptor token, ChainStreamInterceptor token] else [])"

lemma demanded_interceptors: "demanded kind (interceptors token) = (if token = [] then None else Some token)"
  by (cases kind) (simp_all add: interceptors_def)

definition wire :: "'w ProcessEnv \<Rightarrow> ServerConfig \<Rightarrow> 'w Backend \<Rightarrow> 'w Process" where
  "wire pe cfg store = (case serveHealth (sc_Health cfg) of (monitor, overall) \<Rightarrow>
     \<lparr>pr_Server = AdmitComposed (sc_Composed cfg) ((pe_New pe store)\<lparr>sv_be := store, sv_readiness := mn_verdict monitor\<rparr>),
      pr_Hub = NewHub, pr_Monitor = monitor, pr_Interval = hc_Interval (sc_Health cfg), pr_Overall = overall,
      pr_Options = interceptors (sc_AuthToken cfg)\<rparr>)"

text \<open>What \<open>run\<close> returns, with the hub it left behind when it came to create one. A panic of a
  constructor or of closing the hub ends the process.\<close>

definition run_gateway :: "'w ProcessEnv \<Rightarrow> 'w \<Rightarrow> (goerr, goerr option \<times> Hub option) result \<times> 'w" where
  "run_gateway pe w = (case FromEnv (pe_Env pe) of
     Err err \<Rightarrow> (Ok (Some err, None), w)
   | Panic \<Rightarrow> (Panic, w)
   | Ok cfg \<Rightarrow> (case Open (pe_Registry pe) background (sc_Backend cfg) w of
        (Err err, w1) \<Rightarrow> (Ok (Some err, None), w1)
      | (Panic, w1) \<Rightarrow> (Panic, w1)
      | (Ok store, w1) \<Rightarrow> (case pe_Listen pe (sc_ListenAddr cfg) w1 of
           (Some err, w2) \<Rightarrow> (Ok (Some err, None), snd (be_Close store w2))
         | (None, w2) \<Rightarrow> (case pe_Serve pe (wire pe cfg store) w2 of
              ((err, hub), w3) \<Rightarrow> (case Hub_Close hub of
                  None \<Rightarrow> (Panic, snd (be_Close store w3))
                | Some closed \<Rightarrow> (Ok (err, Some closed), snd (be_Close store w3)))))))"

section \<open>The stop\<close>

text \<open>
  The calls in flight when the signal arrives, each with the time it would take (None: it does not
  end). \<open>GracefulStop\<close> returns when all have ended; \<open>Stop\<close> cancels those that have not, which
  makes it return. The answer is when \<open>gracefulStop\<close> returns, and which calls ended of themselves.
\<close>

definition shutdownGrace :: int where "shutdownGrace = 15 * second"

definition gracefulStop :: "int \<Rightarrow> int option list \<Rightarrow> int \<times> bool list" where
  "gracefulStop grace calls = (let in_time = (\<lambda>c. case c of None \<Rightarrow> False | Some t \<Rightarrow> t \<le> grace) in
     if list_all in_time calls then (fold max (map the calls) 0, map (\<lambda>c. True) calls)
     else (grace, map in_time calls))"

lemma fold_max_le: "(\<forall>x \<in> set xs. x \<le> b) \<Longrightarrow> a \<le> b \<Longrightarrow> fold max xs a \<le> (b :: int)"
  by (induction xs arbitrary: a) auto

text \<open>A stuck call cannot make the stop hang, and no call that ends within the grace is cut off.\<close>

lemma gracefulStop_bounded:
  assumes "0 \<le> grace"
  shows "fst (gracefulStop grace calls) \<le> grace \<and>
    snd (gracefulStop grace calls) = map (\<lambda>c. case c of None \<Rightarrow> False | Some t \<Rightarrow> t \<le> grace) calls"
  using assms by (auto simp: gracefulStop_def Let_def list_all_iff split: option.splits intro!: fold_max_le)

section \<open>What a serving gateway is\<close>

lemma Open_Ok:
  assumes "Open reg c cfg w = (Ok store, w1)" "\<not> cfg_HTTPClient cfg"
  obtains inner pfx where "NormalizePrefix (cfg_Prefix cfg) = Ok pfx" "store = apply_prefix pfx inner"
  using assms that
  by (auto simp: Open_def Let_def map_ok_eq_Ok split: option.splits result.splits prod.splits if_splits)

lemma wire_simps:
  "pr_Options (wire pe cfg store) = interceptors (sc_AuthToken cfg)" "sv_be (pr_Server (wire pe cfg store)) = store"
  "sv_composed (pr_Server (wire pe cfg store)) = sc_Composed cfg" "pr_Interval (wire pe cfg store) = hc_Interval (sc_Health cfg)"
  "mn_timeout (pr_Monitor (wire pe cfg store)) = hc_Timeout (sc_Health cfg)"
  by (simp_all add: wire_def serveHealth_def AdmitComposed_def NewMonitor_def)

text \<open>C26: The gateway never serves unguarded by accident: whatever is served either demands, before every
  unary call and before every streaming call, the configured token without its surrounding white space, which is not empty, or the operator has set
  SOS_ALLOW_ANONYMOUS. It serves the opened store under a prefix closed by a slash, admits
  exactly the composed endpoints of its environment and probes at a positive pace; when serving
  ends the hub is closed, and the store after it.\<close>

theorem gateway_guarded:
  assumes "run_gateway pe w = (Ok (err, Some hub), w')"
    and "\<And>token anonymous. check_listener (pe_Env pe) token anonymous = None \<Longrightarrow> token \<noteq> [] \<or> anonymous"
  shows "\<exists>p h w2 w3 inner pfx. pe_Serve pe p w2 = ((err, h), w3) \<and>
    (\<forall>kind. (demanded kind (pr_Options p) = None \<longrightarrow> envBool (pe_Env pe) ''SOS_ALLOW_ANONYMOUS'' False) \<and>
      (\<forall>t. demanded kind (pr_Options p) = Some t \<longrightarrow> t \<noteq> [] \<and> t = trim_space (getenv (pe_Env pe) ''SOS_AUTH_TOKEN''))) \<and>
    sv_be (pr_Server p) = apply_prefix pfx inner \<and> (pfx = [] \<or> last pfx = CHR ''/'') \<and>
    ParseComposed (egress_env (pe_Env pe)) (getenv (pe_Env pe) ''SOS_COMPOSED_ENDPOINTS'') = Inr (sv_composed (pr_Server p)) \<and>
    0 < pr_Interval p \<and> 0 < mn_timeout (pr_Monitor p) \<and>
    Hub_Close h = Some hub \<and> w' = snd (be_Close (sv_be (pr_Server p)) w3)"
proof -
  obtain cfg store w1 w2 h w3 where r: "FromEnv (pe_Env pe) = Ok cfg" "Open (pe_Registry pe) background (sc_Backend cfg) w = (Ok store, w1)"
    "pe_Serve pe (wire pe cfg store) w2 = ((err, h), w3)" "Hub_Close h = Some hub" "w' = snd (be_Close store w3)"
    using assms(1) by (auto simp: run_gateway_def split: result.splits option.splits prod.splits)
  have c: "sc_AuthToken cfg = trim_space (getenv (pe_Env pe) ''SOS_AUTH_TOKEN'')"
    "check_listener (pe_Env pe) (sc_AuthToken cfg) (envBool (pe_Env pe) ''SOS_ALLOW_ANONYMOUS'' False) = None"
    "ParseComposed (egress_env (pe_Env pe)) (getenv (pe_Env pe) ''SOS_COMPOSED_ENDPOINTS'') = Inr (sc_Composed cfg)"
    "0 < hc_Interval (sc_Health cfg)" "0 < hc_Timeout (sc_Health cfg)" "\<not> cfg_HTTPClient (sc_Backend cfg)"
    by (rule FromEnv_Ok [OF r(1)], simp add: env_config_def env_backend_def zero_config_def)+
  obtain inner pfx where s: "NormalizePrefix (cfg_Prefix (sc_Backend cfg)) = Ok pfx" "store = apply_prefix pfx inner"
    by (rule Open_Ok [OF r(2) c(6)])
  show ?thesis
    by (rule exI [of _ "wire pe cfg store"], rule exI [of _ h], rule exI [of _ w2], rule exI [of _ w3],
        rule exI [of _ inner], rule exI [of _ pfx])
      (use r c s NormalizePrefix_closed [OF s(1)] assms(2) [OF c(2)] in \<open>auto simp: wire_simps demanded_interceptors split: if_splits\<close>)
qed

text \<open>The witness: the store of the sample environment, served to the end of one watch.\<close>

definition sample_process :: "MemState ProcessEnv" where
  "sample_process = \<lparr>
     pe_Env = sample_environment\<lparr>check_listener := \<lambda>token anonymous. if token \<noteq> [] \<or> anonymous then None else Some (Msg ''no token''),
       getenv := (getenv sample_environment)(''SOS_AUTH_TOKEN'' := ''t1'')\<rparr>,
     pe_Registry = [(''minio'', \<lambda>c cfg w. (Ok (mem_backend (\<lambda>d. []) (cfg_Bucket cfg)), w))],
     pe_Listen = (\<lambda>a w. (None, w)),
     pe_Serve = (\<lambda>p w. ((None, snd (Subscribe [] (pr_Hub p))), w)),
     pe_New = (\<lambda>be. sample_server)\<rparr>"

lemma sample_process_FromEnv:
  "\<exists>cfg. FromEnv (pe_Env sample_process) = Ok cfg \<and> cfg_Kind (sc_Backend cfg) = ''minio'' \<and>
     cfg_Prefix (sc_Backend cfg) = ''app/'' \<and> cfg_HTTPClient (sc_Backend cfg) = False"
proof -
  have p: "NormalizePrefix ''/app'' = Ok ''app/''"
    by (simp add: NormalizePrefix_def trim_space_def strip_seqs.simps space_seqs_def has_prefix_def trim_char_def bad_segment_def)
  have t: "trim_space ''localhost:9000'' = ''localhost:9000''" "trim_space [] = []" "trim_space ''t1'' = ''t1''"
    by (simp_all add: trim_space_def strip_seqs.simps space_seqs_def has_prefix_def)
  show ?thesis
    by (simp add: FromEnv_def Let_def env_config_def env_backend_def env_def envBool_def envDuration_def sample_process_def
        sample_environment_def ParseComposed_def t p probe_error_def strategy_of_def
        checkBackendIsComplete_def zero_config_def sample_pacing)
qed

lemma sample_process_run: "\<exists>hub w'. run_gateway sample_process sample_mem = (Ok (None, Some hub), w')"
proof -
  obtain cfg where c: "FromEnv (pe_Env sample_process) = Ok cfg" "cfg_Kind (sc_Backend cfg) = ''minio''"
    "cfg_Prefix (sc_Backend cfg) = ''app/''" "cfg_HTTPClient (sc_Backend cfg) = False"
    using sample_process_FromEnv by blast
  have p: "NormalizePrefix ''app/'' = Ok ''app/''"
    by (simp add: NormalizePrefix_def trim_space_def strip_seqs.simps space_seqs_def has_prefix_def trim_char_def bad_segment_def)
  have h: "\<exists>hub. Hub_Close (snd (Subscribe [] NewHub)) = Some hub"
    by (simp add: Hub_Close_def Subscribe_def NewHub_def Let_def drop_sub_def)
  have pr: "pr_Hub (wire pe cfg store) = NewHub" for pe :: "MemState ProcessEnv" and store
    by (simp add: wire_def serveHealth_def)
  obtain store where o: "Open (pe_Registry sample_process) background (sc_Backend cfg) sample_mem = (Ok store, sample_mem)"
    using c(2-4) p by (auto simp: sample_process_def Open_def Let_def)
  have l: "pe_Listen sample_process a w = (None, w)"
    "pe_Serve sample_process q w = ((None, snd (Subscribe [] (pr_Hub q))), w)" for a q w
    by (simp_all add: sample_process_def)
  from h show ?thesis by (auto simp: run_gateway_def c(1) o l pr)
qed

lemma gateway_guarded_witness:
  "\<exists>p hub w3 err. Hub_Close hub \<noteq> None \<and> pe_Serve sample_process p w3 = ((err, hub), w3) \<and>
     demanded UnaryCall (pr_Options p) = Some ''t1'' \<and> demanded StreamCall (pr_Options p) = Some ''t1''"
proof -
  obtain hub w' where r: "run_gateway sample_process sample_mem = (Ok (None, Some hub), w')" using sample_process_run by blast
  have policy: "check_listener (pe_Env sample_process) token anonymous = None \<Longrightarrow> token \<noteq> [] \<or> anonymous" for token anonymous
    by (auto simp: sample_process_def split: if_splits)
  have t: "trim_space (getenv (pe_Env sample_process) ''SOS_AUTH_TOKEN'') = ''t1''"
    "\<not> envBool (pe_Env sample_process) ''SOS_ALLOW_ANONYMOUS'' False"
    by (simp_all add: sample_process_def envBool_def sample_environment_def trim_space_def strip_seqs.simps space_seqs_def has_prefix_def)
  obtain p h w2 w3 where s: "pe_Serve sample_process p w2 = ((None, h), w3)" "Hub_Close h = Some hub"
    "\<And>kind. demanded kind (pr_Options p) = Some ''t1''"
    using gateway_guarded [OF r policy] unfolding t using t(2) by (metis option.exhaust)
  from s(1) have "w3 = w2" by (simp add: sample_process_def)
  with s show ?thesis by blast
qed

end
