(* ===== verification/Spec2Isabelle.thy ===== *)
theory Spec2Isabelle
  imports Delivery Minio Gcs Azure Credentials Readiness Deployment Process
begin

text \<open>
  A model of codefly's object-storage service, with the theorems that make it correct.

  The program. The repository builds two programs. The gateway (cmd/service-object-storage) is a
  gRPC server over one object store: internal/server implements the RPCs over the Backend
  contract of internal/backend; internal/backend/mem, s3, gcs, azure and minio implement the
  contract; internal/serr is the error model they share; internal/events fans out write events to
  Watch; internal/health probes the store; internal/egress guards the connections of a call that
  names its own store (a binding); internal/config resolves the process environment. The agent
  (the main package at the root) runs that gateway for codefly: main.go resolves the service's
  configuration and hands connections to consumers, runtime.go starts and tears down a local
  MinIO and the gateway's container, minio_custody.go guards the data MinIO keeps on the host,
  minio_user_probe.go measures the container user, minio_network.go keeps the Docker network the
  two containers share, and builder.go renders a deployment.

  How the model is laid out. State is passed explicitly. The gateway's operations return
  \<open>(goerr, 'a) result \<times> 'w\<close> over the state \<open>'w\<close> of a store, \<open>Panic\<close> being a
  run-time panic; the agent's are actions \<open>'s \<Rightarrow> (goerr + 'a) \<times> 's\<close> composed by
  \<open>andthen\<close>, \<open>handle\<close> and \<open>deferring\<close> (Go's early return and defer). Errors are trees
  (\<open>goerr\<close>), so \<open>errors.Is\<close>, \<open>errors.As\<close> and wrapping are functions on them. An int64
  is an \<open>int\<close> with \<open>wrap64\<close> written out where it can overflow, an address a 32 or 128 bit
  word, a string its list of bytes.

  Gateway theories.
    Prelude            strings, wrap-around, results; shared lemmas on trimming and splitting
    NetIP              net/netip: addresses, prefixes and their parsers
    Serr               internal/serr/serr.go
    Reader             io.Reader scripts and io.ReadAll
    Backend            internal/backend/backend.go; the locales of the store contract
    Base64, Durations  encodings of the standard library: base64, time.Duration, strconv
    Mem                internal/backend/mem/mem.go, interpreting \<open>strict_store\<close>
    Prefix             internal/backend/prefix.go and registry.go; a prefixed store is a strict store
    S3, Minio, Gcs, Azure   internal/backend/s3, minio, gcs and azure, each over its SDK's client
    Events             internal/events/events.go
    Health             internal/health/health.go
    Egress             internal/egress/egress.go
    Status             internal/server/errors.go and convert.go
    Streams, Binding   the body relay of internal/server/server.go, and binding.go
    Server, Writes     the read and the write RPCs of internal/server/server.go
    Reads, Delivery    properties of the RPCs: reads and bindings; puts, deletes and Watch
    Configuration      internal/config/config.go
    Process            cmd/service-object-storage/main.go

  Agent theories.
    Files, Trees       the host's file system: paths, symbolic links, system calls that may fail
    Custody            minio_custody.go: the records of custody, their creation, check and commit
    Agent              main.go, and the Runtime's state (runtime.go)
    Network            minio_network.go
    Probe              minio_user_probe.go
    Preflight          minio_custody.go: prepareMinIOData
    Runtime            runtime.go: Load, Init, Destroy and what they call
    Lifecycle          every sequence of Init and Destroy
    Credentials        runtime.go: the projected service-account key, from its copy to its removal
    Readiness          runtime.go: WaitForReady
    Builder            builder.go, the pod template's environment, internal/imageevidence, cmd/image-sbom
    Deployment         the agent and the gateway composed: what one writes and the other reads

  Interfaces. \<open>plain_store\<close>, \<open>object_store\<close> and \<open>strict_store\<close> (Backend) are the
  contract of a store: an abstract view from keys to objects, and what get, put and delete do to it. Mem
  interprets it, and Prefix again for a prefixed store; \<open>s3_service\<close>, \<open>gcs_service\<close> and
  \<open>azure_service\<close> state what the code relies on of each SDK's client over such a store, and the
  backend over the client meets the contract again; each is interpreted on a client built over the
  in-memory store. \<open>docker_networks\<close>, \<open>probe_docker\<close> (with \<open>probe_runner\<close> below it),
  \<open>preflight\<close> and \<open>machine\<close>, each extending the one before, state what the agent relies on of
  Docker, of the lock and of the host; a finite Docker engine (\<open>Daemon\<close>) interprets them.
  \<open>ticker\<close> is the promise of \<open>time.Ticker\<close>, interpreted by a clock.

  What the lemmas show.
    Errors and statuses   classification through wrapping, and the status each error becomes.
    Stores    what a Get returns after a Put, and after a delete; conditional writes; listing pages
              that together are the whole listing; batches that remove what they report; a prefix
              no operation leaves; ranges read of the version whose ETag they report.
    Egress    the address ranges IsPublic refuses, as intervals; where a guarded dial can reach; no
              credential in what a bound call reports.
    RPCs      framing and order of GetMany, bounds of a bound call, delivery of Watch under every
              interleaving of publishers and consumers.
    Custody   nothing retained is destroyed or adopted, the commit is atomic under any failing
              system call, the preflight holds its lock or has released it.
    Agent     no container is lost through any sequence of Init and Destroy with any call failing;
              a failed start rolls back (and where it does not); the gateway mounts the operator's
              key, and no copy is readable once it is discarded; the wait for the gateway returns; a
              network that a successor uses is left to it; secrets are marked as secrets.
    Composed  the environment the agent renders is one the gateway accepts and resolves to the same
              store, dependencies and token, for a local run and for a deployment; the gateway
              serves unguarded only by the operator's choice.

  Bounds and fuel. A path is walked through at most 40 symbolic links, as Linux does
  (\<open>walk\<close>). Client-side page loops take fuel in the properties about complete listings, where
  the number of keys is enough. The agent tries a bucket 30 times and polls its gateway at most 56
  times, which is proved. \<open>poll\<close> is a partial function: that it returns is \<open>wait_returns\<close>.
  DeleteObjects batches hold 1000 keys.

  Parameters, for code that is not in the repository or not read by it: the SDK clients of the
  stores, JSON decoding, SHA-256, the DNS resolver and urlguard's URL normalizer, callertoken's
  listener policy and generator, codefly's core (\<open>Core\<close>: configuration values, endpoints, network
  mappings, container names), the Docker client, the file lock, the float64 fraction of a parsed
  duration, YAML's reading of a quoted scalar. What is relied on of them are the locales above or
  named hypotheses, each with an instance.

  Not modelled. The generated protocol code (the messages are records of the fields used). Logging
  and tracing. The signal handler and gRPC's own transport (the parameter \<open>pe_Serve\<close>).
  Goroutines are the interleavings of Events, Delivery and Health; a data race inside one operation
  is not visible in the model. Start, Stop, Test and Communicate of the agent and its static
  advertisement only wrap core's responses. File modes and owners, apart from the owner the
  user probe measures. internal/probetest holds helpers of the tests.
\<close>

end
